(* ===== verification/Prelude.thy ===== *)
theory Prelude
  imports Main "HOL-Library.Word" "HOL-Library.Char_ord" "HOL-Library.List_Lexorder"
    "HOL-Library.Product_Lexorder"
begin

text \<open>
  The prelude of the development: results of fallible code, and the generic lemmas on
  options and lists that the component theories share.

  A Rust function that returns \<open>Result<T, E>\<close> may end in three ways: with a value, with an
  error that the caller sees, or with a panic (an arithmetic overflow under
  \<open>overflow-checks = true\<close>, an \<open>expect\<close> or \<open>unwrap\<close> of a missing value). On chain an error and
  a panic both revert the transaction, but they are different exits of the code, so the model
  keeps them apart.
\<close>

named_theorems result_simps \<open>inversion of the result combinators at a successful outcome\<close>
named_theorems uint_simps \<open>checked integer and decimal operations at a successful outcome\<close>

subsection \<open>Results\<close>

datatype ('e, 'a) result = Ok 'a | Err 'e | Panic

text \<open>\<open>and_then\<close> is the \<open>?\<close> operator: go on with the value, or leave with the error or panic.\<close>

primrec and_then :: "('e, 'a) result \<Rightarrow> ('a \<Rightarrow> ('e, 'b) result) \<Rightarrow> ('e, 'b) result" where
  "and_then (Ok x) f = f x"
| "and_then (Err e) f = Err e"
| "and_then Panic f = Panic"

text \<open>\<open>map_err\<close> is the \<open>From\<close> conversion that \<open>?\<close> applies to the error.\<close>

primrec map_err :: "('d \<Rightarrow> 'e) \<Rightarrow> ('d, 'a) result \<Rightarrow> ('e, 'a) result" where
  "map_err h (Ok x) = Ok x"
| "map_err h (Err e) = Err (h e)"
| "map_err h Panic = Panic"

primrec map_ok :: "('a \<Rightarrow> 'b) \<Rightarrow> ('e, 'a) result \<Rightarrow> ('e, 'b) result" where
  "map_ok h (Ok x) = Ok (h x)"
| "map_ok h (Err e) = Err e"
| "map_ok h Panic = Panic"

definition ok_or :: "'a option \<Rightarrow> 'e \<Rightarrow> ('e, 'a) result" where
  "ok_or x e = (case x of None \<Rightarrow> Err e | Some v \<Rightarrow> Ok v)"

definition ok_or_panic :: "'a option \<Rightarrow> ('e, 'a) result" where
  "ok_or_panic x = (case x of None \<Rightarrow> Panic | Some v \<Rightarrow> Ok v)"

definition unwrap_or :: "'a option \<Rightarrow> 'a \<Rightarrow> 'a" where
  "unwrap_or x d = (case x of None \<Rightarrow> d | Some v \<Rightarrow> v)"

definition is_ok :: "('e, 'a) result \<Rightarrow> bool" where
  "is_ok r = (case r of Ok _ \<Rightarrow> True | _ \<Rightarrow> False)"

text \<open>A \<open>for\<close> loop over a list whose body may leave early.\<close>

fun try_fold :: "('s \<Rightarrow> 'a \<Rightarrow> ('e, 's) result) \<Rightarrow> 's \<Rightarrow> 'a list \<Rightarrow> ('e, 's) result" where
  "try_fold f s [] = Ok s"
| "try_fold f s (x # xs) = and_then (f s x) (\<lambda>t. try_fold f t xs)"

text \<open>\<open>iter().map(f).collect::<Result<Vec<_>, _>>()\<close>.\<close>

fun try_map :: "('a \<Rightarrow> ('e, 'b) result) \<Rightarrow> 'a list \<Rightarrow> ('e, 'b list) result" where
  "try_map f [] = Ok []"
| "try_map f (x # xs) = and_then (f x) (\<lambda>y. and_then (try_map f xs) (\<lambda>ys. Ok (y # ys)))"

text \<open>\<open>Option<T>\<close> with a fallible map, transposed: \<open>opt.map(f).transpose()\<close>.\<close>

primrec try_opt :: "('a \<Rightarrow> ('e, 'b) result) \<Rightarrow> 'a option \<Rightarrow> ('e, 'b option) result" where
  "try_opt f None = Ok None"
| "try_opt f (Some x) = map_ok Some (f x)"

text \<open>\<open>if let Some(x) = msg.field { config.field = check(x)?; }\<close>.\<close>

definition update_if ::
  "'a option \<Rightarrow> ('a \<Rightarrow> ('e, 'v) result) \<Rightarrow> ('v \<Rightarrow> 'c \<Rightarrow> 'c) \<Rightarrow> 'c \<Rightarrow> ('e, 'c) result" where
  "update_if x check upd c =
     (case x of None \<Rightarrow> Ok c | Some a \<Rightarrow> and_then (check a) (\<lambda>v. Ok (upd v c)))"

lemma and_then_Ok_iff [simp, result_simps]:
  "and_then m f = Ok y \<longleftrightarrow> (\<exists>x. m = Ok x \<and> f x = Ok y)"
  by (cases m) auto

lemma and_then_Err_iff:
  "and_then m f = Err e \<longleftrightarrow> m = Err e \<or> (\<exists>x. m = Ok x \<and> f x = Err e)"
  by (cases m) auto

lemma and_then_assoc: "and_then (and_then m f) g = and_then m (\<lambda>x. and_then (f x) g)"
  by (cases m) auto

lemma and_then_cong [fundef_cong]:
  "m = m' \<Longrightarrow> (\<And>x. m' = Ok x \<Longrightarrow> f x = g x) \<Longrightarrow> and_then m f = and_then m' g"
  by (cases m') auto

lemma map_err_Ok_iff [simp, result_simps]: "map_err h m = Ok y \<longleftrightarrow> m = Ok y"
  by (cases m) auto

lemma map_ok_Ok_iff [simp, result_simps]: "map_ok h m = Ok y \<longleftrightarrow> (\<exists>x. m = Ok x \<and> y = h x)"
  by (cases m) auto

lemma ok_or_Ok_iff [simp, result_simps]: "ok_or x e = Ok y \<longleftrightarrow> x = Some y"
  by (simp add: ok_or_def split: option.split)

lemma ok_or_simps [simp]: "ok_or None e = Err e" "ok_or (Some v) e = Ok v"
  by (simp_all add: ok_or_def)

lemma ok_or_panic_Ok_iff [simp, result_simps]: "ok_or_panic x = Ok y \<longleftrightarrow> x = Some y"
  by (simp add: ok_or_panic_def split: option.split)

lemma ok_or_panic_simps [simp]: "ok_or_panic None = Panic" "ok_or_panic (Some v) = Ok v"
  by (simp_all add: ok_or_panic_def)

lemma unwrap_or_simps [simp]: "unwrap_or None d = d" "unwrap_or (Some v) d = v"
  by (simp_all add: unwrap_or_def)

lemma if_Err_Ok_iff [simp, result_simps]:
  "(if b then Err e else m) = Ok y \<longleftrightarrow> \<not> b \<and> m = Ok y"
  by simp

lemma if_else_Err_Ok_iff [simp, result_simps]:
  "(if b then m else Err e) = Ok y \<longleftrightarrow> b \<and> m = Ok y"
  by simp

lemma is_ok_iff: "is_ok r \<longleftrightarrow> (\<exists>x. r = Ok x)"
  by (cases r) (auto simp: is_ok_def)

lemma is_ok_simps [simp]: "is_ok (Ok x)" "\<not> is_ok (Err e)" "\<not> is_ok Panic"
  by (simp_all add: is_ok_def)

lemma try_opt_Ok_iff [simp, result_simps]:
  "try_opt f x = Ok y \<longleftrightarrow> (case x of None \<Rightarrow> y = None | Some a \<Rightarrow> \<exists>b. f a = Ok b \<and> y = Some b)"
  by (cases x) auto

lemma update_if_Ok_iff [result_simps]:
  "update_if x check upd c = Ok c' \<longleftrightarrow>
     (case x of None \<Rightarrow> c' = c | Some a \<Rightarrow> \<exists>v. check a = Ok v \<and> c' = upd v c)"
  by (auto simp: update_if_def split: option.splits)

text \<open>A field that no update touches is unchanged.\<close>

lemma update_if_frame:
  "update_if x check upd c = Ok c' \<Longrightarrow> (\<And>v c. f (upd v c) = f c) \<Longrightarrow> f c' = f c"
  by (auto simp: update_if_def split: option.splits)

text \<open>An invariant of the loop body is an invariant of the loop.\<close>

lemma try_fold_invariant:
  assumes "try_fold f s xs = Ok t" and "P s"
    and step: "\<And>r x u. x \<in> set xs \<Longrightarrow> P r \<Longrightarrow> f r x = Ok u \<Longrightarrow> P u"
  shows "P t"
  using assms
proof (induction xs arbitrary: s)
  case Nil
  then show ?case by simp
next
  case (Cons x xs)
  from Cons.prems(1) obtain u where u: "f s x = Ok u" and rest: "try_fold f u xs = Ok t"
    by auto
  have "P u" by (rule Cons.prems(3) [OF _ Cons.prems(2) u]) simp
  with rest show ?case by (rule Cons.IH) (meson Cons.prems(3) list.set_intros(2))
qed

lemma try_fold_append:
  "try_fold f s (xs @ ys) = and_then (try_fold f s xs) (\<lambda>t. try_fold f t ys)"
  by (induction xs arbitrary: s) (auto simp: and_then_assoc)

lemma try_map_length: "try_map f xs = Ok ys \<Longrightarrow> length ys = length xs"
  by (induction xs arbitrary: ys) auto

subsection \<open>Lists\<close>

lemma sum_list_map_take_filter_le:
  "sum_list (map f (take n (filter P xs))) \<le> (sum_list (map f xs) :: nat)"
proof -
  have "sum_list (map f (take n (filter P xs))) \<le> sum_list (map f (filter P xs))"
    by (metis append_take_drop_id le_add1 map_append sum_list_append)
  also have "\<dots> \<le> sum_list (map f xs)"
    by (induction xs) auto
  finally show ?thesis .
qed

end
