(* ===== verification/Uint_Arith.thy ===== *)
theory Uint_Arith
  imports Prelude
begin

text \<open>
  The integer and decimal arithmetic of the contracts.

  \<open>u16\<close>, \<open>u32\<close>, \<open>u64\<close>, \<open>Uint128\<close> and \<open>Uint256\<close> are machine words of their width. The
  workspace builds with \<open>overflow-checks = true\<close> (\<open>Cargo.toml\<close>), so \<open>+\<close>, \<open>-\<close> and \<open>*\<close> panic
  when the exact result does not fit; the \<open>checked_\<close> methods return an overflow error instead.
  \<open>Decimal\<close> and \<open>Decimal256\<close> are fixed-point numbers with 18 fractional digits, stored as the
  number of atomics; every operation on them rounds down. These are the number types of the
  contracts' standard library, \<open>cosmwasm_std\<close>; the helpers that the repository adds to them
  (\<open>DecimalCheckedOps\<close>, \<open>Decimal256CheckedOps\<close>, \<open>IntegerToDecimal\<close>) are in this theory too.
\<close>

type_synonym u8 = "8 word"
type_synonym u16 = "16 word"
type_synonym u32 = "32 word"
type_synonym u64 = "64 word"
type_synonym u128 = "128 word"
type_synonym u256 = "256 word"

text \<open>The errors of \<open>cosmwasm_std::StdError\<close> that the contracts meet.\<close>

datatype std_error =
    GenericErr string
  | NotFound string
  | Overflow
  | DivideByZero
  | ConversionOverflow
  | ParseErr

subsection \<open>Narrowing an exact value to a word\<close>

definition narrow :: "nat \<Rightarrow> 'a::len word option" where
  "narrow n = (if n < 2 ^ LENGTH('a) then Some (of_nat n) else None)"

lemma narrow_Some_iff [simp]: "narrow n = Some (w :: 'a::len word) \<longleftrightarrow> unat w = n"
proof
  assume "narrow n = Some w"
  then show "unat w = n"
    by (auto simp: narrow_def unat_of_nat split: if_splits)
next
  assume "unat w = n"
  then show "narrow n = Some w"
    using unsigned_less [of w] by (auto simp: narrow_def)
qed

lemma narrow_None_iff: "(narrow n :: 'a::len word option) = None \<longleftrightarrow> 2 ^ LENGTH('a) \<le> n"
  by (simp add: narrow_def)

lemma narrow_fits: "n < 2 ^ LENGTH('a) \<Longrightarrow> (narrow n :: 'a::len word option) = Some (of_nat n)"
  by (simp add: narrow_def)

lemma unat_of_nat_small: "n < 2 ^ LENGTH('a) \<Longrightarrow> unat (of_nat n :: 'a::len word) = n"
  by (simp add: unat_of_nat)

lemma word_of_nat_ex: "n < 2 ^ LENGTH('a) \<Longrightarrow> \<exists>w :: 'a::len word. unat w = n"
  using unat_of_nat_small by blast

lemma word_sum_chain:
  "(\<exists>x :: 'a::len word. unat x = n \<and> unat (u :: 'a word) = unat x + m) \<longleftrightarrow> unat u = n + m"
proof
  assume "unat u = n + m"
  then have "n < 2 ^ LENGTH('a)" using unsigned_less [of u] by (metis le_add1 le_less_trans)
  then obtain x :: "'a word" where "unat x = n" using word_of_nat_ex by blast
  then show "\<exists>x :: 'a word. unat x = n \<and> unat u = unat x + m" using \<open>unat u = n + m\<close> by auto
qed auto

lemma unat_le_u128_max: "unat (w :: u128) < 2 ^ 128"
  using unsigned_less [of w] by simp

text \<open>\<open>Uint128::from(x)\<close> of a \<open>u64\<close> or \<open>Uint64\<close>.\<close>

definition widen :: "u64 \<Rightarrow> u128" where
  "widen x = of_nat (unat x)"

lemma unat_widen [simp, uint_simps]: "unat (widen x) = unat x"
proof -
  have "unat x < 2 ^ 64" using unsigned_less [of x] by simp
  then have "unat x < 2 ^ 128" by simp
  then show ?thesis unfolding widen_def by (intro unat_of_nat_small) simp
qed

lemma unat_numeral_u128: "n < 2 ^ 128 \<Longrightarrow> unat (of_nat n :: u128) = n"
  by (rule unat_of_nat_small) simp

subsection \<open>Operators: an overflow is a panic\<close>

definition add_panic :: "'a::len word \<Rightarrow> 'a word \<Rightarrow> ('e, 'a word) result" where
  "add_panic a b = ok_or_panic (narrow (unat a + unat b))"

definition sub_panic :: "'a::len word \<Rightarrow> 'a word \<Rightarrow> ('e, 'a word) result" where
  "sub_panic a b = (if unat b \<le> unat a then Ok (a - b) else Panic)"

definition mul_panic :: "'a::len word \<Rightarrow> 'a word \<Rightarrow> ('e, 'a word) result" where
  "mul_panic a b = ok_or_panic (narrow (unat a * unat b))"

subsection \<open>Checked methods: an overflow is an error\<close>

definition checked_add :: "'a::len word \<Rightarrow> 'a word \<Rightarrow> (std_error, 'a word) result" where
  "checked_add a b = ok_or (narrow (unat a + unat b)) Overflow"

definition checked_sub :: "'a::len word \<Rightarrow> 'a word \<Rightarrow> (std_error, 'a word) result" where
  "checked_sub a b = (if unat b \<le> unat a then Ok (a - b) else Err Overflow)"

definition checked_mul :: "'a::len word \<Rightarrow> 'a word \<Rightarrow> (std_error, 'a word) result" where
  "checked_mul a b = ok_or (narrow (unat a * unat b)) Overflow"

lemma add_panic_Ok_iff [simp, uint_simps]:
  "add_panic a b = Ok c \<longleftrightarrow> unat c = unat a + unat b"
  by (simp add: add_panic_def)

lemma mul_panic_Ok_iff [simp, uint_simps]:
  "mul_panic a b = Ok c \<longleftrightarrow> unat c = unat a * unat b"
  by (simp add: mul_panic_def)

lemma unat_minus_iff:
  fixes a b c :: "'a::len word"
  shows "unat b \<le> unat a \<and> a - b = c \<longleftrightarrow> unat a = unat c + unat b"
proof
  assume h: "unat b \<le> unat a \<and> a - b = c"
  then have "unat c = unat a - unat b"
    by (metis unat_sub word_le_nat_alt)
  with h show "unat a = unat c + unat b" by simp
next
  assume h: "unat a = unat c + unat b"
  then have le: "b \<le> a" by (simp add: word_le_nat_alt)
  then have "unat (a - b) = unat c" using h by (simp add: unat_sub)
  with h show "unat b \<le> unat a \<and> a - b = c" by (simp add: word_unat_eq_iff)
qed

lemma sub_panic_Ok_iff [simp, uint_simps]:
  "sub_panic a b = Ok c \<longleftrightarrow> unat a = unat c + unat b"
  by (simp add: sub_panic_def unat_minus_iff [symmetric])

lemma checked_add_Ok_iff [simp, uint_simps]:
  "checked_add a b = Ok c \<longleftrightarrow> unat c = unat a + unat b"
  by (simp add: checked_add_def)

lemma checked_sub_Ok_iff [simp, uint_simps]:
  "checked_sub a b = Ok c \<longleftrightarrow> unat a = unat c + unat b"
  by (simp add: checked_sub_def unat_minus_iff [symmetric])

lemma checked_mul_Ok_iff [simp, uint_simps]:
  "checked_mul a b = Ok c \<longleftrightarrow> unat c = unat a * unat b"
  by (simp add: checked_mul_def)

lemma checked_sub_Err_iff: "checked_sub a b = Err e \<longleftrightarrow> unat a < unat b \<and> e = Overflow"
  by (auto simp: checked_sub_def)

lemma checked_no_panic [simp]:
  "checked_add a b \<noteq> Panic" "checked_sub a b \<noteq> Panic" "checked_mul a b \<noteq> Panic"
  by (simp_all add: checked_add_def checked_sub_def checked_mul_def ok_or_def split: option.split)

text \<open>\<open>Uint128::multiply_ratio\<close>: the exact product, divided and rounded down; it panics on a zero
  denominator and when the quotient does not fit.\<close>

definition multiply_ratio :: "'a::len word \<Rightarrow> nat \<Rightarrow> nat \<Rightarrow> ('e, 'a word) result" where
  "multiply_ratio a n d =
     (if d = 0 then Panic else ok_or_panic (narrow (unat a * n div d)))"

lemma multiply_ratio_Ok_iff [simp, uint_simps]:
  "multiply_ratio a n d = Ok c \<longleftrightarrow> d \<noteq> 0 \<and> unat c = unat a * n div d"
  by (simp add: multiply_ratio_def)

text \<open>A ratio of at most one never overflows.\<close>

lemma multiply_ratio_total:
  assumes "0 < d" and "n \<le> d"
  shows "multiply_ratio (a :: 'a::len word) n d = Ok (of_nat (unat a * n div d))"
proof -
  have "unat a * n div d \<le> unat a * d div d"
    by (intro div_le_mono mult_le_mono) (use assms in auto)
  also have "\<dots> = unat a" using assms by simp
  finally have "unat a * n div d < 2 ^ LENGTH('a)"
    using unsigned_less [of a] by (meson le_less_trans)
  then show ?thesis using assms by (simp add: multiply_ratio_def narrow_fits)
qed

subsection \<open>Decimals\<close>

abbreviation (input) DECIMAL_FRACTIONAL :: nat where
  "DECIMAL_FRACTIONAL \<equiv> 1000000000000000000"

datatype decimal = Decimal (atomics: u128)
datatype decimal256 = Decimal256 (atomics256: u256)

definition decimal_zero :: decimal where "decimal_zero = Decimal 0"

text \<open>\<open>Decimal::from_ratio(n, d)\<close> panics on a zero denominator and on overflow.\<close>

definition from_ratio :: "u128 \<Rightarrow> u128 \<Rightarrow> ('e, decimal) result" where
  "from_ratio n d = map_ok Decimal (multiply_ratio n DECIMAL_FRACTIONAL (unat d))"

text \<open>\<open>Uint128 * Decimal\<close> and its \<open>checked_mul_uint128\<close> twin in \<open>packages/astroport\<close>.\<close>

definition mul_decimal :: "u128 \<Rightarrow> decimal \<Rightarrow> ('e, u128) result" where
  "mul_decimal a q = multiply_ratio a (unat (atomics q)) DECIMAL_FRACTIONAL"

definition checked_mul_uint128 :: "decimal \<Rightarrow> u128 \<Rightarrow> (std_error, u128) result" where
  "checked_mul_uint128 q a =
     (if atomics q = 0 \<or> a = 0 then Ok 0
      else ok_or (narrow (unat a * unat (atomics q) div DECIMAL_FRACTIONAL)) Overflow)"

text \<open>\<open>Decimal / Decimal\<close>.\<close>

definition div_decimal :: "decimal \<Rightarrow> decimal \<Rightarrow> ('e, decimal) result" where
  "div_decimal p q = from_ratio (atomics p) (atomics q)"

definition dec_checked_add :: "decimal \<Rightarrow> decimal \<Rightarrow> (std_error, decimal) result" where
  "dec_checked_add p q = map_ok Decimal (checked_add (atomics p) (atomics q))"

definition dec_checked_mul :: "decimal \<Rightarrow> decimal \<Rightarrow> (std_error, decimal) result" where
  "dec_checked_mul p q =
     map_ok Decimal
       (ok_or (narrow (unat (atomics p) * unat (atomics q) div DECIMAL_FRACTIONAL)) Overflow)"

text \<open>\<open>Decimal::from_str(&amount.to_string())\<close> of a whole number: too large a number is an error.\<close>

definition decimal_from_str_of :: "u128 \<Rightarrow> (std_error, decimal) result" where
  "decimal_from_str_of a =
     map_ok Decimal (ok_or (narrow (unat a * DECIMAL_FRACTIONAL)) (GenericErr ''Value too big''))"

definition to_uint_floor :: "decimal \<Rightarrow> u128" where
  "to_uint_floor q = of_nat (unat (atomics q) div DECIMAL_FRACTIONAL)"

text \<open>\<open>IntegerToDecimal::to_decimal\<close> of \<open>cosmwasm_ext.rs\<close>.\<close>

definition to_decimal :: "u128 \<Rightarrow> ('e, decimal) result" where
  "to_decimal a = from_ratio a 1"

lemma from_ratio_Ok_iff [simp, uint_simps]:
  "from_ratio n d = Ok q \<longleftrightarrow>
     d \<noteq> 0 \<and> unat (atomics q) = unat n * DECIMAL_FRACTIONAL div unat d"
  by (cases q) (auto simp: from_ratio_def unat_eq_0)

lemma mul_decimal_Ok_iff [simp, uint_simps]:
  "mul_decimal a q = Ok c \<longleftrightarrow> unat c = unat a * unat (atomics q) div DECIMAL_FRACTIONAL"
  by (simp add: mul_decimal_def)

lemma checked_mul_uint128_Ok_iff [simp, uint_simps]:
  "checked_mul_uint128 q a = Ok c \<longleftrightarrow>
     unat c = unat a * unat (atomics q) div DECIMAL_FRACTIONAL"
  by (auto simp: checked_mul_uint128_def unat_eq_0)

lemma dec_checked_add_Ok_iff [simp, uint_simps]:
  "dec_checked_add p q = Ok r \<longleftrightarrow> unat (atomics r) = unat (atomics p) + unat (atomics q)"
  by (cases r) (auto simp: dec_checked_add_def)

lemma dec_checked_mul_Ok_iff [simp, uint_simps]:
  "dec_checked_mul p q = Ok r \<longleftrightarrow>
     unat (atomics r) = unat (atomics p) * unat (atomics q) div DECIMAL_FRACTIONAL"
  by (cases r) (auto simp: dec_checked_mul_def)

lemma decimal_from_str_of_Ok_iff [simp, uint_simps]:
  "decimal_from_str_of a = Ok q \<longleftrightarrow> unat (atomics q) = unat a * DECIMAL_FRACTIONAL"
  by (cases q) (auto simp: decimal_from_str_of_def)

lemma unat_to_uint_floor [simp, uint_simps]:
  "unat (to_uint_floor q) = unat (atomics q) div DECIMAL_FRACTIONAL"
proof -
  have "unat (atomics q) div DECIMAL_FRACTIONAL < 2 ^ 128"
    using unat_le_u128_max [of "atomics q"] by (meson div_le_dividend le_less_trans)
  then show ?thesis by (simp add: to_uint_floor_def unat_of_nat)
qed

lemma to_decimal_Ok_iff [simp, uint_simps]:
  "to_decimal a = Ok q \<longleftrightarrow> unat (atomics q) = unat a * DECIMAL_FRACTIONAL"
  by (simp add: to_decimal_def)

text \<open>A part of a whole, taken as a decimal and applied to an amount, is at most the exact
  share, so it is at most the amount when the part is at most the whole.\<close>

lemma decimal_share_floor_le:
  fixes n d x :: nat
  shows "x * (n * DECIMAL_FRACTIONAL div d) div DECIMAL_FRACTIONAL * d \<le> x * n"
proof -
  let ?F = "1000000000000000000 :: nat"
  let ?A = "n * ?F div d" and ?B = "x * (n * ?F div d) div ?F"
  have "(?B * d) * ?F = (?B * ?F) * d" by (simp only: ac_simps)
  also have "\<dots> \<le> (x * ?A) * d" by (rule mult_le_mono1) (rule div_times_less_eq_dividend)
  also have "\<dots> = x * (?A * d)" by (simp only: ac_simps)
  also have "\<dots> \<le> x * (n * ?F)" by (rule mult_le_mono2) (rule div_times_less_eq_dividend)
  also have "\<dots> = (x * n) * ?F" by (simp only: ac_simps)
  finally show ?thesis by (simp only: mult_le_cancel2)
qed

lemma decimal_share_le:
  fixes n d x :: nat
  assumes "0 < d" and "n \<le> d"
  shows "x * (n * DECIMAL_FRACTIONAL div d) div DECIMAL_FRACTIONAL \<le> x"
proof -
  have "x * (n * DECIMAL_FRACTIONAL div d) div DECIMAL_FRACTIONAL * d \<le> x * d"
    using decimal_share_floor_le [of x n d] assms(2) by (meson le_trans mult_le_mono2)
  then show ?thesis using assms(1) by simp
qed

lemma decimal_share_mono:
  fixes n m d x :: nat
  assumes "n \<le> m"
  shows "x * (n * DECIMAL_FRACTIONAL div d) div DECIMAL_FRACTIONAL
       \<le> x * (m * DECIMAL_FRACTIONAL div d) div DECIMAL_FRACTIONAL"
  using assms by (intro div_le_mono mult_le_mono) auto

text \<open>Such a share is always computed: neither the quotient nor the product overflows.\<close>

lemma decimal_share_total:
  fixes x t z :: u128
  assumes "unat x \<le> unat t" and "t \<noteq> 0"
  shows "\<exists>r. and_then (from_ratio x t) (\<lambda>q. mul_decimal z q) = Ok r \<and>
    unat r = unat z * (unat x * DECIMAL_FRACTIONAL div unat t) div DECIMAL_FRACTIONAL"
proof -
  have t: "0 < unat t" using assms(2) by (simp add: unat_gt_0)
  let ?q = "unat x * DECIMAL_FRACTIONAL div unat t"
  have "?q \<le> unat t * DECIMAL_FRACTIONAL div unat t"
    using assms(1) by (intro div_le_mono mult_le_mono1)
  then have q: "?q \<le> DECIMAL_FRACTIONAL" using t by simp
  then have "?q < 2 ^ 128" by (rule le_less_trans) simp
  then obtain w :: u128 where w: "unat w = ?q"
    using unat_of_nat_small [of ?q, where 'a = 128] by auto
  have "unat z * ?q div DECIMAL_FRACTIONAL \<le> unat z"
    by (rule decimal_share_le [OF t assms(1)])
  then have "unat z * ?q div DECIMAL_FRACTIONAL < 2 ^ 128"
    using unat_le_u128_max [of z] by (rule le_less_trans)
  then obtain r :: u128 where r: "unat r = unat z * ?q div DECIMAL_FRACTIONAL"
    using unat_of_nat_small [of "unat z * ?q div DECIMAL_FRACTIONAL", where 'a = 128] by auto
  have 1: "from_ratio x t = Ok (Decimal w)" using w assms(2) by simp
  have 2: "mul_decimal z (Decimal w) = Ok r" using w r by simp
  have "and_then (from_ratio x t) (\<lambda>q. mul_decimal z q) = Ok r"
    by (simp only: 1 2 and_then.simps)
  then show ?thesis using r by blast
qed

subsection \<open>256-bit decimals\<close>

definition decimal256_one :: decimal256 where
  "decimal256_one = Decimal256 (of_nat DECIMAL_FRACTIONAL)"

definition dec256_add_panic :: "decimal256 \<Rightarrow> decimal256 \<Rightarrow> ('e, decimal256) result" where
  "dec256_add_panic p q = map_ok Decimal256 (add_panic (atomics256 p) (atomics256 q))"

definition from_ratio256 :: "u256 \<Rightarrow> u256 \<Rightarrow> ('e, decimal256) result" where
  "from_ratio256 n d = map_ok Decimal256 (multiply_ratio n DECIMAL_FRACTIONAL (unat d))"

text \<open>\<open>Decimal256CheckedOps::checked_mul_uint256\<close> of \<open>astroport_periphery/src/utils.rs\<close>: the
  product is taken in 512 bits and must fit in a \<open>Uint128\<close>.\<close>

definition checked_mul_uint256 :: "decimal256 \<Rightarrow> u256 \<Rightarrow> (std_error, u128) result" where
  "checked_mul_uint256 q a =
     (if atomics256 q = 0 \<or> a = 0 then Ok 0
      else let multiply_ratio = unat a * unat (atomics256 q) div DECIMAL_FRACTIONAL
           in if 2 ^ 128 - 1 < multiply_ratio then Err Overflow else Ok (of_nat multiply_ratio))"

definition u256_of_u128 :: "u128 \<Rightarrow> u256" where
  "u256_of_u128 a = of_nat (unat a)"

lemma unat_u256_of_u128 [simp, uint_simps]: "unat (u256_of_u128 a) = unat a"
proof -
  have "unat a < 2 ^ 256"
    using unat_le_u128_max [of a] by (rule less_trans) simp
  then show ?thesis unfolding u256_of_u128_def by (intro unat_of_nat_small) simp
qed

lemma unat_decimal256_one [simp]: "unat (atomics256 decimal256_one) = DECIMAL_FRACTIONAL"
  by (simp add: decimal256_one_def)

lemma dec256_add_panic_Ok_iff [simp, uint_simps]:
  "dec256_add_panic p q = Ok r \<longleftrightarrow>
     unat (atomics256 r) = unat (atomics256 p) + unat (atomics256 q)"
  by (cases r) (auto simp: dec256_add_panic_def)

lemma from_ratio256_Ok_iff [simp, uint_simps]:
  "from_ratio256 n d = Ok q \<longleftrightarrow>
     d \<noteq> 0 \<and> unat (atomics256 q) = unat n * DECIMAL_FRACTIONAL div unat d"
  by (cases q) (auto simp: from_ratio256_def unat_eq_0)

lemma checked_mul_uint256_Ok_iff [simp, uint_simps]:
  "checked_mul_uint256 q a = Ok c \<longleftrightarrow>
     unat c = unat a * unat (atomics256 q) div DECIMAL_FRACTIONAL"
proof -
  let ?m = "unat a * unat (atomics256 q) div DECIMAL_FRACTIONAL"
  have eq: "(of_nat ?m = c) = (unat c = ?m)" if "?m \<le> 2 ^ 128 - 1"
  proof -
    have "unat (of_nat ?m :: u128) = ?m" using that by (intro unat_of_nat_small) simp
    then show ?thesis by (metis word_unat_eq_iff)
  qed
  show ?thesis
  proof (cases "atomics256 q = 0 \<or> a = 0")
    case True
    then show ?thesis by (auto simp: checked_mul_uint256_def unat_eq_0)
  next
    case False
    then show ?thesis
      using eq unat_le_u128_max [of c] by (auto simp: checked_mul_uint256_def Let_def not_less)
  qed
qed

text \<open>What evaluates the arithmetic of a concrete call.\<close>

lemmas eval_arith = narrow_def add_panic_def sub_panic_def mul_panic_def checked_add_def
  checked_sub_def checked_mul_def multiply_ratio_def from_ratio_def mul_decimal_def div_decimal_def
  decimal_from_str_of_def to_uint_floor_def widen_def checked_mul_uint128_def dec_checked_add_def
  dec_checked_mul_def to_decimal_def dec256_add_panic_def from_ratio256_def checked_mul_uint256_def
  u256_of_u128_def Let_def

end
