(* ===== verification/Storage.thy ===== *)
theory Storage
  imports Prelude
begin

text \<open>
  Contract storage. A \<open>cw_storage_plus::Map<K, V>\<close> is a list of key and value pairs in
  ascending key order, as \<open>range(.., Order::Ascending)\<close> walks it; an \<open>Item<T>\<close> is an optional
  value of the contract's state. The locale \<open>kv_store\<close> is what the contracts rely on:
  \<open>save\<close> replaces one key, \<open>remove\<close> forgets one key, and both keep the keys distinct and in
  order; the sum of a measure over the stored values moves by exactly the change at that key.
  The list operations are its interpretation.
\<close>

type_synonym ('k, 'v) store = "('k \<times> 'v) list"

abbreviation may_load :: "('k, 'v) store \<Rightarrow> 'k \<Rightarrow> 'v option" where
  "may_load s k \<equiv> map_of s k"

definition has :: "('k, 'v) store \<Rightarrow> 'k \<Rightarrow> bool" where
  "has s k = (may_load s k \<noteq> None)"

fun save :: "'k::linorder \<Rightarrow> 'v \<Rightarrow> ('k, 'v) store \<Rightarrow> ('k, 'v) store" where
  "save k v [] = [(k, v)]"
| "save k v ((l, w) # s) =
     (if k < l then (k, v) # (l, w) # s
      else if k = l then (k, v) # s
      else (l, w) # save k v s)"

fun remove :: "'k \<Rightarrow> ('k, 'v) store \<Rightarrow> ('k, 'v) store" where
  "remove k [] = []"
| "remove k ((l, w) # s) = (if k = l then s else (l, w) # remove k s)"

definition store_keys :: "('k, 'v) store \<Rightarrow> 'k list" where
  "store_keys s = map fst s"

definition store_ok :: "('k::linorder, 'v) store \<Rightarrow> bool" where
  "store_ok s = sorted_wrt (<) (map fst s)"

definition store_sum :: "('k \<Rightarrow> 'v \<Rightarrow> nat) \<Rightarrow> ('k, 'v) store \<Rightarrow> nat" where
  "store_sum f s = sum_list (map (\<lambda>(k, v). f k v) s)"

lemma store_sum_simps [simp]:
  "store_sum f [] = 0"
  "store_sum f ((k, v) # s) = f k v + store_sum f s"
  by (simp_all add: store_sum_def)

lemma store_ok_Nil [simp]: "store_ok []"
  by (simp add: store_ok_def)

lemma store_ok_Cons [simp]:
  "store_ok ((k, v) # s) \<longleftrightarrow> (\<forall>l \<in> fst ` set s. k < l) \<and> store_ok s"
  by (auto simp: store_ok_def)

lemma store_ok_distinct: "store_ok s \<Longrightarrow> distinct (map fst s)"
  by (induction s) fastforce+

lemma map_of_None_below:
  assumes "\<forall>l \<in> fst ` set s. (k::'k::linorder) < l"
  shows "map_of s k = None"
proof -
  have "k \<notin> fst ` set s" using assms by auto
  then show ?thesis by (simp add: map_of_eq_None_iff)
qed

lemma fst_set_save: "fst ` set (save k v s) = insert k (fst ` set s)"
  by (induction k v s rule: save.induct) auto

lemma fst_set_remove: "fst ` set (remove k s) \<subseteq> fst ` set s"
  by (induction k s rule: remove.induct) auto

lemma store_ok_save: "store_ok s \<Longrightarrow> store_ok (save k v s)"
  by (induction k v s rule: save.induct) (auto simp: fst_set_save not_less_iff_gr_or_eq)

lemma store_ok_remove: "store_ok s \<Longrightarrow> store_ok (remove k s)"
proof (induction k s rule: remove.induct)
  case (2 k l w s)
  have "\<forall>m \<in> fst ` set (remove k s). l < m" if "k \<noteq> l"
    using 2 fst_set_remove [of k s] by (auto dest!: subsetD)
  with 2 show ?case by simp
qed simp

lemma map_of_save: "map_of (save k v s) = (map_of s)(k \<mapsto> v)"
  by (induction k v s rule: save.induct) (auto simp: fun_eq_iff)

lemma map_of_remove: "store_ok s \<Longrightarrow> map_of (remove k s) = (map_of s)(k := None)"
  by (induction k s rule: remove.induct) (auto simp: fun_eq_iff map_of_None_below)

lemma store_sum_save:
  "store_ok s \<Longrightarrow>
   store_sum f (save k v s) + (case map_of s k of None \<Rightarrow> 0 | Some w \<Rightarrow> f k w) = store_sum f s + f k v"
proof (induction k v s rule: save.induct)
  case (2 k v l w s)
  have "map_of s k = None" if "k < l"
    using 2(2) that by (intro map_of_None_below) (auto dest: less_trans)
  moreover have "map_of s k = None" if "k = l"
    using 2(2) that by (intro map_of_None_below) auto
  ultimately show ?case using 2 by (auto split: option.split)
qed simp

lemma store_sum_remove:
  "store_ok s \<Longrightarrow>
   store_sum f (remove k s) + (case map_of s k of None \<Rightarrow> 0 | Some w \<Rightarrow> f k w) = store_sum f s"
  by (induction k s rule: remove.induct) auto

lemma store_sum_ge: "map_of s k = Some v \<Longrightarrow> f k v \<le> store_sum f s"
  by (induction s) (auto split: if_splits)

lemma store_sum_cong:
  "(\<And>k v. (k, v) \<in> set s \<Longrightarrow> f k v = g k v) \<Longrightarrow> store_sum f s = store_sum g s"
  by (induction s) auto

lemma store_sum_mono:
  "(\<And>k v. (k, v) \<in> set s \<Longrightarrow> f k v \<le> g k v) \<Longrightarrow> store_sum f s \<le> store_sum g s"
  by (induction s) (fastforce intro: add_mono)+

lemma store_ok_map_of: "store_ok s \<Longrightarrow> (k, v) \<in> set s \<Longrightarrow> map_of s k = Some v"
  by (simp add: store_ok_distinct)

subsection \<open>The interface\<close>

locale kv_store =
  fixes empty_store :: "'s"
    and load_key :: "'s \<Rightarrow> 'k \<Rightarrow> 'v option"
    and save_key :: "'k \<Rightarrow> 'v \<Rightarrow> 's \<Rightarrow> 's"
    and remove_key :: "'k \<Rightarrow> 's \<Rightarrow> 's"
    and total :: "('k \<Rightarrow> 'v \<Rightarrow> nat) \<Rightarrow> 's \<Rightarrow> nat"
    and valid :: "'s \<Rightarrow> bool"
  assumes valid_empty: "valid empty_store"
    and valid_save: "valid s \<Longrightarrow> valid (save_key k v s)"
    and valid_remove: "valid s \<Longrightarrow> valid (remove_key k s)"
    and load_empty: "load_key empty_store = Map.empty"
    and load_save: "load_key (save_key k v s) = (load_key s)(k \<mapsto> v)"
    and load_remove: "valid s \<Longrightarrow> load_key (remove_key k s) = (load_key s)(k := None)"
    and total_empty: "total f empty_store = 0"
    and total_save: "valid s \<Longrightarrow>
      total f (save_key k v s) + (case load_key s k of None \<Rightarrow> 0 | Some w \<Rightarrow> f k w)
        = total f s + f k v"
    and total_remove: "valid s \<Longrightarrow>
      total f (remove_key k s) + (case load_key s k of None \<Rightarrow> 0 | Some w \<Rightarrow> f k w) = total f s"
    and total_ge: "load_key s k = Some v \<Longrightarrow> f k v \<le> total f s"
begin

text \<open>What a handler that loads, changes and saves one entry does to a total.\<close>

lemma total_update:
  assumes "valid s" and "load_key s k = Some w"
  shows "total f (save_key k v s) = total f s - f k w + f k v"
  using total_save [OF assms(1), of f k v] total_ge [OF assms(2), of f] assms(2) by simp

lemma total_insert:
  assumes "valid s" and "load_key s k = None"
  shows "total f (save_key k v s) = total f s + f k v"
  using total_save [OF assms(1), of f k v] assms(2) by simp

lemma total_delete:
  assumes "valid s" and "load_key s k = Some w"
  shows "total f (remove_key k s) + f k w = total f s"
  using total_remove [OF assms(1), of f k] assms(2) by simp

text \<open>An entry that is loaded with a default (\<open>may_load()?.unwrap_or_default()\<close>) and saved.\<close>

lemma total_upsert:
  assumes "valid s" and "f k d = 0"
  shows "total f (save_key k v s) + f k (unwrap_or (load_key s k) d) = total f s + f k v"
  using total_save [OF assms(1), of f k v] assms(2) by (cases "load_key s k") simp_all

text \<open>An unchanged measure leaves the total alone: marking an entry moves no funds.\<close>

lemma total_same:
  assumes "valid s" and "load_key s k = Some w" and "f k v = f k w"
  shows "total f (save_key k v s) = total f s"
  using total_save [OF assms(1), of f k v] assms(2,3) by simp

text \<open>Saving twice is saving once, as seen through \<open>load\<close>.\<close>

lemma load_save_save: "load_key (save_key k v (save_key k w s)) = load_key (save_key k v s)"
  by (simp add: load_save)

end

interpretation cw: kv_store "[]" map_of save remove store_sum store_ok
  by unfold_locales
    (simp_all add: store_ok_save store_ok_remove map_of_save map_of_remove store_sum_save
      store_sum_remove store_sum_ge)

lemmas store_simps = map_of_save map_of_remove store_ok_save store_ok_remove

subsection \<open>Items\<close>

text \<open>\<open>Item::load\<close> of an item that was never saved is a \<open>NotFound\<close> error; the error value is an
  argument because each contract wraps it in its own error type.\<close>

abbreviation load_item :: "'a option \<Rightarrow> 'e \<Rightarrow> ('e, 'a) result" where
  "load_item x e \<equiv> ok_or x e"

end
