(* ===== verification/Chain.thy ===== *)
theory Chain
  imports Uint_Arith Storage
begin

text \<open>
  What a contract sees of the chain: the block environment, the caller and its funds, the host
  functions, and the messages it returns.

  \<open>addr_validate\<close>, the bank balance and the cw20 balance of an account are code of the chain and
  of other contracts, not of this repository: they are fields of the argument \<open>deps\<close> of every
  handler that calls them. A record that extends \<open>deps\<close> adds the queries only one contract makes.
\<close>

type_synonym addr = string

record coin =
  coin_denom :: string
  coin_amount :: u128

record env =
  block_time :: u64          \<comment> \<open>\<open>env.block.time.seconds()\<close>\<close>
  block_height :: u64
  this_contract :: addr      \<comment> \<open>\<open>env.contract.address\<close>\<close>

record message_info =
  sender :: addr
  funds :: "coin list"

record deps =
  addr_validate :: "string \<Rightarrow> (std_error, addr) result"
  bank_balance :: "addr \<Rightarrow> string \<Rightarrow> (std_error, u128) result"
  cw20_balance :: "addr \<Rightarrow> addr \<Rightarrow> (std_error, u128) result"

text \<open>A message that a handler adds to its response; the chain executes them in order after the
  handler, and a failing message reverts the whole transaction.\<close>

datatype 'm cosmos_msg =
    BankSend (bank_to: addr) (bank_coins: "coin list")
  | WasmExecute (wasm_contract: addr) (wasm_payload: 'm) (wasm_funds: "coin list")

text \<open>The documented behaviour of \<open>Api::addr_validate\<close>: on success the address is the text that was
  given.\<close>

definition addr_validate_identity :: "('d) deps_scheme \<Rightarrow> bool" where
  "addr_validate_identity d \<longleftrightarrow> (\<forall>s a. addr_validate d s = Ok a \<longrightarrow> a = s)"

lemma addr_validate_identityD:
  "addr_validate_identity d \<Longrightarrow> addr_validate d s = Ok a \<Longrightarrow> a = s"
  by (simp add: addr_validate_identity_def)

definition ntrn_denom :: string where
  "ntrn_denom = ''untrn''"

text \<open>\<open>str::to_lowercase\<close> on the ASCII text of addresses and denoms.\<close>

definition char_to_lower :: "char \<Rightarrow> char" where
  "char_to_lower c =
     (if CHR ''A'' \<le> c \<and> c \<le> CHR ''Z'' then char_of ((of_char c :: nat) + 32) else c)"

definition to_lowercase :: "string \<Rightarrow> string" where
  "to_lowercase s = map char_to_lower s"

text \<open>The funds a response sends out of the contract's own account in one denom.\<close>

fun coins_total :: "string \<Rightarrow> coin list \<Rightarrow> nat" where
  "coins_total d [] = 0"
| "coins_total d (c # cs) = (if coin_denom c = d then unat (coin_amount c) else 0) + coins_total d cs"

fun msg_outflow :: "string \<Rightarrow> 'm cosmos_msg \<Rightarrow> nat" where
  "msg_outflow d (BankSend to cs) = coins_total d cs"
| "msg_outflow d (WasmExecute c m cs) = coins_total d cs"

definition outflow :: "string \<Rightarrow> 'm cosmos_msg list \<Rightarrow> nat" where
  "outflow d ms = sum_list (map (msg_outflow d) ms)"

lemma outflow_simps [simp]:
  "outflow d [] = 0"
  "outflow d (m # ms) = msg_outflow d m + outflow d ms"
  "outflow d (ms @ ns) = outflow d ms + outflow d ns"
  by (simp_all add: outflow_def)

end
