(* ===== verification/Restricted_Vector.thy ===== *)
theory Restricted_Vector
  imports Uint_Arith
begin

text \<open>
  \<open>RestrictedVector<K, V>\<close> of \<open>packages/astroport/src/restricted_vector.rs\<close>: an association list
  that only grows. \<open>update\<close> adds to the value of a key that is there and appends a new key at the
  end; it never reorders and never removes. The increase of a value is the argument
  \<open>increase\<close> of \<open>rv_update\<close> (trait \<open>Increaseable\<close>), which is \<open>dec_checked_add\<close> for decimals and
  \<open>checked_add\<close> for \<open>Uint128\<close>.
\<close>

type_synonym ('k, 'v) restricted_vector = "('k \<times> 'v) list"

definition rv_new :: "'k \<Rightarrow> 'v \<Rightarrow> ('k, 'v) restricted_vector" where
  "rv_new k v = [(k, v)]"

definition rv_load :: "('k, 'v) restricted_vector \<Rightarrow> 'k \<Rightarrow> 'v option" where
  "rv_load xs k = map_option snd (List.find (\<lambda>(k', _). k' = k) xs)"

definition rv_get_last :: "('k, 'v) restricted_vector \<Rightarrow> 'k \<Rightarrow> (std_error, 'v) result" where
  "rv_get_last xs k =
     (if xs \<noteq> [] \<and> fst (last xs) = k then Ok (snd (last xs))
      else Err (GenericErr ''Key not found''))"

fun rv_update ::
  "('v \<Rightarrow> 'v \<Rightarrow> (std_error, 'v) result) \<Rightarrow> ('k, 'v) restricted_vector \<Rightarrow> 'k \<Rightarrow> 'v
     \<Rightarrow> (std_error, ('k, 'v) restricted_vector \<times> 'v) result" where
  "rv_update increase [] k v = Ok ([(k, v)], v)"
| "rv_update increase ((k', w) # xs) k v =
     (if k' = k then and_then (increase w v) (\<lambda>r. Ok ((k', r) # xs, r))
      else and_then (rv_update increase xs k v) (\<lambda>(ys, r). Ok ((k', w) # ys, r)))"

lemma rv_load_simps [simp]:
  "rv_load [] k = None"
  "rv_load ((k', w) # xs) k = (if k' = k then Some w else rv_load xs k)"
  by (simp_all add: rv_load_def)

lemma rv_load_map_of: "rv_load xs = map_of xs"
  by (induction xs) (auto simp: fun_eq_iff)

text \<open>What \<open>update\<close> returns is what a later \<open>load\<close> finds, and no other key changes.\<close>

lemma rv_update_load:
  "rv_update inc xs k v = Ok (ys, r) \<Longrightarrow> rv_load ys = (rv_load xs)(k \<mapsto> r)"
  by (induction xs arbitrary: ys) (auto simp: fun_eq_iff split: if_splits)

lemma rv_update_value:
  "rv_update inc xs k v = Ok (ys, r) \<Longrightarrow>
   (case rv_load xs k of None \<Rightarrow> r = v | Some w \<Rightarrow> inc w v = Ok r)"
  by (induction xs arbitrary: ys) (auto split: if_splits)

text \<open>The order of the keys is kept: the old keys are a prefix of the new ones.\<close>

lemma rv_update_keys:
  "rv_update inc xs k v = Ok (ys, r) \<Longrightarrow>
   map fst ys = (if k \<in> fst ` set xs then map fst xs else map fst xs @ [k])"
  by (induction xs arbitrary: ys) (auto split: if_splits simp: rev_image_eqI)

lemma rv_update_distinct:
  "rv_update inc xs k v = Ok (ys, r) \<Longrightarrow> distinct (map fst xs) \<Longrightarrow> distinct (map fst ys)"
  by (drule rv_update_keys) auto

lemma rv_update_get_last_fresh:
  "rv_update inc xs k v = Ok (ys, r) \<Longrightarrow> k \<notin> fst ` set xs \<Longrightarrow> rv_get_last ys k = Ok v"
proof (induction xs arbitrary: ys)
  case Nil
  then show ?case by (auto simp: rv_get_last_def)
next
  case (Cons x xs)
  obtain k' w where x: "x = (k', w)" by (cases x)
  with Cons.prems obtain zs where z: "rv_update inc xs k v = Ok (zs, r)" "ys = (k', w) # zs"
    by (auto split: if_splits)
  with Cons x show ?case by (auto simp: rv_get_last_def split: if_splits)
qed

end
