(* ===== verification/Messages.thy ===== *)
theory Messages
  imports Chain Restricted_Vector
begin

text \<open>
  The data that the contracts exchange: assets (\<open>packages/astroport/src/asset.rs\<close>), vesting
  schedules (\<open>packages/vesting-base/src/types.rs\<close>), pool types, lockups and callback messages
  (\<open>packages/astroport_periphery/src/lockdrop.rs\<close>, \<open>auction.rs\<close>), and one datatype of the
  messages that a contract sends to another contract. A message travels as JSON
  (\<open>to_json_binary\<close>), which the receiver parses back; the model passes the value itself.
\<close>

subsection \<open>Pool types\<close>

datatype pool_type = USDC | ATOM

text \<open>The storage key of a pool type is its lower-case name, so \<open>atom\<close> is listed before \<open>usdc\<close>.\<close>

primrec pool_bytes :: "pool_type \<Rightarrow> string" where
  "pool_bytes USDC = ''usdc''"
| "pool_bytes ATOM = ''atom''"

definition pool_from_vec :: "string \<Rightarrow> (std_error, pool_type) result" where
  "pool_from_vec value =
     (if value = ''usdc'' then Ok USDC
      else if value = ''atom'' then Ok ATOM
      else Err (GenericErr ''Invalid PoolType''))"

instantiation pool_type :: linorder
begin

definition less_eq_pool_type :: "pool_type \<Rightarrow> pool_type \<Rightarrow> bool" where
  "less_eq_pool_type p q \<longleftrightarrow> p = ATOM \<or> q = USDC"

definition less_pool_type :: "pool_type \<Rightarrow> pool_type \<Rightarrow> bool" where
  "less_pool_type p q \<longleftrightarrow> p = ATOM \<and> q = USDC"

instance
proof
  fix x y z :: pool_type
  show "(x < y) = (x \<le> y \<and> \<not> y \<le> x)"
    by (cases x; cases y) (auto simp: less_eq_pool_type_def less_pool_type_def)
  show "x \<le> x"
    by (cases x) (auto simp: less_eq_pool_type_def)
  show "x \<le> y \<Longrightarrow> y \<le> z \<Longrightarrow> x \<le> z"
    by (auto simp: less_eq_pool_type_def)
  show "x \<le> y \<Longrightarrow> y \<le> x \<Longrightarrow> x = y"
    by (auto simp: less_eq_pool_type_def)
  show "x \<le> y \<or> y \<le> x"
    by (cases x; cases y) (auto simp: less_eq_pool_type_def)
qed

end

text \<open>The order of the model is the byte order of the keys.\<close>

lemma pool_type_less_bytes: "p < q \<longleftrightarrow> pool_bytes p < pool_bytes q"
  by (cases p; cases q) (simp_all add: less_pool_type_def)

lemma pool_from_vec_bytes: "pool_from_vec (pool_bytes p) = Ok p"
  by (cases p) (simp_all add: pool_from_vec_def)

lemma pool_type_less_simps [simp]:
  "ATOM < USDC" "\<not> USDC < ATOM" "\<not> ATOM < ATOM" "\<not> USDC < USDC"
  by (simp_all add: less_pool_type_def)

subsection \<open>Assets\<close>

datatype asset_info = Token (contract_addr: addr) | NativeToken (native_denom: string)

record asset =
  ainfo :: asset_info
  asset_amount :: u128

subsection \<open>Vesting\<close>

record vesting_schedule_point =
  point_time :: u64
  point_amount :: u128

record vesting_schedule =
  start_point :: vesting_schedule_point
  end_point :: "vesting_schedule_point option"

record vesting_account =
  account_address :: string
  account_schedules :: "vesting_schedule list"

record vesting_info =
  schedules :: "vesting_schedule list"
  released_amount :: u128

record vesting_account_full_info =
  full_address :: addr
  full_info :: vesting_info

text \<open>What an account receives in total: the end amount of a schedule that has an end point, else
  the amount paid at its start.\<close>

definition schedule_amount :: "vesting_schedule \<Rightarrow> u128" where
  "schedule_amount sch =
     (case end_point sch of Some e \<Rightarrow> point_amount e | None \<Rightarrow> point_amount (start_point sch))"

definition schedules_total :: "vesting_schedule list \<Rightarrow> nat" where
  "schedules_total ss = sum_list (map (\<lambda>s. unat (schedule_amount s)) ss)"

definition accounts_total :: "vesting_account list \<Rightarrow> nat" where
  "accounts_total as = sum_list (map (\<lambda>a. schedules_total (account_schedules a)) as)"

lemma schedules_total_simps [simp]:
  "schedules_total [] = 0"
  "schedules_total (s # ss) = unat (schedule_amount s) + schedules_total ss"
  "schedules_total (ss @ ts) = schedules_total ss + schedules_total ts"
  by (simp_all add: schedules_total_def)

lemma accounts_total_simps [simp]:
  "accounts_total [] = 0"
  "accounts_total (a # as) = schedules_total (account_schedules a) + accounts_total as"
  "accounts_total (as @ bs) = accounts_total as + accounts_total bs"
  by (simp_all add: accounts_total_def)

subsection \<open>Lockups\<close>

record lockdrop_user_info =
  total_ntrn_rewards :: u128
  ntrn_transferred :: bool
  lockup_positions_index :: u32

record lockup_info =
  lp_units_locked :: u128
  astroport_lp_transferred :: "u128 option"
  withdrawal_flag :: bool
  ntrn_rewards :: u128
  generator_ntrn_debt :: u128
  generator_proxy_debt :: "(asset_info, u128) restricted_vector"
  unlock_timestamp :: u64

record pool_balance =
  pb_atom :: u128
  pb_usdc :: u128

datatype lockdrop_callback =
    UpdatePoolOnDualRewardsClaim pool_type u128 "asset list"
  | WithdrawUserLockupRewardsCallback pool_type addr u64 bool
  | InitMigrateLockupToPCLPoolsCallback pool_type addr u64
  | TransferAllRewardsBeforeMigrationCallback pool_type addr u64
  | WithdrawUserLockupCallback pool_type addr u64 addr addr u128
  | MigrateUserLockupToPCLPairCallback pool_type addr u64 u128 string u128

datatype pcl_callback =
    PclUpdatePoolOnDualRewardsClaim pool_type "asset list"
  | PclWithdrawUserLockupRewardsCallback pool_type addr u64 bool
  | FinishLockupMigrationCallback pool_type addr u64 string u128 lockdrop_user_info lockup_info bool

datatype vesting_lp_callback =
    MigrateLiquidityToClPair addr addr u128 decimal addr string string vesting_account_full_info
  | ProvideLiquidityToClPairAfterWithdrawal string u128 string u128 addr decimal
      vesting_account_full_info
  | PostMigrationVestingReschedule vesting_account_full_info u128

subsection \<open>Messages between contracts\<close>

text \<open>The hook that a cw20 \<open>Send\<close> carries to the receiving contract.\<close>

datatype cw20_hook =
    RegisterVestingAccountsHook "vesting_account list"
  | InitializePool pool_type u128
  | GeneratorDeposit
  | IncentivesDeposit
  | WithdrawLiquidity
  | MigrateXYKVesting addr vesting_info

datatype wasm_msg =
    Cw20Transfer addr u128
  | Cw20Send addr u128 cw20_hook
  | Cw20IncreaseAllowance addr u128 u64
  | Cw20Burn u128
  | Cw20BurnFrom addr u128
  | AddVesting string u128 u64 u64
  | ProvideLiquidity "asset list" "decimal option" "bool option" "string option"
  | IncreaseLockupFor string pool_type u128 u64
  | WithdrawFromLockup string pool_type u128 u64
  | FinalizePoolInitialization pool_balance
  | GeneratorClaimRewards "addr list"
  | GeneratorWithdraw addr u128
  | IncentivesClaimRewards "addr list"
  | IncentivesWithdraw addr u128
  | LockdropCallback lockdrop_callback
  | PclCallback pcl_callback
  | VestingLpCallback vesting_lp_callback
  | MigrateXYKLockup pool_type string u64 lockdrop_user_info lockup_info bool

type_synonym msg = "wasm_msg cosmos_msg"

text \<open>What a response sends out of the contract's own account of one cw20 token.\<close>

fun cw20_paid :: "addr \<Rightarrow> msg \<Rightarrow> nat" where
  "cw20_paid token (WasmExecute c (Cw20Transfer to n) fs) = (if c = token then unat n else 0)"
| "cw20_paid token (WasmExecute c (Cw20Send to n hook) fs) = (if c = token then unat n else 0)"
| "cw20_paid token (WasmExecute c (Cw20Burn n) fs) = (if c = token then unat n else 0)"
| "cw20_paid token _ = 0"

definition cw20_outflow :: "addr \<Rightarrow> msg list \<Rightarrow> nat" where
  "cw20_outflow token ms = sum_list (map (cw20_paid token) ms)"

lemma cw20_outflow_simps [simp]:
  "cw20_outflow token [] = 0"
  "cw20_outflow token (m # ms) = cw20_paid token m + cw20_outflow token ms"
  "cw20_outflow token (ms @ ns) = cw20_outflow token ms + cw20_outflow token ns"
  by (simp_all add: cw20_outflow_def)

end
