(* ===== verification/Assets.thy ===== *)
theory Assets
  imports Messages
begin

text \<open>
  Operations on assets, \<open>packages/astroport/src/asset.rs\<close> and \<open>querier.rs\<close>: comparison,
  validation, balances and the message that sends an asset. Terra's tax is zero, so a native
  asset is sent whole.
\<close>

definition minimum_liquidity_amount :: u128 where
  "minimum_liquidity_amount = 1000"

fun is_native_token :: "asset_info \<Rightarrow> bool" where
  "is_native_token (NativeToken denom) = True"
| "is_native_token (Token a) = False"

fun asset_equal :: "asset_info \<Rightarrow> asset_info \<Rightarrow> bool" where
  "asset_equal (NativeToken denom) (NativeToken other_denom) = (denom = other_denom)"
| "asset_equal (Token a) (Token b) = (a = b)"
| "asset_equal _ _ = False"

text \<open>\<open>Display\<close> of an asset.\<close>

fun asset_info_string :: "asset_info \<Rightarrow> string" where
  "asset_info_string (NativeToken denom) = denom"
| "asset_info_string (Token c) = c"

definition token_asset_info :: "addr \<Rightarrow> asset_info" where
  "token_asset_info a = Token a"

definition native_asset :: "string \<Rightarrow> u128 \<Rightarrow> asset" where
  "native_asset denom n = \<lparr>ainfo = NativeToken denom, asset_amount = n\<rparr>"

definition with_balance :: "asset_info \<Rightarrow> u128 \<Rightarrow> asset" where
  "with_balance ai n = \<lparr>ainfo = ai, asset_amount = n\<rparr>"

definition compute_tax :: "asset \<Rightarrow> (std_error, u128) result" where
  "compute_tax a = Ok 0"

definition deduct_tax :: "asset \<Rightarrow> (std_error, coin) result" where
  "deduct_tax a =
     (case ainfo a of
        NativeToken denom \<Rightarrow>
          and_then (compute_tax a) (\<lambda>tax.
          and_then (checked_sub (asset_amount a) tax) (\<lambda>n.
          Ok \<lparr>coin_denom = denom, coin_amount = n\<rparr>))
      | Token _ \<Rightarrow> Err (GenericErr ''cannot deduct tax from token asset''))"

definition into_msg :: "asset \<Rightarrow> addr \<Rightarrow> (std_error, msg) result" where
  "into_msg a recipient =
     (case ainfo a of
        Token c \<Rightarrow> Ok (WasmExecute c (Cw20Transfer recipient (asset_amount a)) [])
      | NativeToken _ \<Rightarrow> and_then (deduct_tax a) (\<lambda>c. Ok (BankSend recipient [c])))"

text \<open>A failing balance query of a cw20 token counts as a zero balance.\<close>

definition query_token_balance :: "('d) deps_scheme \<Rightarrow> addr \<Rightarrow> addr \<Rightarrow> (std_error, u128) result" where
  "query_token_balance d c account =
     (case cw20_balance d c account of Ok b \<Rightarrow> Ok b | Err _ \<Rightarrow> Ok 0 | Panic \<Rightarrow> Panic)"

definition query_pool :: "('d) deps_scheme \<Rightarrow> asset_info \<Rightarrow> addr \<Rightarrow> (std_error, u128) result" where
  "query_pool d ai pool =
     (case ai of
        Token c \<Rightarrow> query_token_balance d c pool
      | NativeToken denom \<Rightarrow> bank_balance d pool denom)"

definition addr_validate_to_lower :: "('d) deps_scheme \<Rightarrow> string \<Rightarrow> (std_error, addr) result" where
  "addr_validate_to_lower d a =
     (if to_lowercase a \<noteq> a then Err (GenericErr ''Address {} should be lowercase'')
      else addr_validate d a)"

definition addr_opt_validate ::
  "('d) deps_scheme \<Rightarrow> string option \<Rightarrow> (std_error, addr option) result" where
  "addr_opt_validate d a = try_opt (addr_validate_to_lower d) a"

definition asset_check :: "('d) deps_scheme \<Rightarrow> asset_info \<Rightarrow> (std_error, unit) result" where
  "asset_check d ai =
     (case ai of
        Token c \<Rightarrow> and_then (addr_validate_to_lower d c) (\<lambda>_. Ok ())
      | NativeToken denom \<Rightarrow>
          if take 4 denom \<noteq> ''ibc/'' \<and> denom \<noteq> to_lowercase denom
          then Err (GenericErr ''Non-IBC token denom {} should be lowercase'')
          else Ok ())"

lemma asset_equal_iff: "asset_equal a b \<longleftrightarrow> a = b"
  by (cases a; cases b) auto

lemma into_msg_cases:
  "into_msg a r =
     Ok (case ainfo a of
           Token c \<Rightarrow> WasmExecute c (Cw20Transfer r (asset_amount a)) []
         | NativeToken denom \<Rightarrow>
             BankSend r [\<lparr>coin_denom = denom, coin_amount = asset_amount a\<rparr>])"
  by (simp add: into_msg_def deduct_tax_def compute_tax_def checked_sub_def split: asset_info.split)

lemma into_msg_native_outflow:
  "into_msg (with_balance (NativeToken denom) n) r = Ok m \<Longrightarrow> msg_outflow denom m = unat n"
  by (auto simp: into_msg_cases with_balance_def)

text \<open>What a response pays of an asset.\<close>

definition asset_paid :: "asset_info \<Rightarrow> msg list \<Rightarrow> nat" where
  "asset_paid ai ms = (case ai of Token c \<Rightarrow> cw20_outflow c ms | NativeToken denom \<Rightarrow> outflow denom ms)"

lemma asset_paid_simps [simp]:
  "asset_paid ai [] = 0"
  "asset_paid ai (ms @ ns) = asset_paid ai ms + asset_paid ai ns"
  by (simp_all add: asset_paid_def split: asset_info.split)

lemma into_msg_paid: "into_msg (with_balance ai n) r = Ok m \<Longrightarrow> asset_paid ai [m] = unat n"
  by (auto simp: into_msg_cases with_balance_def asset_paid_def split: asset_info.split)

lemma native_only_Ok_iff:
  "(case ai of Token c \<Rightarrow> Err e | NativeToken denom \<Rightarrow> f denom) = Ok y \<longleftrightarrow>
     (\<exists>denom. ai = NativeToken denom \<and> f denom = Ok y)"
  by (cases ai) auto

end
