(* ===== verification/Ownership.thy ===== *)
theory Ownership
  imports Assets
begin

text \<open>
  Two-step transfer of contract ownership, \<open>packages/astroport/src/common.rs\<close>: the owner
  proposes, the proposed account claims before the proposal expires, the owner may drop the
  proposal. The functions act on the contract's proposal item; \<open>claim_ownership\<close> returns the new
  owner, which the contract's callback stores in its configuration.

  The locale \<open>ownable\<close> is the contract that a client of these functions offers. The vesting
  contracts and the lockdrop contract interpret it.
\<close>

definition max_proposal_ttl :: u64 where
  "max_proposal_ttl = 1209600"

record ownership_proposal =
  proposal_owner :: addr
  proposal_ttl :: u64

definition propose_new_owner ::
  "('d) deps_scheme \<Rightarrow> message_info \<Rightarrow> env \<Rightarrow> string \<Rightarrow> u64 \<Rightarrow> addr
     \<Rightarrow> (std_error, ownership_proposal option) result" where
  "propose_new_owner d info env new_owner expires_in owner =
     (if sender info \<noteq> owner then Err (GenericErr ''Unauthorized'')
      else and_then (addr_validate_to_lower d new_owner) (\<lambda>new_owner.
      if new_owner = owner then Err (GenericErr ''New owner cannot be same'')
      else if max_proposal_ttl < expires_in
      then Err (GenericErr ''Parameter expires_in cannot be higher than {}'')
      else and_then (add_panic (block_time env) expires_in) (\<lambda>ttl.
      Ok (Some \<lparr>proposal_owner = new_owner, proposal_ttl = ttl\<rparr>))))"

definition drop_ownership_proposal ::
  "message_info \<Rightarrow> addr \<Rightarrow> (std_error, ownership_proposal option) result" where
  "drop_ownership_proposal info owner =
     (if sender info \<noteq> owner then Err (GenericErr ''Unauthorized'') else Ok None)"

definition claim_ownership ::
  "message_info \<Rightarrow> env \<Rightarrow> ownership_proposal option
     \<Rightarrow> (std_error, ownership_proposal option \<times> addr) result" where
  "claim_ownership info env proposal =
     and_then (load_item proposal (GenericErr ''Ownership proposal not found'')) (\<lambda>p.
     if sender info \<noteq> proposal_owner p then Err (GenericErr ''Unauthorized'')
     else if proposal_ttl p < block_time env then Err (GenericErr ''Ownership proposal expired'')
     else Ok (None, proposal_owner p))"

lemma propose_new_owner_Ok:
  "propose_new_owner d info env n e owner = Ok q \<longleftrightarrow>
     sender info = owner \<and> e \<le> max_proposal_ttl \<and>
     (\<exists>a ttl. addr_validate_to_lower d n = Ok a \<and> a \<noteq> owner \<and>
        unat ttl = unat (block_time env) + unat e \<and>
        q = Some \<lparr>proposal_owner = a, proposal_ttl = ttl\<rparr>)"
  by (auto simp: propose_new_owner_def not_less split: if_splits)

lemma claim_ownership_Ok:
  "claim_ownership info env q = Ok (q', a) \<longleftrightarrow>
     (\<exists>p. q = Some p \<and> sender info = proposal_owner p \<and> block_time env \<le> proposal_ttl p \<and>
        q' = None \<and> a = sender info)"
  by (auto simp: claim_ownership_def not_less split: if_splits)

locale ownable =
  fixes owner_of :: "'s \<Rightarrow> addr"
    and proposal_of :: "'s \<Rightarrow> ownership_proposal option"
    and propose :: "env \<Rightarrow> message_info \<Rightarrow> string \<Rightarrow> u64 \<Rightarrow> 's \<Rightarrow> ('e, 's) result"
    and drop_proposal :: "message_info \<Rightarrow> 's \<Rightarrow> ('e, 's) result"
    and claim :: "env \<Rightarrow> message_info \<Rightarrow> 's \<Rightarrow> ('e, 's) result"
  assumes propose_law: "propose env info n e s = Ok t \<Longrightarrow>
      sender info = owner_of s \<and> owner_of t = owner_of s \<and> e \<le> max_proposal_ttl \<and>
      (\<exists>p. proposal_of t = Some p \<and> proposal_owner p \<noteq> owner_of s \<and>
           unat (proposal_ttl p) = unat (block_time env) + unat e)"
    and drop_law: "drop_proposal info s = Ok t \<Longrightarrow>
      sender info = owner_of s \<and> owner_of t = owner_of s \<and> proposal_of t = None"
    and claim_law: "claim env info s = Ok t \<Longrightarrow>
      \<exists>p. proposal_of s = Some p \<and> sender info = proposal_owner p \<and>
          block_time env \<le> proposal_ttl p \<and> owner_of t = sender info \<and> proposal_of t = None"
begin

text \<open>A handover: the owner proposed, and the claim comes from the proposed account, which is
  another account, at most two weeks later.\<close>

lemma handover:
  assumes "propose env info n e s = Ok t" and "claim env' info' t = Ok u"
  shows "sender info = owner_of s \<and> owner_of u = sender info' \<and> owner_of u \<noteq> owner_of s \<and>
         proposal_of u = None \<and>
         unat (block_time env') \<le> unat (block_time env) + unat max_proposal_ttl"
  using propose_law [OF assms(1)] claim_law [OF assms(2)]
  by (auto simp: word_le_nat_alt)

lemma claim_needs_proposal: "proposal_of s = None \<Longrightarrow> claim env info s \<noteq> Ok t"
  using claim_law by fastforce

lemma claim_after_drop: "drop_proposal info s = Ok t \<Longrightarrow> claim env' info' t \<noteq> Ok u"
  using drop_law claim_needs_proposal by blast

lemma claim_only_once: "claim env info s = Ok t \<Longrightarrow> claim env' info' t \<noteq> Ok u"
  using claim_law claim_needs_proposal by metis

text \<open>Nobody but the owner and the proposed account can use any of the three operations.\<close>

lemma outsider_excluded:
  assumes "sender info \<noteq> owner_of s"
    and "\<And>p. proposal_of s = Some p \<Longrightarrow> sender info \<noteq> proposal_owner p"
  shows "propose env info n e s \<noteq> Ok t" "drop_proposal info s \<noteq> Ok t" "claim env info s \<noteq> Ok t"
  using assms propose_law drop_law claim_law by blast+

lemma owner_changes_by_claim_only:
  "propose env info n e s = Ok t \<or> drop_proposal info s = Ok t \<Longrightarrow> owner_of t = owner_of s"
  using propose_law drop_law by blast

end

end
