(* ===== verification/Withdrawal_Curve.thy ===== *)
theory Withdrawal_Curve
  imports Uint_Arith
begin

text \<open>
  The share of a deposit that may be withdrawn, as a function of time: all of it while the deposit
  window is open, half in the first half of the withdrawal window, then linearly down to nothing at
  its end. The auction contract (\<open>allowed_withdrawal_percent\<close>) and the lockdrop contract
  (\<open>calculate_max_withdrawal_percent_allowed\<close>) each implement it; the locale states the curve once
  and both interpret it.
\<close>

text \<open>The decay after the midpoint, in atomics; \<open>w\<close> is the window and \<open>left\<close> the time left.\<close>

definition decay_atomics :: "nat \<Rightarrow> nat \<Rightarrow> nat" where
  "decay_atomics w left = 50 * left * DECIMAL_FRACTIONAL div (100 * (w - w div 2))"

locale withdrawal_curve =
  fixes percent :: "u64 \<Rightarrow> 'c \<Rightarrow> (std_error, decimal) result"
    and cutoff :: "'c \<Rightarrow> nat"
    and window :: "'c \<Rightarrow> nat"
  assumes pct_full: "percent t c = Ok q \<Longrightarrow> unat t < cutoff c \<Longrightarrow>
      unat (atomics q) = DECIMAL_FRACTIONAL"
    and pct_half: "percent t c = Ok q \<Longrightarrow> cutoff c \<le> unat t \<Longrightarrow> unat t \<le> cutoff c + window c div 2 \<Longrightarrow>
      unat (atomics q) = DECIMAL_FRACTIONAL div 2"
    and pct_decay: "percent t c = Ok q \<Longrightarrow> cutoff c + window c div 2 < unat t \<Longrightarrow>
      unat t < cutoff c + window c \<Longrightarrow>
      unat (atomics q) = decay_atomics (window c) (cutoff c + window c - unat t)"
    and pct_closed: "percent t c = Ok q \<Longrightarrow> cutoff c + window c div 2 < unat t \<Longrightarrow>
      cutoff c + window c \<le> unat t \<Longrightarrow> unat (atomics q) = 0"
begin

lemma decay_le_half:
  assumes "left \<le> w - w div 2"
  shows "decay_atomics w left \<le> DECIMAL_FRACTIONAL div 2"
proof (cases "w - w div 2 = 0")
  case True
  then have "left = 0" using assms by simp
  then show ?thesis by (simp add: decay_atomics_def)
next
  case False
  have "decay_atomics w left \<le> (w - w div 2) * 50 * DECIMAL_FRACTIONAL div (100 * (w - w div 2))"
    unfolding decay_atomics_def using assms by (intro div_le_mono) simp
  also have "\<dots> = DECIMAL_FRACTIONAL div 2"
    using False by (simp add: div_mult2_eq)
  finally show ?thesis .
qed

lemma decay_mono: "left \<le> left' \<Longrightarrow> decay_atomics w left \<le> decay_atomics w left'"
  unfolding decay_atomics_def by (intro div_le_mono) simp

lemma at_most_all: "percent t c = Ok q \<Longrightarrow> unat (atomics q) \<le> DECIMAL_FRACTIONAL"
proof -
  assume q: "percent t c = Ok q"
  consider "unat t < cutoff c"
    | "cutoff c \<le> unat t" "unat t \<le> cutoff c + window c div 2"
    | "cutoff c + window c div 2 < unat t" "unat t < cutoff c + window c"
    | "cutoff c + window c div 2 < unat t" "cutoff c + window c \<le> unat t"
    by linarith
  then show ?thesis
  proof cases
    case 3
    then have "cutoff c + window c - unat t \<le> window c - window c div 2" by linarith
    from decay_le_half [OF this] show ?thesis using pct_decay [OF q 3] by simp
  qed (use pct_full [OF q] pct_half [OF q] pct_closed [OF q] in simp_all)
qed

lemma at_most_half:
  assumes "percent t c = Ok q" and "cutoff c \<le> unat t"
  shows "unat (atomics q) \<le> DECIMAL_FRACTIONAL div 2"
proof -
  consider "unat t \<le> cutoff c + window c div 2"
    | "cutoff c + window c div 2 < unat t" "unat t < cutoff c + window c"
    | "cutoff c + window c div 2 < unat t" "cutoff c + window c \<le> unat t"
    by linarith
  then show ?thesis
  proof cases
    case 2
    then have "cutoff c + window c - unat t \<le> window c - window c div 2" by linarith
    from decay_le_half [OF this] show ?thesis using pct_decay [OF assms(1) 2] by simp
  qed (use assms pct_half [OF assms(1)] pct_closed [OF assms(1)] in simp_all)
qed

text \<open>The share never grows with time.\<close>

lemma antitone:
  assumes "percent t c = Ok q" and "percent t' c = Ok q'" and "t \<le> t'"
  shows "unat (atomics q') \<le> unat (atomics q)"
proof -
  have le: "unat t \<le> unat t'" using assms(3) by (simp add: word_le_nat_alt)
  consider "unat t < cutoff c"
    | "cutoff c \<le> unat t" "unat t \<le> cutoff c + window c div 2"
    | "cutoff c + window c div 2 < unat t" "unat t' < cutoff c + window c"
    | "cutoff c + window c div 2 < unat t" "cutoff c + window c \<le> unat t'"
    by linarith
  then show ?thesis
  proof cases
    case 1
    then show ?thesis using pct_full [OF assms(1)] at_most_all [OF assms(2)] by simp
  next
    case 2
    then show ?thesis using pct_half [OF assms(1)] at_most_half [OF assms(2)] le by simp
  next
    case 3
    then show ?thesis
      using le pct_decay [OF assms(1)] pct_decay [OF assms(2)]
        decay_mono [of "cutoff c + window c - unat t'" "cutoff c + window c - unat t" "window c"]
      by simp
  next
    case 4
    then show ?thesis using le pct_closed [OF assms(2)] by simp
  qed
qed

text \<open>A withdrawal bounded by the share of a deposit never exceeds the deposit, and after the
  deposit window it leaves at least half of it.\<close>

lemma share_bound:
  assumes "percent t c = Ok q"
  shows "x * unat (atomics q) div DECIMAL_FRACTIONAL \<le> x"
proof -
  have "x * unat (atomics q) div DECIMAL_FRACTIONAL \<le> x * DECIMAL_FRACTIONAL div DECIMAL_FRACTIONAL"
    using at_most_all [OF assms] by (intro div_le_mono mult_le_mono) auto
  then show ?thesis by simp
qed

lemma share_bound_half:
  assumes "percent t c = Ok q" and "cutoff c \<le> unat t"
  shows "2 * (x * unat (atomics q) div DECIMAL_FRACTIONAL) \<le> x"
proof -
  have "x * unat (atomics q) div DECIMAL_FRACTIONAL
      \<le> x * (DECIMAL_FRACTIONAL div 2) div DECIMAL_FRACTIONAL"
    using at_most_half [OF assms] by (intro div_le_mono mult_le_mono) auto
  also have "\<dots> = x div 2"
    using div_mult2_eq [of "x * 500000000000000000" 500000000000000000 2] by simp
  finally show ?thesis by simp
qed

lemma share_closed:
  assumes "percent t c = Ok q" and "cutoff c + window c div 2 < unat t"
    and "cutoff c + window c \<le> unat t"
  shows "x * unat (atomics q) div DECIMAL_FRACTIONAL = 0"
  using pct_closed [OF assms] by simp

end

end
