(* ===== verification/Auction.thy ===== *)
theory Auction
  imports Ownership Withdrawal_Curve
begin

text \<open>
  The bootstrap auction, \<open>contracts/auction\<close>. Users deposit USDC and ATOM, may withdraw along a
  declining curve, then anyone fixes the pool sizes from the price feed, users lock their LP
  shares in the lockdrop, the pools are created, and the rest of the shares goes to vesting.

  State: \<open>CONFIG\<close> and \<open>STATE\<close> items and the indexed map of users. The price feed and the integer
  square root of the \<open>uint\<close> crate are code outside this repository: fields of \<open>auction_deps\<close>.
  Response attributes (events) are not modelled; messages are.
\<close>

subsection \<open>Data\<close>

record pool_info =
  ntrn_usdc_pool_address :: string
  ntrn_atom_pool_address :: string
  ntrn_usdc_lp_token_address :: string
  ntrn_atom_lp_token_address :: string

record auction_config =
  ac_owner :: addr
  ac_token_info_manager :: addr
  reserve_contract_address :: addr
  vesting_usdc_contract_address :: addr
  vesting_atom_contract_address :: addr
  lockdrop_contract_address :: "addr option"
  price_feed_contract :: addr
  ac_pool_info :: "pool_info option"
  ac_init_timestamp :: u64
  deposit_window :: u64
  ac_withdrawal_window :: u64
  lp_tokens_lock_window :: u64
  ac_ntrn_denom :: string
  usdc_denom :: "string option"
  atom_denom :: "string option"
  min_ntrn_amount :: u128
  max_exchange_rate_age :: u64
  vesting_migration_pack_size :: u16
  vesting_lp_duration :: u64

record auction_state =
  total_usdc_deposited :: u128
  total_atom_deposited :: u128
  is_rest_lp_vested :: bool
  lp_usdc_shares_minted :: "u128 option"
  lp_atom_shares_minted :: "u128 option"
  pool_init_timestamp :: u64
  usdc_ntrn_size :: u128
  atom_ntrn_size :: u128
  usdc_lp_size :: u128
  atom_lp_size :: u128
  total_usdc_lp_locked :: u128   \<comment> \<open>\<open>State::usdc_lp_locked\<close>\<close>
  total_atom_lp_locked :: u128   \<comment> \<open>\<open>State::atom_lp_locked\<close>\<close>

record auction_user =
  usdc_deposited :: u128
  atom_deposited :: u128
  withdrawn :: bool
  usdc_lp_locked :: u128
  atom_lp_locked :: u128
  is_vested :: bool

definition auction_state_default :: auction_state where
  "auction_state_default =
     \<lparr>total_usdc_deposited = 0, total_atom_deposited = 0, is_rest_lp_vested = False,
      lp_usdc_shares_minted = None, lp_atom_shares_minted = None, pool_init_timestamp = 0,
      usdc_ntrn_size = 0, atom_ntrn_size = 0, usdc_lp_size = 0, atom_lp_size = 0,
      total_usdc_lp_locked = 0, total_atom_lp_locked = 0\<rparr>"

definition auction_user_default :: auction_user where
  "auction_user_default =
     \<lparr>usdc_deposited = 0, atom_deposited = 0, withdrawn = False, usdc_lp_locked = 0,
      atom_lp_locked = 0, is_vested = False\<rparr>"

record auction =
  a_config :: "auction_config option"
  a_state :: "auction_state option"
  a_users :: "(addr, auction_user) store"

definition auction_empty :: auction where
  "auction_empty = \<lparr>a_config = None, a_state = None, a_users = []\<rparr>"

text \<open>The index \<open>vested\<close> of the users map under the prefix \<open>0\<close>: the users not yet vested, in key
  order.\<close>

definition users_not_vested :: "(addr, auction_user) store \<Rightarrow> (addr \<times> auction_user) list" where
  "users_not_vested us = filter (\<lambda>(a, u). \<not> is_vested u) us"

record price_feed_rate =
  rate :: u64
  resolve_time :: u64
  request_id :: u64

record auction_deps = deps +
  query_rates :: "addr \<Rightarrow> (std_error, price_feed_rate list) result"
  integer_sqrt :: "nat \<Rightarrow> nat"

text \<open>The documented behaviour of \<open>U256::integer_sqrt\<close>.\<close>

definition integer_sqrt_floor :: "('d) auction_deps_scheme \<Rightarrow> bool" where
  "integer_sqrt_floor d \<longleftrightarrow>
     (\<forall>n. integer_sqrt d n ^ 2 \<le> n \<and> n < (integer_sqrt d n + 1) ^ 2)"

record auction_instantiate_msg =
  im_owner :: "string option"
  im_token_info_manager :: string
  im_price_feed_contract :: string
  im_lockdrop_contract_address :: "string option"
  im_reserve_contract_address :: string
  im_vesting_usdc_contract_address :: string
  im_vesting_atom_contract_address :: string
  im_lp_tokens_lock_window :: u64
  im_init_timestamp :: u64
  im_deposit_window :: u64
  im_withdrawal_window :: u64
  im_max_exchange_rate_age :: u64
  im_min_ntrn_amount :: u128
  im_vesting_migration_pack_size :: u16
  im_vesting_lp_duration :: u64

record auction_update_config_msg =
  uc_owner :: "string option"
  uc_price_feed_contract :: "string option"
  uc_lockdrop_contract_address :: "string option"
  uc_vesting_migration_pack_size :: "u16 option"
  uc_pool_info :: "pool_info option"

datatype auction_execute_msg =
    AuctionUpdateConfig auction_update_config_msg
  | AuctionSetTokenInfo "string option" "string option" "pool_info option"
  | AuctionDeposit
  | AuctionWithdraw u128 u128
  | AuctionInitPool
  | AuctionSetPoolSize
  | AuctionLockLp pool_type u128 u64
  | AuctionWithdrawLp pool_type u128 u64
  | AuctionMigrateToVesting
  | AuctionFinalize pool_balance

subsection \<open>Instantiation\<close>

definition auction_instantiate ::
  "('d) deps_scheme \<Rightarrow> env \<Rightarrow> message_info \<Rightarrow> auction_instantiate_msg \<Rightarrow> auction
     \<Rightarrow> (std_error, auction \<times> msg list) result" where
  "auction_instantiate d env info m s =
     (if im_init_timestamp m < block_time env
      then Err (GenericErr ''Invalid init_timestamp. Current timestamp : {}'')
      else
      and_then (try_opt (addr_validate d) (im_lockdrop_contract_address m)) (\<lambda>lockdrop.
      and_then (map_ok (\<lambda>o'. unwrap_or o' (sender info)) (try_opt (addr_validate d) (im_owner m))) (\<lambda>owner.
      and_then (addr_validate d (im_token_info_manager m)) (\<lambda>manager.
      and_then (addr_validate d (im_price_feed_contract m)) (\<lambda>feed.
      and_then (addr_validate d (im_reserve_contract_address m)) (\<lambda>reserve.
      and_then (addr_validate d (im_vesting_usdc_contract_address m)) (\<lambda>vesting_usdc.
      and_then (addr_validate d (im_vesting_atom_contract_address m)) (\<lambda>vesting_atom.
      Ok (s\<lparr>a_config := Some
              \<lparr>ac_owner = owner, ac_token_info_manager = manager,
               reserve_contract_address = reserve,
               vesting_usdc_contract_address = vesting_usdc,
               vesting_atom_contract_address = vesting_atom,
               lockdrop_contract_address = lockdrop, price_feed_contract = feed,
               ac_pool_info = None, ac_init_timestamp = im_init_timestamp m,
               deposit_window = im_deposit_window m,
               ac_withdrawal_window = im_withdrawal_window m,
               lp_tokens_lock_window = im_lp_tokens_lock_window m,
               ac_ntrn_denom = ntrn_denom, usdc_denom = None, atom_denom = None,
               min_ntrn_amount = im_min_ntrn_amount m,
               max_exchange_rate_age = im_max_exchange_rate_age m,
               vesting_migration_pack_size = im_vesting_migration_pack_size m,
               vesting_lp_duration = im_vesting_lp_duration m\<rparr>,
             a_state := Some auction_state_default\<rparr>, [])))))))))"

subsection \<open>Windows and the withdrawal curve\<close>

definition auction_load_config :: "auction \<Rightarrow> (std_error, auction_config) result" where
  "auction_load_config s = load_item (a_config s) (NotFound ''config'')"

definition auction_load_state :: "auction \<Rightarrow> (std_error, auction_state) result" where
  "auction_load_state s = load_item (a_state s) (NotFound ''state'')"

definition auction_load_user :: "auction \<Rightarrow> addr \<Rightarrow> (std_error, auction_user) result" where
  "auction_load_user s a = ok_or (may_load (a_users s) a) (NotFound ''users'')"

definition get_denoms :: "auction_config \<Rightarrow> (std_error, string \<times> string) result" where
  "get_denoms cfg =
     and_then (ok_or (usdc_denom cfg) (GenericErr ''USDC Denom is not set yet. Please set it first.''))
       (\<lambda>usdc.
     and_then (ok_or (atom_denom cfg) (GenericErr ''ATOM Denom is not set yet. Please set it first.''))
       (\<lambda>atom. Ok (usdc, atom)))"

text \<open>\<open>&&\<close> is lazy: the end of the window is computed only once the window has begun.\<close>

definition is_deposit_open :: "u64 \<Rightarrow> auction_config \<Rightarrow> (std_error, bool) result" where
  "is_deposit_open t cfg =
     (if ac_init_timestamp cfg \<le> t
      then and_then (add_panic (ac_init_timestamp cfg) (deposit_window cfg)) (\<lambda>window_end. Ok (t < window_end))
      else Ok False)"

definition are_windows_closed :: "u64 \<Rightarrow> auction_config \<Rightarrow> (std_error, bool) result" where
  "are_windows_closed t cfg =
     and_then (add_panic (ac_init_timestamp cfg) (deposit_window cfg)) (\<lambda>x.
     and_then (add_panic x (ac_withdrawal_window cfg)) (\<lambda>window_end.
     Ok (window_end \<le> t)))"

definition is_lock_window_closed :: "u64 \<Rightarrow> auction_config \<Rightarrow> (std_error, bool) result" where
  "is_lock_window_closed t cfg =
     and_then (add_panic (ac_init_timestamp cfg) (deposit_window cfg)) (\<lambda>x.
     and_then (add_panic x (ac_withdrawal_window cfg)) (\<lambda>y.
     and_then (add_panic y (lp_tokens_lock_window cfg)) (\<lambda>lock_window_end.
     Ok (lock_window_end \<le> t))))"

definition allowed_withdrawal_percent :: "u64 \<Rightarrow> auction_config \<Rightarrow> (std_error, decimal) result" where
  "allowed_withdrawal_percent t cfg =
     and_then (add_panic (ac_init_timestamp cfg) (deposit_window cfg)) (\<lambda>init_point.
     if t < init_point then from_ratio 100 100
     else
     and_then (add_panic init_point (ac_withdrawal_window cfg div 2)) (\<lambda>second_point.
     if t \<le> second_point then from_ratio 50 100
     else
     and_then (add_panic init_point (ac_withdrawal_window cfg)) (\<lambda>final.
     if t < final then
       and_then (sub_panic final t) (\<lambda>time_left.
       and_then (mul_panic 50 time_left) (\<lambda>num.
       and_then (sub_panic final second_point) (\<lambda>half.
       and_then (mul_panic 100 half) (\<lambda>den.
       from_ratio (widen num) (widen den)))))
     else from_ratio 0 100)))"

subsection \<open>Deposits and withdrawals\<close>

definition deposit_amounts ::
  "string \<Rightarrow> string \<Rightarrow> coin list \<Rightarrow> (std_error, u128 \<times> u128) result" where
  "deposit_amounts usdc atom coins =
     try_fold (\<lambda>(u, a) fund.
         if coin_denom fund = usdc then Ok (coin_amount fund, a)
         else if coin_denom fund = atom then Ok (u, coin_amount fund)
         else Err (GenericErr ''Invalid denom. Expected {} or {}'')) (0, 0) coins"

definition execute_deposit ::
  "env \<Rightarrow> message_info \<Rightarrow> auction \<Rightarrow> (std_error, auction \<times> msg list) result" where
  "execute_deposit env info s =
     and_then (auction_load_config s) (\<lambda>cfg.
     and_then (get_denoms cfg) (\<lambda>(usdc, atom).
     and_then (is_deposit_open (block_time env) cfg) (\<lambda>open'.
     if \<not> open' then Err (GenericErr ''Deposit window closed'')
     else
     and_then (deposit_amounts usdc atom (funds info))
       (\<lambda>(usdc_amount, atom_amount).
     if usdc_amount = 0 \<and> atom_amount = 0
     then Err (GenericErr ''You must send at least one of {} or {}'')
     else
     and_then (auction_load_state s) (\<lambda>st.
     let user = unwrap_or (may_load (a_users s) (sender info)) auction_user_default in
     and_then (add_panic (total_usdc_deposited st) usdc_amount) (\<lambda>tu.
     and_then (add_panic (total_atom_deposited st) atom_amount) (\<lambda>ta.
     and_then (add_panic (usdc_deposited user) usdc_amount) (\<lambda>uu.
     and_then (add_panic (atom_deposited user) atom_amount) (\<lambda>ua.
     Ok (s\<lparr>a_state := Some (st\<lparr>total_usdc_deposited := tu, total_atom_deposited := ta\<rparr>),
           a_users := save (sender info) (user\<lparr>usdc_deposited := uu, atom_deposited := ua\<rparr>)
             (a_users s)\<rparr>, []))))))))))"

definition auction_execute_withdraw ::
  "env \<Rightarrow> message_info \<Rightarrow> u128 \<Rightarrow> u128 \<Rightarrow> auction \<Rightarrow> (std_error, auction \<times> msg list) result" where
  "auction_execute_withdraw env info amount_usdc amount_atom s =
     and_then (auction_load_config s) (\<lambda>cfg.
     and_then (get_denoms cfg) (\<lambda>(usdc, atom).
     and_then (auction_load_state s) (\<lambda>st.
     and_then (auction_load_user s (sender info)) (\<lambda>user.
     if withdrawn user then Err (GenericErr ''Max 1 withdrawal allowed'')
     else
     and_then (allowed_withdrawal_percent (block_time env) cfg) (\<lambda>max_percent.
     and_then (mul_decimal (usdc_deposited user) max_percent) (\<lambda>max_usdc.
     and_then (mul_decimal (atom_deposited user) max_percent) (\<lambda>max_atom.
     if max_usdc < amount_usdc \<or> max_atom < amount_atom
     then Err (GenericErr ''Amount exceeds maximum allowed withdrawal limit of {}'')
     else if amount_usdc = 0 \<and> amount_atom = 0
     then Err (GenericErr ''At least one token must be withdrawn'')
     else
     and_then (add_panic (ac_init_timestamp cfg) (deposit_window cfg)) (\<lambda>window_end.
     let user = (if window_end \<le> block_time env then user\<lparr>withdrawn := True\<rparr> else user);
         usdc_msgs = (if 0 < amount_usdc
           then [BankSend (sender info) [\<lparr>coin_denom = usdc, coin_amount = amount_usdc\<rparr>]] else []);
         atom_msgs = (if 0 < amount_atom
           then [BankSend (sender info) [\<lparr>coin_denom = atom, coin_amount = amount_atom\<rparr>]] else []) in
     and_then (sub_panic (total_usdc_deposited st) amount_usdc) (\<lambda>tu.
     and_then (sub_panic (total_atom_deposited st) amount_atom) (\<lambda>ta.
     and_then (sub_panic (usdc_deposited user) amount_usdc) (\<lambda>uu.
     and_then (sub_panic (atom_deposited user) amount_atom) (\<lambda>ua.
     Ok (s\<lparr>a_state := Some (st\<lparr>total_usdc_deposited := tu, total_atom_deposited := ta\<rparr>),
           a_users := save (sender info) (user\<lparr>usdc_deposited := uu, atom_deposited := ua\<rparr>)
             (a_users s)\<rparr>, usdc_msgs @ atom_msgs)))))))))))))"

subsection \<open>Administration\<close>

definition validate_pool_info ::
  "('d) deps_scheme \<Rightarrow> pool_info \<Rightarrow> (std_error, pool_info) result" where
  "validate_pool_info d p =
     and_then (addr_validate d (ntrn_usdc_pool_address p)) (\<lambda>_.
     and_then (addr_validate d (ntrn_atom_pool_address p)) (\<lambda>_.
     and_then (addr_validate d (ntrn_usdc_lp_token_address p)) (\<lambda>_.
     and_then (addr_validate d (ntrn_atom_lp_token_address p)) (\<lambda>_. Ok p))))"

definition auction_update_config ::
  "('d) deps_scheme \<Rightarrow> message_info \<Rightarrow> auction_update_config_msg \<Rightarrow> auction
     \<Rightarrow> (std_error, auction \<times> msg list) result" where
  "auction_update_config d info m s =
     and_then (auction_load_config s) (\<lambda>cfg.
     if sender info \<noteq> ac_owner cfg then Err (GenericErr ''Only owner can update configuration'')
     else
     and_then (update_if (uc_owner m) (addr_validate d) (\<lambda>v c. c\<lparr>ac_owner := v\<rparr>) cfg) (\<lambda>cfg.
     and_then (update_if (uc_lockdrop_contract_address m) (addr_validate d)
       (\<lambda>v c. c\<lparr>lockdrop_contract_address := Some v\<rparr>) cfg) (\<lambda>cfg.
     and_then (update_if (uc_price_feed_contract m) (addr_validate d)
       (\<lambda>v c. c\<lparr>price_feed_contract := v\<rparr>) cfg) (\<lambda>cfg.
     and_then (update_if (uc_vesting_migration_pack_size m) Ok
       (\<lambda>v c. c\<lparr>vesting_migration_pack_size := v\<rparr>) cfg) (\<lambda>cfg.
     and_then (update_if (uc_pool_info m) (validate_pool_info d)
       (\<lambda>v c. c\<lparr>ac_pool_info := Some v\<rparr>) cfg) (\<lambda>cfg.
     Ok (s\<lparr>a_config := Some cfg\<rparr>, [])))))))"

definition execute_set_token_info ::
  "('d) deps_scheme \<Rightarrow> message_info \<Rightarrow> string option \<Rightarrow> string option \<Rightarrow> pool_info option \<Rightarrow> auction
     \<Rightarrow> (std_error, auction \<times> msg list) result" where
  "execute_set_token_info d info new_usdc new_atom new_pool_info s =
     and_then (auction_load_config s) (\<lambda>cfg.
     if sender info \<noteq> ac_token_info_manager cfg \<and> sender info \<noteq> ac_owner cfg
     then Err (GenericErr ''Only owner and denom_manager can update denoms'')
     else
     and_then (update_if new_usdc Ok (\<lambda>v c. c\<lparr>usdc_denom := Some v\<rparr>) cfg) (\<lambda>cfg.
     and_then (update_if new_atom Ok (\<lambda>v c. c\<lparr>atom_denom := Some v\<rparr>) cfg) (\<lambda>cfg.
     and_then (update_if new_pool_info (validate_pool_info d)
       (\<lambda>v c. c\<lparr>ac_pool_info := Some v\<rparr>) cfg) (\<lambda>cfg.
     Ok (s\<lparr>a_config := Some cfg\<rparr>, [])))))"

subsection \<open>Pool sizes\<close>

definition get_lp_size ::
  "('d) auction_deps_scheme \<Rightarrow> u128 \<Rightarrow> u128 \<Rightarrow> (std_error, u128) result" where
  "get_lp_size d token1 token2 =
     and_then (ok_or_panic (narrow (integer_sqrt d (unat token1 * unat token2)))) (\<lambda>root.
     map_err (\<lambda>_. GenericErr ''LP size is too big'') (checked_sub root minimum_liquidity_amount))"

definition execute_set_pool_size ::
  "('d) auction_deps_scheme \<Rightarrow> env \<Rightarrow> auction \<Rightarrow> (std_error, auction \<times> msg list) result" where
  "execute_set_pool_size d env s =
     and_then (auction_load_config s) (\<lambda>cfg.
     and_then (auction_load_state s) (\<lambda>st.
     if lp_usdc_shares_minted st \<noteq> None \<or> lp_atom_shares_minted st \<noteq> None
     then Err (GenericErr ''Liquidity already added'')
     else
     and_then (are_windows_closed (block_time env) cfg) (\<lambda>closed.
     if \<not> closed then Err (GenericErr ''Deposit/withdrawal windows are still open'')
     else if usdc_ntrn_size st \<noteq> 0 \<or> atom_ntrn_size st \<noteq> 0
     then Err (GenericErr ''Pool size has already been set'')
     else
     and_then (bank_balance d (this_contract env) (ac_ntrn_denom cfg)) (\<lambda>ntrn_amount.
     let usdc_amount = total_usdc_deposited st; atom_amount = total_atom_deposited st in
     and_then (query_rates d (price_feed_contract cfg)) (\<lambda>rates.
     case rates of
       [rate0, rate1] \<Rightarrow>
         and_then (sub_panic (block_time env) (max_exchange_rate_age cfg)) (\<lambda>oldest.
         if resolve_time rate0 < oldest then Err (GenericErr ''Price feed data is too old'')
         else if ntrn_amount < min_ntrn_amount cfg
         then Err (GenericErr ''Not enough NTRN in the contract. Min NTRN amount: {}'')
         else
         and_then (from_ratio (widen (rate rate1)) (widen (rate rate0))) (\<lambda>usdc_to_atom_rate.
         and_then (decimal_from_str_of atom_amount) (\<lambda>atom_dec.
         and_then (div_decimal atom_dec usdc_to_atom_rate) (\<lambda>atom_in_usdc.
         and_then (checked_add usdc_amount (to_uint_floor atom_in_usdc)) (\<lambda>all_in_usdc.
         and_then (from_ratio usdc_amount all_in_usdc) (\<lambda>div_ratio.
         and_then (mul_decimal ntrn_amount div_ratio) (\<lambda>usdc_size.
         and_then (sub_panic ntrn_amount usdc_size) (\<lambda>atom_size.
         and_then (get_lp_size d atom_size atom_amount) (\<lambda>atom_lp.
         and_then (get_lp_size d usdc_size usdc_amount) (\<lambda>usdc_lp.
         Ok (s\<lparr>a_state := Some (st\<lparr>usdc_ntrn_size := usdc_size, atom_ntrn_size := atom_size,
                                  atom_lp_size := atom_lp, usdc_lp_size := usdc_lp\<rparr>)\<rparr>, [])))))))))))
     | _ \<Rightarrow> Err (GenericErr ''Invalid price feed data''))))))"

subsection \<open>Pool creation\<close>

definition build_provide_liquidity_to_lp_pool_msg ::
  "string \<Rightarrow> u128 \<Rightarrow> string \<Rightarrow> u128 \<Rightarrow> string \<Rightarrow> msg" where
  "build_provide_liquidity_to_lp_pool_msg pool_address base_amount base_denom other_amount other_denom =
     (let base = native_asset base_denom base_amount;
          other = native_asset other_denom other_amount;
          coins = sort_key coin_denom
            [\<lparr>coin_denom = base_denom, coin_amount = base_amount\<rparr>,
             \<lparr>coin_denom = other_denom, coin_amount = other_amount\<rparr>]
      in WasmExecute pool_address (ProvideLiquidity [base, other] None None None) coins)"

definition get_lp_balances ::
  "('d) deps_scheme \<Rightarrow> addr \<Rightarrow> string \<Rightarrow> string \<Rightarrow> (std_error, u128 \<times> u128) result" where
  "get_lp_balances d owner_address usdc_token atom_token =
     and_then (query_token_balance d usdc_token owner_address) (\<lambda>usdc_lp.
     and_then (query_token_balance d atom_token owner_address) (\<lambda>atom_lp.
     Ok (usdc_lp, atom_lp)))"

definition execute_init_pool ::
  "('d) deps_scheme \<Rightarrow> env \<Rightarrow> auction \<Rightarrow> (std_error, auction \<times> msg list) result" where
  "execute_init_pool d env s =
     and_then (auction_load_config s) (\<lambda>cfg.
     and_then (get_denoms cfg) (\<lambda>(usdc, atom).
     and_then (auction_load_state s) (\<lambda>st.
     if lp_usdc_shares_minted st \<noteq> None \<or> lp_atom_shares_minted st \<noteq> None
     then Err (GenericErr ''Liquidity already added'')
     else if usdc_lp_size st = 0 \<and> atom_lp_size st = 0
     then Err (GenericErr ''Pool size has not been set'')
     else
     and_then (is_lock_window_closed (block_time env) cfg) (\<lambda>closed.
     if \<not> closed then Err (GenericErr ''Lock window is still open!'')
     else
     case ac_pool_info cfg of
       None \<Rightarrow> Err (GenericErr ''Pool info isn't set yet!'')
     | Some p \<Rightarrow>
         and_then (get_lp_balances d (this_contract env) (ntrn_usdc_lp_token_address p)
           (ntrn_atom_lp_token_address p)) (\<lambda>(cur_usdc, cur_atom).
         Ok (s,
           [build_provide_liquidity_to_lp_pool_msg (ntrn_usdc_pool_address p) (usdc_ntrn_size st)
              (ac_ntrn_denom cfg) (total_usdc_deposited st) usdc,
            build_provide_liquidity_to_lp_pool_msg (ntrn_atom_pool_address p) (atom_ntrn_size st)
              (ac_ntrn_denom cfg) (total_atom_deposited st) atom,
            WasmExecute (this_contract env)
              (FinalizePoolInitialization \<lparr>pb_atom = cur_atom, pb_usdc = cur_usdc\<rparr>) []]))))))"

definition execute_finalize_init_pool ::
  "('d) deps_scheme \<Rightarrow> env \<Rightarrow> message_info \<Rightarrow> pool_balance \<Rightarrow> auction
     \<Rightarrow> (std_error, auction \<times> msg list) result" where
  "execute_finalize_init_pool d env info prev s =
     (if sender info \<noteq> this_contract env then Err (GenericErr ''Unauthorized'')
      else
      and_then (auction_load_config s) (\<lambda>cfg.
      and_then (auction_load_state s) (\<lambda>st.
      and_then (ok_or (lockdrop_contract_address cfg)
        (GenericErr ''Lockdrop address is not set yet. Please set it first.'')) (\<lambda>lockdrop.
      case ac_pool_info cfg of
        None \<Rightarrow> Err (GenericErr ''Pool info isn't set yet!'')
      | Some p \<Rightarrow>
          and_then (get_lp_balances d (this_contract env) (ntrn_usdc_lp_token_address p)
            (ntrn_atom_lp_token_address p)) (\<lambda>(cur_usdc, cur_atom).
          and_then (sub_panic cur_usdc (pb_usdc prev)) (\<lambda>usdc_minted.
          and_then (sub_panic cur_atom (pb_atom prev)) (\<lambda>atom_minted.
          let usdc_to_reserve = usdc_minted div 2;
              atom_to_reserve = atom_minted div 2;
              st = st\<lparr>lp_atom_shares_minted := Some atom_minted,
                      lp_usdc_shares_minted := Some usdc_minted,
                      pool_init_timestamp := block_time env\<rparr>;
              reserve_msgs =
                [WasmExecute (ntrn_usdc_lp_token_address p)
                   (Cw20Transfer (reserve_contract_address cfg) usdc_to_reserve) [],
                 WasmExecute (ntrn_atom_lp_token_address p)
                   (Cw20Transfer (reserve_contract_address cfg) atom_to_reserve) []];
              atom_msgs = (if total_atom_lp_locked st \<noteq> 0
                then [WasmExecute (ntrn_atom_lp_token_address p)
                        (Cw20Send lockdrop (total_atom_lp_locked st)
                           (InitializePool ATOM (atom_ntrn_size st))) []] else []);
              usdc_msgs = (if total_usdc_lp_locked st \<noteq> 0
                then [WasmExecute (ntrn_usdc_lp_token_address p)
                        (Cw20Send lockdrop (total_usdc_lp_locked st)
                           (InitializePool USDC (usdc_ntrn_size st))) []] else [])
          in Ok (s\<lparr>a_state := Some st\<rparr>, reserve_msgs @ atom_msgs @ usdc_msgs))))))))"

subsection \<open>Shares of the users\<close>

record user_lp_info =
  atom_lp_amount :: u128
  usdc_lp_amount :: u128

definition get_user_lp_info ::
  "u128 \<Rightarrow> u128 \<Rightarrow> u128 \<Rightarrow> u128 \<Rightarrow> u128 \<Rightarrow> u128 \<Rightarrow> (std_error, user_lp_info) result" where
  "get_user_lp_info user_usdc user_atom total_usdc total_atom total_usdc_lp total_atom_lp =
     and_then (if total_atom = 0 then Ok 0
               else and_then (from_ratio user_atom total_atom) (\<lambda>q. mul_decimal total_atom_lp q))
       (\<lambda>atom_lp.
     and_then (if total_usdc = 0 then Ok 0
               else and_then (from_ratio user_usdc total_usdc) (\<lambda>q. mul_decimal total_usdc_lp q))
       (\<lambda>usdc_lp.
     Ok \<lparr>atom_lp_amount = atom_lp div 2, usdc_lp_amount = usdc_lp div 2\<rparr>))"

definition user_lp_info_of :: "auction_state \<Rightarrow> auction_user \<Rightarrow> (std_error, user_lp_info) result" where
  "user_lp_info_of st user =
     get_user_lp_info (usdc_deposited user) (atom_deposited user) (total_usdc_deposited st)
       (total_atom_deposited st) (usdc_lp_size st) (atom_lp_size st)"

definition execute_lock_lp_tokens ::
  "env \<Rightarrow> message_info \<Rightarrow> pool_type \<Rightarrow> u128 \<Rightarrow> u64 \<Rightarrow> auction
     \<Rightarrow> (std_error, auction \<times> msg list) result" where
  "execute_lock_lp_tokens env info asset amount duration s =
     and_then (auction_load_config s) (\<lambda>cfg.
     and_then (auction_load_state s) (\<lambda>st.
     and_then (auction_load_user s (sender info)) (\<lambda>user.
     if atom_ntrn_size st = 0 \<or> usdc_ntrn_size st = 0
     then Err (GenericErr ''Pool size isn't set yet!'')
     else
     and_then (is_lock_window_closed (block_time env) cfg) (\<lambda>closed.
     if closed then Err (GenericErr ''Lock window is closed!'')
     else
     and_then (ok_or (lockdrop_contract_address cfg)
       (GenericErr ''Lockdrop address is not set yet. Please set it first.'')) (\<lambda>lockdrop.
     and_then (user_lp_info_of st user) (\<lambda>lp.
     and_then (case asset of
         USDC \<Rightarrow>
           if usdc_deposited user = 0 then Err (GenericErr ''No USDC deposited!'')
           else
           and_then (sub_panic (usdc_lp_amount lp) (usdc_lp_locked user)) (\<lambda>free.
           if free < amount then Err (GenericErr ''Not enough USDC LP!'')
           else
           and_then (checked_add (usdc_lp_locked user) amount) (\<lambda>u.
           and_then (checked_add (total_usdc_lp_locked st) amount) (\<lambda>t.
           Ok (user\<lparr>usdc_lp_locked := u\<rparr>, st\<lparr>total_usdc_lp_locked := t\<rparr>))))
       | ATOM \<Rightarrow>
           if atom_deposited user = 0 then Err (GenericErr ''No ATOM deposited!'')
           else
           and_then (sub_panic (atom_lp_amount lp) (atom_lp_locked user)) (\<lambda>free.
           if free < amount then Err (GenericErr ''Not enough ATOM LP!'')
           else
           and_then (checked_add (atom_lp_locked user) amount) (\<lambda>u.
           and_then (checked_add (total_atom_lp_locked st) amount) (\<lambda>t.
           Ok (user\<lparr>atom_lp_locked := u\<rparr>, st\<lparr>total_atom_lp_locked := t\<rparr>)))))
       (\<lambda>(user, st).
     Ok (s\<lparr>a_users := save (sender info) user (a_users s), a_state := Some st\<rparr>,
         [WasmExecute lockdrop (IncreaseLockupFor (sender info) asset amount duration) []]))))))))"

definition execute_withdraw_lp_tokens ::
  "env \<Rightarrow> message_info \<Rightarrow> pool_type \<Rightarrow> u128 \<Rightarrow> u64 \<Rightarrow> auction
     \<Rightarrow> (std_error, auction \<times> msg list) result" where
  "execute_withdraw_lp_tokens env info asset amount duration s =
     and_then (auction_load_config s) (\<lambda>cfg.
     and_then (auction_load_state s) (\<lambda>st.
     and_then (auction_load_user s (sender info)) (\<lambda>user.
     if atom_ntrn_size st = 0 \<or> usdc_ntrn_size st = 0
     then Err (GenericErr ''Pool size isn't set yet!'')
     else
     and_then (is_lock_window_closed (block_time env) cfg) (\<lambda>closed.
     if closed then Err (GenericErr ''Lock window is closed!'')
     else
     and_then (ok_or (lockdrop_contract_address cfg)
       (GenericErr ''Lockdrop address is not set yet. Please set it first.'')) (\<lambda>lockdrop.
     and_then (case asset of
         USDC \<Rightarrow>
           and_then (checked_sub (usdc_lp_locked user) amount) (\<lambda>u.
           and_then (checked_sub (total_usdc_lp_locked st) amount) (\<lambda>t.
           Ok (user\<lparr>usdc_lp_locked := u\<rparr>, st\<lparr>total_usdc_lp_locked := t\<rparr>)))
       | ATOM \<Rightarrow>
           and_then (checked_sub (atom_lp_locked user) amount) (\<lambda>u.
           and_then (checked_sub (total_atom_lp_locked st) amount) (\<lambda>t.
           Ok (user\<lparr>atom_lp_locked := u\<rparr>, st\<lparr>total_atom_lp_locked := t\<rparr>))))
       (\<lambda>(user, st).
     Ok (s\<lparr>a_users := save (sender info) user (a_users s), a_state := Some st\<rparr>,
         [WasmExecute lockdrop (WithdrawFromLockup (sender info) asset amount duration) []])))))))"

subsection \<open>Migration of the remaining shares to vesting\<close>

text \<open>The loop state: the accounts to register at the ATOM and at the USDC vesting contract, the
  two amounts to send there, and the users map.\<close>

record migration =
  atom_users :: "vesting_account list"
  usdc_users :: "vesting_account list"
  mig_atom_lp :: u128
  mig_usdc_lp :: u128
  mig_users :: "(addr, auction_user) store"

definition linear_vesting_account :: "addr \<Rightarrow> u64 \<Rightarrow> u64 \<Rightarrow> u128 \<Rightarrow> vesting_account" where
  "linear_vesting_account a from_time to_time n =
     \<lparr>account_address = a,
      account_schedules = [\<lparr>start_point = \<lparr>point_time = from_time, point_amount = 0\<rparr>,
                            end_point = Some \<lparr>point_time = to_time, point_amount = n\<rparr>\<rparr>]\<rparr>"

definition push_vesting_account ::
  "env \<Rightarrow> auction_config \<Rightarrow> addr \<Rightarrow> u128 \<Rightarrow> vesting_account list \<Rightarrow> u128
     \<Rightarrow> (std_error, vesting_account list \<times> u128) result" where
  "push_vesting_account env cfg a n accounts lp_sum =
     (if n = 0 then Ok (accounts, lp_sum)
      else
      and_then (add_panic (block_time env) (vesting_lp_duration cfg)) (\<lambda>vesting_end.
      and_then (add_panic lp_sum n) (\<lambda>lp_sum.
      Ok (accounts @ [linear_vesting_account a (block_time env) vesting_end n], lp_sum))))"

definition migrate_user ::
  "env \<Rightarrow> auction_config \<Rightarrow> auction_state \<Rightarrow> migration \<Rightarrow> addr \<times> auction_user
     \<Rightarrow> (std_error, migration) result" where
  "migrate_user env cfg st = (\<lambda>m (a, user).
     and_then (user_lp_info_of st user) (\<lambda>lp.
     and_then (sub_panic (atom_lp_amount lp) (atom_lp_locked user)) (\<lambda>vest_atom.
     and_then (sub_panic (usdc_lp_amount lp) (usdc_lp_locked user)) (\<lambda>vest_usdc.
     and_then (push_vesting_account env cfg a vest_atom (atom_users m) (mig_atom_lp m))
       (\<lambda>(atoms, atom_total).
     and_then (push_vesting_account env cfg a vest_usdc (usdc_users m) (mig_usdc_lp m))
       (\<lambda>(usdcs, usdc_total).
     Ok \<lparr>atom_users = atoms, usdc_users = usdcs, mig_atom_lp = atom_total, mig_usdc_lp = usdc_total,
         mig_users = save a (user\<lparr>is_vested := True\<rparr>) (mig_users m)\<rparr>))))))"

definition execute_migrate_to_vesting ::
  "env \<Rightarrow> auction \<Rightarrow> (std_error, auction \<times> msg list) result" where
  "execute_migrate_to_vesting env s =
     and_then (auction_load_config s) (\<lambda>cfg.
     and_then (auction_load_state s) (\<lambda>st.
     let users = take (unat (vesting_migration_pack_size cfg)) (users_not_vested (a_users s)) in
     and_then (ok_or (ac_pool_info cfg)
       (GenericErr ''Pool info isn't set yet. Please set it first.'')) (\<lambda>p.
     if pool_init_timestamp st = 0 then Err (GenericErr ''Pool isn't initialized yet!'')
     else if users = [] then Err (GenericErr ''No users to migrate!'')
     else
     and_then (try_fold (migrate_user env cfg st)
       \<lparr>atom_users = [], usdc_users = [], mig_atom_lp = 0, mig_usdc_lp = 0, mig_users = a_users s\<rparr>
       users) (\<lambda>m.
     let atom_msgs = (if mig_atom_lp m \<noteq> 0
           then [WasmExecute (ntrn_atom_lp_token_address p)
                   (Cw20Send (vesting_atom_contract_address cfg) (mig_atom_lp m)
                      (RegisterVestingAccountsHook (atom_users m))) []] else []);
         usdc_msgs = (if mig_usdc_lp m \<noteq> 0
           then [WasmExecute (ntrn_usdc_lp_token_address p)
                   (Cw20Send (vesting_usdc_contract_address cfg) (mig_usdc_lp m)
                      (RegisterVestingAccountsHook (usdc_users m))) []] else [])
     in Ok (s\<lparr>a_users := mig_users m\<rparr>, atom_msgs @ usdc_msgs)))))"

subsection \<open>Queries and the entry point\<close>

record auction_user_info_response =
  ur_usdc_deposited :: u128
  ur_atom_deposited :: u128
  ur_withdrawn :: bool
  ur_usdc_lp_amount :: u128
  ur_atom_lp_amount :: u128
  ur_atom_lp_locked :: u128
  ur_usdc_lp_locked :: u128

definition auction_query_user_info ::
  "('d) deps_scheme \<Rightarrow> string \<Rightarrow> auction \<Rightarrow> (std_error, auction_user_info_response) result" where
  "auction_query_user_info d user_address s =
     and_then (auction_load_state s) (\<lambda>st.
     and_then (addr_validate d user_address) (\<lambda>a.
     let user = unwrap_or (may_load (a_users s) a) auction_user_default in
     and_then (user_lp_info_of st user) (\<lambda>lp.
     Ok \<lparr>ur_usdc_deposited = usdc_deposited user, ur_atom_deposited = atom_deposited user,
         ur_withdrawn = withdrawn user, ur_usdc_lp_amount = usdc_lp_amount lp,
         ur_atom_lp_amount = atom_lp_amount lp, ur_atom_lp_locked = atom_lp_locked user,
         ur_usdc_lp_locked = usdc_lp_locked user\<rparr>)))"

primrec auction_execute ::
  "('d) auction_deps_scheme \<Rightarrow> env \<Rightarrow> message_info \<Rightarrow> auction_execute_msg \<Rightarrow> auction
     \<Rightarrow> (std_error, auction \<times> msg list) result" where
  "auction_execute d env info (AuctionUpdateConfig m) s =
     auction_update_config d info m s"
| "auction_execute d env info (AuctionSetTokenInfo u a p) s =
     execute_set_token_info d info u a p s"
| "auction_execute d env info AuctionDeposit s = execute_deposit env info s"
| "auction_execute d env info (AuctionWithdraw au aa) s = auction_execute_withdraw env info au aa s"
| "auction_execute d env info AuctionInitPool s = execute_init_pool d env s"
| "auction_execute d env info AuctionSetPoolSize s = execute_set_pool_size d env s"
| "auction_execute d env info (AuctionLockLp p n t) s = execute_lock_lp_tokens env info p n t s"
| "auction_execute d env info (AuctionWithdrawLp p n t) s =
     execute_withdraw_lp_tokens env info p n t s"
| "auction_execute d env info AuctionMigrateToVesting s = execute_migrate_to_vesting env s"
| "auction_execute d env info (AuctionFinalize prev) s =
     execute_finalize_init_pool d env info prev s"

text \<open>The curve is the one that the lockdrop contract has too.\<close>

interpretation auction_curve: withdrawal_curve allowed_withdrawal_percent
  "\<lambda>cfg. unat (ac_init_timestamp cfg) + unat (deposit_window cfg)"
  "\<lambda>cfg. unat (ac_withdrawal_window cfg)"
proof (unfold_locales, goal_cases)
  case (1 t c q)
  then show ?case unfolding allowed_withdrawal_percent_def by (auto simp: word_less_nat_alt)
next
  case (2 t c q)
  then show ?case unfolding allowed_withdrawal_percent_def 
   by (auto simp: word_less_nat_alt word_le_nat_alt unat_div split: if_split_asm)
next
  case (3 t c q)
  then show ?case unfolding allowed_withdrawal_percent_def 
   by (auto simp: word_less_nat_alt word_le_nat_alt unat_div decay_atomics_def split: if_split_asm)
      (metis diff_add_inverse2)
next
  case (4 t c q)
  then show ?case unfolding allowed_withdrawal_percent_def 
   by (auto simp: word_less_nat_alt word_le_nat_alt unat_div split: if_split_asm)
qed

lemmas auction_ops = auction_update_config_def execute_set_token_info_def execute_deposit_def
  auction_execute_withdraw_def execute_init_pool_def execute_set_pool_size_def
  execute_lock_lp_tokens_def execute_withdraw_lp_tokens_def execute_migrate_to_vesting_def
  execute_finalize_init_pool_def auction_load_config_def auction_load_state_def
  auction_load_user_def get_denoms_def is_deposit_open_def are_windows_closed_def
  is_lock_window_closed_def allowed_withdrawal_percent_def deposit_amounts_def get_lp_size_def
  user_lp_info_of_def get_user_lp_info_def get_lp_balances_def validate_pool_info_def
  query_token_balance_def minimum_liquidity_amount_def update_if_def auction_user_default_def
  auction_state_default_def auction_instantiate_def auction_empty_def push_vesting_account_def
  migrate_user_def linear_vesting_account_def users_not_vested_def ntrn_denom_def

end
