(* ===== verification/Auction_Proofs.thy ===== *)
theory Auction_Proofs
  imports Auction
begin

text \<open>
  The invariants of the auction: the totals of the state are the sums over the users, deposits
  and withdrawals are over once the pool size is fixed, and nobody locks more than his half of
  the LP share. Each handler has an inversion rule; each invariant has a lemma per handler.
\<close>

subsection \<open>The books: totals and users agree\<close>

definition users_total :: "(auction_user \<Rightarrow> u128) \<Rightarrow> (addr, auction_user) store \<Rightarrow> nat" where
  "users_total f us = store_sum (\<lambda>_ u. unat (f u)) us"

definition totals_match :: "auction_state \<Rightarrow> (addr, auction_user) store \<Rightarrow> bool" where
  "totals_match st us \<longleftrightarrow>
     unat (total_usdc_deposited st) = users_total usdc_deposited us \<and>
     unat (total_atom_deposited st) = users_total atom_deposited us \<and>
     unat (total_usdc_lp_locked st) = users_total usdc_lp_locked us \<and>
     unat (total_atom_lp_locked st) = users_total atom_lp_locked us"

definition auction_wf :: "auction \<Rightarrow> bool" where
  "auction_wf s \<longleftrightarrow> store_ok (a_users s) \<and>
     (case a_state s of None \<Rightarrow> a_users s = [] | Some st \<Rightarrow> totals_match st (a_users s))"

lemma auction_user_default_simps [simp]:
  "usdc_deposited auction_user_default = 0" "atom_deposited auction_user_default = 0"
  "usdc_lp_locked auction_user_default = 0" "atom_lp_locked auction_user_default = 0"
  "is_vested auction_user_default = False" "withdrawn auction_user_default = False"
  by (simp_all add: auction_user_default_def)

lemma users_total_upsert:
  assumes "store_ok us" and "f auction_user_default = 0"
  shows "users_total f (save a v us) + unat (f (unwrap_or (map_of us a) auction_user_default))
    = users_total f us + unat (f v)"
  unfolding users_total_def
  by (rule cw.total_upsert [OF assms(1), of "\<lambda>_ u. unat (f u)"]) (simp add: assms)

lemma totals_match_save:
  assumes "store_ok us" and "totals_match st us"
    and "unat (total_usdc_deposited st') + unat (usdc_deposited (unwrap_or (map_of us a) auction_user_default))
       = unat (total_usdc_deposited st) + unat (usdc_deposited v)"
    and "unat (total_atom_deposited st') + unat (atom_deposited (unwrap_or (map_of us a) auction_user_default))
       = unat (total_atom_deposited st) + unat (atom_deposited v)"
    and "unat (total_usdc_lp_locked st') + unat (usdc_lp_locked (unwrap_or (map_of us a) auction_user_default))
       = unat (total_usdc_lp_locked st) + unat (usdc_lp_locked v)"
    and "unat (total_atom_lp_locked st') + unat (atom_lp_locked (unwrap_or (map_of us a) auction_user_default))
       = unat (total_atom_lp_locked st) + unat (atom_lp_locked v)"
  shows "totals_match st' (save a v us)"
  using assms(2-) users_total_upsert [OF assms(1), of usdc_deposited a v]
    users_total_upsert [OF assms(1), of atom_deposited a v]
    users_total_upsert [OF assms(1), of usdc_lp_locked a v]
    users_total_upsert [OF assms(1), of atom_lp_locked a v]
  by (simp add: totals_match_def)

lemmas load_defs = auction_load_config_def auction_load_state_def auction_load_user_def

lemma auction_wf_deposit:
  "execute_deposit env info s = Ok (s', ms) \<Longrightarrow> auction_wf s \<Longrightarrow> auction_wf s'"
  unfolding execute_deposit_def load_defs
  by (auto simp: Let_def auction_wf_def store_ok_save split: if_splits prod.splits
      intro!: totals_match_save)

lemma withdrawn_update_sel [simp]:
  "usdc_deposited (if b then u\<lparr>withdrawn := w\<rparr> else u) = usdc_deposited u"
  "atom_deposited (if b then u\<lparr>withdrawn := w\<rparr> else u) = atom_deposited u"
  "usdc_lp_locked (if b then u\<lparr>withdrawn := w\<rparr> else u) = usdc_lp_locked u"
  "atom_lp_locked (if b then u\<lparr>withdrawn := w\<rparr> else u) = atom_lp_locked u"
  by simp_all

lemma auction_wf_withdraw:
  "auction_execute_withdraw env info au aa s = Ok (s', ms) \<Longrightarrow> auction_wf s \<Longrightarrow> auction_wf s'"
  unfolding auction_execute_withdraw_def load_defs
  by (clarsimp simp: Let_def auction_wf_def store_ok_save split: prod.splits split del: if_split)
    (rule totals_match_save; simp split del: if_split)

lemma auction_wf_lock:
  "execute_lock_lp_tokens env info p n t s = Ok (s', ms) \<Longrightarrow> auction_wf s \<Longrightarrow> auction_wf s'"
  unfolding execute_lock_lp_tokens_def load_defs
  by (cases p) (auto simp: Let_def auction_wf_def store_ok_save split: prod.splits
      intro!: totals_match_save)

lemma auction_wf_unlock:
  "execute_withdraw_lp_tokens env info p n t s = Ok (s', ms) \<Longrightarrow> auction_wf s \<Longrightarrow> auction_wf s'"
  unfolding execute_withdraw_lp_tokens_def load_defs
  by (cases p) (auto simp: Let_def auction_wf_def store_ok_save split: prod.splits
      intro!: totals_match_save)

lemma two_elements_iff:
  "(case xs of [a, b] \<Rightarrow> f a b | _ \<Rightarrow> Err e) = Ok y \<longleftrightarrow> (\<exists>a b. xs = [a, b] \<and> f a b = Ok y)"
  by (auto split: list.splits)

lemma auction_wf_set_pool_size:
  "execute_set_pool_size d env s = Ok (s', ms) \<Longrightarrow> auction_wf s \<Longrightarrow> auction_wf s'"
  unfolding execute_set_pool_size_def load_defs
  by (auto simp: Let_def auction_wf_def totals_match_def two_elements_iff)

lemma auction_wf_finalize:
  "execute_finalize_init_pool d env info prev s = Ok (s', ms) \<Longrightarrow> auction_wf s \<Longrightarrow> auction_wf s'"
  unfolding execute_finalize_init_pool_def load_defs
  by (auto simp: Let_def auction_wf_def totals_match_def split: if_splits prod.splits option.splits)

lemma auction_wf_admin:
  "auction_update_config d info m s = Ok (s', ms) \<Longrightarrow> auction_wf s \<Longrightarrow> auction_wf s'"
  "execute_set_token_info d info u a p s = Ok (s', ms) \<Longrightarrow> auction_wf s \<Longrightarrow> auction_wf s'"
  "execute_init_pool d' env s = Ok (s', ms) \<Longrightarrow> auction_wf s \<Longrightarrow> auction_wf s'"
  unfolding auction_update_config_def execute_set_token_info_def execute_init_pool_def load_defs
  by (auto simp: auction_wf_def split: if_splits prod.splits option.splits)


lemma linear_vesting_account_total [simp]:
  "schedules_total (account_schedules (linear_vesting_account a t t' n)) = unat n"
  by (simp add: linear_vesting_account_def schedule_amount_def)

definition migration_ok :: "auction_state \<Rightarrow> migration \<Rightarrow> bool" where
  "migration_ok st m \<longleftrightarrow> store_ok (mig_users m) \<and> totals_match st (mig_users m) \<and>
     unat (mig_atom_lp m) = accounts_total (atom_users m) \<and>
     unat (mig_usdc_lp m) = accounts_total (usdc_users m)"

lemma push_vesting_account_Ok:
  "push_vesting_account env cfg a n accounts lp_sum = Ok (accounts', lp_sum') \<Longrightarrow>
   unat lp_sum' = unat lp_sum + unat n \<and>
   (\<exists>e. accounts' = accounts @
     (if n = 0 then [] else [linear_vesting_account a (block_time env) e n]))"
  by (auto simp: push_vesting_account_def split: if_splits)

lemma migrate_user_Ok:
  assumes "migrate_user env cfg st m (a, u) = Ok m'"
  shows "mig_users m' = save a (u\<lparr>is_vested := True\<rparr>) (mig_users m) \<and>
     (\<exists>lp va vu. user_lp_info_of st u = Ok lp \<and>
        unat (atom_lp_amount lp) = unat va + unat (atom_lp_locked u) \<and>
        unat (usdc_lp_amount lp) = unat vu + unat (usdc_lp_locked u) \<and>
        unat (mig_atom_lp m') = unat (mig_atom_lp m) + unat va \<and>
        unat (mig_usdc_lp m') = unat (mig_usdc_lp m) + unat vu \<and>
        (\<exists>e. atom_users m' = atom_users m @
          (if va = 0 then [] else [linear_vesting_account a (block_time env) e va])) \<and>
        (\<exists>e. usdc_users m' = usdc_users m @
          (if vu = 0 then [] else [linear_vesting_account a (block_time env) e vu])))"
  using assms unfolding migrate_user_def
  by (auto simp: word_unat_eq_iff [symmetric] split: prod.split_asm split del: if_split
      dest!: push_vesting_account_Ok)

lemma migrate_user_ok:
  assumes "migrate_user env cfg st m (a, u) = Ok m'" and "migration_ok st' m"
    and "map_of (mig_users m) a = Some u"
  shows "migration_ok st' m'"
proof -
  have "totals_match st' (mig_users m')"
    using migrate_user_Ok [OF assms(1)] assms(2,3)
    by (auto simp: migration_ok_def intro!: totals_match_save)
  then show ?thesis
    using migrate_user_Ok [OF assms(1)] assms(2)
    by (auto simp: migration_ok_def store_ok_save)
qed

lemma migrate_loop:
  assumes "try_fold (migrate_user env cfg st) m us = Ok m'" and "migration_ok st' m"
    and "distinct (map fst us)" and "\<And>a u. (a, u) \<in> set us \<Longrightarrow> map_of (mig_users m) a = Some u"
  shows "migration_ok st' m' \<and>
    map_of (mig_users m') =
      (\<lambda>a. case map_of us a of Some u \<Rightarrow> Some (u\<lparr>is_vested := True\<rparr>) | None \<Rightarrow> map_of (mig_users m) a)"
  using assms
proof (induction us arbitrary: m)
  case Nil
  then show ?case by simp
next
  case (Cons au us)
  obtain a u where au: "au = (a, u)" by (cases au)
  obtain k where k: "migrate_user env cfg st m (a, u) = Ok k"
    and rest: "try_fold (migrate_user env cfg st) k us = Ok m'"
    using Cons.prems(1) au by auto
  have users: "mig_users k = save a (u\<lparr>is_vested := True\<rparr>) (mig_users m)"
    using migrate_user_Ok [OF k] by simp
  have "migration_ok st' k"
    using migrate_user_ok [OF k Cons.prems(2)] Cons.prems(4) au by simp
  moreover have "map_of (mig_users k) b = Some w" if "(b, w) \<in> set us" for b w
  proof -
    have "b \<noteq> a" using that Cons.prems(3) au by force
    then show ?thesis using that Cons.prems(4) by (simp add: users map_of_save)
  qed
  ultimately have IH: "migration_ok st' m' \<and>
    map_of (mig_users m') =
      (\<lambda>a. case map_of us a of Some u \<Rightarrow> Some (u\<lparr>is_vested := True\<rparr>) | None \<Rightarrow> map_of (mig_users k) a)"
    using Cons.IH [OF rest] Cons.prems(3) by simp
  have "map_of us a = None"
    using Cons.prems(3) au by (simp add: map_of_eq_None_iff)
  with IH show ?case
    by (auto simp: au users map_of_save fun_eq_iff split: option.split)
qed

lemma not_vested_props:
  assumes "store_ok us"
  shows "distinct (map fst (take n (users_not_vested us)))"
    and "(a, u) \<in> set (take n (users_not_vested us)) \<Longrightarrow> map_of us a = Some u \<and> \<not> is_vested u"
proof -
  have "distinct (map fst (users_not_vested us))"
    using store_ok_distinct [OF assms] unfolding users_not_vested_def
    by (induction us) auto
  then show "distinct (map fst (take n (users_not_vested us)))"
    by (metis distinct_take take_map)
  show "(a, u) \<in> set (take n (users_not_vested us)) \<Longrightarrow> map_of us a = Some u \<and> \<not> is_vested u"
    using assms by (auto simp: users_not_vested_def dest!: in_set_takeD intro: store_ok_map_of)
qed

lemma auction_wf_migrate:
  assumes "execute_migrate_to_vesting env s = Ok (s', ms)" and "auction_wf s"
  shows "auction_wf s'"
proof -
  from assms(1) obtain cfg st m where st: "a_state s = Some st" and s': "s' = s\<lparr>a_users := mig_users m\<rparr>"
    and loop: "try_fold (migrate_user env cfg st)
       \<lparr>atom_users = [], usdc_users = [], mig_atom_lp = 0, mig_usdc_lp = 0, mig_users = a_users s\<rparr>
       (take (unat (vesting_migration_pack_size cfg)) (users_not_vested (a_users s))) = Ok m"
    unfolding execute_migrate_to_vesting_def load_defs by (auto simp: Let_def)
  from assms(2) st have ok: "store_ok (a_users s)" and tm: "totals_match st (a_users s)"
    by (simp_all add: auction_wf_def)
  have "migration_ok st m"
    using migrate_loop [OF loop _ not_vested_props(1) [OF ok], of st] not_vested_props(2) [OF ok] ok tm
    by (simp add: migration_ok_def)
  then show ?thesis by (simp add: s' st auction_wf_def migration_ok_def)
qed

theorem auction_wf_execute:
  assumes "auction_execute d env info m s = Ok (s', ms)" and "auction_wf s"
  shows "auction_wf s'"
  using assms
  by (cases m) (auto intro: auction_wf_deposit auction_wf_withdraw auction_wf_lock auction_wf_unlock
      auction_wf_set_pool_size auction_wf_finalize auction_wf_admin auction_wf_migrate)

definition lp_share :: "u128 \<Rightarrow> u128 \<Rightarrow> u128 \<Rightarrow> nat" where
  "lp_share part whole lp =
     (if whole = 0 then 0
      else unat lp * (unat part * DECIMAL_FRACTIONAL div unat whole) div DECIMAL_FRACTIONAL) div 2"

lemma user_lp_info_total:
  assumes "unat (usdc_deposited u) \<le> unat (total_usdc_deposited st)"
    and "unat (atom_deposited u) \<le> unat (total_atom_deposited st)"
  shows "\<exists>lp. user_lp_info_of st u = Ok lp"
  unfolding user_lp_info_of_def get_user_lp_info_def
  using decimal_share_total [OF assms(1), of "usdc_lp_size st"]
    decimal_share_total [OF assms(2), of "atom_lp_size st"] by force

lemma user_lp_info_amounts:
  assumes "user_lp_info_of st u = Ok lp"
  shows "unat (usdc_lp_amount lp) = lp_share (usdc_deposited u) (total_usdc_deposited st) (usdc_lp_size st)"
    and "unat (atom_lp_amount lp) = lp_share (atom_deposited u) (total_atom_deposited st) (atom_lp_size st)"
  using assms unfolding user_lp_info_of_def get_user_lp_info_def
  by (auto simp: lp_share_def unat_div split: if_split_asm)

lemma lp_share_bound: "2 * lp_share x t lp * unat t \<le> unat lp * unat x"
proof (cases "t = 0")
  case False
  have "2 * lp_share x t lp \<le> unat lp * (unat x * DECIMAL_FRACTIONAL div unat t) div DECIMAL_FRACTIONAL"
    using False by (simp add: lp_share_def)
  then have "2 * lp_share x t lp * unat t \<le> unat lp * (unat x * DECIMAL_FRACTIONAL div unat t) div DECIMAL_FRACTIONAL * unat t"
    by (rule mult_le_mono1)
  also have "\<dots> \<le> unat lp * unat x"
    by (rule decimal_share_floor_le)
  finally show ?thesis .
qed (simp add: lp_share_def)

lemma sum_of_shares:
  assumes sum: "store_sum (\<lambda>_ u. unat (dep u)) us = unat t"
    and le: "\<And>a u. (a, u) \<in> set us \<Longrightarrow> lk u \<le> lp_share (dep u) t lp"
  shows "store_sum (\<lambda>_ u. lk u) us \<le> unat lp div 2"
proof -
  have 1: "2 * store_sum (\<lambda>_ u. lk u) us * unat t \<le> unat lp * store_sum (\<lambda>_ u. unat (dep u)) us"
    using le
  proof (induction us)
    case (Cons au us)
    obtain a u where au: "au = (a, u)" by (cases au)
    have "2 * lk u * unat t \<le> unat lp * unat (dep u)"
      using Cons.prems [of a u] lp_share_bound [of "dep u" t lp] au
      by (smt (verit) le_trans list.set_intros(1) mult_le_mono1 mult_le_mono2)
    moreover have "2 * store_sum (\<lambda>_ u. lk u) us * unat t \<le> unat lp * store_sum (\<lambda>_ u. unat (dep u)) us"
      using Cons.prems by (intro Cons.IH) auto
    ultimately show ?case by (simp add: au algebra_simps)
  qed simp
  show ?thesis
  proof (cases "t = 0")
    case True
    then have "store_sum (\<lambda>_ u. lk u) us \<le> store_sum (\<lambda>_ u. 0) us"
      using le by (intro store_sum_mono) (fastforce simp: lp_share_def)
    also have "\<dots> = 0" by (induction us) auto
    finally show ?thesis by simp
  next
    case False
    then have "0 < unat t" by (simp add: unat_gt_0)
    then have "2 * store_sum (\<lambda>_ u. lk u) us \<le> unat lp"
      using 1 sum by (simp add: mult.commute)
    then show ?thesis by simp
  qed
qed


text \<open>The times that an administrator cannot change.\<close>

definition auction_times :: "auction_config \<Rightarrow> u64 \<times> u64 \<times> u64 \<times> u64" where
  "auction_times cfg = (ac_init_timestamp cfg, deposit_window cfg, ac_withdrawal_window cfg,
     lp_tokens_lock_window cfg)"

lemma auction_times_admin:
  "auction_update_config d info m s = Ok (s', ms) \<Longrightarrow>
     map_option auction_times (a_config s') = map_option auction_times (a_config s)"
  "execute_set_token_info d info u a p s = Ok (s', ms) \<Longrightarrow>
     map_option auction_times (a_config s') = map_option auction_times (a_config s)"
  unfolding auction_update_config_def execute_set_token_info_def load_defs
  by (auto simp: auction_times_def dest!: update_if_frame [where f = auction_times])

lemma config_frame_deposit: "execute_deposit env info s = Ok (s', ms) \<Longrightarrow> a_config s' = a_config s"
  unfolding execute_deposit_def
  by (clarsimp simp: Let_def two_elements_iff split: prod.splits option.splits split del: if_split)

lemma config_frame_withdraw: "auction_execute_withdraw env info au aa s = Ok (s', ms) \<Longrightarrow> a_config s' = a_config s"
  unfolding auction_execute_withdraw_def
  by (clarsimp simp: Let_def two_elements_iff split: prod.splits option.splits split del: if_split)

lemma config_frame_init_pool: "execute_init_pool d env s = Ok (s', ms) \<Longrightarrow> a_config s' = a_config s"
  unfolding execute_init_pool_def
  by (clarsimp simp: Let_def two_elements_iff split: prod.splits option.splits split del: if_split)

lemma config_frame_set_pool_size: "execute_set_pool_size d env s = Ok (s', ms) \<Longrightarrow> a_config s' = a_config s"
  unfolding execute_set_pool_size_def
  by (clarsimp simp: Let_def two_elements_iff split: prod.splits option.splits split del: if_split)

lemma config_frame_lock: "execute_lock_lp_tokens env info p n t s = Ok (s', ms) \<Longrightarrow> a_config s' = a_config s"
  unfolding execute_lock_lp_tokens_def
  by (clarsimp simp: Let_def two_elements_iff split: prod.splits option.splits split del: if_split)

lemma config_frame_unlock: "execute_withdraw_lp_tokens env info p n t s = Ok (s', ms) \<Longrightarrow> a_config s' = a_config s"
  unfolding execute_withdraw_lp_tokens_def
  by (clarsimp simp: Let_def two_elements_iff split: prod.splits option.splits split del: if_split)

lemma config_frame_migrate: "execute_migrate_to_vesting env s = Ok (s', ms) \<Longrightarrow> a_config s' = a_config s"
  unfolding execute_migrate_to_vesting_def
  by (clarsimp simp: Let_def two_elements_iff split: prod.splits option.splits split del: if_split)

lemma config_frame_finalize: "execute_finalize_init_pool d env info prev s = Ok (s', ms) \<Longrightarrow> a_config s' = a_config s"
  unfolding execute_finalize_init_pool_def
  by (clarsimp simp: Let_def two_elements_iff split: prod.splits option.splits split del: if_split)

lemmas auction_config_frame =
  config_frame_deposit config_frame_withdraw config_frame_init_pool config_frame_set_pool_size config_frame_lock config_frame_unlock config_frame_migrate config_frame_finalize

lemma auction_times_execute:
  "auction_execute d env info m s = Ok (s', ms) \<Longrightarrow>
     map_option auction_times (a_config s') = map_option auction_times (a_config s)"
  by (cases m) (auto simp: auction_config_frame auction_times_admin)

text \<open>Users and state are untouched by the administrator.\<close>

lemma auction_admin_frame:
  "auction_update_config d info m s = Ok (s', ms) \<Longrightarrow> a_state s' = a_state s \<and> a_users s' = a_users s"
  "execute_set_token_info d info u a p s = Ok (s', ms) \<Longrightarrow> a_state s' = a_state s \<and> a_users s' = a_users s"
  "execute_init_pool d env s = Ok (s', ms) \<Longrightarrow> a_state s' = a_state s \<and> a_users s' = a_users s"
  unfolding auction_update_config_def execute_set_token_info_def execute_init_pool_def
  by (auto split: option.splits prod.splits)


lemma are_windows_closed_Ok:
  "are_windows_closed t cfg = Ok b \<Longrightarrow>
   b = (unat (ac_init_timestamp cfg) + unat (deposit_window cfg) + unat (ac_withdrawal_window cfg) \<le> unat t)"
  by (auto simp: are_windows_closed_def word_le_nat_alt)

definition windows_end :: "auction_config \<Rightarrow> nat" where
  "windows_end cfg =
     unat (ac_init_timestamp cfg) + unat (deposit_window cfg) + unat (ac_withdrawal_window cfg)"

definition lock_bounded :: "auction_state \<Rightarrow> auction_user \<Rightarrow> bool" where
  "lock_bounded st u \<longleftrightarrow>
     unat (usdc_lp_locked u) \<le> lp_share (usdc_deposited u) (total_usdc_deposited st) (usdc_lp_size st) \<and>
     unat (atom_lp_locked u) \<le> lp_share (atom_deposited u) (total_atom_deposited st) (atom_lp_size st)"

definition nothing_locked :: "auction_user \<Rightarrow> bool" where
  "nothing_locked u \<longleftrightarrow> usdc_lp_locked u = 0 \<and> atom_lp_locked u = 0"

definition all_users :: "(auction_user \<Rightarrow> bool) \<Rightarrow> (addr, auction_user) store \<Rightarrow> bool" where
  "all_users P us \<longleftrightarrow> (\<forall>a u. map_of us a = Some u \<longrightarrow> P u)"

lemma all_users_save: "all_users P us \<Longrightarrow> P v \<Longrightarrow> all_users P (save a v us)"
  by (simp add: all_users_def map_of_save)

lemma all_users_load: "all_users P us \<Longrightarrow> map_of us a = Some u \<Longrightarrow> P u"
  by (auto simp: all_users_def)

lemma all_users_default:
  "all_users P us \<Longrightarrow> P auction_user_default \<Longrightarrow> P (unwrap_or (map_of us a) auction_user_default)"
  by (cases "map_of us a") (auto simp: all_users_def)

lemma all_users_mono: "all_users P us \<Longrightarrow> (\<And>u. P u \<Longrightarrow> Q u) \<Longrightarrow> all_users Q us"
  by (auto simp: all_users_def)

definition pool_size_set :: "auction_state \<Rightarrow> bool" where
  "pool_size_set st \<longleftrightarrow> usdc_ntrn_size st \<noteq> 0 \<and> atom_ntrn_size st \<noteq> 0"

definition phase_ok :: "u64 \<Rightarrow> auction_config \<Rightarrow> auction_state \<Rightarrow> (addr, auction_user) store \<Rightarrow> bool" where
  "phase_ok t cfg st us \<longleftrightarrow>
     (pool_size_set st \<longrightarrow> windows_end cfg \<le> unat t) \<and>
     (\<not> pool_size_set st \<longrightarrow> all_users nothing_locked us) \<and>
     all_users (lock_bounded st) us"

definition auction_phase :: "u64 \<Rightarrow> auction \<Rightarrow> bool" where
  "auction_phase t s \<longleftrightarrow>
     (\<forall>cfg st. a_config s = Some cfg \<longrightarrow> a_state s = Some st \<longrightarrow> 0 < ac_withdrawal_window cfg \<longrightarrow>
        phase_ok t cfg st (a_users s))"

lemma phase_ok_later: "phase_ok t cfg st us \<Longrightarrow> t \<le> t' \<Longrightarrow> phase_ok t' cfg st us"
  by (auto simp: phase_ok_def word_le_nat_alt)

lemma nothing_locked_bounded: "nothing_locked u \<Longrightarrow> lock_bounded st u"
  by (simp add: lock_bounded_def nothing_locked_def)

lemma auction_phaseD:
  "auction_phase t s \<Longrightarrow> t \<le> t' \<Longrightarrow> a_config s = Some cfg \<Longrightarrow> a_state s = Some st \<Longrightarrow>
   0 < ac_withdrawal_window cfg \<Longrightarrow> phase_ok t' cfg st (a_users s)"
  by (auto simp: auction_phase_def intro: phase_ok_later)

text \<open>A state whose pool size is not set, so that nothing is locked.\<close>

lemma phase_ok_open:
  "\<not> pool_size_set st \<Longrightarrow> all_users nothing_locked us \<Longrightarrow> phase_ok t cfg st us"
  by (auto simp: phase_ok_def intro: all_users_mono nothing_locked_bounded)


lemma deposit_inversion:
  assumes "execute_deposit env info s = Ok (s', ms)"
  obtains cfg usdc atom x y st user tu ta uu ua where
    "a_config s = Some cfg" "get_denoms cfg = Ok (usdc, atom)"
    "is_deposit_open (block_time env) cfg = Ok True" "a_state s = Some st" "x \<noteq> 0 \<or> y \<noteq> 0"
    "deposit_amounts usdc atom (funds info) = Ok (x, y)"
    "user = unwrap_or (map_of (a_users s) (sender info)) auction_user_default"
    "add_panic (total_usdc_deposited st) x = (Ok tu :: (std_error, u128) result)" "add_panic (total_atom_deposited st) y = (Ok ta :: (std_error, u128) result)"
    "add_panic (usdc_deposited user) x = (Ok uu :: (std_error, u128) result)" "add_panic (atom_deposited user) y = (Ok ua :: (std_error, u128) result)"
    "s' = s\<lparr>a_state := Some (st\<lparr>total_usdc_deposited := tu, total_atom_deposited := ta\<rparr>),
        a_users := save (sender info) (user\<lparr>usdc_deposited := uu, atom_deposited := ua\<rparr>) (a_users s)\<rparr>"
    "ms = []"
  using assms unfolding execute_deposit_def load_defs
  by (clarsimp simp: Let_def split: prod.splits split del: if_split simp del: uint_simps)

lemma withdraw_inversion:
  assumes "auction_execute_withdraw env info au aa s = Ok (s', ms)"
  obtains cfg usdc atom st user q mu ma we tu ta uu ua where
    "a_config s = Some cfg" "get_denoms cfg = Ok (usdc, atom)" "a_state s = Some st"
    "map_of (a_users s) (sender info) = Some user" "\<not> withdrawn user"
    "allowed_withdrawal_percent (block_time env) cfg = Ok q"
    "mul_decimal (usdc_deposited user) q = (Ok mu :: (std_error, u128) result)" "mul_decimal (atom_deposited user) q = (Ok ma :: (std_error, u128) result)"
    "au \<le> mu" "aa \<le> ma" "au \<noteq> 0 \<or> aa \<noteq> 0"
    "add_panic (ac_init_timestamp cfg) (deposit_window cfg) = (Ok we :: (std_error, u64) result)"
    "sub_panic (total_usdc_deposited st) au = (Ok tu :: (std_error, u128) result)" "sub_panic (total_atom_deposited st) aa = (Ok ta :: (std_error, u128) result)"
    "sub_panic (usdc_deposited user) au = (Ok uu :: (std_error, u128) result)" "sub_panic (atom_deposited user) aa = (Ok ua :: (std_error, u128) result)"
    "s' = s\<lparr>a_state := Some (st\<lparr>total_usdc_deposited := tu, total_atom_deposited := ta\<rparr>),
        a_users := save (sender info)
          ((if we \<le> block_time env then user\<lparr>withdrawn := True\<rparr> else user)
             \<lparr>usdc_deposited := uu, atom_deposited := ua\<rparr>) (a_users s)\<rparr>"
    "ms = (if 0 < au then [BankSend (sender info) [\<lparr>coin_denom = usdc, coin_amount = au\<rparr>]] else []) @
          (if 0 < aa then [BankSend (sender info) [\<lparr>coin_denom = atom, coin_amount = aa\<rparr>]] else [])"
  using assms unfolding auction_execute_withdraw_def load_defs
  by (clarsimp simp: Let_def not_less split: prod.splits split del: if_split simp del: uint_simps)


lemma withdrawn_flag_sel [simp]:
  "withdrawn (if b then u\<lparr>withdrawn := True\<rparr> else u) \<longleftrightarrow> b \<or> withdrawn u"
  "is_vested (if b then u\<lparr>withdrawn := w\<rparr> else u) = is_vested u"
  by simp_all

text \<open>Deposits and withdrawals are over once the pool size is set.\<close>

lemma deposit_before_end:
  assumes "execute_deposit env info s = Ok (s', ms)" and "a_config s = Some cfg"
  shows "unat (block_time env) < windows_end cfg"
  using assms(1)
proof (rule deposit_inversion)
  fix c assume "a_config s = Some c" "is_deposit_open (block_time env) c = Ok True"
  then show ?thesis using assms(2)
    by (auto simp: is_deposit_open_def windows_end_def word_less_nat_alt split: if_splits)
qed

lemma withdraw_before_end:
  assumes "auction_execute_withdraw env info au aa s = Ok (s', ms)" and "a_config s = Some cfg"
    and "0 < ac_withdrawal_window cfg"
  shows "unat (block_time env) < windows_end cfg"
  using assms(1)
proof (rule withdraw_inversion)
  fix c user q mu ma
  assume c: "a_config s = Some c" and q: "allowed_withdrawal_percent (block_time env) c = Ok q"
    and mu: "mul_decimal (usdc_deposited user) q = Ok mu" "mul_decimal (atom_deposited user) q = Ok ma"
    and lim: "au \<le> mu" "aa \<le> ma" "au \<noteq> 0 \<or> aa \<noteq> 0"
  have cfg: "c = cfg" using c assms(2) by simp
  have w: "unat (ac_withdrawal_window cfg) div 2 < unat (ac_withdrawal_window cfg)"
    using assms(3) by (simp add: word_less_nat_alt)
  show ?thesis
  proof (rule ccontr)
    assume late: "\<not> ?thesis"
    have "unat (atomics q) = 0"
      using late w cfg by (intro auction_curve.pct_closed [OF q]) (simp_all add: windows_end_def)
    with mu lim show False by (simp add: unat_eq_0)
  qed
qed

lemma phase_deposit:
  assumes "execute_deposit env info s = Ok (s', ms)" and ph: "auction_phase t s"
    and t: "t \<le> block_time env"
  shows "auction_phase (block_time env) s'"
  using assms(1)
proof (rule deposit_inversion)
  fix cfg st user tu ta uu ua
  assume cfg: "a_config s = Some cfg" and st: "a_state s = Some st"
    and user: "user = unwrap_or (map_of (a_users s) (sender info)) auction_user_default"
    and s': "s' = s\<lparr>a_state := Some (st\<lparr>total_usdc_deposited := tu, total_atom_deposited := ta\<rparr>),
        a_users := save (sender info) (user\<lparr>usdc_deposited := uu, atom_deposited := ua\<rparr>) (a_users s)\<rparr>"
  show ?thesis unfolding auction_phase_def s'
  proof (clarsimp simp: cfg, rule phase_ok_open)
    assume w: "0 < ac_withdrawal_window cfg"
    have ph: "phase_ok (block_time env) cfg st (a_users s)"
      by (rule auction_phaseD [OF assms(2) t cfg st w])
    with deposit_before_end [OF assms(1) cfg]
    have open': "\<not> pool_size_set st" and un: "all_users nothing_locked (a_users s)"
      by (auto simp: phase_ok_def)
    show "\<not> pool_size_set (st\<lparr>total_usdc_deposited := tu, total_atom_deposited := ta\<rparr>)"
      using open' by (simp add: pool_size_set_def)
    have "nothing_locked user"
      unfolding user by (rule all_users_default [OF un]) (simp add: nothing_locked_def)
    then show "all_users nothing_locked
        (save (sender info) (user\<lparr>usdc_deposited := uu, atom_deposited := ua\<rparr>) (a_users s))"
      by (intro all_users_save un) (simp add: nothing_locked_def)
  qed
qed

lemma phase_withdraw:
  assumes "auction_execute_withdraw env info au aa s = Ok (s', ms)" and ph: "auction_phase t s"
    and t: "t \<le> block_time env"
  shows "auction_phase (block_time env) s'"
  using assms(1)
proof (rule withdraw_inversion)
  fix cfg st user tu ta uu ua we
  assume cfg: "a_config s = Some cfg" and st: "a_state s = Some st"
    and user: "map_of (a_users s) (sender info) = Some user"
    and s': "s' = s\<lparr>a_state := Some (st\<lparr>total_usdc_deposited := tu, total_atom_deposited := ta\<rparr>),
        a_users := save (sender info) ((if we \<le> block_time env then user\<lparr>withdrawn := True\<rparr> else user)
             \<lparr>usdc_deposited := uu, atom_deposited := ua\<rparr>) (a_users s)\<rparr>"
  show ?thesis unfolding auction_phase_def s'
  proof (clarsimp simp: cfg split del: if_split, rule phase_ok_open)
    assume w: "0 < ac_withdrawal_window cfg"
    have ph: "phase_ok (block_time env) cfg st (a_users s)"
      by (rule auction_phaseD [OF assms(2) t cfg st w])
    with withdraw_before_end [OF assms(1) cfg w]
    have open': "\<not> pool_size_set st" and un: "all_users nothing_locked (a_users s)"
      by (auto simp: phase_ok_def)
    show "\<not> pool_size_set (st\<lparr>total_usdc_deposited := tu, total_atom_deposited := ta\<rparr>)"
      using open' by (simp add: pool_size_set_def)
    have "nothing_locked user" by (rule all_users_load [OF un user])
    then show "all_users nothing_locked
        (save (sender info) ((if we \<le> block_time env then user\<lparr>withdrawn := True\<rparr> else user)
             \<lparr>usdc_deposited := uu, atom_deposited := ua\<rparr>) (a_users s))"
      by (intro all_users_save un) (simp add: nothing_locked_def)
  qed
qed



lemma lock_inversion:
  assumes "execute_lock_lp_tokens env info p n dur s = Ok (s', ms)"
  obtains cfg st user lockdrop lp u k where
    "a_config s = Some cfg" "a_state s = Some st" "map_of (a_users s) (sender info) = Some user"
    "pool_size_set st" "is_lock_window_closed (block_time env) cfg = Ok False"
    "lockdrop_contract_address cfg = Some lockdrop" "user_lp_info_of st user = Ok lp"
    "case p of
       USDC \<Rightarrow> usdc_deposited user \<noteq> 0 \<and> unat u = unat (usdc_lp_locked user) + unat n \<and>
         unat u \<le> unat (usdc_lp_amount lp) \<and> unat k = unat (total_usdc_lp_locked st) + unat n \<and>
         s' = s\<lparr>a_users := save (sender info) (user\<lparr>usdc_lp_locked := u\<rparr>) (a_users s),
                a_state := Some (st\<lparr>total_usdc_lp_locked := k\<rparr>)\<rparr>
     | ATOM \<Rightarrow> atom_deposited user \<noteq> 0 \<and> unat u = unat (atom_lp_locked user) + unat n \<and>
         unat u \<le> unat (atom_lp_amount lp) \<and> unat k = unat (total_atom_lp_locked st) + unat n \<and>
         s' = s\<lparr>a_users := save (sender info) (user\<lparr>atom_lp_locked := u\<rparr>) (a_users s),
                a_state := Some (st\<lparr>total_atom_lp_locked := k\<rparr>)\<rparr>"
    "ms = [WasmExecute lockdrop (IncreaseLockupFor (sender info) p n dur) []]"
  using assms unfolding execute_lock_lp_tokens_def load_defs
  by (cases p) (auto simp: pool_size_set_def not_less word_le_nat_alt intro!: that)

lemma unlock_inversion:
  assumes "execute_withdraw_lp_tokens env info p n dur s = Ok (s', ms)"
  obtains cfg st user lockdrop u k where
    "a_config s = Some cfg" "a_state s = Some st" "map_of (a_users s) (sender info) = Some user"
    "pool_size_set st" "is_lock_window_closed (block_time env) cfg = Ok False"
    "lockdrop_contract_address cfg = Some lockdrop"
    "case p of
       USDC \<Rightarrow> unat (usdc_lp_locked user) = unat u + unat n \<and>
         unat (total_usdc_lp_locked st) = unat k + unat n \<and>
         s' = s\<lparr>a_users := save (sender info) (user\<lparr>usdc_lp_locked := u\<rparr>) (a_users s),
                a_state := Some (st\<lparr>total_usdc_lp_locked := k\<rparr>)\<rparr>
     | ATOM \<Rightarrow> unat (atom_lp_locked user) = unat u + unat n \<and>
         unat (total_atom_lp_locked st) = unat k + unat n \<and>
         s' = s\<lparr>a_users := save (sender info) (user\<lparr>atom_lp_locked := u\<rparr>) (a_users s),
                a_state := Some (st\<lparr>total_atom_lp_locked := k\<rparr>)\<rparr>"
    "ms = [WasmExecute lockdrop (WithdrawFromLockup (sender info) p n dur) []]"
  using assms unfolding execute_withdraw_lp_tokens_def load_defs
  by (cases p) (auto simp: pool_size_set_def intro!: that)

lemma lock_bounded_sel [simp]:
  "lock_bounded (st\<lparr>total_usdc_lp_locked := k\<rparr>) = lock_bounded st"
  "lock_bounded (st\<lparr>total_atom_lp_locked := k\<rparr>) = lock_bounded st"
  "pool_size_set (st\<lparr>total_usdc_lp_locked := k\<rparr>) = pool_size_set st"
  "pool_size_set (st\<lparr>total_atom_lp_locked := k\<rparr>) = pool_size_set st"
  by (auto simp: fun_eq_iff lock_bounded_def pool_size_set_def)

lemma phase_ok_save:
  "phase_ok t cfg st us \<Longrightarrow> pool_size_set st \<Longrightarrow> lock_bounded st v \<Longrightarrow> phase_ok t cfg st (save a v us)"
  by (simp add: phase_ok_def all_users_save)

lemma phase_ok_locked_sel [simp]:
  "phase_ok t cfg (st\<lparr>total_usdc_lp_locked := k\<rparr>) us = phase_ok t cfg st us"
  "phase_ok t cfg (st\<lparr>total_atom_lp_locked := k\<rparr>) us = phase_ok t cfg st us"
  by (simp_all add: phase_ok_def)

lemma phase_lock:
  assumes "execute_lock_lp_tokens env info p n dur s = Ok (s', ms)" and ph: "auction_phase t s"
    and t: "t \<le> block_time env"
  shows "auction_phase (block_time env) s'"
  using assms(1)
proof (rule lock_inversion, goal_cases)
  case (1 cfg st user lockdrop lp u k)
  note ok = auction_phaseD [OF ph t 1(1,2)]
  then have b: "lock_bounded st user" if "0 < ac_withdrawal_window cfg"
    using that 1(3) by (auto simp: phase_ok_def intro: all_users_load)
  show ?case using 1 ok b user_lp_info_amounts [OF 1(7)]
    by (cases p) (auto simp: auction_phase_def lock_bounded_def intro!: phase_ok_save)
qed

lemma phase_unlock:
  assumes "execute_withdraw_lp_tokens env info p n dur s = Ok (s', ms)" and ph: "auction_phase t s"
    and t: "t \<le> block_time env"
  shows "auction_phase (block_time env) s'"
  using assms(1)
proof (rule unlock_inversion, goal_cases)
  case (1 cfg st user lockdrop u k)
  note ok = auction_phaseD [OF ph t 1(1,2)]
  then have b: "lock_bounded st user" if "0 < ac_withdrawal_window cfg"
    using that 1(3) by (auto simp: phase_ok_def intro: all_users_load)
  show ?case using 1 ok b
    by (cases p) (auto simp: auction_phase_def lock_bounded_def intro!: phase_ok_save)
qed

lemma set_pool_size_inversion:
  assumes "execute_set_pool_size d env s = Ok (s', ms)"
  obtains cfg st ntrn r0 r1 q dec aiu all_usdc ratio x y la lu where
    "a_config s = Some cfg" "a_state s = Some st"
    "lp_usdc_shares_minted st = None" "lp_atom_shares_minted st = None"
    "are_windows_closed (block_time env) cfg = Ok True"
    "usdc_ntrn_size st = 0" "atom_ntrn_size st = 0"
    "bank_balance d (this_contract env) (ac_ntrn_denom cfg) = Ok ntrn"
    "query_rates d (price_feed_contract cfg) = Ok [r0, r1]" "min_ntrn_amount cfg \<le> ntrn"
    "from_ratio (widen (rate r1)) (widen (rate r0)) = (Ok q :: (std_error, decimal) result)"
    "decimal_from_str_of (total_atom_deposited st) = Ok dec" "div_decimal dec q = (Ok aiu :: (std_error, decimal) result)"
    "checked_add (total_usdc_deposited st) (to_uint_floor aiu) = Ok all_usdc"
    "from_ratio (total_usdc_deposited st) all_usdc = (Ok ratio :: (std_error, decimal) result)" "mul_decimal ntrn ratio = (Ok x :: (std_error, u128) result)"
    "sub_panic ntrn x = (Ok y :: (std_error, u128) result)"
    "get_lp_size d y (total_atom_deposited st) = Ok la"
    "get_lp_size d x (total_usdc_deposited st) = Ok lu"
    "s' = s\<lparr>a_state := Some (st\<lparr>usdc_ntrn_size := x, atom_ntrn_size := y, atom_lp_size := la,
        usdc_lp_size := lu\<rparr>)\<rparr>" "ms = []"
  using assms unfolding execute_set_pool_size_def load_defs
  by (clarsimp simp: Let_def two_elements_iff not_less simp del: uint_simps)

lemma phase_set_pool_size:
  assumes "execute_set_pool_size d env s = Ok (s', ms)" and ph: "auction_phase t s"
    and t: "t \<le> block_time env"
  shows "auction_phase (block_time env) s'"
  using assms(1)
proof (rule set_pool_size_inversion, goal_cases)
  case (1 cfg st ntrn r0 r1 q dec aiu all_usdc ratio x y la lu)
  have "all_users nothing_locked (a_users s)" if "0 < ac_withdrawal_window cfg"
    using auction_phaseD [OF ph t 1(1,2) that] 1(6,7) by (simp add: phase_ok_def pool_size_set_def)
  moreover have "windows_end cfg \<le> unat (block_time env)"
    using are_windows_closed_Ok [OF 1(5)] by (simp add: windows_end_def)
  ultimately show ?case using 1(1,20)
    by (auto simp: auction_phase_def phase_ok_def intro: all_users_mono nothing_locked_bounded)
qed

lemma migrate_inversion:
  assumes "execute_migrate_to_vesting env s = Ok (s', ms)"
  obtains cfg st p m where
    "a_config s = Some cfg" "a_state s = Some st" "ac_pool_info cfg = Some p"
    "pool_init_timestamp st \<noteq> 0"
    "take (unat (vesting_migration_pack_size cfg)) (users_not_vested (a_users s)) \<noteq> []"
    "try_fold (migrate_user env cfg st)
       \<lparr>atom_users = [], usdc_users = [], mig_atom_lp = 0, mig_usdc_lp = 0, mig_users = a_users s\<rparr>
       (take (unat (vesting_migration_pack_size cfg)) (users_not_vested (a_users s))) = Ok m"
    "s' = s\<lparr>a_users := mig_users m\<rparr>"
    "ms = (if mig_atom_lp m \<noteq> 0
           then [WasmExecute (ntrn_atom_lp_token_address p)
                   (Cw20Send (vesting_atom_contract_address cfg) (mig_atom_lp m)
                      (RegisterVestingAccountsHook (atom_users m))) []] else []) @
          (if mig_usdc_lp m \<noteq> 0
           then [WasmExecute (ntrn_usdc_lp_token_address p)
                   (Cw20Send (vesting_usdc_contract_address cfg) (mig_usdc_lp m)
                      (RegisterVestingAccountsHook (usdc_users m))) []] else [])"
  using assms unfolding execute_migrate_to_vesting_def load_defs
  by (clarsimp simp: Let_def split del: if_split)

lemma migrate_loop_users:
  assumes "try_fold (migrate_user env cfg st) m us = Ok m'"
    and "all_users P (mig_users m)" and "\<And>a u. (a, u) \<in> set us \<Longrightarrow> P (u\<lparr>is_vested := True\<rparr>)"
  shows "all_users P (mig_users m')"
  using assms(1)
proof (rule try_fold_invariant [where P = "\<lambda>m. all_users P (mig_users m)"])
  show "all_users P (mig_users m)" by (rule assms)
  fix r au u assume *: "au \<in> set us" "all_users P (mig_users r)" "migrate_user env cfg st r au = Ok u"
  obtain a w where "au = (a, w)" by (cases au)
  then show "all_users P (mig_users u)"
    using * assms(3) [of a w] by (auto dest!: migrate_user_Ok intro!: all_users_save)
qed

lemma phase_migrate:
  assumes "execute_migrate_to_vesting env s = Ok (s', ms)" and ph: "auction_phase t s"
    and t: "t \<le> block_time env" and wf: "store_ok (a_users s)"
  shows "auction_phase (block_time env) s'"
  using assms(1)
proof (rule migrate_inversion, goal_cases)
  case (1 cfg st p m)
  have keep: "all_users P (mig_users m)"
    if "all_users P (a_users s)" "\<And>u. P u \<Longrightarrow> P (u\<lparr>is_vested := True\<rparr>)" for P
    using that not_vested_props(2) [OF wf] by (intro migrate_loop_users [OF 1(6)]) (auto simp: all_users_def, metis)
  have "phase_ok (block_time env) cfg st (mig_users m)" if "0 < ac_withdrawal_window cfg"
    using auction_phaseD [OF ph t 1(1,2) that] unfolding phase_ok_def
    by (auto intro!: keep simp: nothing_locked_def lock_bounded_def)
  then show ?case using 1(1,2,7) by (auto simp: auction_phase_def)
qed

lemma finalize_inversion:
  assumes "execute_finalize_init_pool d env info prev s = Ok (s', ms)"
  obtains cfg st lockdrop p cu ca u a where
    "sender info = this_contract env" "a_config s = Some cfg" "a_state s = Some st"
    "lockdrop_contract_address cfg = Some lockdrop" "ac_pool_info cfg = Some p"
    "get_lp_balances d (this_contract env) (ntrn_usdc_lp_token_address p)
       (ntrn_atom_lp_token_address p) = Ok (cu, ca)"
    "sub_panic cu (pb_usdc prev) = (Ok u :: (std_error, u128) result)" "sub_panic ca (pb_atom prev) = (Ok a :: (std_error, u128) result)"
    "s' = s\<lparr>a_state := Some (st\<lparr>lp_atom_shares_minted := Some a, lp_usdc_shares_minted := Some u,
        pool_init_timestamp := block_time env\<rparr>)\<rparr>"
    "ms = [WasmExecute (ntrn_usdc_lp_token_address p)
             (Cw20Transfer (reserve_contract_address cfg) (u div 2)) [],
           WasmExecute (ntrn_atom_lp_token_address p)
             (Cw20Transfer (reserve_contract_address cfg) (a div 2)) []] @
          (if total_atom_lp_locked st \<noteq> 0
           then [WasmExecute (ntrn_atom_lp_token_address p)
                   (Cw20Send lockdrop (total_atom_lp_locked st)
                      (InitializePool ATOM (atom_ntrn_size st))) []] else []) @
          (if total_usdc_lp_locked st \<noteq> 0
           then [WasmExecute (ntrn_usdc_lp_token_address p)
                   (Cw20Send lockdrop (total_usdc_lp_locked st)
                      (InitializePool USDC (usdc_ntrn_size st))) []] else [])"
  using assms unfolding execute_finalize_init_pool_def load_defs
  by (clarsimp simp: Let_def split: option.splits prod.splits split del: if_split simp del: uint_simps
      cong: if_cong)

lemma phase_finalize:
  assumes "execute_finalize_init_pool d env info prev s = Ok (s', ms)" and ph: "auction_phase t s"
    and t: "t \<le> block_time env"
  shows "auction_phase (block_time env) s'"
  using assms(1)
proof (rule finalize_inversion, goal_cases)
  case (1 cfg st lockdrop p cu ca u a)
  have "lock_bounded (st\<lparr>lp_atom_shares_minted := x, lp_usdc_shares_minted := y, pool_init_timestamp := z\<rparr>)
      = lock_bounded st" for x y z by (auto simp: fun_eq_iff lock_bounded_def)
  then show ?case using 1(2,3,9) auction_phaseD [OF ph t 1(2,3)]
    by (auto simp: auction_phase_def phase_ok_def pool_size_set_def)
qed

lemma phase_admin:
  assumes "map_option auction_times (a_config s') = map_option auction_times (a_config s)"
    and "a_state s' = a_state s \<and> a_users s' = a_users s" and "auction_phase t s" and "t \<le> t'"
  shows "auction_phase t' s'"
  unfolding auction_phase_def
proof (intro allI impI)
  fix cfg' st assume c: "a_config s' = Some cfg'" "a_state s' = Some st" "0 < ac_withdrawal_window cfg'"
  then obtain cfg where cfg: "a_config s = Some cfg" "auction_times cfg' = auction_times cfg"
    using assms(1) by (cases "a_config s") auto
  have "phase_ok t' cfg st (a_users s)"
    using c cfg assms(2) by (intro auction_phaseD [OF assms(3,4)]) (auto simp: auction_times_def)
  then show "phase_ok t' cfg' st (a_users s')"
    using cfg(2) assms(2) by (simp add: phase_ok_def windows_end_def auction_times_def)
qed

lemma phase_init_pool:
  assumes "execute_init_pool d env s = Ok (s', ms)" and "auction_phase t s" and "t \<le> t'"
  shows "auction_phase t' s'"
proof (rule phase_admin [OF _ auction_admin_frame(3) [OF assms(1)] assms(2,3)])
  show "map_option auction_times (a_config s') = map_option auction_times (a_config s)"
    by (simp only: config_frame_init_pool [OF assms(1)])
qed

text \<open>States that the contract can reach, with the time of the last block.\<close>

inductive auction_reachable :: "u64 \<Rightarrow> auction \<Rightarrow> bool" where
  start: "auction_instantiate (d :: deps) env info m auction_empty = Ok (s, ms) \<Longrightarrow>
     auction_reachable (block_time env) s"
| step: "auction_reachable t s \<Longrightarrow> t \<le> block_time env \<Longrightarrow>
     auction_execute (d :: auction_deps) env info m s = Ok (s', ms) \<Longrightarrow>
     auction_reachable (block_time env) s'"

lemma instantiate_Ok:
  "auction_instantiate d env info m s = Ok (s', ms) \<Longrightarrow>
   (\<exists>cfg. a_config s' = Some cfg \<and> ac_withdrawal_window cfg = im_withdrawal_window m) \<and>
   a_state s' = Some auction_state_default \<and> a_users s' = a_users s \<and> ms = []"
  by (auto simp: auction_instantiate_def split: if_splits)

lemma auction_phase_execute:
  assumes "auction_execute d env info m s = Ok (s', ms)" and "auction_phase t s" and "auction_wf s"
    and "t \<le> block_time env"
  shows "auction_phase (block_time env) s'"
proof -
  have ok: "store_ok (a_users s)" using assms(3) by (simp add: auction_wf_def)
  show ?thesis
    using assms(1,2,4) ok
    by (cases m) (auto intro: phase_deposit phase_withdraw phase_lock phase_unlock phase_set_pool_size
        phase_finalize phase_migrate phase_admin [OF auction_times_admin(1) auction_admin_frame(1)]
        phase_admin [OF auction_times_admin(2) auction_admin_frame(2)]
        phase_init_pool)
qed

lemma auction_reachable_inv: "auction_reachable t s \<Longrightarrow> auction_wf s \<and> auction_phase t s"
proof (induction rule: auction_reachable.induct)
  case (start d env info m s ms)
  then show ?case using instantiate_Ok [OF start]
    by (auto simp: auction_wf_def auction_empty_def auction_state_default_def totals_match_def
        users_total_def auction_phase_def phase_ok_def pool_size_set_def all_users_def)
next
  case (step t s env d info m s' ms)
  then show ?case using auction_wf_execute auction_phase_execute by blast
qed

text \<open>A deposit takes the coins it was sent; the chain lists every denom at most once.\<close>

lemma deposit_amounts_total:
  assumes "deposit_amounts usdc atom coins = Ok (x, y)" and "usdc \<noteq> atom"
    and "distinct (map coin_denom coins)"
  shows "unat x = coins_total usdc coins \<and> unat y = coins_total atom coins"
proof -
  have absent: "coins_total den cs = 0" if "den \<notin> coin_denom ` set cs" for den cs
    using that by (induction cs) auto
  have "(if usdc \<in> coin_denom ` set coins then unat x = coins_total usdc coins else x = u) \<and>
      (if atom \<in> coin_denom ` set coins then unat y = coins_total atom coins else y = a)"
    if "try_fold (\<lambda>(u, a) fund.
         if coin_denom fund = usdc then Ok (coin_amount fund, a)
         else if coin_denom fund = atom then Ok (u, coin_amount fund)
         else Err (GenericErr ''Invalid denom. Expected {} or {}'')) (u, a) coins = Ok (x, y)" for u a
    using that assms(3)
  proof (induction coins arbitrary: u a)
    case (Cons c cs)
    then show ?case using assms(2) absent [of usdc cs] absent [of atom cs]
      by (auto split: if_splits)
  qed simp
  from this [OF assms(1) [unfolded deposit_amounts_def]] show ?thesis
    using absent [of usdc coins] absent [of atom coins] by (auto split: if_splits)
qed

end
