(* ===== verification/Lockdrop.thy ===== *)
theory Lockdrop
  imports Ownership Withdrawal_Curve
begin

text \<open>
  The lockdrop contract, \<open>contracts/lockdrop\<close>: LP shares that the auction locks on behalf of its
  users. The auction is the only caller that opens, grows and shrinks lockups; a user claims
  rewards, and takes the shares back after the lockup's end; a user's lockups can be migrated to
  the PCL lockdrop contract.

  State: the items \<open>CONFIG\<close>, \<open>STATE\<close>, \<open>PCL_LOCKDROP_CONTRACT\<close> and \<open>OWNERSHIP_PROPOSAL\<close>, and the
  maps \<open>ASSET_POOLS\<close>, \<open>USER_INFO\<close>, \<open>LOCKUP_INFO\<close> and \<open>TOTAL_USER_LOCKUP_AMOUNT\<close>. The two snapshot maps
  hold their current values; a query at a past height takes the logged value as an argument. A
  value of \<open>LOCKUP_INFO\<close> may still be in the format of an older version of the contract
  (\<open>OLD_LOCKUP_INFO\<close> reads the same keys), which the constructor \<open>LockupV1\<close> records.

  The generator, the LP tokens, the pair and the credits contract are other contracts: what the
  code asks them are fields of \<open>lockdrop_deps\<close>.
\<close>

subsection \<open>Data\<close>

record lockup_rewards_info =
  lr_duration :: u64
  lr_coefficient :: decimal256

record lockdrop_config =
  lc_owner :: addr
  lc_token_info_manager :: addr
  lc_credits_contract :: addr
  lc_auction_contract :: addr
  lc_generator :: "addr option"
  lc_init_timestamp :: u64
  lc_lock_window :: u64
  lc_withdrawal_window :: u64
  lc_min_lock_duration :: u64
  lc_max_lock_duration :: u64
  lockdrop_incentives :: u128
  max_positions_per_user :: u32
  lc_lockup_rewards_info :: "lockup_rewards_info list"

record lockdrop_pool =
  lp_token :: addr
  amount_in_lockups :: u128
  incentives_share :: u128
  weighted_amount :: u256
  generator_ntrn_per_share :: decimal
  generator_proxy_per_share :: "(asset_info, decimal) restricted_vector"
  is_staked :: bool

record lockup_info_v1 =
  v1_lp_units_locked :: u128
  v1_astroport_lp_transferred :: "u128 option"
  v1_withdrawal_flag :: bool
  v1_ntrn_rewards :: u128
  v1_generator_ntrn_debt :: u128
  v1_generator_proxy_debt :: u128
  v1_unlock_timestamp :: u64

datatype stored_lockup = LockupV1 lockup_info_v1 | LockupV2 lockup_info

type_synonym lockup_key = "pool_type \<times> addr \<times> u64"

record lockdrop =
  l_config :: "lockdrop_config option"
  l_state :: "u128 option"               \<comment> \<open>\<open>State\<close>: its one field \<open>total_incentives_share\<close>\<close>
  l_pcl_contract :: "addr option"
  l_pools :: "(pool_type, lockdrop_pool) store"
  l_users :: "(addr, lockdrop_user_info) store"
  l_lockups :: "(lockup_key, stored_lockup) store"
  l_totals :: "(pool_type \<times> addr, u128) store"
  l_proposal :: "ownership_proposal option"

definition lockdrop_empty :: lockdrop where
  "lockdrop_empty = \<lparr>l_config = None, l_state = None, l_pcl_contract = None, l_pools = [],
     l_users = [], l_lockups = [], l_totals = [], l_proposal = None\<rparr>"

definition user_info_default :: lockdrop_user_info where
  "user_info_default = \<lparr>total_ntrn_rewards = 0, ntrn_transferred = False, lockup_positions_index = 0\<rparr>"

record pending_token_response =
  pending :: u128
  pending_on_proxy :: "asset list option"

text \<open>The first three are smart queries of the generator, given the generator, the LP token and,
  where the query has it, the staker; \<open>gen_pool_proxies\<close> are the proxies of the pool's
  \<open>accumulated_proxy_rewards_per_share\<close>. The three \<open>raw_\<close> fields read another contract's storage
  and find nothing when the key is absent. Then the LP token's minter, the pair's assets, and the
  credits contract's two amounts of a user.\<close>

record lockdrop_deps = deps +
  gen_pending_token :: "addr \<Rightarrow> addr \<Rightarrow> addr \<Rightarrow> (std_error, pending_token_response) result"
  gen_base_reward_token :: "addr \<Rightarrow> addr \<Rightarrow> (std_error, asset_info) result"
  gen_deposit :: "addr \<Rightarrow> addr \<Rightarrow> addr \<Rightarrow> (std_error, u128) result"
  gen_pool_proxies :: "addr \<Rightarrow> addr \<Rightarrow> (std_error, addr list) result"
  raw_user_info_amount :: "addr \<Rightarrow> addr \<Rightarrow> addr \<Rightarrow> (std_error, u128 option) result"
  raw_cw20_balance :: "addr \<Rightarrow> addr \<Rightarrow> (std_error, u128 option) result"
  raw_proxy_reward_asset :: "addr \<Rightarrow> addr \<Rightarrow> (std_error, asset_info option) result"
  cw20_minter :: "addr \<Rightarrow> (std_error, addr) result"
  pair_assets :: "addr \<Rightarrow> (std_error, asset list) result"
  credits_withdrawable :: "addr \<Rightarrow> addr \<Rightarrow> (std_error, u128) result"
  credits_vested :: "addr \<Rightarrow> addr \<Rightarrow> (std_error, u128) result"

record lockdrop_instantiate_msg =
  li_owner :: "string option"
  li_token_info_manager :: string
  li_credits_contract :: string
  li_auction_contract :: string
  li_init_timestamp :: u64
  li_lock_window :: u64
  li_withdrawal_window :: u64
  li_min_lock_duration :: u64
  li_max_lock_duration :: u64
  li_max_positions_per_user :: u32
  li_lockup_rewards_info :: "lockup_rewards_info list"

datatype lockdrop_execute_msg =
    LIncreaseLockupFor string pool_type u128 u64
  | LReceive string u128 cw20_hook               \<comment> \<open>cw20 sender, amount, hook\<close>
  | LIncreaseNTRNIncentives
  | LUpdateConfig "string option" "string option" \<comment> \<open>auction, generator\<close>
  | LSetTokenInfo string string string            \<comment> \<open>atom, usdc, generator\<close>
  | LWithdrawFromLockup string pool_type u64 u128
  | LClaimRewardsAndOptionallyUnlock pool_type u64 bool
  | LCallback lockdrop_callback
  | LProposeNewOwner string u64
  | LDropOwnershipProposal
  | LClaimOwnership
  | LMigrateLiquidityToPCLPools "string option"

type_synonym lockdrop_result = "(std_error, lockdrop \<times> msg list) result"

subsection \<open>Loading\<close>

definition lockdrop_load_config :: "lockdrop \<Rightarrow> (std_error, lockdrop_config) result" where
  "lockdrop_load_config s = load_item (l_config s) (NotFound ''config'')"

definition lockdrop_load_state :: "lockdrop \<Rightarrow> (std_error, u128) result" where
  "lockdrop_load_state s = load_item (l_state s) (NotFound ''state'')"

definition load_pool :: "lockdrop \<Rightarrow> pool_type \<Rightarrow> (std_error, lockdrop_pool) result" where
  "load_pool s p = ok_or (may_load (l_pools s) p) (NotFound ''pool'')"

definition load_user_or_default :: "lockdrop \<Rightarrow> addr \<Rightarrow> lockdrop_user_info" where
  "load_user_or_default s a = unwrap_or (may_load (l_users s) a) user_info_default"

definition raw_generator_deposit ::
  "('d) lockdrop_deps_scheme \<Rightarrow> addr \<Rightarrow> addr \<Rightarrow> addr \<Rightarrow> (std_error, u128) result" where
  "raw_generator_deposit d generator lp account =
     and_then (raw_user_info_amount d generator lp account) (\<lambda>res.
     case res of Some amount \<Rightarrow> Ok amount | None \<Rightarrow> Ok 0)"

definition raw_balance :: "('d) lockdrop_deps_scheme \<Rightarrow> addr \<Rightarrow> addr \<Rightarrow> (std_error, u128) result" where
  "raw_balance d token account =
     and_then (raw_cw20_balance d token account) (\<lambda>res.
     case res of Some amount \<Rightarrow> Ok amount | None \<Rightarrow> Ok 0)"

definition raw_proxy_asset ::
  "('d) lockdrop_deps_scheme \<Rightarrow> addr \<Rightarrow> addr \<Rightarrow> (std_error, asset_info) result" where
  "raw_proxy_asset d generator proxy =
     and_then (raw_proxy_reward_asset d generator proxy) (\<lambda>res.
     case res of Some ai \<Rightarrow> Ok ai | None \<Rightarrow> Err (GenericErr ''Proxy asset not found: {}''))"

text \<open>A lockup in the old format is converted; its proxy debt is booked on the reward asset of the
  generator's first proxy.\<close>

definition convert_v1 ::
  "('d) lockdrop_deps_scheme \<Rightarrow> lockdrop \<Rightarrow> lockup_key \<Rightarrow> addr option \<Rightarrow> lockup_info_v1
     \<Rightarrow> (std_error, lockup_info) result" where
  "convert_v1 d s key generator old =
     and_then (ok_or_panic generator) (\<lambda>generator.
     and_then
       (if v1_generator_proxy_debt old \<noteq> 0 then
          and_then (load_pool s (fst key)) (\<lambda>asset.
          and_then (gen_pool_proxies d generator (lp_token asset)) (\<lambda>proxies.
          and_then (case proxies of p # _ \<Rightarrow> Ok p
              | [] \<Rightarrow> Err (GenericErr ''Proxy rewards not found: {}'')) (\<lambda>proxy.
          and_then (raw_proxy_asset d generator proxy) (\<lambda>reward_asset.
          map_ok fst (rv_update checked_add [] reward_asset (v1_generator_proxy_debt old))))))
        else Ok []) (\<lambda>proxy_debt.
     Ok \<lparr>lp_units_locked = v1_lp_units_locked old,
         astroport_lp_transferred = v1_astroport_lp_transferred old,
         withdrawal_flag = v1_withdrawal_flag old,
         ntrn_rewards = v1_ntrn_rewards old,
         generator_ntrn_debt = v1_generator_ntrn_debt old,
         generator_proxy_debt = proxy_debt,
         unlock_timestamp = v1_unlock_timestamp old\<rparr>))"

definition compatible_load ::
  "('d) lockdrop_deps_scheme \<Rightarrow> lockdrop \<Rightarrow> lockup_key \<Rightarrow> addr option
     \<Rightarrow> (std_error, lockup_info) result" where
  "compatible_load d s key generator =
     (case may_load (l_lockups s) key of
        None \<Rightarrow> Err (NotFound ''lockup_info'')
      | Some (LockupV2 li) \<Rightarrow> Ok li
      | Some (LockupV1 old) \<Rightarrow> convert_v1 d s key generator old)"

definition compatible_may_load ::
  "('d) lockdrop_deps_scheme \<Rightarrow> lockdrop \<Rightarrow> lockup_key \<Rightarrow> addr option
     \<Rightarrow> (std_error, lockup_info option) result" where
  "compatible_may_load d s key generator =
     (if \<not> has (l_lockups s) key then Ok None
      else map_ok Some (compatible_load d s key generator))"

text \<open>The durations of a user's lockups in a pool, and all of a user's lockups: pools in key order,
  durations ascending.\<close>

definition lockup_durations :: "lockdrop \<Rightarrow> pool_type \<Rightarrow> addr \<Rightarrow> u64 list" where
  "lockup_durations s p a =
     map (\<lambda>((p', a', dur), _). dur) (filter (\<lambda>((p', a', dur), _). p' = p \<and> a' = a) (l_lockups s))"

definition user_lockups :: "lockdrop \<Rightarrow> addr \<Rightarrow> (pool_type \<times> u64) list" where
  "user_lockups s a =
     concat (map (\<lambda>p. map (Pair p) (lockup_durations s p a)) (store_keys (l_pools s)))"

subsection \<open>Instantiation and administration\<close>

definition lockdrop_instantiate ::
  "('d) deps_scheme \<Rightarrow> env \<Rightarrow> message_info \<Rightarrow> lockdrop_instantiate_msg \<Rightarrow> lockdrop \<Rightarrow> lockdrop_result" where
  "lockdrop_instantiate d env info m s =
     (if li_init_timestamp m < block_time env
      then Err (GenericErr ''Invalid init_timestamp. Current timestamp : {}'')
      else if li_max_lock_duration m < li_min_lock_duration m \<or> li_min_lock_duration m = 0
      then Err (GenericErr ''Invalid Lockup durations'')
      else if li_lockup_rewards_info m = []
      then Err (GenericErr ''Invalid lockup rewards info'')
      else if \<exists>lr \<in> set (li_lockup_rewards_info m). lr_duration lr = 0
      then Err (GenericErr ''Invalid Lockup info rewards duration'')
      else if li_max_positions_per_user m < 1
      then Err (GenericErr ''The maximum number of locked positions per user cannot be lower than a minimum acceptable value.'')
      else
      and_then (map_ok (\<lambda>o'. unwrap_or o' (sender info)) (try_opt (addr_validate d) (li_owner m))) (\<lambda>owner.
      and_then (addr_validate d (li_token_info_manager m)) (\<lambda>manager.
      and_then (addr_validate d (li_credits_contract m)) (\<lambda>credits.
      and_then (addr_validate d (li_auction_contract m)) (\<lambda>auction.
      Ok (s\<lparr>l_config := Some
              \<lparr>lc_owner = owner, lc_token_info_manager = manager, lc_credits_contract = credits,
               lc_auction_contract = auction, lc_generator = None,
               lc_init_timestamp = li_init_timestamp m, lc_lock_window = li_lock_window m,
               lc_withdrawal_window = li_withdrawal_window m,
               lc_min_lock_duration = li_min_lock_duration m,
               lc_max_lock_duration = li_max_lock_duration m, lockdrop_incentives = 0,
               max_positions_per_user = li_max_positions_per_user m,
               lc_lockup_rewards_info = li_lockup_rewards_info m\<rparr>,
            l_state := Some 0\<rparr>, []))))))"

definition lockdrop_migrate :: "('d) deps_scheme \<Rightarrow> string \<Rightarrow> lockdrop \<Rightarrow> lockdrop_result" where
  "lockdrop_migrate d pcl_lockdrop_contract s =
     and_then (addr_validate d pcl_lockdrop_contract) (\<lambda>a.
     Ok (s\<lparr>l_pcl_contract := Some a\<rparr>, []))"

definition handle_update_config ::
  "('d) deps_scheme \<Rightarrow> message_info \<Rightarrow> string option \<Rightarrow> string option \<Rightarrow> lockdrop \<Rightarrow> lockdrop_result" where
  "handle_update_config d info new_auction new_generator s =
     and_then (lockdrop_load_config s) (\<lambda>cfg.
     if sender info \<noteq> lc_owner cfg then Err (GenericErr ''Unauthorized'')
     else
     and_then (update_if new_auction (addr_validate d) (\<lambda>v c. c\<lparr>lc_auction_contract := v\<rparr>) cfg) (\<lambda>cfg.
     and_then (case new_generator of
         None \<Rightarrow> Ok cfg
       | Some generator \<Rightarrow>
           and_then
             (if lc_generator cfg \<noteq> None \<and> (\<exists>pool \<in> snd ` set (l_pools s). is_staked pool)
              then Err (GenericErr ''{:?} astro LP tokens already staked. Unstake them before updating generator'')
              else Ok ()) (\<lambda>_.
           and_then (addr_validate d generator) (\<lambda>g. Ok (cfg\<lparr>lc_generator := Some g\<rparr>)))) (\<lambda>cfg.
     Ok (s\<lparr>l_config := Some cfg\<rparr>, []))))"

definition new_lockdrop_pool :: "addr \<Rightarrow> lockdrop_pool" where
  "new_lockdrop_pool lp =
     \<lparr>lp_token = lp, amount_in_lockups = 0, incentives_share = 0, weighted_amount = 0,
      generator_ntrn_per_share = decimal_zero, generator_proxy_per_share = [], is_staked = False\<rparr>"

definition handle_set_token_info ::
  "('d) deps_scheme \<Rightarrow> message_info \<Rightarrow> string \<Rightarrow> string \<Rightarrow> string \<Rightarrow> lockdrop \<Rightarrow> lockdrop_result" where
  "handle_set_token_info d info usdc_token atom_token generator s =
     and_then (lockdrop_load_config s) (\<lambda>cfg.
     if sender info \<noteq> lc_owner cfg \<and> sender info \<noteq> lc_token_info_manager cfg
     then Err (GenericErr ''Unauthorized'')
     else
     and_then (addr_validate d atom_token) (\<lambda>atom.
     and_then (addr_validate d usdc_token) (\<lambda>usdc.
     and_then (addr_validate d generator) (\<lambda>generator.
     Ok (s\<lparr>l_pools := save USDC (new_lockdrop_pool usdc) (save ATOM (new_lockdrop_pool atom) (l_pools s)),
           l_config := Some (cfg\<lparr>lc_generator := Some generator\<rparr>)\<rparr>, [])))))"

text \<open>The end of the withdrawal window, computed as the code does.\<close>

definition lock_window_end :: "lockdrop_config \<Rightarrow> (std_error, u64) result" where
  "lock_window_end cfg = add_panic (lc_init_timestamp cfg) (lc_lock_window cfg)"

definition withdrawal_window_end :: "lockdrop_config \<Rightarrow> (std_error, u64) result" where
  "withdrawal_window_end cfg =
     and_then (lock_window_end cfg) (\<lambda>x. add_panic x (lc_withdrawal_window cfg))"

definition handle_increasing_ntrn_incentives ::
  "env \<Rightarrow> message_info \<Rightarrow> lockdrop \<Rightarrow> lockdrop_result" where
  "handle_increasing_ntrn_incentives env info s =
     and_then (lockdrop_load_config s) (\<lambda>cfg.
     and_then (withdrawal_window_end cfg) (\<lambda>window_end.
     if window_end \<le> block_time env then Err (GenericErr ''Lock window is closed'')
     else
     and_then (case List.find (\<lambda>c. coin_denom c = ntrn_denom) (funds info) of
         Some coin \<Rightarrow> Ok (coin_amount coin)
       | None \<Rightarrow> Err (GenericErr ''{} is not found'')) (\<lambda>amount.
     and_then (checked_add (lockdrop_incentives cfg) amount) (\<lambda>incentives.
     Ok (s\<lparr>l_config := Some (cfg\<lparr>lockdrop_incentives := incentives\<rparr>)\<rparr>, [])))))"

definition stake_messages ::
  "lockdrop_config \<Rightarrow> u64 \<Rightarrow> addr \<Rightarrow> u128 \<Rightarrow> (std_error, msg list) result" where
  "stake_messages cfg height lp amount =
     and_then (ok_or (lc_generator cfg) (GenericErr ''Generator address hasn't set yet!'')) (\<lambda>generator.
     Ok [WasmExecute lp (Cw20IncreaseAllowance generator amount height) [],
         WasmExecute lp (Cw20Send generator amount GeneratorDeposit) []])"

definition handle_initialize_pool ::
  "env \<Rightarrow> message_info \<Rightarrow> pool_type \<Rightarrow> addr \<Rightarrow> u128 \<Rightarrow> u128 \<Rightarrow> lockdrop \<Rightarrow> lockdrop_result" where
  "handle_initialize_pool env info p cw20_sender share amount s =
     and_then (lockdrop_load_config s) (\<lambda>cfg.
     and_then (lockdrop_load_state s) (\<lambda>total_share.
     if cw20_sender \<noteq> lc_auction_contract cfg then Err (GenericErr ''Unauthorized'')
     else
     and_then (load_pool s p) (\<lambda>pool.
     if sender info \<noteq> lp_token pool then Err (GenericErr ''Unknown cw20 token address'')
     else
     let pool = pool\<lparr>incentives_share := share\<rparr> in
     and_then (add_panic (block_height env) 1) (\<lambda>height.
     and_then (stake_messages cfg height (lp_token pool) amount) (\<lambda>stake_msgs.
     let pool = pool\<lparr>is_staked := True\<rparr> in
     and_then (checked_add total_share share) (\<lambda>total_share.
     Ok (s\<lparr>l_pools := save p pool (l_pools s), l_state := Some total_share\<rparr>, stake_msgs)))))))"

definition lockdrop_receive_cw20 ::
  "('d) deps_scheme \<Rightarrow> env \<Rightarrow> message_info \<Rightarrow> string \<Rightarrow> u128 \<Rightarrow> cw20_hook \<Rightarrow> lockdrop \<Rightarrow> lockdrop_result" where
  "lockdrop_receive_cw20 d env info cw20_sender amount hook s =
     and_then (addr_validate d cw20_sender) (\<lambda>cw20_sender.
     if amount = 0 then Err (GenericErr ''Number of tokens sent should be > 0 '')
     else case hook of
       InitializePool p share \<Rightarrow> handle_initialize_pool env info p cw20_sender share amount s
     | _ \<Rightarrow> Err ParseErr)"

subsection \<open>Weights and incentives\<close>

definition calculate_weight :: "u128 \<Rightarrow> u64 \<Rightarrow> lockdrop_config \<Rightarrow> (std_error, u256) result" where
  "calculate_weight amount dur cfg =
     (case List.find (\<lambda>lr. lr_duration lr = dur) (lc_lockup_rewards_info cfg) of
        Some lr \<Rightarrow>
          and_then (dec256_add_panic decimal256_one (lr_coefficient lr)) (\<lambda>lock_weight.
          map_ok u256_of_u128 (checked_mul_uint256 lock_weight (u256_of_u128 amount)))
      | None \<Rightarrow> Err (GenericErr ''invalid duration''))"

definition calculate_astro_incentives_for_lockup ::
  "u256 \<Rightarrow> u256 \<Rightarrow> u128 \<Rightarrow> u128 \<Rightarrow> u128 \<Rightarrow> (std_error, u128) result" where
  "calculate_astro_incentives_for_lockup weighted total_weighted share total_share incentives =
     (if total_share = 0 \<or> total_weighted = 0 then Ok 0
      else
      and_then (checked_mul (u256_of_u128 share) weighted) (\<lambda>num.
      and_then (checked_mul (u256_of_u128 total_share) total_weighted) (\<lambda>den.
      and_then (from_ratio256 num den) (\<lambda>q.
      checked_mul_uint256 q (u256_of_u128 incentives)))))"

definition lockup_incentives ::
  "lockdrop_config \<Rightarrow> u128 \<Rightarrow> lockdrop_pool \<Rightarrow> u64 \<Rightarrow> lockup_info \<Rightarrow> (std_error, u128) result" where
  "lockup_incentives cfg total_share pool dur li =
     and_then (calculate_weight (lp_units_locked li) dur cfg) (\<lambda>weighted.
     calculate_astro_incentives_for_lockup weighted (weighted_amount pool) (incentives_share pool)
       total_share (lockdrop_incentives cfg))"

text \<open>One lockup in \<open>update_user_lockup_positions_and_calc_rewards\<close>: a reward that was calculated
  before is kept. The loop state is the contract and the sum so far.\<close>

definition calc_lockup_reward ::
  "('d) lockdrop_deps_scheme \<Rightarrow> lockdrop_config \<Rightarrow> u128 \<Rightarrow> addr \<Rightarrow> lockdrop \<times> u128
     \<Rightarrow> pool_type \<times> u64 \<Rightarrow> (std_error, lockdrop \<times> u128) result" where
  "calc_lockup_reward d cfg total_share a = (\<lambda>(s, acc) (p, dur).
     and_then (load_pool s p) (\<lambda>pool.
     and_then (compatible_load d s (p, a, dur) (lc_generator cfg)) (\<lambda>li.
     and_then
       (if ntrn_rewards li = 0 then
          and_then (lockup_incentives cfg total_share pool dur li) (\<lambda>r.
          let li = li\<lparr>ntrn_rewards := r\<rparr> in
          Ok (s\<lparr>l_lockups := save (p, a, dur) (LockupV2 li) (l_lockups s)\<rparr>, li))
        else Ok (s, li)) (\<lambda>(s, li).
     and_then (checked_add acc (ntrn_rewards li)) (\<lambda>acc.
     Ok (s, acc))))))"

definition update_user_lockup_positions_and_calc_rewards ::
  "('d) lockdrop_deps_scheme \<Rightarrow> lockdrop_config \<Rightarrow> u128 \<Rightarrow> addr \<Rightarrow> lockdrop
     \<Rightarrow> (std_error, lockdrop \<times> u128) result" where
  "update_user_lockup_positions_and_calc_rewards d cfg total_share a s =
     try_fold (calc_lockup_reward d cfg total_share a) (s, 0) (user_lockups s a)"

subsection \<open>Opening, growing and shrinking a lockup\<close>

definition new_lockup :: "u128 \<Rightarrow> u64 \<Rightarrow> lockup_info" where
  "new_lockup amount unlock =
     \<lparr>lp_units_locked = amount, astroport_lp_transferred = None, withdrawal_flag = False,
      ntrn_rewards = 0, generator_ntrn_debt = 0, generator_proxy_debt = [],
      unlock_timestamp = unlock\<rparr>"

text \<open>An existing position grows; a new one needs a free slot, and its unlock time is the end of the
  withdrawal window plus the duration.\<close>

definition grow_or_open_lockup ::
  "lockdrop_config \<Rightarrow> u64 \<Rightarrow> u64 \<Rightarrow> u128 \<Rightarrow> lockdrop_user_info \<Rightarrow> lockup_info option
     \<Rightarrow> (std_error, lockup_info \<times> lockdrop_user_info) result" where
  "grow_or_open_lockup cfg window_end dur amount user found =
     (case found of
        Some li \<Rightarrow>
          and_then (checked_add (lp_units_locked li) amount) (\<lambda>units.
          Ok (li\<lparr>lp_units_locked := units\<rparr>, user))
      | None \<Rightarrow>
          if max_positions_per_user cfg = lockup_positions_index user
          then Err (GenericErr ''Users can only have max {} lockup positions'')
          else
          and_then (add_panic (lockup_positions_index user) 1) (\<lambda>n.
          and_then (add_panic window_end dur) (\<lambda>x.
          and_then (add_panic x (lc_withdrawal_window cfg)) (\<lambda>unlock.
          Ok (new_lockup amount unlock, user\<lparr>lockup_positions_index := n\<rparr>)))))"

definition handle_increase_lockup ::
  "('d) lockdrop_deps_scheme \<Rightarrow> env \<Rightarrow> message_info \<Rightarrow> string \<Rightarrow> pool_type \<Rightarrow> u64 \<Rightarrow> u128 \<Rightarrow> lockdrop
     \<Rightarrow> lockdrop_result" where
  "handle_increase_lockup d env info user_address_raw p dur amount s =
     and_then (lockdrop_load_config s) (\<lambda>cfg.
     if sender info \<noteq> lc_auction_contract cfg then Err (GenericErr ''Unauthorized'')
     else
     and_then (lock_window_end cfg) (\<lambda>window_end.
     if window_end \<le> block_time env then Err (GenericErr ''Lock window is closed'')
     else
     and_then (addr_validate d user_address_raw) (\<lambda>a.
     if \<not> (\<exists>lr \<in> set (lc_lockup_rewards_info cfg). lr_duration lr = dur)
     then Err (GenericErr ''invalid duration'')
     else
     and_then (load_pool s p) (\<lambda>pool.
     let user = load_user_or_default s a in
     if lc_max_lock_duration cfg < dur \<or> dur < lc_min_lock_duration cfg
     then Err (GenericErr ''Lockup duration needs to be between {} and {}'')
     else
     and_then (calculate_weight amount dur cfg) (\<lambda>weight.
     and_then (checked_add (weighted_amount pool) weight) (\<lambda>weighted.
     and_then (checked_add (amount_in_lockups pool) amount) (\<lambda>in_lockups.
     let pool = pool\<lparr>weighted_amount := weighted, amount_in_lockups := in_lockups\<rparr>; key = (p, a, dur) in
     and_then (compatible_may_load d s key (lc_generator cfg)) (\<lambda>found.
     and_then (grow_or_open_lockup cfg window_end dur amount user found) (\<lambda>(li, user).
     and_then
       (case may_load (l_totals s) (p, a) of
          Some la \<Rightarrow> checked_add la amount
        | None \<Rightarrow> Ok amount) (\<lambda>total'.
     Ok (s\<lparr>l_lockups := save key (LockupV2 li) (l_lockups s),
           l_totals := save (p, a) total' (l_totals s),
           l_pools := save p pool (l_pools s),
           l_users := save a user (l_users s)\<rparr>, [])))))))))))"

definition calculate_max_withdrawal_percent_allowed ::
  "u64 \<Rightarrow> lockdrop_config \<Rightarrow> (std_error, decimal) result" where
  "calculate_max_withdrawal_percent_allowed t cfg =
     and_then (lock_window_end cfg) (\<lambda>cutoff.
     if t < cutoff then from_ratio 100 100
     else
     and_then (add_panic cutoff (lc_withdrawal_window cfg div 2)) (\<lambda>second_point.
     if t \<le> second_point then from_ratio 50 100
     else
     and_then (add_panic cutoff (lc_withdrawal_window cfg)) (\<lambda>final.
     if t < final then
       and_then (sub_panic final t) (\<lambda>time_left.
       and_then (mul_panic 50 time_left) (\<lambda>num.
       and_then (sub_panic final second_point) (\<lambda>half.
       and_then (mul_panic 100 half) (\<lambda>den.
       from_ratio (widen num) (widen den)))))
     else from_ratio 0 100)))"

text \<open>What a user may still take back: the curve's share of a lockup, rounded down.\<close>

definition max_withdrawal_allowed ::
  "u64 \<Rightarrow> lockdrop_config \<Rightarrow> lockup_info \<Rightarrow> (std_error, u128) result" where
  "max_withdrawal_allowed t cfg li =
     and_then (calculate_max_withdrawal_percent_allowed t cfg) (\<lambda>percent.
     and_then (to_decimal (lp_units_locked li)) (\<lambda>units.
     map_ok to_uint_floor (dec_checked_mul units percent)))"

text \<open>The total of a user in a pool is lowered by what left a lockup.\<close>

definition sub_user_total ::
  "pool_type \<Rightarrow> addr \<Rightarrow> u128 \<Rightarrow> (pool_type \<times> addr, u128) store
     \<Rightarrow> (std_error, (pool_type \<times> addr, u128) store) result" where
  "sub_user_total p a amount totals =
     and_then
       (case may_load totals (p, a) of Some la \<Rightarrow> checked_sub la amount | None \<Rightarrow> Ok 0) (\<lambda>la.
     Ok (save (p, a) la totals))"

text \<open>An emptied lockup is removed and its slot is free again.\<close>

definition store_or_close_lockup ::
  "lockup_key \<Rightarrow> lockup_info \<Rightarrow> lockdrop
     \<Rightarrow> (std_error, (lockup_key, stored_lockup) store \<times> (addr, lockdrop_user_info) store) result" where
  "store_or_close_lockup = (\<lambda>(p, a, dur) li s.
     if lp_units_locked li = 0 then
       let user = load_user_or_default s a in
       and_then (sub_panic (lockup_positions_index user) 1) (\<lambda>n.
       Ok (remove (p, a, dur) (l_lockups s), save a (user\<lparr>lockup_positions_index := n\<rparr>) (l_users s)))
     else Ok (save (p, a, dur) (LockupV2 li) (l_lockups s), l_users s))"

definition handle_withdraw_from_lockup ::
  "('d) lockdrop_deps_scheme \<Rightarrow> env \<Rightarrow> message_info \<Rightarrow> string \<Rightarrow> pool_type \<Rightarrow> u64 \<Rightarrow> u128 \<Rightarrow> lockdrop
     \<Rightarrow> lockdrop_result" where
  "handle_withdraw_from_lockup d env info user_address p dur amount s =
     and_then (lockdrop_load_config s) (\<lambda>cfg.
     if sender info \<noteq> lc_auction_contract cfg then Err (GenericErr ''Unauthorized'')
     else
     and_then (withdrawal_window_end cfg) (\<lambda>window_end.
     if window_end \<le> block_time env then Err (GenericErr ''Withdrawal window is closed'')
     else if amount = 0 then Err (GenericErr ''Invalid withdrawal request'')
     else
     and_then (load_pool s p) (\<lambda>pool.
     and_then (addr_validate d user_address) (\<lambda>a.
     let key = (p, a, dur) in
     and_then (compatible_load d s key (lc_generator cfg)) (\<lambda>li.
     if withdrawal_flag li
     then Err (GenericErr ''Withdrawal already happened. No more withdrawals accepted'')
     else
     and_then (max_withdrawal_allowed (block_time env) cfg li) (\<lambda>allowed.
     if allowed < amount then Err (GenericErr ''Amount exceeds maximum allowed withdrawal limit of {}'')
     else
     and_then (lock_window_end cfg) (\<lambda>lock_end.
     let li = (if lock_end \<le> block_time env then li\<lparr>withdrawal_flag := True\<rparr> else li) in
     and_then (checked_sub (lp_units_locked li) amount) (\<lambda>units.
     and_then (calculate_weight amount dur cfg) (\<lambda>weight.
     and_then (checked_sub (weighted_amount pool) weight) (\<lambda>weighted.
     and_then (checked_sub (amount_in_lockups pool) amount) (\<lambda>in_lockups.
     let li = li\<lparr>lp_units_locked := units\<rparr>;
         pool = pool\<lparr>weighted_amount := weighted, amount_in_lockups := in_lockups\<rparr> in
     and_then (store_or_close_lockup (p, a, dur) li s) (\<lambda>(lockups, users).
     and_then (sub_user_total p a amount (l_totals s)) (\<lambda>totals.
     Ok (s\<lparr>l_lockups := lockups, l_users := users, l_totals := totals,
           l_pools := save p pool (l_pools s)\<rparr>, []))))))))))))))"

subsection \<open>Rewards of the generator\<close>

text \<open>\<open>Result::unwrap_or_default\<close> of a balance query.\<close>

definition balance_or_zero :: "(std_error, u128) result \<Rightarrow> (std_error, u128) result" where
  "balance_or_zero r = (case r of Err _ \<Rightarrow> Ok 0 | r \<Rightarrow> r)"

text \<open>When rewards are pending: claim them from the generator, then book what arrived, with the
  balances from before the claim.\<close>

definition claim_generator_rewards ::
  "('d) lockdrop_deps_scheme \<Rightarrow> env \<Rightarrow> pool_type \<Rightarrow> addr \<Rightarrow> addr \<Rightarrow> (std_error, msg list) result" where
  "claim_generator_rewards d env p lp generator =
     and_then (gen_pending_token d generator lp (this_contract env)) (\<lambda>pr.
     let on_proxy = unwrap_or (pending_on_proxy pr) [] in
     if pending pr \<noteq> 0 \<or> (\<exists>asset \<in> set on_proxy. asset_amount asset \<noteq> 0) then
       and_then (gen_base_reward_token d generator lp) (\<lambda>reward_token.
       and_then (bank_balance d (this_contract env) (asset_info_string reward_token)) (\<lambda>reward_balance.
       and_then (try_map (\<lambda>asset.
           and_then (balance_or_zero (query_pool d (ainfo asset) (this_contract env))) (\<lambda>b.
           Ok (with_balance (ainfo asset) b))) on_proxy) (\<lambda>prev_proxy_balances.
       Ok [WasmExecute generator (GeneratorClaimRewards [lp]) [],
           WasmExecute (this_contract env)
             (LockdropCallback (UpdatePoolOnDualRewardsClaim p reward_balance prev_proxy_balances)) []])))
     else Ok [])"

definition handle_claim_rewards_and_unlock_for_lockup ::
  "('d) lockdrop_deps_scheme \<Rightarrow> env \<Rightarrow> message_info \<Rightarrow> pool_type \<Rightarrow> u64 \<Rightarrow> bool \<Rightarrow> lockdrop
     \<Rightarrow> lockdrop_result" where
  "handle_claim_rewards_and_unlock_for_lockup d env info p dur withdraw_lp_stake s =
     and_then (lockdrop_load_config s) (\<lambda>cfg.
     and_then (lockdrop_load_state s) (\<lambda>total_share.
     and_then (withdrawal_window_end cfg) (\<lambda>window_end.
     if block_time env < window_end then Err (GenericErr ''Lock/withdrawal window is still open'')
     else
     let a = sender info in
     and_then (load_pool s p) (\<lambda>pool.
     and_then (ok_or (may_load (l_users s) a) (NotFound ''user_info'')) (\<lambda>user.
     and_then
       (if total_ntrn_rewards user = 0 then
          and_then (update_user_lockup_positions_and_calc_rewards d cfg total_share a s) (\<lambda>(s, r).
          Ok (s, user\<lparr>total_ntrn_rewards := r\<rparr>))
        else Ok (s, user)) (\<lambda>(s, user).
     let s = s\<lparr>l_users := save a user (l_users s)\<rparr> in
     and_then (compatible_load d s (p, a, dur) (lc_generator cfg)) (\<lambda>li.
     if withdraw_lp_stake \<and> block_time env < unlock_timestamp li
     then Err (GenericErr ''{} seconds to unlock'')
     else if astroport_lp_transferred li \<noteq> None
     then Err (GenericErr ''Astro LP Tokens have already been claimed!'')
     else
     and_then
       (if is_staked pool then
          and_then (ok_or (lc_generator cfg) (GenericErr ''Generator should be set at this moment!'')) (\<lambda>generator.
          claim_generator_rewards d env p (lp_token pool) generator)
        else if ntrn_transferred user \<and> \<not> withdraw_lp_stake
        then Err (GenericErr ''No rewards available to claim!'')
        else Ok []) (\<lambda>ms.
     Ok (s, ms @ [WasmExecute (this_contract env)
       (LockdropCallback (WithdrawUserLockupRewardsCallback p a dur withdraw_lp_stake)) []])))))))))"

definition claim_airdrop_tokens_with_multiplier_msg ::
  "('d) lockdrop_deps_scheme \<Rightarrow> addr \<Rightarrow> addr \<Rightarrow> u128 \<Rightarrow> (std_error, msg) result" where
  "claim_airdrop_tokens_with_multiplier_msg d credits_contract a lockdrop_rewards =
     and_then (credits_withdrawable d credits_contract a) (\<lambda>unvested.
     and_then (credits_vested d credits_contract a) (\<lambda>vested.
     and_then (to_decimal lockdrop_rewards) (\<lambda>rewards.
     and_then (dec_checked_mul rewards (Decimal (of_nat DECIMAL_FRACTIONAL))) (\<lambda>multiplied.
     and_then (checked_add (min vested (to_uint_floor multiplied)) unvested) (\<lambda>amount.
     Ok (WasmExecute credits_contract (Cw20BurnFrom a amount) []))))))"

definition update_pool_on_dual_rewards_claim ::
  "('d) lockdrop_deps_scheme \<Rightarrow> env \<Rightarrow> pool_type \<Rightarrow> u128 \<Rightarrow> asset list \<Rightarrow> lockdrop \<Rightarrow> lockdrop_result" where
  "update_pool_on_dual_rewards_claim d env p prev_ntrn_balance prev_proxy_balances s =
     and_then (lockdrop_load_config s) (\<lambda>cfg.
     and_then (load_pool s p) (\<lambda>pool.
     and_then (ok_or (lc_generator cfg) (GenericErr ''Generator hasn't been set yet!'')) (\<lambda>generator.
     and_then (gen_base_reward_token d generator (lp_token pool)) (\<lambda>reward_token.
     and_then (gen_deposit d generator (lp_token pool) (this_contract env)) (\<lambda>lp_balance.
     and_then (bank_balance d (this_contract env) (asset_info_string reward_token)) (\<lambda>reward_balance.
     and_then (checked_sub reward_balance prev_ntrn_balance) (\<lambda>received.
     and_then (from_ratio received lp_balance) (\<lambda>ratio.
     and_then (dec_checked_add (generator_ntrn_per_share pool) ratio) (\<lambda>per_share.
     and_then (try_fold (\<lambda>proxies prev.
         and_then (query_pool d (ainfo prev) (this_contract env)) (\<lambda>current.
         and_then (checked_sub current (asset_amount prev)) (\<lambda>received.
         and_then (from_ratio received lp_balance) (\<lambda>ratio.
         map_ok fst (rv_update dec_checked_add proxies (ainfo prev) ratio)))))
       (generator_proxy_per_share pool) prev_proxy_balances) (\<lambda>proxies.
     Ok (s\<lparr>l_pools := save p
           (pool\<lparr>generator_ntrn_per_share := per_share, generator_proxy_per_share := proxies\<rparr>)
           (l_pools s)\<rparr>, [])))))))))))"

text \<open>The part of the pool's LP tokens that belongs to a lockup.\<close>

definition lp_share :: "u128 \<Rightarrow> u128 \<Rightarrow> u128 \<Rightarrow> (std_error, u128) result" where
  "lp_share units balance in_lockups =
     (if in_lockups = 0 then Err DivideByZero
      else ok_or (narrow (unat units * unat balance div unat in_lockups)) ConversionOverflow)"

definition lockup_lp_amount ::
  "('d) lockdrop_deps_scheme \<Rightarrow> env \<Rightarrow> lockdrop_pool \<Rightarrow> addr \<Rightarrow> lockup_info \<Rightarrow> (std_error, u128) result" where
  "lockup_lp_amount d env pool generator li =
     and_then
       (if is_staked pool then gen_deposit d generator (lp_token pool) (this_contract env)
        else cw20_balance d (lp_token pool) (this_contract env)) (\<lambda>balance.
     lp_share (lp_units_locked li) balance (amount_in_lockups pool))"

text \<open>What the generator's rewards per share give a lockup that holds \<open>lp_amount\<close>: the new debts,
  and what is pending over the old ones. A proxy reward without a debt entry is not looked at.\<close>

definition pending_ntrn_reward ::
  "lockdrop_pool \<Rightarrow> u128 \<Rightarrow> lockup_info \<Rightarrow> (std_error, u128 \<times> u128) result" where
  "pending_ntrn_reward pool lp_amount li =
     and_then (to_decimal lp_amount) (\<lambda>lp.
     and_then (dec_checked_mul (generator_ntrn_per_share pool) lp) (\<lambda>total'.
     and_then (checked_sub (to_uint_floor total') (generator_ntrn_debt li)) (\<lambda>pending'.
     Ok (to_uint_floor total', pending'))))"

definition pending_proxy_rewards ::
  "lockdrop_pool \<Rightarrow> u128 \<Rightarrow> lockup_info
     \<Rightarrow> (std_error, (asset_info, u128) restricted_vector \<times> asset list) result" where
  "pending_proxy_rewards pool lp_amount li =
     and_then (try_map (\<lambda>(ai, debt).
         and_then (checked_mul_uint128
           (unwrap_or (rv_load (generator_proxy_per_share pool) ai) decimal_zero) lp_amount) (\<lambda>total'.
         and_then (checked_sub total' debt) (\<lambda>pending'.
         Ok (ai, total', pending')))) (generator_proxy_debt li)) (\<lambda>rs.
     Ok (map (\<lambda>(ai, total', pending'). (ai, total')) rs,
         map (\<lambda>(ai, total', pending'). with_balance ai pending')
           (filter (\<lambda>(ai, total', pending'). pending' \<noteq> 0) rs)))"

text \<open>The NTRN incentives of all of the user's lockups, and with them the credits of an airdrop
  participant, are paid once.\<close>

definition one_time_rewards ::
  "('d) lockdrop_deps_scheme \<Rightarrow> lockdrop_config \<Rightarrow> addr \<Rightarrow> lockdrop_user_info \<Rightarrow> lockdrop
     \<Rightarrow> lockdrop_result" where
  "one_time_rewards d cfg a user s =
     (if ntrn_transferred user then Ok (s, [])
      else
      let claimable = total_ntrn_rewards user in
      and_then (cw20_balance d (lc_credits_contract cfg) a) (\<lambda>credits_balance.
      and_then
        (if 0 < credits_balance
         then map_ok (\<lambda>m. [m])
           (claim_airdrop_tokens_with_multiplier_msg d (lc_credits_contract cfg) a claimable)
         else Ok []) (\<lambda>airdrop.
      Ok (s\<lparr>l_users := save a (user\<lparr>ntrn_transferred := True\<rparr>) (l_users s)\<rparr>,
          (if 0 < claimable
           then [BankSend a [\<lparr>coin_denom = ntrn_denom, coin_amount = claimable\<rparr>]] else []) @ airdrop))))"

text \<open>A lockup that is paid out no longer counts in the pool and in the user's total.\<close>

definition release_lockup ::
  "lockup_key \<Rightarrow> lockdrop_pool \<Rightarrow> lockup_info \<Rightarrow> u128 \<Rightarrow> lockdrop \<Rightarrow> (std_error, lockdrop) result" where
  "release_lockup = (\<lambda>(p, a, dur) pool li lp_amount s.
     and_then (checked_sub (amount_in_lockups pool) (lp_units_locked li)) (\<lambda>in_lockups.
     and_then (sub_user_total p a (lp_units_locked li) (l_totals s)) (\<lambda>totals.
     Ok (s\<lparr>l_pools := save p (pool\<lparr>amount_in_lockups := in_lockups\<rparr>) (l_pools s),
           l_totals := totals,
           l_lockups := save (p, a, dur)
             (LockupV2 (li\<lparr>astroport_lp_transferred := Some lp_amount\<rparr>)) (l_lockups s)\<rparr>))))"

subsection \<open>Paying out a lockup\<close>

text \<open>If the pool is staked: what the generator's rewards give this lockup is paid, and the LP tokens
  are unstaked when they are to be returned. A claim that would change nothing is refused.\<close>

definition withdraw_generator_rewards ::
  "('d) lockdrop_deps_scheme \<Rightarrow> lockdrop_pool \<Rightarrow> addr \<Rightarrow> addr \<Rightarrow> lockdrop_user_info \<Rightarrow> bool \<Rightarrow> u128
     \<Rightarrow> lockup_info \<Rightarrow> (std_error, lockup_info \<times> msg list) result" where
  "withdraw_generator_rewards d pool generator a user withdraw_lp_stake lp_amount li =
     (if is_staked pool then
        and_then (gen_base_reward_token d generator (lp_token pool)) (\<lambda>reward_token.
        and_then (pending_ntrn_reward pool lp_amount li) (\<lambda>(ntrn_debt, pending_ntrn).
        and_then (pending_proxy_rewards pool lp_amount li) (\<lambda>(proxy_debt, pending_proxy).
        if \<not> withdraw_lp_stake \<and> ntrn_transferred user \<and> pending_ntrn = 0 \<and> pending_proxy = []
        then Err (GenericErr ''No rewards available to claim!'')
        else
        and_then (try_map (\<lambda>asset. into_msg asset a) pending_proxy) (\<lambda>proxy_msgs.
        Ok (li\<lparr>generator_ntrn_debt := ntrn_debt, generator_proxy_debt := proxy_debt\<rparr>,
            (if 0 < pending_ntrn
             then [BankSend a [\<lparr>coin_denom = asset_info_string reward_token, coin_amount = pending_ntrn\<rparr>]]
             else [])
            @ proxy_msgs
            @ (if withdraw_lp_stake
               then [WasmExecute generator (GeneratorWithdraw (lp_token pool) lp_amount) []]
               else []))))))
      else Ok (li, []))"

definition callback_withdraw_user_rewards_for_lockup_optional_withdraw ::
  "('d) lockdrop_deps_scheme \<Rightarrow> env \<Rightarrow> pool_type \<Rightarrow> addr \<Rightarrow> u64 \<Rightarrow> bool \<Rightarrow> lockdrop
     \<Rightarrow> lockdrop_result" where
  "callback_withdraw_user_rewards_for_lockup_optional_withdraw d env p a dur withdraw_lp_stake s =
     and_then (lockdrop_load_config s) (\<lambda>cfg.
     and_then (load_pool s p) (\<lambda>pool.
     and_then (compatible_load d s (p, a, dur) (lc_generator cfg)) (\<lambda>li.
     let user = load_user_or_default s a in
     and_then (ok_or (lc_generator cfg) (GenericErr ''Generator should be set'')) (\<lambda>generator.
     and_then (lockup_lp_amount d env pool generator li) (\<lambda>lp_amount.
     and_then (withdraw_generator_rewards d pool generator a user withdraw_lp_stake lp_amount li) (\<lambda>(li, reward_msgs).
     and_then
       (if withdraw_lp_stake then
          and_then (release_lockup (p, a, dur) pool li lp_amount s) (\<lambda>s.
          Ok (s, [WasmExecute (lp_token pool) (Cw20Transfer a lp_amount) []]))
        else Ok (s\<lparr>l_lockups := save (p, a, dur) (LockupV2 li) (l_lockups s)\<rparr>, [])) (\<lambda>(s, unlock_msgs).
     and_then (one_time_rewards d cfg a user s) (\<lambda>(s, one_time_msgs).
     Ok (s, reward_msgs @ unlock_msgs @ one_time_msgs)))))))))"

subsection \<open>Migration to the PCL lockdrop contract\<close>

definition handle_migrate_liquidity_to_pcl_pools ::
  "('d) lockdrop_deps_scheme \<Rightarrow> message_info \<Rightarrow> env \<Rightarrow> string option \<Rightarrow> lockdrop \<Rightarrow> lockdrop_result" where
  "handle_migrate_liquidity_to_pcl_pools d info env user_address_raw s =
     and_then (case user_address_raw of
         Some a \<Rightarrow> addr_validate d a
       | None \<Rightarrow> Ok (sender info)) (\<lambda>a.
     and_then (lockdrop_load_config s) (\<lambda>cfg.
     and_then (lockdrop_load_state s) (\<lambda>total_share.
     and_then (ok_or (may_load (l_users s) a) (NotFound ''user_info'')) (\<lambda>user.
     and_then
       (if total_ntrn_rewards user = 0 then
          and_then (update_user_lockup_positions_and_calc_rewards d cfg total_share a s) (\<lambda>(s, r).
          Ok (s\<lparr>l_users := save a (user\<lparr>total_ntrn_rewards := r\<rparr>) (l_users s)\<rparr>))
        else Ok s) (\<lambda>s.
     Ok (s, map (\<lambda>(p, dur). WasmExecute (this_contract env)
            (LockdropCallback (InitMigrateLockupToPCLPoolsCallback p a dur)) [])
          (user_lockups s a)))))))"

definition callback_transfer_all_rewards_before_migration ::
  "('d) lockdrop_deps_scheme \<Rightarrow> env \<Rightarrow> pool_type \<Rightarrow> addr \<Rightarrow> u64 \<Rightarrow> lockdrop \<Rightarrow> lockdrop_result" where
  "callback_transfer_all_rewards_before_migration d env p a dur s =
     and_then (lockdrop_load_config s) (\<lambda>cfg.
     and_then (load_pool s p) (\<lambda>pool.
     and_then (compatible_load d s (p, a, dur) (lc_generator cfg)) (\<lambda>li.
     let user = load_user_or_default s a in
     and_then (ok_or (lc_generator cfg) (GenericErr ''Generator should be set'')) (\<lambda>generator.
     and_then (lockup_lp_amount d env pool generator li) (\<lambda>lp_amount.
     and_then (gen_base_reward_token d generator (lp_token pool)) (\<lambda>reward_token.
     and_then (pending_ntrn_reward pool lp_amount li) (\<lambda>(ntrn_debt, pending_ntrn).
     and_then (pending_proxy_rewards pool lp_amount li) (\<lambda>(proxy_debt, pending_proxy).
     and_then (try_map (\<lambda>asset. into_msg asset a) pending_proxy) (\<lambda>proxy_msgs.
     and_then (one_time_rewards d cfg a user s) (\<lambda>(s, one_time_msgs).
     Ok (s,
         (if 0 < pending_ntrn
          then [BankSend a [\<lparr>coin_denom = asset_info_string reward_token, coin_amount = pending_ntrn\<rparr>]]
          else [])
         @ proxy_msgs @ one_time_msgs
         @ [WasmExecute (this_contract env) (LockdropCallback
              (WithdrawUserLockupCallback p a dur generator (lp_token pool) lp_amount)) []])))))))))))"

text \<open>The first native asset of the pair that is not NTRN.\<close>

definition paired_denom :: "asset list \<Rightarrow> (std_error, string) result" where
  "paired_denom assets =
     (case List.find (\<lambda>asset. case ainfo asset of
          NativeToken denom \<Rightarrow> denom \<noteq> ntrn_denom | Token _ \<Rightarrow> False) assets of
        Some asset \<Rightarrow> Ok (asset_info_string (ainfo asset))
      | None \<Rightarrow> Err (GenericErr ''No second leg of pair found''))"

definition callback_withdraw_user_lockup ::
  "('d) lockdrop_deps_scheme \<Rightarrow> env \<Rightarrow> pool_type \<Rightarrow> addr \<Rightarrow> u64 \<Rightarrow> addr \<Rightarrow> addr \<Rightarrow> u128 \<Rightarrow> lockdrop
     \<Rightarrow> lockdrop_result" where
  "callback_withdraw_user_lockup d env p a dur generator lp lp_amount s =
     and_then (cw20_minter d lp) (\<lambda>astroport_pool.
     and_then (pair_assets d astroport_pool) (\<lambda>assets.
     and_then (paired_denom assets) (\<lambda>paired_asset_denom.
     and_then (bank_balance d (this_contract env) ntrn_denom) (\<lambda>ntrn_balance.
     and_then (bank_balance d (this_contract env) paired_asset_denom) (\<lambda>paired_asset_balance.
     and_then (lockdrop_load_config s) (\<lambda>cfg.
     and_then (compatible_load d s (p, a, dur) (lc_generator cfg)) (\<lambda>li.
     and_then (load_pool s p) (\<lambda>pool.
     and_then (release_lockup (p, a, dur) pool li lp_amount s) (\<lambda>s.
     Ok (s,
         [WasmExecute generator (GeneratorWithdraw lp lp_amount) [],
          WasmExecute lp (Cw20Send astroport_pool lp_amount WithdrawLiquidity) [],
          WasmExecute (this_contract env) (LockdropCallback
            (MigrateUserLockupToPCLPairCallback p a dur ntrn_balance paired_asset_denom
               paired_asset_balance)) []]))))))))))"

definition callback_migrate_user_lockup_to_pcl_pair ::
  "('d) lockdrop_deps_scheme \<Rightarrow> env \<Rightarrow> pool_type \<Rightarrow> addr \<Rightarrow> u64 \<Rightarrow> u128 \<Rightarrow> string \<Rightarrow> u128 \<Rightarrow> lockdrop
     \<Rightarrow> lockdrop_result" where
  "callback_migrate_user_lockup_to_pcl_pair d env p a dur ntrn_balance paired_asset_denom
     paired_asset_balance s =
     and_then (lockdrop_load_config s) (\<lambda>cfg.
     and_then (compatible_load d s (p, a, dur) (lc_generator cfg)) (\<lambda>li.
     let user = load_user_or_default s a in
     and_then (bank_balance d (this_contract env) ntrn_denom) (\<lambda>ntrn_now.
     and_then (sub_panic ntrn_now ntrn_balance) (\<lambda>ntrn_withdrawn.
     and_then (bank_balance d (this_contract env) paired_asset_denom) (\<lambda>paired_now.
     and_then (sub_panic paired_now paired_asset_balance) (\<lambda>paired_withdrawn.
     and_then (load_item (l_pcl_contract s) (NotFound ''pcl_lockdrop_contract'')) (\<lambda>pcl_lockdrop.
     and_then (load_pool s p) (\<lambda>pool.
     and_then (ok_or (lc_generator cfg) (GenericErr ''Generator should be set'')) (\<lambda>generator.
     and_then (gen_deposit d generator (lp_token pool) (this_contract env)) (\<lambda>staked_lp_tokens.
     Ok (s, [WasmExecute pcl_lockdrop
        (MigrateXYKLockup p a dur user li (staked_lp_tokens = 0))
        [\<lparr>coin_denom = ntrn_denom, coin_amount = ntrn_withdrawn\<rparr>,
         \<lparr>coin_denom = paired_asset_denom, coin_amount = paired_withdrawn\<rparr>]])))))))))))"

subsection \<open>Queries\<close>

record lockup_response =
  lr_pool_type :: pool_type
  lr_lp_units_locked :: u128
  lr_withdrawal_flag :: bool
  lr_ntrn_rewards :: u128
  lr_lockup_duration :: u64
  lr_generator_ntrn_debt :: u128
  claimable_generator_astro_debt :: u128
  lr_generator_proxy_debt :: "(asset_info, u128) restricted_vector"
  claimable_generator_proxy_debt :: "(asset_info, u128) restricted_vector"
  lr_unlock_timestamp :: u64
  astroport_lp_units :: "u128 option"
  astroport_lp_token :: addr
  lr_astroport_lp_transferred :: "u128 option"

text \<open>The lockup's part of what the generator holds back for the contract now: the rewards per share
  with the pending amounts added, times the lockup's LP tokens, less its debts.\<close>

definition claimable_generator_rewards ::
  "('d) lockdrop_deps_scheme \<Rightarrow> env \<Rightarrow> lockdrop_pool \<Rightarrow> addr \<Rightarrow> u128 \<Rightarrow> u128 \<Rightarrow> lockup_info
     \<Rightarrow> (std_error, u128 \<times> (asset_info, u128) restricted_vector) result" where
  "claimable_generator_rewards d env pool generator pool_lp_units lockup_lp_units li =
     and_then (gen_pending_token d generator (lp_token pool) (this_contract env)) (\<lambda>pr.
     and_then (from_ratio (pending pr) pool_lp_units) (\<lambda>ratio.
     and_then (dec_checked_add (generator_ntrn_per_share pool) ratio) (\<lambda>per_share.
     and_then (pending_ntrn_reward (pool\<lparr>generator_ntrn_per_share := per_share\<rparr>) lockup_lp_units li)
       (\<lambda>(_, claimable_ntrn).
     and_then (try_fold (\<lambda>(proxies, claimable) reward.
         and_then (from_ratio (asset_amount reward) pool_lp_units) (\<lambda>ratio.
         and_then (rv_update dec_checked_add proxies (ainfo reward) ratio) (\<lambda>(proxies, per_share).
         and_then (checked_mul_uint128 per_share lockup_lp_units) (\<lambda>total'.
         and_then (checked_sub total'
           (unwrap_or (rv_load (generator_proxy_debt li) (ainfo reward)) 0)) (\<lambda>debt.
         and_then (rv_update checked_add claimable (ainfo reward) debt) (\<lambda>(claimable, _).
         Ok (proxies, claimable)))))))
       (generator_proxy_per_share pool, []) (unwrap_or (pending_on_proxy pr) [])) (\<lambda>(_, claimable_proxy).
     Ok (claimable_ntrn, claimable_proxy))))))"

definition query_lockup_info ::
  "('d) lockdrop_deps_scheme \<Rightarrow> env \<Rightarrow> string \<Rightarrow> pool_type \<Rightarrow> u64 \<Rightarrow> lockdrop
     \<Rightarrow> (std_error, lockup_response) result" where
  "query_lockup_info d env user_address p dur s =
     and_then (lockdrop_load_config s) (\<lambda>cfg.
     and_then (lockdrop_load_state s) (\<lambda>total_share.
     and_then (addr_validate d user_address) (\<lambda>a.
     and_then (load_pool s p) (\<lambda>pool.
     and_then (compatible_load d s (p, a, dur) (lc_generator cfg)) (\<lambda>li.
     and_then
       (case astroport_lp_transferred li of
          Some transferred \<Rightarrow> Ok (transferred, 0, [])
        | None \<Rightarrow>
            and_then
              (if is_staked pool then
                 and_then (ok_or (lc_generator cfg) (GenericErr ''Should be set!'')) (\<lambda>generator.
                 raw_generator_deposit d generator (lp_token pool) (this_contract env))
               else raw_balance d (lp_token pool) (this_contract env)) (\<lambda>pool_lp_units.
            and_then (lp_share (lp_units_locked li) pool_lp_units (amount_in_lockups pool)) (\<lambda>lockup_lp_units.
            if is_staked pool \<and> lockup_lp_units \<noteq> 0 then
              and_then (ok_or (lc_generator cfg) (GenericErr ''Generator should be set at this moment!'')) (\<lambda>generator.
              and_then (claimable_generator_rewards d env pool generator pool_lp_units lockup_lp_units li)
                (\<lambda>(claimable_ntrn, claimable_proxy).
              Ok (lockup_lp_units, claimable_ntrn, claimable_proxy)))
            else Ok (lockup_lp_units, 0, []))))
       (\<lambda>(units, claimable_ntrn, claimable_proxy).
     and_then
       (if ntrn_rewards li = 0 then lockup_incentives cfg total_share pool dur li
        else Ok (ntrn_rewards li)) (\<lambda>rewards.
     Ok \<lparr>lr_pool_type = p, lr_lp_units_locked = lp_units_locked li,
         lr_withdrawal_flag = withdrawal_flag li, lr_ntrn_rewards = rewards,
         lr_lockup_duration = dur, lr_generator_ntrn_debt = generator_ntrn_debt li,
         claimable_generator_astro_debt = claimable_ntrn,
         lr_generator_proxy_debt = generator_proxy_debt li,
         claimable_generator_proxy_debt = claimable_proxy,
         lr_unlock_timestamp = unlock_timestamp li,
         astroport_lp_units = Some units, astroport_lp_token = lp_token pool,
         lr_astroport_lp_transferred = astroport_lp_transferred li\<rparr>)))))))"

definition callback_init_migrate_lockup_to_pcl_pools ::
  "('d) lockdrop_deps_scheme \<Rightarrow> env \<Rightarrow> pool_type \<Rightarrow> addr \<Rightarrow> u64 \<Rightarrow> lockdrop \<Rightarrow> lockdrop_result" where
  "callback_init_migrate_lockup_to_pcl_pools d env p a dur s =
     and_then (query_lockup_info d env a p dur s) (\<lambda>li.
     if lr_astroport_lp_transferred li \<noteq> None then Ok (s, [])
     else
     and_then (lockdrop_load_config s) (\<lambda>cfg.
     and_then (load_pool s p) (\<lambda>pool.
     and_then (ok_or (lc_generator cfg) (GenericErr ''Generator should be set at this moment!'')) (\<lambda>generator.
     and_then (claim_generator_rewards d env p (lp_token pool) generator) (\<lambda>ms.
     Ok (s, ms @ [WasmExecute (this_contract env)
        (LockdropCallback (TransferAllRewardsBeforeMigrationCallback p a dur)) []]))))))"

definition query_state :: "lockdrop \<Rightarrow> (std_error, u128 \<times> pool_type list) result" where
  "query_state s =
     and_then (lockdrop_load_state s) (\<lambda>total_share. Ok (total_share, store_keys (l_pools s)))"

definition lockdrop_query_pool :: "pool_type \<Rightarrow> lockdrop \<Rightarrow> (std_error, lockdrop_pool) result" where
  "lockdrop_query_pool p s = load_pool s p"

record user_info_response =
  ui_total_ntrn_rewards :: u128
  ui_ntrn_transferred :: bool
  ui_lockup_infos :: "lockup_response list"
  ui_claimable_generator_ntrn_debt :: u128
  ui_lockup_positions_index :: u32

definition lockdrop_query_user_info ::
  "('d) lockdrop_deps_scheme \<Rightarrow> env \<Rightarrow> string \<Rightarrow> lockdrop \<Rightarrow> (std_error, user_info_response) result" where
  "lockdrop_query_user_info d env user s =
     and_then (addr_validate d user) (\<lambda>a.
     and_then (try_fold (\<lambda>(rewards, claimable, infos) (p, dur).
         and_then (query_lockup_info d env user p dur s) (\<lambda>li.
         and_then (checked_add rewards (lr_ntrn_rewards li)) (\<lambda>rewards.
         and_then (checked_add claimable (claimable_generator_astro_debt li)) (\<lambda>claimable.
         Ok (rewards, claimable, infos @ [li]))))) (0, 0, []) (user_lockups s a)) (\<lambda>(rewards, claimable, infos).
     Ok \<lparr>ui_total_ntrn_rewards = rewards,
         ui_ntrn_transferred = ntrn_transferred (load_user_or_default s a),
         ui_lockup_infos = infos, ui_claimable_generator_ntrn_debt = claimable,
         ui_lockup_positions_index = lockup_positions_index (load_user_or_default s a)\<rparr>))"

definition query_user_info_with_lockups_list ::
  "('d) deps_scheme \<Rightarrow> string \<Rightarrow> lockdrop
     \<Rightarrow> (std_error, lockdrop_user_info \<times> (pool_type \<times> u64) list) result" where
  "query_user_info_with_lockups_list d user s =
     and_then (addr_validate d user) (\<lambda>a. Ok (load_user_or_default s a, user_lockups s a))"

text \<open>The two queries at a height; the value logged at that height is the argument.\<close>

definition query_user_lockup_total_at_height ::
  "u128 option \<Rightarrow> (std_error, u128 option) result" where
  "query_user_lockup_total_at_height logged = Ok logged"

definition query_lockup_total_at_height :: "lockdrop_pool option \<Rightarrow> (std_error, u128 option) result" where
  "query_lockup_total_at_height logged =
     (case logged of Some pool \<Rightarrow> Ok (Some (amount_in_lockups pool)) | None \<Rightarrow> Ok (Some 0))"

subsection \<open>The entry point\<close>

definition lockdrop_propose_new_owner ::
  "('d) deps_scheme \<Rightarrow> env \<Rightarrow> message_info \<Rightarrow> string \<Rightarrow> u64 \<Rightarrow> lockdrop \<Rightarrow> lockdrop_result" where
  "lockdrop_propose_new_owner d env info new_owner expires_in s =
     and_then (lockdrop_load_config s) (\<lambda>cfg.
     and_then (propose_new_owner d info env new_owner expires_in (lc_owner cfg)) (\<lambda>p.
     Ok (s\<lparr>l_proposal := p\<rparr>, [])))"

definition lockdrop_drop_ownership_proposal :: "message_info \<Rightarrow> lockdrop \<Rightarrow> lockdrop_result" where
  "lockdrop_drop_ownership_proposal info s =
     and_then (lockdrop_load_config s) (\<lambda>cfg.
     and_then (drop_ownership_proposal info (lc_owner cfg)) (\<lambda>p.
     Ok (s\<lparr>l_proposal := p\<rparr>, [])))"

definition lockdrop_claim_ownership :: "env \<Rightarrow> message_info \<Rightarrow> lockdrop \<Rightarrow> lockdrop_result" where
  "lockdrop_claim_ownership env info s =
     and_then (claim_ownership info env (l_proposal s)) (\<lambda>(p, new_owner).
     and_then (lockdrop_load_config s) (\<lambda>cfg.
     Ok (s\<lparr>l_proposal := p, l_config := Some (cfg\<lparr>lc_owner := new_owner\<rparr>)\<rparr>, [])))"

primrec handle_lockdrop_callback ::
  "('d) lockdrop_deps_scheme \<Rightarrow> env \<Rightarrow> lockdrop_callback \<Rightarrow> lockdrop \<Rightarrow> lockdrop_result" where
  "handle_lockdrop_callback d env (UpdatePoolOnDualRewardsClaim p prev prevs) s =
     update_pool_on_dual_rewards_claim d env p prev prevs s"
| "handle_lockdrop_callback d env (WithdrawUserLockupRewardsCallback p a dur withdraw) s =
     callback_withdraw_user_rewards_for_lockup_optional_withdraw d env p a dur withdraw s"
| "handle_lockdrop_callback d env (InitMigrateLockupToPCLPoolsCallback p a dur) s =
     callback_init_migrate_lockup_to_pcl_pools d env p a dur s"
| "handle_lockdrop_callback d env (TransferAllRewardsBeforeMigrationCallback p a dur) s =
     callback_transfer_all_rewards_before_migration d env p a dur s"
| "handle_lockdrop_callback d env (WithdrawUserLockupCallback p a dur generator lp amount) s =
     callback_withdraw_user_lockup d env p a dur generator lp amount s"
| "handle_lockdrop_callback d env (MigrateUserLockupToPCLPairCallback p a dur ntrn denom paired) s =
     callback_migrate_user_lockup_to_pcl_pair d env p a dur ntrn denom paired s"

definition receive_lockdrop_callback ::
  "('d) lockdrop_deps_scheme \<Rightarrow> env \<Rightarrow> message_info \<Rightarrow> lockdrop_callback \<Rightarrow> lockdrop
     \<Rightarrow> lockdrop_result" where
  "receive_lockdrop_callback d env info m s =
     (if sender info \<noteq> this_contract env
      then Err (GenericErr ''callbacks cannot be invoked externally'')
      else handle_lockdrop_callback d env m s)"

primrec lockdrop_execute ::
  "('d) lockdrop_deps_scheme \<Rightarrow> env \<Rightarrow> message_info \<Rightarrow> lockdrop_execute_msg \<Rightarrow> lockdrop
     \<Rightarrow> lockdrop_result" where
  "lockdrop_execute d env info (LReceive cw20_sender amount hook) s =
     lockdrop_receive_cw20 d env info cw20_sender amount hook s"
| "lockdrop_execute d env info (LClaimRewardsAndOptionallyUnlock p dur withdraw) s =
     handle_claim_rewards_and_unlock_for_lockup d env info p dur withdraw s"
| "lockdrop_execute d env info (LCallback m) s = receive_lockdrop_callback d env info m s"
| "lockdrop_execute d env info (LProposeNewOwner new_owner expires_in) s =
     lockdrop_propose_new_owner d env info new_owner expires_in s"
| "lockdrop_execute d env info LDropOwnershipProposal s = lockdrop_drop_ownership_proposal info s"
| "lockdrop_execute d env info LClaimOwnership s = lockdrop_claim_ownership env info s"
| "lockdrop_execute d env info LIncreaseNTRNIncentives s = handle_increasing_ntrn_incentives env info s"
| "lockdrop_execute d env info (LIncreaseLockupFor user p amount dur) s =
     handle_increase_lockup d env info user p dur amount s"
| "lockdrop_execute d env info (LWithdrawFromLockup user p dur amount) s =
     handle_withdraw_from_lockup d env info user p dur amount s"
| "lockdrop_execute d env info (LUpdateConfig auction generator) s =
     handle_update_config d info auction generator s"
| "lockdrop_execute d env info (LSetTokenInfo atom usdc generator) s =
     handle_set_token_info d info usdc atom generator s"
| "lockdrop_execute d env info (LMigrateLiquidityToPCLPools user) s =
     handle_migrate_liquidity_to_pcl_pools d info env user s"

subsection \<open>The interfaces\<close>

interpretation lockdrop_curve: withdrawal_curve calculate_max_withdrawal_percent_allowed
  "\<lambda>cfg. unat (lc_init_timestamp cfg) + unat (lc_lock_window cfg)"
  "\<lambda>cfg. unat (lc_withdrawal_window cfg)"
proof (unfold_locales, goal_cases)
  case (1 t c q)
  then show ?case unfolding calculate_max_withdrawal_percent_allowed_def lock_window_end_def
    by (auto simp: word_less_nat_alt)
next
  case (2 t c q)
  then show ?case unfolding calculate_max_withdrawal_percent_allowed_def lock_window_end_def
    by (auto simp: word_less_nat_alt word_le_nat_alt unat_div split: if_split_asm)
next
  case (3 t c q)
  then show ?case unfolding calculate_max_withdrawal_percent_allowed_def lock_window_end_def
    by (auto simp: word_less_nat_alt word_le_nat_alt unat_div decay_atomics_def split: if_split_asm)
      (metis diff_add_inverse2)
next
  case (4 t c q)
  then show ?case unfolding calculate_max_withdrawal_percent_allowed_def lock_window_end_def
    by (auto simp: word_less_nat_alt word_le_nat_alt unat_div split: if_split_asm)
qed

definition lockdrop_owner_of :: "lockdrop \<Rightarrow> addr" where
  "lockdrop_owner_of s = (case l_config s of Some cfg \<Rightarrow> lc_owner cfg | None \<Rightarrow> [])"

interpretation lockdrop_ownable: ownable lockdrop_owner_of l_proposal
  "\<lambda>env info n e s. map_ok fst (lockdrop_propose_new_owner d env info n e s)"
  "\<lambda>info s. map_ok fst (lockdrop_drop_ownership_proposal info s)"
  "\<lambda>env info s. map_ok fst (lockdrop_claim_ownership env info s)" for d :: "('d) deps_scheme"
  by unfold_locales
    (auto simp: lockdrop_propose_new_owner_def lockdrop_drop_ownership_proposal_def
      lockdrop_claim_ownership_def lockdrop_load_config_def lockdrop_owner_of_def
      propose_new_owner_Ok claim_ownership_Ok drop_ownership_proposal_def)

end
