(* ===== verification/Lockdrop_Proofs.thy ===== *)
theory Lockdrop_Proofs
  imports Lockdrop
begin

text \<open>
  The books of the lockdrop: the amount a pool has in lockups, the total of a user in a pool and
  the number of a user's positions are sums over the stored lockups. Every handler keeps them, and
  so does a whole transaction: a handler, and the callbacks that it sends to its own contract. The
  theory ends with the states a deployed contract can reach.
\<close>

subsection \<open>The books\<close>

fun stored_units :: "stored_lockup \<Rightarrow> u128" where
  "stored_units (LockupV2 li) = lp_units_locked li"
| "stored_units (LockupV1 old) = v1_lp_units_locked old"

fun stored_transferred :: "stored_lockup \<Rightarrow> u128 option" where
  "stored_transferred (LockupV2 li) = astroport_lp_transferred li"
| "stored_transferred (LockupV1 old) = v1_astroport_lp_transferred old"

fun stored_unlock :: "stored_lockup \<Rightarrow> u64" where
  "stored_unlock (LockupV2 li) = unlock_timestamp li"
| "stored_unlock (LockupV1 old) = v1_unlock_timestamp old"

text \<open>A lockup counts as long as its LP tokens are not paid out.\<close>

definition live_units :: "stored_lockup \<Rightarrow> nat" where
  "live_units v = (if stored_transferred v = None then unat (stored_units v) else 0)"

type_synonym lockups = "(lockup_key, stored_lockup) store"

definition pool_live :: "pool_type \<Rightarrow> lockups \<Rightarrow> nat" where
  "pool_live q l = store_sum (\<lambda>(p, a, dur) v. if p = q then live_units v else 0) l"

definition user_live :: "pool_type \<Rightarrow> addr \<Rightarrow> lockups \<Rightarrow> nat" where
  "user_live q b l = store_sum (\<lambda>(p, a, dur) v. if p = q \<and> a = b then live_units v else 0) l"

definition position_count :: "addr \<Rightarrow> lockups \<Rightarrow> nat" where
  "position_count b l = store_sum (\<lambda>(p, a, dur) v. if a = b then 1 else 0) l"

definition pool_amount :: "(pool_type, lockdrop_pool) store \<Rightarrow> pool_type \<Rightarrow> nat" where
  "pool_amount ps p = (case map_of ps p of Some pool \<Rightarrow> unat (amount_in_lockups pool) | None \<Rightarrow> 0)"

definition user_total :: "(pool_type \<times> addr, u128) store \<Rightarrow> pool_type \<Rightarrow> addr \<Rightarrow> nat" where
  "user_total ts p a = (case map_of ts (p, a) of Some n \<Rightarrow> unat n | None \<Rightarrow> 0)"

definition positions :: "(addr, lockdrop_user_info) store \<Rightarrow> addr \<Rightarrow> nat" where
  "positions us a = unat (lockup_positions_index (unwrap_or (map_of us a) user_info_default))"

definition lockdrop_books :: "lockdrop \<Rightarrow> bool" where
  "lockdrop_books s \<longleftrightarrow>
     store_ok (l_lockups s) \<and> store_ok (l_pools s) \<and> store_ok (l_totals s) \<and> store_ok (l_users s) \<and>
     (\<forall>p. pool_amount (l_pools s) p = pool_live p (l_lockups s)) \<and>
     (\<forall>p a. user_total (l_totals s) p a = user_live p a (l_lockups s)) \<and>
     (\<forall>a. positions (l_users s) a = position_count a (l_lockups s))"

definition live_at :: "lockups \<Rightarrow> lockup_key \<Rightarrow> nat" where
  "live_at l k = (case map_of l k of Some v \<Rightarrow> live_units v | None \<Rightarrow> 0)"

definition present_at :: "lockups \<Rightarrow> lockup_key \<Rightarrow> nat" where
  "present_at l k = (case map_of l k of Some v \<Rightarrow> 1 | None \<Rightarrow> 0)"

lemma lockup_sums_save:
  assumes "store_ok l"
  shows "pool_live q (save (p, a, dur) v l) + (if p = q then live_at l (p, a, dur) else 0)
      = pool_live q l + (if p = q then live_units v else 0)"
    and "user_live q b (save (p, a, dur) v l) + (if p = q \<and> a = b then live_at l (p, a, dur) else 0)
      = user_live q b l + (if p = q \<and> a = b then live_units v else 0)"
    and "position_count b (save (p, a, dur) v l) + (if a = b then present_at l (p, a, dur) else 0)
      = position_count b l + (if a = b then 1 else 0)"
proof -
  show "pool_live q (save (p, a, dur) v l) + (if p = q then live_at l (p, a, dur) else 0)
      = pool_live q l + (if p = q then live_units v else 0)"
    using cw.total_save [OF assms, of "\<lambda>(p, a, dur) v. if p = q then live_units v else 0" "(p, a, dur)" v]
    by (auto simp: pool_live_def live_at_def split: option.splits)
  show "user_live q b (save (p, a, dur) v l) + (if p = q \<and> a = b then live_at l (p, a, dur) else 0)
      = user_live q b l + (if p = q \<and> a = b then live_units v else 0)"
    using cw.total_save [OF assms, of "\<lambda>(p, a, dur) v. if p = q \<and> a = b then live_units v else 0" "(p, a, dur)" v]
    by (auto simp: user_live_def live_at_def split: option.splits)
  show "position_count b (save (p, a, dur) v l) + (if a = b then present_at l (p, a, dur) else 0)
      = position_count b l + (if a = b then 1 else 0)"
    using cw.total_save [OF assms, of "\<lambda>(p, a, dur) v. if a = b then 1 else 0" "(p, a, dur)" v]
    by (auto simp: position_count_def present_at_def split: option.splits)
qed

lemma lockup_sums_remove:
  assumes "store_ok l"
  shows "pool_live q (remove (p, a, dur) l) + (if p = q then live_at l (p, a, dur) else 0)
      = pool_live q l"
    and "user_live q b (remove (p, a, dur) l) + (if p = q \<and> a = b then live_at l (p, a, dur) else 0)
      = user_live q b l"
    and "position_count b (remove (p, a, dur) l) + (if a = b then present_at l (p, a, dur) else 0)
      = position_count b l"
proof -
  show "pool_live q (remove (p, a, dur) l) + (if p = q then live_at l (p, a, dur) else 0)
      = pool_live q l"
    using cw.total_remove [OF assms, of "\<lambda>(p, a, dur) v. if p = q then live_units v else 0" "(p, a, dur)"]
    by (auto simp: pool_live_def live_at_def split: option.splits)
  show "user_live q b (remove (p, a, dur) l) + (if p = q \<and> a = b then live_at l (p, a, dur) else 0)
      = user_live q b l"
    using cw.total_remove [OF assms, of "\<lambda>(p, a, dur) v. if p = q \<and> a = b then live_units v else 0" "(p, a, dur)"]
    by (auto simp: user_live_def live_at_def split: option.splits)
  show "position_count b (remove (p, a, dur) l) + (if a = b then present_at l (p, a, dur) else 0)
      = position_count b l"
    using cw.total_remove [OF assms, of "\<lambda>(p, a, dur) v. if a = b then 1 else 0" "(p, a, dur)"]
    by (auto simp: position_count_def present_at_def split: option.splits)
qed

text \<open>What a handler owes the books when it saves one lockup, and when it removes one.\<close>

lemma books_save:
  assumes "lockdrop_books s" and l: "l_lockups s' = save (p, a, dur) v (l_lockups s)"
    and "store_ok (l_pools s')" "store_ok (l_totals s')" "store_ok (l_users s')"
    and "pool_amount (l_pools s') p + live_at (l_lockups s) (p, a, dur) = pool_amount (l_pools s) p + live_units v"
    and "\<And>q. q \<noteq> p \<Longrightarrow> pool_amount (l_pools s') q = pool_amount (l_pools s) q"
    and "user_total (l_totals s') p a + live_at (l_lockups s) (p, a, dur) = user_total (l_totals s) p a + live_units v"
    and "\<And>q b. \<not> (q = p \<and> b = a) \<Longrightarrow> user_total (l_totals s') q b = user_total (l_totals s) q b"
    and "positions (l_users s') a + present_at (l_lockups s) (p, a, dur) = positions (l_users s) a + 1"
    and "\<And>b. b \<noteq> a \<Longrightarrow> positions (l_users s') b = positions (l_users s) b"
  shows "lockdrop_books s'"
proof -
  have ok: "store_ok (l_lockups s)" using assms(1) by (simp add: lockdrop_books_def)
  have 1: "pool_amount (l_pools s') q = pool_live q (l_lockups s')" for q
    using assms(1,6,7) lockup_sums_save(1) [OF ok, of q p a dur v] unfolding l lockdrop_books_def
    by (cases "q = p") auto
  have 2: "user_total (l_totals s') q b = user_live q b (l_lockups s')" for q b
    using assms(1,8,9) lockup_sums_save(2) [OF ok, of q b p a dur v] unfolding l lockdrop_books_def
    by (cases "q = p \<and> b = a") (auto split: if_splits)
  have 3: "positions (l_users s') b = position_count b (l_lockups s')" for b
    using assms(1,10,11) lockup_sums_save(3) [OF ok, of b p a dur v] unfolding l lockdrop_books_def
    by (cases "b = a") auto
  show ?thesis using 1 2 3 assms(3-5) ok unfolding lockdrop_books_def l by (simp add: store_ok_save)
qed

lemma books_remove:
  assumes "lockdrop_books s" and l: "l_lockups s' = remove (p, a, dur) (l_lockups s)"
    and "store_ok (l_pools s')" "store_ok (l_totals s')" "store_ok (l_users s')"
    and "pool_amount (l_pools s') p + live_at (l_lockups s) (p, a, dur) = pool_amount (l_pools s) p"
    and "\<And>q. q \<noteq> p \<Longrightarrow> pool_amount (l_pools s') q = pool_amount (l_pools s) q"
    and "user_total (l_totals s') p a + live_at (l_lockups s) (p, a, dur) = user_total (l_totals s) p a"
    and "\<And>q b. \<not> (q = p \<and> b = a) \<Longrightarrow> user_total (l_totals s') q b = user_total (l_totals s) q b"
    and "positions (l_users s') a + present_at (l_lockups s) (p, a, dur) = positions (l_users s) a"
    and "\<And>b. b \<noteq> a \<Longrightarrow> positions (l_users s') b = positions (l_users s) b"
  shows "lockdrop_books s'"
proof -
  have ok: "store_ok (l_lockups s)" using assms(1) by (simp add: lockdrop_books_def)
  have 1: "pool_amount (l_pools s') q = pool_live q (l_lockups s')" for q
    using assms(1,6,7) lockup_sums_remove(1) [OF ok, of q p a dur] unfolding l lockdrop_books_def
    by (cases "q = p") auto
  have 2: "user_total (l_totals s') q b = user_live q b (l_lockups s')" for q b
    using assms(1,8,9) lockup_sums_remove(2) [OF ok, of q b p a dur] unfolding l lockdrop_books_def
    by (cases "q = p \<and> b = a") (auto split: if_splits)
  have 3: "positions (l_users s') b = position_count b (l_lockups s')" for b
    using assms(1,10,11) lockup_sums_remove(3) [OF ok, of b p a dur] unfolding l lockdrop_books_def
    by (cases "b = a") auto
  show ?thesis using 1 2 3 assms(3-5) ok unfolding lockdrop_books_def l by (simp add: store_ok_remove)
qed

lemma books_same:
  assumes "lockdrop_books s" and "l_lockups s' = l_lockups s"
    and "store_ok (l_pools s')" "store_ok (l_totals s')" "store_ok (l_users s')"
    and "\<And>q. pool_amount (l_pools s') q = pool_amount (l_pools s) q" "\<And>q b. user_total (l_totals s') q b = user_total (l_totals s) q b"
      "\<And>b. positions (l_users s') b = positions (l_users s) b"
  shows "lockdrop_books s'"
  using assms unfolding lockdrop_books_def by simp

text \<open>Loading a lockup, in either format, gives what is stored.\<close>

lemma compatible_load_stored:
  assumes "compatible_load d s k g = Ok li"
  shows "\<exists>v. map_of (l_lockups s) k = Some v \<and> stored_units v = lp_units_locked li \<and>
    stored_transferred v = astroport_lp_transferred li \<and> stored_unlock v = unlock_timestamp li"
  using assms unfolding compatible_load_def convert_v1_def
  by (auto split: option.splits stored_lockup.splits)

lemma compatible_load_live:
  assumes "compatible_load d s k g = Ok li"
  shows "live_at (l_lockups s) k = live_units (LockupV2 li)" "present_at (l_lockups s) k = 1"
  using compatible_load_stored [OF assms] by (auto simp: live_at_def present_at_def live_units_def)

lemma compatible_may_load_Ok:
  "compatible_may_load d s k g = Ok res \<longleftrightarrow>
     (case res of None \<Rightarrow> map_of (l_lockups s) k = None
      | Some li \<Rightarrow> compatible_load d s k g = Ok li)"
  unfolding compatible_may_load_def has_def
  by (cases res) (auto simp: compatible_load_def split: option.splits)

subsection \<open>Opening and growing a lockup\<close>

lemma grow_or_open_Ok:
  "grow_or_open_lockup cfg window_end dur amount user found = Ok (li, user') \<longleftrightarrow>
     (case found of
        Some old \<Rightarrow> \<exists>units. unat units = unat (lp_units_locked old) + unat amount \<and>
          li = old\<lparr>lp_units_locked := units\<rparr> \<and> user' = user
      | None \<Rightarrow> max_positions_per_user cfg \<noteq> lockup_positions_index user \<and>
          (\<exists>n unlock. unat n = unat (lockup_positions_index user) + 1 \<and>
             unat unlock = unat window_end + unat dur + unat (lc_withdrawal_window cfg) \<and>
             li = new_lockup amount unlock \<and> user' = user\<lparr>lockup_positions_index := n\<rparr>))"
proof (cases found)
  case None
  have "(\<exists>x :: u64. unat x = n \<and> (\<exists>y :: u64. unat y = unat x + m \<and> P y))
      \<longleftrightarrow> (\<exists>y. unat y = n + m \<and> P y)" for n m P
    using word_sum_chain [where 'a = 64, of n _ m] by metis
  then show ?thesis
    unfolding grow_or_open_lockup_def None by (simp add: eq_commute [of li] eq_commute [of user'])
qed (auto simp: grow_or_open_lockup_def)

lemma increase_inversion:
  assumes "handle_increase_lockup d env info u p dur amount s = Ok (s', ms)"
  obtains cfg window_end a pool weight weighted in_lockups found li user total' where
    "l_config s = Some cfg" "sender info = lc_auction_contract cfg"
    "unat window_end = unat (lc_init_timestamp cfg) + unat (lc_lock_window cfg)"
    "block_time env < window_end" "addr_validate d u = Ok a"
    "\<exists>lr \<in> set (lc_lockup_rewards_info cfg). lr_duration lr = dur"
    "lc_min_lock_duration cfg \<le> dur" "dur \<le> lc_max_lock_duration cfg"
    "map_of (l_pools s) p = Some pool" "calculate_weight amount dur cfg = Ok weight"
    "unat weighted = unat (weighted_amount pool) + unat weight"
    "unat in_lockups = unat (amount_in_lockups pool) + unat amount"
    "compatible_may_load d s (p, a, dur) (lc_generator cfg) = Ok found"
    "grow_or_open_lockup cfg window_end dur amount (load_user_or_default s a) found = Ok (li, user)"
    "unat total' = user_total (l_totals s) p a + unat amount"
    "s' = s\<lparr>l_lockups := save (p, a, dur) (LockupV2 li) (l_lockups s),
           l_totals := save (p, a) total' (l_totals s),
           l_pools := save p (pool\<lparr>weighted_amount := weighted, amount_in_lockups := in_lockups\<rparr>) (l_pools s),
           l_users := save a user (l_users s)\<rparr>" "ms = []"
  using assms unfolding handle_increase_lockup_def lockdrop_load_config_def load_pool_def lock_window_end_def
  by (clarsimp simp: Let_def not_less not_le) 
    (rule that, (auto simp: user_total_def split: option.splits)[17])

lemma new_lockup_simps [simp]:
  "lp_units_locked (new_lockup n t) = n" "astroport_lp_transferred (new_lockup n t) = None"
  "withdrawal_flag (new_lockup n t) = False" "ntrn_rewards (new_lockup n t) = 0"
  "generator_ntrn_debt (new_lockup n t) = 0" "generator_proxy_debt (new_lockup n t) = []"
  "unlock_timestamp (new_lockup n t) = t"
  by (simp_all add: new_lockup_def)

lemma amounts_save [simp]:
  "pool_amount (save p pool ps) q = (if q = p then unat (amount_in_lockups pool) else pool_amount ps q)"
  "user_total (save (p, a) n ts) q b = (if q = p \<and> b = a then unat n else user_total ts q b)"
  "positions (save a user us) b = (if b = a then unat (lockup_positions_index user) else positions us b)"
  by (simp_all add: pool_amount_def user_total_def positions_def map_of_save)

lemma lockdrop_books_ok:
  "lockdrop_books s \<Longrightarrow> store_ok (l_lockups s) \<and> store_ok (l_pools s) \<and> store_ok (l_totals s) \<and>
     store_ok (l_users s)"
  by (simp add: lockdrop_books_def)

text \<open>No lockup is paid out before the windows are over: \<open>open_lockups\<close>.\<close>

definition open_lockups :: "lockdrop \<Rightarrow> bool" where
  "open_lockups s \<longleftrightarrow> (\<forall>k v. map_of (l_lockups s) k = Some v \<longrightarrow> stored_transferred v = None)"

lemma open_lockups_load:
  "open_lockups s \<Longrightarrow> compatible_load d s k g = Ok li \<Longrightarrow> astroport_lp_transferred li = None"
  using compatible_load_stored [of d s k g li] by (metis open_lockups_def)

lemma books_increase:
  assumes "handle_increase_lockup d env info u p dur amount s = Ok (s', ms)" and b: "lockdrop_books s"
    and "open_lockups s"
  shows "lockdrop_books s' \<and> open_lockups s' \<and> ms = [] \<and> l_config s' = l_config s"
  using assms(1)
proof (rule increase_inversion, goal_cases)
  case (1 cfg window_end a pool weight weighted in_lockups found li user total')
  note ok = lockdrop_books_ok [OF b]
  have pool: "pool_amount (l_pools s) p = unat (amount_in_lockups pool)" using 1 by (simp add: pool_amount_def)
  have li: "live_units (LockupV2 li) = live_at (l_lockups s) (p, a, dur) + unat amount \<and>
      astroport_lp_transferred li = None \<and>
      unat (lockup_positions_index user) + present_at (l_lockups s) (p, a, dur) = positions (l_users s) a + 1"
  proof (cases found)
    case None
    then show ?thesis using 1(13,14)
      by (auto simp: compatible_may_load_Ok grow_or_open_Ok live_at_def present_at_def live_units_def
          positions_def load_user_or_default_def)
  next
    case (Some old)
    then have old: "compatible_load d s (p, a, dur) (lc_generator cfg) = Ok old"
      using 1(13) by (simp add: compatible_may_load_Ok)
    show ?thesis using 1(14) Some compatible_load_live [OF old] open_lockups_load [OF assms(3) old]
      by (auto simp: grow_or_open_Ok live_units_def positions_def load_user_or_default_def)
  qed
  have "lockdrop_books s'"
    by (rule books_save [OF b, of s' p a dur "LockupV2 li"])
      (use 1 li pool ok in \<open>auto simp: store_simps\<close>)
  moreover have "open_lockups s'"
    using assms(3) li 1(16) by (auto simp: open_lockups_def map_of_save)
  ultimately show ?case using 1(16,17) by simp
qed

subsection \<open>Shrinking a lockup\<close>

lemma sub_user_total_Ok:
  "sub_user_total p a amount totals = Ok totals' \<longleftrightarrow>
     (\<exists>n. totals' = save (p, a) n totals \<and>
        (case map_of totals (p, a) of Some la \<Rightarrow> unat la = unat n + unat amount | None \<Rightarrow> n = 0))"
  by (auto simp: sub_user_total_def split: option.splits)

lemma max_withdrawal_allowed_Ok:
  "max_withdrawal_allowed t cfg li = Ok n \<longleftrightarrow>
     (\<exists>q. calculate_max_withdrawal_percent_allowed t cfg = Ok q \<and>
        unat (lp_units_locked li) * DECIMAL_FRACTIONAL < 2 ^ 128 \<and>
        unat n = unat (lp_units_locked li) * unat (atomics q) div DECIMAL_FRACTIONAL)"
  (is "?l \<longleftrightarrow> ?r")
proof
  assume ?l
  then obtain q u r where q: "calculate_max_withdrawal_percent_allowed t cfg = Ok q"
    and u: "unat (atomics u) = unat (lp_units_locked li) * DECIMAL_FRACTIONAL"
    and r: "unat (atomics r) = unat (atomics u) * unat (atomics q) div DECIMAL_FRACTIONAL"
    and n: "n = to_uint_floor r"
    unfolding max_withdrawal_allowed_def by auto
  have "unat (atomics r) = unat (lp_units_locked li) * unat (atomics q)"
    using r u by (simp add: mult.assoc mult.left_commute)
  moreover have "unat (atomics u) < 2 ^ 128" by (rule unat_le_u128_max)
  ultimately show ?r using q n u by auto
next
  assume ?r
  then obtain q where q: "calculate_max_withdrawal_percent_allowed t cfg = Ok q"
    and fits: "unat (lp_units_locked li) * DECIMAL_FRACTIONAL < 2 ^ 128"
    and n: "unat n = unat (lp_units_locked li) * unat (atomics q) div DECIMAL_FRACTIONAL" by blast
  have "unat (lp_units_locked li) * DECIMAL_FRACTIONAL < 2 ^ LENGTH(128)" using fits by simp
  then obtain u :: u128 where u: "unat u = unat (lp_units_locked li) * DECIMAL_FRACTIONAL"
    using word_of_nat_ex by blast
  have "unat (lp_units_locked li) * unat (atomics q) \<le> unat (lp_units_locked li) * DECIMAL_FRACTIONAL"
    using lockdrop_curve.at_most_all [OF q] by (rule mult_le_mono2)
  then have "unat (lp_units_locked li) * unat (atomics q) < 2 ^ LENGTH(128)"
    using \<open>_ < 2 ^ LENGTH(128)\<close> by (rule le_less_trans)
  then obtain r :: u128 where r: "unat r = unat (lp_units_locked li) * unat (atomics q)"
    using word_of_nat_ex by blast
  have 1: "to_decimal (lp_units_locked li) = Ok (Decimal u)" using u by simp
  have 2: "dec_checked_mul (Decimal u) q = Ok (Decimal r)"
    using u r by (simp add: mult.assoc mult.left_commute)
  have 3: "to_uint_floor (Decimal r) = n"
    using n r by (simp add: word_unat_eq_iff)
  show ?l unfolding max_withdrawal_allowed_def by (simp only: q 1 2 3 and_then.simps map_ok.simps)
qed

lemma store_or_close_Ok:
  "store_or_close_lockup (p, a, dur) li s = Ok (lockups, users) \<longleftrightarrow>
     (if lp_units_locked li = 0
      then \<exists>n. unat (lockup_positions_index (load_user_or_default s a)) = unat n + 1 \<and>
         lockups = remove (p, a, dur) (l_lockups s) \<and>
         users = save a ((load_user_or_default s a)\<lparr>lockup_positions_index := n\<rparr>) (l_users s)
      else lockups = save (p, a, dur) (LockupV2 li) (l_lockups s) \<and> users = l_users s)"
  by (auto simp: store_or_close_lockup_def Let_def)

lemma withdraw_from_lockup_inversion:
  assumes "handle_withdraw_from_lockup d env info u p dur amount s = Ok (s', ms)"
  obtains cfg window_end pool a li allowed lock_end units weight weighted in_lockups lockups users totals where
    "l_config s = Some cfg" "sender info = lc_auction_contract cfg"
    "withdrawal_window_end cfg = Ok window_end" "block_time env < window_end" "amount \<noteq> 0"
    "map_of (l_pools s) p = Some pool" "addr_validate d u = Ok a"
    "compatible_load d s (p, a, dur) (lc_generator cfg) = Ok li" "\<not> withdrawal_flag li"
    "max_withdrawal_allowed (block_time env) cfg li = Ok allowed" "amount \<le> allowed"
    "lock_window_end cfg = Ok lock_end"
    "unat (lp_units_locked li) = unat units + unat amount"
    "calculate_weight amount dur cfg = Ok weight"
    "unat (weighted_amount pool) = unat weighted + unat weight"
    "unat (amount_in_lockups pool) = unat in_lockups + unat amount"
    "store_or_close_lockup (p, a, dur)
       (li\<lparr>withdrawal_flag := lock_end \<le> block_time env, lp_units_locked := units\<rparr>) s = Ok (lockups, users)"
    "sub_user_total p a amount (l_totals s) = Ok totals"
    "s' = s\<lparr>l_lockups := lockups, l_users := users, l_totals := totals,
       l_pools := save p (pool\<lparr>weighted_amount := weighted, amount_in_lockups := in_lockups\<rparr>) (l_pools s)\<rparr>"
    "ms = []"
proof -
  have flag: "(if b then li\<lparr>withdrawal_flag := True\<rparr> else li) = li\<lparr>withdrawal_flag := b\<rparr>"
    if "\<not> withdrawal_flag li" for b and li :: lockup_info
    using that by (cases li) simp
  show ?thesis
    using assms unfolding handle_withdraw_from_lockup_def lockdrop_load_config_def load_pool_def
    by (clarsimp simp: Let_def not_less not_le flag split del: if_split) (rule that; (assumption | simp))
qed

lemma live_load_save:
  assumes "compatible_load d s (p, a, dur) g = Ok li"
  shows "live_at (l_lockups s) (p, a, dur) = live_units (LockupV2 li)"
    "present_at (l_lockups s) (p, a, dur) = 1"
  by (rule compatible_load_live [OF assms])+

lemma live_at_le_user_total:
  assumes "lockdrop_books s"
  shows "live_at (l_lockups s) (p, a, dur) \<le> user_total (l_totals s) p a"
proof (cases "map_of (l_lockups s) (p, a, dur)")
  case (Some v)
  have "live_units v \<le> user_live p a (l_lockups s)"
    unfolding user_live_def
    using store_sum_ge [OF Some, of "\<lambda>(q, b, dur) v. if q = p \<and> b = a then live_units v else 0"] by simp
  then show ?thesis using assms Some by (simp add: lockdrop_books_def live_at_def)
qed (simp add: live_at_def)

lemma books_withdraw:
  assumes "handle_withdraw_from_lockup d env info u p dur amount s = Ok (s', ms)" and b: "lockdrop_books s"
    and "open_lockups s"
  shows "lockdrop_books s' \<and> open_lockups s' \<and> ms = [] \<and> l_config s' = l_config s"
  using assms(1)
proof (rule withdraw_from_lockup_inversion, goal_cases)
  case (1 cfg window_end pool a li allowed lock_end units weight weighted in_lockups lockups users totals)
  note ok = lockdrop_books_ok [OF b]
  let ?li = "li\<lparr>withdrawal_flag := lock_end \<le> block_time env, lp_units_locked := units\<rparr>"
  have open': "astroport_lp_transferred li = None" by (rule open_lockups_load [OF assms(3) 1(8)])
  have live: "live_at (l_lockups s) (p, a, dur) = live_units (LockupV2 ?li) + unat amount"
    "live_units (LockupV2 ?li) = unat units"
    using compatible_load_live(1) [OF 1(8)] open' 1(13) by (simp_all add: live_units_def)
  have pool: "pool_amount (l_pools s) p = unat (amount_in_lockups pool)" using 1 by (simp add: pool_amount_def)
  note mem = live_at_le_user_total [OF b]
  obtain n where n: "totals = save (p, a) n (l_totals s)"
    and nn: "unat n + unat amount = user_total (l_totals s) p a"
    using 1(18) mem [of p a dur] live(1) 1(5) by (auto simp: sub_user_total_Ok user_total_def unat_eq_0 split: option.splits)
  have pos: "positions (l_users s) a = unat (lockup_positions_index (load_user_or_default s a))"
    by (simp add: positions_def load_user_or_default_def)
  show ?case
  proof (cases "units = 0")
    case True
    then have "\<exists>k. unat (lockup_positions_index (load_user_or_default s a)) = unat k + 1 \<and>
        lockups = remove (p, a, dur) (l_lockups s) \<and>
        users = save a ((load_user_or_default s a)\<lparr>lockup_positions_index := k\<rparr>) (l_users s)"
      using 1(17) by (simp add: store_or_close_Ok)
    then obtain k where k: "unat (lockup_positions_index (load_user_or_default s a)) = unat k + 1"
      "lockups = remove (p, a, dur) (l_lockups s)"
      "users = save a ((load_user_or_default s a)\<lparr>lockup_positions_index := k\<rparr>) (l_users s)" by blast
    have "lockdrop_books s'"
      by (rule books_remove [OF b, of s' p a dur])
        (use 1(16,19) k n nn live pool ok pos True compatible_load_live(2) [OF 1(8)]
          in \<open>auto simp: store_simps\<close>)
    moreover have "open_lockups s'"
      using assms(3) k 1(19) ok by (auto simp: open_lockups_def store_simps)
    ultimately show ?thesis using 1(19,20) by simp
  next
    case False
    then have k: "lockups = save (p, a, dur) (LockupV2 ?li) (l_lockups s)" "users = l_users s"
      using 1(17) by (simp_all add: store_or_close_Ok)
    have "lockdrop_books s'"
      by (rule books_save [OF b, of s' p a dur "LockupV2 ?li"])
        (use 1(16,19) k n nn live pool ok compatible_load_live(2) [OF 1(8)]
          in \<open>auto simp: store_simps\<close>)
    moreover have "open_lockups s'"
      using assms(3) k 1(19) open' by (auto simp: open_lockups_def map_of_save)
    ultimately show ?thesis using 1(19,20) by simp
  qed
qed

subsection \<open>What does not move LP tokens\<close>

text \<open>What the books look at in a lockup.\<close>

definition lockup_view :: "lockdrop \<Rightarrow> lockup_key \<Rightarrow> (u128 \<times> u128 option \<times> u64) option" where
  "lockup_view s k =
     map_option (\<lambda>v. (stored_units v, stored_transferred v, stored_unlock v)) (map_of (l_lockups s) k)"

lemma lockup_view_load:
  "compatible_load d s k g = Ok li \<Longrightarrow>
   lockup_view s k = Some (lp_units_locked li, astroport_lp_transferred li, unlock_timestamp li)"
  using compatible_load_stored [of d s k g li] by (auto simp: lockup_view_def)

lemma open_lockups_view:
  "open_lockups s \<longleftrightarrow> (\<forall>k u t e. lockup_view s k = Some (u, t, e) \<longrightarrow> t = None)"
  unfolding open_lockups_def lockup_view_def
  by (auto simp del: split_paired_All split_paired_Ex)

lemma touch_lockup:
  assumes b: "lockdrop_books s" and l: "compatible_load d s (p, a, dur) g = Ok li"
    and "lp_units_locked li' = lp_units_locked li"
    and "astroport_lp_transferred li' = astroport_lp_transferred li"
    and "unlock_timestamp li' = unlock_timestamp li"
  shows "lockdrop_books (s\<lparr>l_lockups := save (p, a, dur) (LockupV2 li') (l_lockups s)\<rparr>) \<and>
    lockup_view (s\<lparr>l_lockups := save (p, a, dur) (LockupV2 li') (l_lockups s)\<rparr>) = lockup_view s"
proof -
  note ok = lockdrop_books_ok [OF b]
  let ?s = "s\<lparr>l_lockups := save (p, a, dur) (LockupV2 li') (l_lockups s)\<rparr>"
  have live: "live_units (LockupV2 li') = live_at (l_lockups s) (p, a, dur)"
    using compatible_load_live(1) [OF l] assms(3,4) by (simp add: live_units_def)
  have "lockdrop_books ?s"
    by (rule books_save [OF b, of ?s p a dur "LockupV2 li'"])
      (use live ok compatible_load_live(2) [OF l] in simp_all)
  moreover have "lockup_view ?s k = lockup_view s k" for k
    using lockup_view_load [OF l] assms(3-5) by (auto simp: lockup_view_def map_of_save)
  ultimately show ?thesis by (simp add: fun_eq_iff)
qed

text \<open>The calculation of the incentives touches rewards only.\<close>

definition rewards_frame :: "lockdrop \<Rightarrow> lockdrop \<Rightarrow> bool" where
  "rewards_frame s s' \<longleftrightarrow> lockdrop_books s' \<and> lockup_view s' = lockup_view s \<and> l_config s' = l_config s \<and>
     l_pools s' = l_pools s \<and> l_totals s' = l_totals s \<and> l_users s' = l_users s \<and>
     l_state s' = l_state s"

lemma calc_lockup_reward_frame:
  assumes "calc_lockup_reward d cfg total_share a (s, acc) (p, dur) = Ok (s', acc')" and "lockdrop_books s"
  shows "rewards_frame s s'"
proof -
  from assms(1) obtain li where l: "compatible_load d s (p, a, dur) (lc_generator cfg) = Ok li"
    and c: "s' = s \<or> (\<exists>r. s' = s\<lparr>l_lockups := save (p, a, dur) (LockupV2 (li\<lparr>ntrn_rewards := r\<rparr>)) (l_lockups s)\<rparr>)"
    unfolding calc_lockup_reward_def by (auto simp: Let_def split: if_splits)
  from c show ?thesis
    using touch_lockup [OF assms(2) l] assms(2) by (auto simp: rewards_frame_def)
qed

lemma update_positions_frame:
  assumes "update_user_lockup_positions_and_calc_rewards d cfg total_share a s = Ok (s', r)"
    and "lockdrop_books s"
  shows "rewards_frame s s'"
proof -
  have "(\<lambda>(u, _). rewards_frame s u) (s', r)"
    using assms(1) unfolding update_user_lockup_positions_and_calc_rewards_def
  proof (rule try_fold_invariant [where P = "\<lambda>(u, _). rewards_frame s u"])
    show "case (s, 0) of (u, uu_) \<Rightarrow> rewards_frame s u" using assms(2) by (simp add: rewards_frame_def)
  next
    fix x st u
    assume P: "case st of (u, uu_) \<Rightarrow> rewards_frame s u"
      and c: "calc_lockup_reward d cfg total_share a st x = Ok u"
    obtain s1 acc where st: "st = (s1, acc)" by (cases st)
    obtain s2 acc2 where u: "u = (s2, acc2)" by (cases u)
    obtain p dur where x: "x = (p, dur)" by (cases x)
    have "rewards_frame s1 s2"
      using calc_lockup_reward_frame [of d cfg total_share a s1 acc p dur s2 acc2] c P
      by (simp add: st u x rewards_frame_def)
    then show "case u of (u, uu_) \<Rightarrow> rewards_frame s u" using P by (simp add: st u rewards_frame_def)
  qed
  then show ?thesis by simp
qed

end
