(* ===== verification/Lockdrop_Runs.thy ===== *)
theory Lockdrop_Runs
  imports Lockdrop_Proofs
begin

text \<open>
  Transactions of the lockdrop: a handler, and the callbacks that it sends to its own contract,
  executed depth first as the chain does. The messages to other contracts are steps that leave the
  lockdrop's state alone. A queue of messages is in order when a pay-out is queued only for a
  lockup that is not paid out yet, and at most one at a time; every handler starts such a queue and
  every callback keeps it, so that the books hold after a transaction.
\<close>

subsection \<open>Releasing a lockup\<close>

lemma release_lockup_Ok:
  "release_lockup (p, a, dur) pool li n s = Ok s' \<longleftrightarrow>
     (\<exists>in_lockups totals.
        unat (amount_in_lockups pool) = unat in_lockups + unat (lp_units_locked li) \<and>
        sub_user_total p a (lp_units_locked li) (l_totals s) = Ok totals \<and>
        s' = s\<lparr>l_pools := save p (pool\<lparr>amount_in_lockups := in_lockups\<rparr>) (l_pools s),
               l_totals := totals,
               l_lockups := save (p, a, dur)
                 (LockupV2 (li\<lparr>astroport_lp_transferred := Some n\<rparr>)) (l_lockups s)\<rparr>)"
  by (auto simp: release_lockup_def)

lemma books_release:
  assumes rel: "release_lockup (p, a, dur) pool li n s = Ok s'" and b: "lockdrop_books s"
    and pool: "map_of (l_pools s) p = Some pool" and l: "compatible_load d s (p, a, dur) g = Ok li0"
    and "astroport_lp_transferred li0 = None" "lp_units_locked li = lp_units_locked li0"
      "unlock_timestamp li = unlock_timestamp li0"
  shows "lockdrop_books s' \<and> l_config s' = l_config s \<and> l_users s' = l_users s \<and>
    lockup_view s' = (lockup_view s)((p, a, dur) \<mapsto> (lp_units_locked li0, Some n, unlock_timestamp li0))"
proof -
  note ok = lockdrop_books_ok [OF b]
  from rel obtain in_lockups totals where
    il: "unat (amount_in_lockups pool) = unat in_lockups + unat (lp_units_locked li)" and
    t: "sub_user_total p a (lp_units_locked li) (l_totals s) = Ok totals" and
    s': "s' = s\<lparr>l_pools := save p (pool\<lparr>amount_in_lockups := in_lockups\<rparr>) (l_pools s), l_totals := totals,
       l_lockups := save (p, a, dur) (LockupV2 (li\<lparr>astroport_lp_transferred := Some n\<rparr>)) (l_lockups s)\<rparr>"
    unfolding release_lockup_Ok by blast
  let ?v = "LockupV2 (li\<lparr>astroport_lp_transferred := Some n\<rparr>)"
  have live: "live_at (l_lockups s) (p, a, dur) = unat (lp_units_locked li)" "live_units ?v = 0"
    using compatible_load_live(1) [OF l] assms(5,6) by (simp_all add: live_units_def)
  have mem: "unat (lp_units_locked li) \<le> user_total (l_totals s) p a"
  proof -
    obtain v where v: "map_of (l_lockups s) (p, a, dur) = Some v" using compatible_load_stored [OF l] by blast
    have "live_units v \<le> user_live p a (l_lockups s)"
      unfolding user_live_def
      using store_sum_ge [OF v, of "\<lambda>(q, b, dur) v. if q = p \<and> b = a then live_units v else 0"] by simp
    then show ?thesis using b v live(1) by (simp add: lockdrop_books_def live_at_def)
  qed
  obtain m where m: "totals = save (p, a) m (l_totals s)"
    and mm: "unat m + unat (lp_units_locked li) = user_total (l_totals s) p a"
    using t mem by (auto simp: sub_user_total_Ok user_total_def unat_eq_0 split: option.splits)
  have pool': "pool_amount (l_pools s) p = unat (amount_in_lockups pool)"
    using pool by (simp add: pool_amount_def)
  have "lockdrop_books s'"
    by (rule books_save [OF b, of s' p a dur ?v])
      (use s' m mm il live pool' ok compatible_load_live(2) [OF l] in \<open>auto simp: store_simps\<close>)
  then show ?thesis
    using assms(6,7) by (auto simp: s' lockup_view_def map_of_save fun_eq_iff)
qed

subsection \<open>Queues of messages\<close>

fun own_callback :: "env \<Rightarrow> msg \<Rightarrow> lockdrop_callback option" where
  "own_callback env (WasmExecute c (LockdropCallback cb) fs) = (if c = this_contract env then Some cb else None)"
| "own_callback env m = None"

text \<open>\<open>quiet\<close> messages release nothing and start no release.\<close>

definition quiet :: "env \<Rightarrow> msg \<Rightarrow> bool" where
  "quiet env m = (case own_callback env m of
       None \<Rightarrow> True
     | Some (UpdatePoolOnDualRewardsClaim p n ns) \<Rightarrow> True
     | Some (MigrateUserLockupToPCLPairCallback p a dur n denom m) \<Rightarrow> True
     | _ \<Rightarrow> False)"

definition calm :: "env \<Rightarrow> msg \<Rightarrow> bool" where
  "calm env m = (quiet env m \<or> (\<exists>p a dur. own_callback env m = Some (InitMigrateLockupToPCLPoolsCallback p a dur)))"

definition not_paid_out :: "lockdrop \<Rightarrow> lockup_key \<Rightarrow> bool" where
  "not_paid_out s k = (case lockup_view s k of Some (u, t, e) \<Rightarrow> t = None | None \<Rightarrow> False)"

fun queue_ok :: "env \<Rightarrow> lockdrop \<Rightarrow> msg list \<Rightarrow> bool" where
  "queue_ok env s [] = True"
| "queue_ok env s (m # q) =
     (case own_callback env m of
        Some (WithdrawUserLockupRewardsCallback p a dur w) \<Rightarrow> not_paid_out s (p, a, dur) \<and> list_all (calm env) q
      | Some (TransferAllRewardsBeforeMigrationCallback p a dur) \<Rightarrow>
          not_paid_out s (p, a, dur) \<and> list_all (calm env) q
      | Some (WithdrawUserLockupCallback p a dur g lp n) \<Rightarrow>
          not_paid_out s (p, a, dur) \<and> list_all (calm env) q
      | Some (InitMigrateLockupToPCLPoolsCallback p a dur) \<Rightarrow> list_all (calm env) q
      | _ \<Rightarrow> queue_ok env s q)"

lemma queue_ok_calm: "list_all (calm env) q \<Longrightarrow> queue_ok env s q"
  by (induction q) (auto simp: calm_def quiet_def split: option.splits lockdrop_callback.splits)

lemma queue_ok_quiet: "list_all (quiet env) ms \<Longrightarrow> queue_ok env s (ms @ q) \<longleftrightarrow> queue_ok env s q"
  by (induction ms) (auto simp: quiet_def split: option.splits lockdrop_callback.splits)

lemma queue_ok_view: "lockup_view s' = lockup_view s \<Longrightarrow> queue_ok env s' q = queue_ok env s q"
  by (induction q) (auto simp: not_paid_out_def split: option.splits lockdrop_callback.splits)

lemma quiet_calm: "list_all (quiet env) ms \<Longrightarrow> list_all (calm env) ms"
  by (auto simp: calm_def list_all_iff)

lemma not_paid_out_load:
  "compatible_load d s k g = Ok li \<Longrightarrow> not_paid_out s k \<longleftrightarrow> astroport_lp_transferred li = None"
  by (simp add: not_paid_out_def lockup_view_load)

lemma quiet_imp_calm: "quiet env m \<Longrightarrow> calm env m"
  by (simp add: calm_def)

subsection \<open>Messages of the parts\<close>

lemma quiet_simps [simp]:
  "quiet env (BankSend a cs)" "quiet env (WasmExecute c (GeneratorWithdraw lp n) fs)"
  "quiet env (WasmExecute c (GeneratorClaimRewards lps) fs)"
  "quiet env (WasmExecute c (Cw20Transfer a n) fs)" "quiet env (WasmExecute c (Cw20Send a n h) fs)"
  "quiet env (WasmExecute c (Cw20BurnFrom a n) fs)"
  "quiet env (WasmExecute c (MigrateXYKLockup p u dur ui li b) fs)"
  "quiet env (WasmExecute c (LockdropCallback (UpdatePoolOnDualRewardsClaim p n ns)) fs)"
  "quiet env (WasmExecute c (LockdropCallback (MigrateUserLockupToPCLPairCallback p a dur n den m)) fs)"
  by (simp_all add: quiet_def)

lemma claim_generator_rewards_quiet:
  "claim_generator_rewards d env p lp g = Ok ms \<Longrightarrow> list_all (quiet env) ms"
  by (auto simp: claim_generator_rewards_def Let_def split: if_splits)

lemma into_msgs_quiet:
  "try_map (\<lambda>asset. into_msg asset a) assets = Ok ms \<Longrightarrow> list_all (quiet env) ms"
  by (induction assets arbitrary: ms) (auto simp: into_msg_cases split: asset_info.splits)

lemma one_time_rewards_frame:
  assumes "one_time_rewards d cfg a user s = Ok (s', ms)" and b: "lockdrop_books s"
    and u: "lockup_positions_index user = lockup_positions_index (load_user_or_default s a)"
  shows "lockdrop_books s' \<and> lockup_view s' = lockup_view s \<and> l_config s' = l_config s \<and>
    list_all (quiet env) ms"
proof -
  note ok = lockdrop_books_ok [OF b]
  have s': "s' = s \<or> s' = s\<lparr>l_users := save a (user\<lparr>ntrn_transferred := True\<rparr>) (l_users s)\<rparr>"
    and "list_all (quiet env) ms"
    using assms(1)
    by (auto simp: one_time_rewards_def claim_airdrop_tokens_with_multiplier_msg_def Let_def split: if_splits)
  moreover have "lockdrop_books (s\<lparr>l_users := save a (user\<lparr>ntrn_transferred := True\<rparr>) (l_users s)\<rparr>)"
    by (rule books_same [OF b]) (use u ok in \<open>auto simp: store_simps positions_def load_user_or_default_def\<close>)
  ultimately show ?thesis using b by (auto simp: lockup_view_def)
qed

subsection \<open>The callbacks\<close>

text \<open>What a callback owes the run: the books, the rest of the queue, the configuration, and that
  no lockup is forgotten or paid back in.\<close>

definition run_step_ok :: "env \<Rightarrow> lockdrop \<Rightarrow> lockdrop \<Rightarrow> msg list \<Rightarrow> msg list \<Rightarrow> bool" where
  "run_step_ok env s s' ms q \<longleftrightarrow>
     lockdrop_books s' \<and> l_config s' = l_config s \<and> queue_ok env s' (ms @ q)"

lemma withdraw_generator_rewards_frame:
  assumes "withdraw_generator_rewards d pool g a user w n li = Ok (li', ms)"
  shows "lp_units_locked li' = lp_units_locked li \<and>
    astroport_lp_transferred li' = astroport_lp_transferred li \<and>
    unlock_timestamp li' = unlock_timestamp li \<and> list_all (quiet env) ms"
proof (cases "is_staked pool")
  case True
  then obtain proxy_debt ntrn_debt pending_proxy proxy_ms rest1 rest2 where
    "li' = li\<lparr>generator_ntrn_debt := ntrn_debt, generator_proxy_debt := proxy_debt\<rparr>"
    "try_map (\<lambda>asset. into_msg asset a) pending_proxy = Ok proxy_ms"
    "ms = rest1 @ proxy_ms @ rest2" "list_all (quiet env) rest1" "list_all (quiet env) rest2"
    using assms unfolding withdraw_generator_rewards_def by clarsimp
  then show ?thesis using into_msgs_quiet by simp
qed (use assms in \<open>simp add: withdraw_generator_rewards_def\<close>)

lemma withdraw_rewards_inversion:
  assumes "callback_withdraw_user_rewards_for_lockup_optional_withdraw d env p a dur w s = Ok (s', ms)"
  obtains cfg pool li generator lp_amount li' reward_ms s1 unlock_ms one_ms where
    "l_config s = Some cfg" "map_of (l_pools s) p = Some pool"
    "compatible_load d s (p, a, dur) (lc_generator cfg) = Ok li" "lc_generator cfg = Some generator"
    "lockup_lp_amount d env pool generator li = Ok lp_amount"
    "withdraw_generator_rewards d pool generator a (load_user_or_default s a) w lp_amount li
       = Ok (li', reward_ms)"
    "if w then release_lockup (p, a, dur) pool li' lp_amount s = Ok s1 \<and>
              unlock_ms = [WasmExecute (lp_token pool) (Cw20Transfer a lp_amount) []]
     else s1 = s\<lparr>l_lockups := save (p, a, dur) (LockupV2 li') (l_lockups s)\<rparr> \<and> unlock_ms = []"
    "one_time_rewards d cfg a (load_user_or_default s a) s1 = Ok (s', one_ms)"
    "ms = reward_ms @ unlock_ms @ one_ms"
  using assms
  unfolding callback_withdraw_user_rewards_for_lockup_optional_withdraw_def lockdrop_load_config_def
    load_pool_def
  by (cases w; clarsimp simp: Let_def; rule that; (assumption | simp))

lemma callback_withdraw_rewards_ok:
  assumes "callback_withdraw_user_rewards_for_lockup_optional_withdraw d env p a dur w s = Ok (s', ms)"
    and b: "lockdrop_books s" and n: "not_paid_out s (p, a, dur)" and q: "list_all (calm env) q"
  shows "run_step_ok env s s' ms q"
  using assms(1)
proof (rule withdraw_rewards_inversion, goal_cases)
  case (1 cfg pool li generator lp_amount li' reward_ms s1 unlock_ms one_ms)
  have t: "astroport_lp_transferred li = None" using n not_paid_out_load [OF 1(3)] by simp
  note f = withdraw_generator_rewards_frame [OF 1(6), of env]
  have s1: "lockdrop_books s1 \<and> l_config s1 = l_config s \<and> l_users s1 = l_users s"
  proof (cases w)
    case True
    then have "release_lockup (p, a, dur) pool li' lp_amount s = Ok s1" using 1(7) by simp
    from books_release [OF this b 1(2,3) t] f show ?thesis by simp
  next
    case False
    then show ?thesis using 1(7) f touch_lockup [OF b 1(3), of li'] by simp
  qed
  have u: "lockup_positions_index (load_user_or_default s a) =
      lockup_positions_index (load_user_or_default s1 a)"
    using s1 by (simp add: load_user_or_default_def)
  note o = one_time_rewards_frame [OF 1(8) conjunct1 [OF s1] u, of env]
  have "list_all (calm env) (ms @ q)"
    using 1(7,9) f o q quiet_calm [of env reward_ms] quiet_calm [of env one_ms]
    by (auto simp: list_all_append quiet_imp_calm split: if_splits)
  then show ?case using o s1 by (simp add: run_step_ok_def queue_ok_calm)
qed

lemma callback_transfer_rewards_ok:
  assumes "callback_transfer_all_rewards_before_migration d env p a dur s = Ok (s', ms)"
    and b: "lockdrop_books s" and n: "not_paid_out s (p, a, dur)" and q: "list_all (calm env) q"
  shows "run_step_ok env s s' ms q"
proof -
  from assms(1) obtain cfg generator lp n' k cs assets proxy_ms one_ms where
    o: "one_time_rewards d cfg a (load_user_or_default s a) s = Ok (s', one_ms)" and
    p: "try_map (\<lambda>asset. into_msg asset a) assets = Ok proxy_ms" and
    ms: "ms = ((if 0 < (k :: u128) then [BankSend a cs] else []) @ proxy_ms @ one_ms) @
      [WasmExecute (this_contract env) (LockdropCallback (WithdrawUserLockupCallback p a dur generator lp n')) []]"
    unfolding callback_transfer_all_rewards_before_migration_def
    by (clarsimp simp: Let_def)
  note f = one_time_rewards_frame [OF o b refl, of env]
  have "list_all (quiet env) ((if 0 < k then [BankSend a cs] else []) @ proxy_ms @ one_ms)"
    using f into_msgs_quiet [OF p, of env] by simp
  then have "queue_ok env s' (ms @ q)"
    using n q f unfolding ms append_assoc [of _ _ q] by (simp add: queue_ok_quiet not_paid_out_def)
  then show ?thesis using f by (simp add: run_step_ok_def)
qed

lemma callback_withdraw_lockup_ok:
  assumes "callback_withdraw_user_lockup d env p a dur g lp n s = Ok (s', ms)"
    and b: "lockdrop_books s" and np: "not_paid_out s (p, a, dur)" and q: "list_all (calm env) q"
  shows "run_step_ok env s s' ms q"
proof -
  from assms(1) obtain cfg :: lockdrop_config and li pool where
    l: "compatible_load d s (p, a, dur) (lc_generator cfg) = Ok li" and
    pool: "map_of (l_pools s) p = Some pool" and
    rel: "release_lockup (p, a, dur) pool li n s = Ok s'" and
    ms: "list_all (quiet env) ms"
    unfolding callback_withdraw_user_lockup_def load_pool_def
    by clarsimp
  have t: "astroport_lp_transferred li = None" using np not_paid_out_load [OF l] by simp
  from books_release [OF rel b pool l t refl refl]
  show ?thesis using quiet_calm [OF ms] q by (simp add: run_step_ok_def queue_ok_calm list_all_append)
qed

lemma callback_init_migrate_ok:
  assumes "callback_init_migrate_lockup_to_pcl_pools d env p a dur s = Ok (s', ms)"
    and id: "addr_validate_identity d"
    and b: "lockdrop_books s" and q: "list_all (calm env) q"
  shows "run_step_ok env s s' ms q"
proof -
  from assms(1) obtain r where r: "query_lockup_info d env a p dur s = Ok r"
    unfolding callback_init_migrate_lockup_to_pcl_pools_def by auto
  from r obtain cfg :: lockdrop_config and b li where l: "compatible_load d s (p, b, dur) (lc_generator cfg) = Ok li"
    and b': "addr_validate d a = Ok b" and t: "lr_astroport_lp_transferred r = astroport_lp_transferred li"
    unfolding query_lockup_info_def by clarsimp
  have ba: "b = a" using id b' by (rule addr_validate_identityD)
  show ?thesis
  proof (cases "lr_astroport_lp_transferred r = None")
    case False
    then have "s' = s" "ms = []"
      using assms(1) r by (auto simp: callback_init_migrate_lockup_to_pcl_pools_def)
    then show ?thesis using \<open>lockdrop_books s\<close> q by (simp add: run_step_ok_def queue_ok_calm)
  next
    case True
    then obtain lp g claim_ms where "s' = s" and c: "claim_generator_rewards d env p lp g = Ok claim_ms"
      and ms: "ms = claim_ms @ [WasmExecute (this_contract env)
        (LockdropCallback (TransferAllRewardsBeforeMigrationCallback p a dur)) []]"
      using assms(1) r by (auto simp: callback_init_migrate_lockup_to_pcl_pools_def)
    have "not_paid_out s (p, a, dur)" using True t not_paid_out_load [OF l] ba by simp
    then have "queue_ok env s (ms @ q)"
      using q queue_ok_quiet [OF claim_generator_rewards_quiet [OF c]] by (simp add: ms)
    then show ?thesis using \<open>s' = s\<close> \<open>lockdrop_books s\<close> by (simp add: run_step_ok_def)
  qed
qed

lemma callback_update_pool_ok:
  assumes "update_pool_on_dual_rewards_claim d env p n ns s = Ok (s', ms)"
    and b: "lockdrop_books s" and q: "queue_ok env s q"
  shows "run_step_ok env s s' ms q"
proof -
  note ok = lockdrop_books_ok [OF b]
  from assms(1) obtain pool per_share proxies where pool: "map_of (l_pools s) p = Some pool"
    and s': "s' = s\<lparr>l_pools := save p (pool\<lparr>generator_ntrn_per_share := per_share,
        generator_proxy_per_share := proxies\<rparr>) (l_pools s)\<rparr>" and ms: "ms = []"
    unfolding update_pool_on_dual_rewards_claim_def load_pool_def
    by clarsimp
  have "lockdrop_books s'"
    unfolding s' by (rule books_same [OF b]) (use ok pool in \<open>simp_all add: store_simps pool_amount_def\<close>)
  moreover have "lockup_view s' = lockup_view s" by (simp add: s' lockup_view_def fun_eq_iff)
  ultimately show ?thesis using q ms queue_ok_view [of s' s env q] by (simp add: run_step_ok_def s')
qed

lemma callback_migrate_pair_ok:
  assumes "callback_migrate_user_lockup_to_pcl_pair d env p a dur n denom m s = Ok (s', ms)"
    and b: "lockdrop_books s" and q: "queue_ok env s q"
  shows "run_step_ok env s s' ms q"
proof -
  have "s' = s \<and> list_all (quiet env) ms"
    using assms(1) unfolding callback_migrate_user_lockup_to_pcl_pair_def by (auto simp: Let_def)
  then show ?thesis using b q by (simp add: run_step_ok_def queue_ok_quiet)
qed

lemma callback_step_ok:
  assumes "receive_lockdrop_callback d env info cb s = Ok (s', ms)" and "addr_validate_identity d"
    and b: "lockdrop_books s" and q: "queue_ok env s (WasmExecute (this_contract env) (LockdropCallback cb) fs # q)"
  shows "run_step_ok env s s' ms q"
proof -
  have h: "handle_lockdrop_callback d env cb s = Ok (s', ms)"
    using assms(1) by (simp add: receive_lockdrop_callback_def split: if_splits)
  then show ?thesis
  proof (cases cb)
    case (UpdatePoolOnDualRewardsClaim p n ns)
    then show ?thesis using h q b callback_update_pool_ok [of d env p n ns s s' ms q] by simp
  next
    case (WithdrawUserLockupRewardsCallback p a dur w)
    then show ?thesis using h q b callback_withdraw_rewards_ok [of d env p a dur w s s' ms q] by simp
  next
    case (InitMigrateLockupToPCLPoolsCallback p a dur)
    then show ?thesis using h q b assms(2) callback_init_migrate_ok [of d env p a dur s s' ms q] by simp
  next
    case (TransferAllRewardsBeforeMigrationCallback p a dur)
    then show ?thesis using h q b callback_transfer_rewards_ok [of d env p a dur s s' ms q] by simp
  next
    case (WithdrawUserLockupCallback p a dur g lp n)
    then show ?thesis using h q b callback_withdraw_lockup_ok [of d env p a dur g lp n s s' ms q] by simp
  next
    case (MigrateUserLockupToPCLPairCallback p a dur n denom m)
    then show ?thesis using h q b callback_migrate_pair_ok [of d env p a dur n denom m s s' ms q] by simp
  qed
qed

subsection \<open>Runs and transactions\<close>

text \<open>A run executes a queue of messages. The answers of the other contracts may change from one
  callback to the next; what is assumed of them is that a validated address is the given text, and
  that they do not call the lockdrop back within the transaction.\<close>

inductive lockdrop_run :: "env \<Rightarrow> msg list \<Rightarrow> lockdrop \<Rightarrow> lockdrop \<Rightarrow> bool" for env where
  finished: "lockdrop_run env [] s s"
| other: "own_callback env m = None \<Longrightarrow> lockdrop_run env q s t \<Longrightarrow> lockdrop_run env (m # q) s t"
| callback: "receive_lockdrop_callback (d :: lockdrop_deps) env info cb s = Ok (u, ms) \<Longrightarrow>
    addr_validate_identity d \<Longrightarrow> lockdrop_run env (ms @ q) u t \<Longrightarrow>
    lockdrop_run env (WasmExecute (this_contract env) (LockdropCallback cb) fs # q) s t"

inductive_cases run_NilE [elim!]: "lockdrop_run env [] s t"

lemma run_books:
  "lockdrop_run env q s t \<Longrightarrow> lockdrop_books s \<Longrightarrow> queue_ok env s q \<Longrightarrow>
   lockdrop_books t \<and> l_config t = l_config s"
proof (induction rule: lockdrop_run.induct)
  case (callback d info cb s u ms q t fs)
  then have "run_step_ok env s u ms q" using callback_step_ok by blast
  then show ?case using callback.IH by (simp add: run_step_ok_def)
qed auto

text \<open>A quiet queue without callbacks leaves the state alone.\<close>

lemma run_no_callbacks:
  "lockdrop_run env q s t \<Longrightarrow> list_all (\<lambda>m. own_callback env m = None) q \<Longrightarrow> t = s"
  by (induction rule: lockdrop_run.induct) auto

text \<open>What an operator may not do: register the tokens again after lockups exist. Migration is an
  operation of a later version of the contract, installed after the windows are over.\<close>

definition windows_end :: "lockdrop \<Rightarrow> nat" where
  "windows_end s = (case l_config s of None \<Rightarrow> 0
     | Some cfg \<Rightarrow> unat (lc_init_timestamp cfg) + unat (lc_lock_window cfg) + unat (lc_withdrawal_window cfg))"

definition deployed_use :: "env \<Rightarrow> lockdrop_execute_msg \<Rightarrow> lockdrop \<Rightarrow> bool" where
  "deployed_use env m s = (case m of
       LSetTokenInfo atom usdc g \<Rightarrow> l_lockups s = []
     | LMigrateLiquidityToPCLPools u \<Rightarrow> windows_end s \<le> unat (block_time env)
     | _ \<Rightarrow> True)"

inductive lockdrop_tx ::
  "env \<Rightarrow> message_info \<Rightarrow> lockdrop_execute_msg \<Rightarrow> lockdrop \<Rightarrow> lockdrop \<Rightarrow> bool" for env where
  "sender info \<noteq> this_contract env \<Longrightarrow> lockdrop_execute (d :: lockdrop_deps) env info m s = Ok (u, ms) \<Longrightarrow>
   addr_validate_identity d \<Longrightarrow> deployed_use env m s \<Longrightarrow> lockdrop_run env ms u t \<Longrightarrow> lockdrop_tx env info m s t"

inductive lockdrop_reachable :: "u64 \<Rightarrow> lockdrop \<Rightarrow> bool" where
  start: "lockdrop_instantiate (d :: lockdrop_deps) env info m lockdrop_empty = Ok (s, ms) \<Longrightarrow>
     lockdrop_reachable (block_time env) s"
| tx: "lockdrop_reachable t s \<Longrightarrow> t \<le> block_time env \<Longrightarrow> lockdrop_tx env info m s s' \<Longrightarrow>
     lockdrop_reachable (block_time env) s'"
| upgrade: "lockdrop_reachable t s \<Longrightarrow> lockdrop_migrate (d :: lockdrop_deps) a s = Ok (s', ms) \<Longrightarrow>
     lockdrop_reachable t s'"

subsection \<open>The handlers start orderly queues\<close>

lemma update_config_frame:
  assumes "handle_update_config d info na ng s = Ok (s', ms)"
  shows "ms = [] \<and> (\<exists>cfg. s' = s\<lparr>l_config := Some cfg\<rparr>) \<and> windows_end s' = windows_end s"
  using assms unfolding handle_update_config_def lockdrop_load_config_def windows_end_def
  by (cases ng) (auto simp: update_if_Ok_iff split: option.splits if_splits)

lemma claim_rewards_inversion:
  assumes "handle_claim_rewards_and_unlock_for_lockup d env info p dur w s = Ok (s', ms)"
  obtains cfg total_share window_end pool user s1 user' li claim_ms where
    "l_config s = Some cfg" "l_state s = Some total_share" "withdrawal_window_end cfg = Ok window_end"
    "window_end \<le> block_time env" "map_of (l_pools s) p = Some pool"
    "map_of (l_users s) (sender info) = Some user"
    "if total_ntrn_rewards user = 0
     then \<exists>r. update_user_lockup_positions_and_calc_rewards d cfg total_share (sender info) s = Ok (s1, r) \<and>
       user' = user\<lparr>total_ntrn_rewards := r\<rparr>
     else s1 = s \<and> user' = user"
    "s' = s1\<lparr>l_users := save (sender info) user' (l_users s1)\<rparr>"
    "compatible_load d s' (p, sender info, dur) (lc_generator cfg) = Ok li"
    "w \<longrightarrow> unlock_timestamp li \<le> block_time env" "astroport_lp_transferred li = None"
    "if is_staked pool then \<exists>generator. lc_generator cfg = Some generator \<and>
       claim_generator_rewards d env p (lp_token pool) generator = Ok claim_ms
     else \<not> (ntrn_transferred user' \<and> \<not> w) \<and> claim_ms = []"
    "ms = claim_ms @ [WasmExecute (this_contract env)
       (LockdropCallback (WithdrawUserLockupRewardsCallback p (sender info) dur w)) []]"
proof -
  from assms obtain cfg total_share window_end pool user where
    *: "l_config s = Some cfg" "l_state s = Some total_share" "withdrawal_window_end cfg = Ok window_end"
    "window_end \<le> block_time env" "map_of (l_pools s) p = Some pool"
    "map_of (l_users s) (sender info) = Some user"
    unfolding handle_claim_rewards_and_unlock_for_lockup_def lockdrop_load_config_def
      lockdrop_load_state_def load_pool_def by (auto simp: Let_def not_less)
  show ?thesis
    using assms * that [OF *]
    unfolding handle_claim_rewards_and_unlock_for_lockup_def lockdrop_load_config_def
      lockdrop_load_state_def load_pool_def
    by (cases "total_ntrn_rewards user = 0"; cases "is_staked pool") (auto simp: Let_def not_less)
qed

lemma rewards_user_save:
  assumes "rewards_frame s s1" and "lockup_positions_index user' = lockup_positions_index (load_user_or_default s a)"
  shows "lockdrop_books (s1\<lparr>l_users := save a user' (l_users s1)\<rparr>)"
proof -
  have b: "lockdrop_books s1" using assms(1) by (simp add: rewards_frame_def)
  show ?thesis
    by (rule books_same [OF b])
      (use assms lockdrop_books_ok [OF b] in
        \<open>auto simp: store_simps rewards_frame_def positions_def load_user_or_default_def\<close>)
qed

lemma claim_rewards_start:
  assumes "handle_claim_rewards_and_unlock_for_lockup d env info p dur w s = Ok (s', ms)"
    and b: "lockdrop_books s"
  shows "lockdrop_books s' \<and> l_config s' = l_config s \<and> queue_ok env s' ms \<and>
    windows_end s \<le> unat (block_time env)"
  using assms(1)
proof (rule claim_rewards_inversion, goal_cases)
  case (1 cfg total_share window_end pool user s1 user' li claim_ms)
  have f: "rewards_frame s s1" and i: "lockup_positions_index user' = lockup_positions_index user"
    using 1(7) update_positions_frame [of d cfg total_share "sender info" s s1, OF _ b] b
    by (auto simp: rewards_frame_def split: if_splits)
  have s': "lockdrop_books s'"
    using rewards_user_save [OF f, of user' "sender info"] i 1(6) unfolding 1(8)
    by (simp add: load_user_or_default_def)
  have "list_all (quiet env) claim_ms"
    using 1(12) claim_generator_rewards_quiet [of d env p "lp_token pool" _ claim_ms]
    by (auto split: if_splits)
  then have q: "queue_ok env s' ms"
    using not_paid_out_load [OF 1(9)] 1(11) by (simp add: 1(13) queue_ok_quiet)
  show ?case
    using s' q f 1(1,3,4,8)
    by (auto simp: rewards_frame_def windows_end_def withdrawal_window_end_def lock_window_end_def
        word_le_nat_alt)
qed

lemma migrate_start:
  assumes "handle_migrate_liquidity_to_pcl_pools d info env u s = Ok (s', ms)"
    and b: "lockdrop_books s"
  shows "lockdrop_books s' \<and> l_config s' = l_config s \<and> queue_ok env s' ms"
proof -
  from assms(1) obtain a cfg total_share user where u: "map_of (l_users s) a = Some user"
    and c: "l_config s = Some cfg"
    and s': "(if total_ntrn_rewards user = 0 then
          and_then (update_user_lockup_positions_and_calc_rewards d cfg total_share a s) (\<lambda>(s, r).
          Ok (s\<lparr>l_users := save a (user\<lparr>total_ntrn_rewards := r\<rparr>) (l_users s)\<rparr>))
        else Ok s) = Ok s'"
    and ms: "ms = map (\<lambda>(p, dur). WasmExecute (this_contract env)
            (LockdropCallback (InitMigrateLockupToPCLPoolsCallback p a dur)) []) (user_lockups s' a)"
    unfolding handle_migrate_liquidity_to_pcl_pools_def lockdrop_load_config_def by clarsimp
  have "list_all (calm env) ms" unfolding ms by (auto simp: list_all_iff calm_def)
  moreover have "lockdrop_books s' \<and> l_config s' = l_config s"
  proof (cases "total_ntrn_rewards user = 0")
    case True
    then obtain s1 r where f: "update_user_lockup_positions_and_calc_rewards d cfg total_share a s = Ok (s1, r)"
      and s1: "s' = s1\<lparr>l_users := save a (user\<lparr>total_ntrn_rewards := r\<rparr>) (l_users s1)\<rparr>"
      using s' by auto
    note f' = update_positions_frame [OF f b]
    show ?thesis
      using rewards_user_save [OF f', of "user\<lparr>total_ntrn_rewards := r\<rparr>" a] u f'
      by (simp add: s1 load_user_or_default_def rewards_frame_def)
  qed (use s' b in simp)
  ultimately show ?thesis by (simp add: queue_ok_calm)
qed

lemma set_token_info_start:
  assumes "handle_set_token_info d info usdc atom g s = Ok (s', ms)" and b: "lockdrop_books s"
    and e: "l_lockups s = []"
  shows "lockdrop_books s' \<and> l_lockups s' = [] \<and> windows_end s' = windows_end s \<and> ms = []"
proof -
  note ok = lockdrop_books_ok [OF b]
  from assms(1) obtain cfg u a g' where c: "l_config s = Some cfg" and ms: "ms = []" and
    s': "s' = s\<lparr>l_pools := save USDC (new_lockdrop_pool u) (save ATOM (new_lockdrop_pool a) (l_pools s)),
           l_config := Some (cfg\<lparr>lc_generator := Some g'\<rparr>)\<rparr>"
    unfolding handle_set_token_info_def lockdrop_load_config_def by auto
  have zero: "pool_amount (l_pools s) q = 0" for q
    using b e by (simp add: lockdrop_books_def pool_live_def)
  have "lockdrop_books s'"
    unfolding s'
    by (rule books_same [OF b]) (use ok zero in \<open>auto simp: store_simps new_lockdrop_pool_def\<close>)
  then show ?thesis using c e ms by (simp add: s' windows_end_def)
qed

lemma initialize_pool_start:
  assumes "handle_initialize_pool env info p cs share amount s = Ok (s', ms)" and b: "lockdrop_books s"
  shows "lockdrop_books s' \<and> l_lockups s' = l_lockups s \<and> l_config s' = l_config s \<and>
    list_all (\<lambda>m. own_callback env' m = None) ms"
proof -
  note ok = lockdrop_books_ok [OF b]
  from assms(1) obtain pool t where pool: "map_of (l_pools s) p = Some pool" and
    s': "s' = s\<lparr>l_pools := save p (pool\<lparr>incentives_share := share, is_staked := True\<rparr>) (l_pools s),
      l_state := Some t\<rparr>" and
    ms: "list_all (\<lambda>m. own_callback env' m = None) ms"
    unfolding handle_initialize_pool_def load_pool_def stake_messages_def by (auto simp: Let_def)
  have "lockdrop_books s'"
    unfolding s' by (rule books_same [OF b]) (use ok pool in \<open>simp_all add: store_simps pool_amount_def\<close>)
  then show ?thesis using ms by (simp add: s')
qed

subsection \<open>The invariant of a deployed contract\<close>

definition lockdrop_inv :: "u64 \<Rightarrow> lockdrop \<Rightarrow> bool" where
  "lockdrop_inv t s \<longleftrightarrow> lockdrop_books s \<and> (unat t < windows_end s \<longrightarrow> open_lockups s)"

lemma lockdrop_inv_later: "lockdrop_inv t s \<Longrightarrow> t \<le> t' \<Longrightarrow> lockdrop_inv t' s"
  by (auto simp: lockdrop_inv_def word_le_nat_alt)

text \<open>What a handler without callbacks keeps.\<close>

definition plain_step :: "lockdrop \<Rightarrow> lockdrop \<Rightarrow> msg list \<Rightarrow> bool" where
  "plain_step s s' ms \<longleftrightarrow> lockdrop_books s' \<and> (open_lockups s \<longrightarrow> open_lockups s') \<and>
     windows_end s' = windows_end s \<and> (\<forall>env. list_all (\<lambda>m. own_callback env m = None) ms)"

lemma plain_step_frame:
  assumes "lockdrop_books s" "l_lockups s' = l_lockups s" "l_pools s' = l_pools s"
    "l_totals s' = l_totals s" "l_users s' = l_users s" "windows_end s' = windows_end s" "ms = []"
  shows "plain_step s s' ms"
  using assms by (simp add: plain_step_def lockdrop_books_def open_lockups_def)

lemma plain_step_inv:
  assumes "plain_step s s' ms" "lockdrop_run env ms s' t'" "lockdrop_inv (block_time env) s"
  shows "lockdrop_inv (block_time env) t'"
proof -
  have "t' = s'" using assms(1,2) run_no_callbacks by (simp add: plain_step_def)
  then show ?thesis using assms(1,3) by (simp add: plain_step_def lockdrop_inv_def)
qed

lemma windows_end_open:
  assumes "lockdrop_inv (block_time env) s" "l_config s = Some cfg"
    and "unat (block_time env) < unat (lc_init_timestamp cfg) + unat (lc_lock_window cfg) + unat (lc_withdrawal_window cfg)"
  shows "open_lockups s"
  using assms by (simp add: lockdrop_inv_def windows_end_def)

lemma increase_plain:
  assumes h: "handle_increase_lockup d env info u p dur amount s = Ok (s', ms)"
    and i: "lockdrop_inv (block_time env) s"
  shows "plain_step s s' ms"
proof -
  have "open_lockups s"
    using h by (rule increase_inversion)
      (rule windows_end_open [OF i], auto simp: word_less_nat_alt)
  then show ?thesis
    using books_increase [OF h] i by (auto simp: plain_step_def lockdrop_inv_def windows_end_def)
qed

lemma withdraw_plain:
  assumes h: "handle_withdraw_from_lockup d env info u p dur amount s = Ok (s', ms)"
    and i: "lockdrop_inv (block_time env) s"
  shows "plain_step s s' ms"
proof -
  have "open_lockups s"
    using h by (rule withdraw_from_lockup_inversion)
      (rule windows_end_open [OF i], auto simp: word_less_nat_alt withdrawal_window_end_def lock_window_end_def)
  then show ?thesis
    using books_withdraw [OF h] i by (auto simp: plain_step_def lockdrop_inv_def windows_end_def)
qed

lemma admin_plain:
  assumes "lockdrop_books s"
  shows "handle_increasing_ntrn_incentives env info s = Ok (s', ms) \<Longrightarrow> plain_step s s' ms"
    and "handle_update_config d info na ng s = Ok (s', ms) \<Longrightarrow> plain_step s s' ms"
    and "lockdrop_propose_new_owner d' env info n e s = Ok (s', ms) \<Longrightarrow> plain_step s s' ms"
    and "lockdrop_drop_ownership_proposal info s = Ok (s', ms) \<Longrightarrow> plain_step s s' ms"
    and "lockdrop_claim_ownership env info s = Ok (s', ms) \<Longrightarrow> plain_step s s' ms"
    and "lockdrop_receive_cw20 d'' env info cs amount hook s = Ok (s', ms) \<Longrightarrow> plain_step s s' ms"
proof -
  show "handle_increasing_ntrn_incentives env info s = Ok (s', ms) \<Longrightarrow> plain_step s s' ms"
    by (rule plain_step_frame [OF assms])
      (auto simp: handle_increasing_ntrn_incentives_def lockdrop_load_config_def windows_end_def)
  show "handle_update_config d info na ng s = Ok (s', ms) \<Longrightarrow> plain_step s s' ms"
    by (rule plain_step_frame [OF assms]) (auto dest: update_config_frame)
  show "lockdrop_propose_new_owner d' env info n e s = Ok (s', ms) \<Longrightarrow> plain_step s s' ms"
    by (rule plain_step_frame [OF assms]) (auto simp: lockdrop_propose_new_owner_def windows_end_def)
  show "lockdrop_drop_ownership_proposal info s = Ok (s', ms) \<Longrightarrow> plain_step s s' ms"
    by (rule plain_step_frame [OF assms]) (auto simp: lockdrop_drop_ownership_proposal_def windows_end_def)
  show "lockdrop_claim_ownership env info s = Ok (s', ms) \<Longrightarrow> plain_step s s' ms"
    by (rule plain_step_frame [OF assms])
      (auto simp: lockdrop_claim_ownership_def lockdrop_load_config_def windows_end_def)
  show "lockdrop_receive_cw20 d'' env info cs amount hook s = Ok (s', ms) \<Longrightarrow> plain_step s s' ms"
  proof -
    assume "lockdrop_receive_cw20 d'' env info cs amount hook s = Ok (s', ms)"
    then obtain p share a where "handle_initialize_pool env info p a share amount s = Ok (s', ms)"
      unfolding lockdrop_receive_cw20_def by (cases hook) auto
    from initialize_pool_start [OF this assms]
    show "plain_step s s' ms" by (simp add: plain_step_def windows_end_def open_lockups_def)
  qed
qed

lemma late_run_inv:
  assumes "windows_end s \<le> unat (block_time env)" "lockdrop_books s'" "l_config s' = l_config s"
    "queue_ok env s' ms" "lockdrop_run env ms s' t'"
  shows "lockdrop_inv (block_time env) t'"
proof -
  have "lockdrop_books t' \<and> l_config t' = l_config s'" by (rule run_books [OF assms(5,2,4)])
  then show ?thesis using assms(1,3) by (simp add: lockdrop_inv_def windows_end_def)
qed

lemma tx_inv:
  assumes "lockdrop_tx env info m s t" and i: "lockdrop_inv (block_time env) s"
  shows "lockdrop_inv (block_time env) t"
  using assms(1)
proof (cases rule: lockdrop_tx.cases)
  case (1 d u ms)
  have b: "lockdrop_books s" using i by (simp add: lockdrop_inv_def)
  note admin = admin_plain [OF b]
  have P: "plain_step s u ms \<Longrightarrow> lockdrop_inv (block_time env) t"
    by (rule plain_step_inv [OF _ 1(5) i])
  show ?thesis
  proof (cases m)
    case (LSetTokenInfo atom usdc g)
    then have h: "handle_set_token_info d info usdc atom g s = Ok (u, ms)" and e: "l_lockups s = []"
      using 1 by (simp_all add: deployed_use_def)
    from set_token_info_start [OF h b e] have "plain_step s u ms"
      by (simp add: plain_step_def open_lockups_def)
    then show ?thesis using 1 i plain_step_inv by blast
  next
    case (LClaimRewardsAndOptionallyUnlock p dur w)
    then have "handle_claim_rewards_and_unlock_for_lockup d env info p dur w s = Ok (u, ms)" using 1 by simp
    from claim_rewards_start [OF this b] show ?thesis using 1 late_run_inv by blast
  next
    case (LMigrateLiquidityToPCLPools a)
    then have "handle_migrate_liquidity_to_pcl_pools d info env a s = Ok (u, ms)"
      and "windows_end s \<le> unat (block_time env)" using 1 by (simp_all add: deployed_use_def)
    from migrate_start [OF this(1) b] this(2) show ?thesis using 1 late_run_inv by blast
  next
    case (LCallback cb)
    then show ?thesis using 1 by (simp add: receive_lockdrop_callback_def)
  next
    case (LIncreaseLockupFor a p n dur)
    then have "plain_step s u ms" using 1 increase_plain [OF _ i] by simp
    then show ?thesis using 1 i plain_step_inv by blast
  next
    case (LWithdrawFromLockup a p dur n)
    then have "plain_step s u ms" using 1 withdraw_plain [OF _ i] by simp
    then show ?thesis using 1 i plain_step_inv by blast
  qed (use 1(2) in \<open>auto intro: P admin\<close>)
qed

lemma reachable_inv: "lockdrop_reachable t s \<Longrightarrow> lockdrop_inv t s"
proof (induction rule: lockdrop_reachable.induct)
  case (start d env info m s ms)
  then have "l_lockups s = [] \<and> l_pools s = [] \<and> l_totals s = [] \<and> l_users s = []"
    by (auto simp: lockdrop_instantiate_def lockdrop_empty_def split: if_splits)
  then show ?case
    by (auto simp: lockdrop_inv_def lockdrop_books_def open_lockups_def pool_live_def user_live_def
        position_count_def pool_amount_def user_total_def positions_def user_info_default_def)
next
  case (tx t s env info m s')
  then show ?case using tx_inv lockdrop_inv_later by blast
next
  case (upgrade t s d a s' ms)
  then show ?case
    by (auto simp: lockdrop_migrate_def lockdrop_inv_def lockdrop_books_def open_lockups_def windows_end_def)
qed

end
