(* ===== verification/Lockdrop_Lifetime.thy ===== *)
theory Lockdrop_Lifetime
  imports Lockdrop_Runs
begin

text \<open>
  The lifetime of a lockup. Its unlock time is fixed when it is opened: the end of the windows plus
  its duration. It is paid out by a claim of its own user after that time, or by a migration. Its
  list of proxy debts is empty from the start and stays empty.
\<close>

subsection \<open>What is stored about a lockup\<close>

definition lockup_terms :: "lockdrop \<Rightarrow> u64 \<Rightarrow> stored_lockup \<Rightarrow> bool" where
  "lockup_terms s dur v \<longleftrightarrow> (\<exists>li. v = LockupV2 li \<and> generator_proxy_debt li = [] \<and>
     unat (unlock_timestamp li) = windows_end s + unat dur)"

definition terms_kept :: "lockdrop \<Rightarrow> bool" where
  "terms_kept s \<longleftrightarrow> (\<forall>p a dur v. map_of (l_lockups s) (p, a, dur) = Some v \<longrightarrow> lockup_terms s dur v)"

lemma terms_load:
  assumes "terms_kept s" and "compatible_load d s (p, a, dur) g = Ok li"
  shows "generator_proxy_debt li = [] \<and> unat (unlock_timestamp li) = windows_end s + unat dur"
  using assms unfolding compatible_load_def terms_kept_def lockup_terms_def
  by (cases "map_of (l_lockups s) (p, a, dur)") (auto split: stored_lockup.splits)

lemma terms_save:
  assumes "terms_kept s" and "l_lockups s' = save (p, a, dur) (LockupV2 li) (l_lockups s)"
    and "windows_end s' = windows_end s" and "generator_proxy_debt li = []"
    and "unat (unlock_timestamp li) = windows_end s + unat dur"
  shows "terms_kept s'"
  using assms unfolding terms_kept_def lockup_terms_def by (auto simp: map_of_save)

lemma terms_frame:
  assumes "terms_kept s" and "l_lockups s' = l_lockups s" and "windows_end s' = windows_end s"
  shows "terms_kept s'"
  using assms unfolding terms_kept_def lockup_terms_def by simp

lemma windows_end_config: "l_config s' = l_config s \<Longrightarrow> windows_end s' = windows_end s"
  by (simp add: windows_end_def)

lemma terms_increase:
  assumes h: "handle_increase_lockup d env info u p dur amount s = Ok (s', ms)" and t: "terms_kept s"
  shows "terms_kept s'"
  using h
proof (rule increase_inversion, goal_cases)
  case (1 cfg window_end a pool weight weighted in_lockups found li user total')
  have "generator_proxy_debt li = [] \<and> unat (unlock_timestamp li) = windows_end s + unat dur"
  proof (cases found)
    case None
    then show ?thesis using 1(1,3,14) by (auto simp: grow_or_open_Ok windows_end_def)
  next
    case (Some old)
    then have "compatible_load d s (p, a, dur) (lc_generator cfg) = Ok old"
      using 1(13) by (simp add: compatible_may_load_Ok)
    from terms_load [OF t this] show ?thesis using 1(14) Some by (auto simp: grow_or_open_Ok)
  qed
  then show ?case using 1(16) by (intro terms_save [OF t, of s' p a dur li]) (simp_all add: windows_end_def)
qed

lemma terms_withdraw:
  assumes h: "handle_withdraw_from_lockup d env info u p dur amount s = Ok (s', ms)" and t: "terms_kept s"
    and ok: "store_ok (l_lockups s)"
  shows "terms_kept s'"
  using h
proof (rule withdraw_from_lockup_inversion, goal_cases)
  case (1 cfg window_end pool a li allowed lock_end units weight weighted in_lockups lockups users totals)
  have w: "windows_end s' = windows_end s" using 1(19) by (simp add: windows_end_def)
  show ?case
  proof (cases "units = 0")
    case True
    then have "l_lockups s' = remove (p, a, dur) (l_lockups s)"
      using 1(17,19) by (auto simp: store_or_close_Ok)
    then show ?thesis using t w ok by (auto simp: terms_kept_def lockup_terms_def map_of_remove)
  next
    case False
    then show ?thesis
      using 1(17,19) terms_load [OF t 1(8)] w
      by (intro terms_save [OF t, of s' p a dur
            "li\<lparr>withdrawal_flag := lock_end \<le> block_time env, lp_units_locked := units\<rparr>"])
        (simp_all add: store_or_close_Ok)
  qed
qed

lemma terms_calc_reward:
  assumes "calc_lockup_reward d cfg total_share a (s, acc) (p, dur) = Ok (s', acc')" and "terms_kept s"
  shows "terms_kept s' \<and> l_config s' = l_config s"
proof -
  from assms(1) obtain li where l: "compatible_load d s (p, a, dur) (lc_generator cfg) = Ok li"
    and c: "s' = s \<or> (\<exists>r. s' = s\<lparr>l_lockups := save (p, a, dur) (LockupV2 (li\<lparr>ntrn_rewards := r\<rparr>)) (l_lockups s)\<rparr>)"
    unfolding calc_lockup_reward_def by (auto simp: Let_def split: if_splits)
  note tl = terms_load [OF assms(2) l]
  have "terms_kept (s\<lparr>l_lockups := save (p, a, dur) (LockupV2 (li\<lparr>ntrn_rewards := r\<rparr>)) (l_lockups s)\<rparr>)" for r
    by (rule terms_save [OF assms(2), of _ p a dur "li\<lparr>ntrn_rewards := r\<rparr>"])
      (use tl in \<open>simp_all add: windows_end_def\<close>)
  then show ?thesis using c assms(2) by auto
qed

lemma terms_update_positions:
  assumes "update_user_lockup_positions_and_calc_rewards d cfg total_share a s = Ok (s', r)"
    and "terms_kept s"
  shows "terms_kept s' \<and> l_config s' = l_config s"
proof -
  have "(\<lambda>(u, _). terms_kept u \<and> l_config u = l_config s) (s', r)"
    using assms(1) unfolding update_user_lockup_positions_and_calc_rewards_def
  proof (rule try_fold_invariant [where P = "\<lambda>(u, _). terms_kept u \<and> l_config u = l_config s"])
    fix x st u
    assume "case st of (u, uu_) \<Rightarrow> terms_kept u \<and> l_config u = l_config s"
      and "calc_lockup_reward d cfg total_share a st x = Ok u"
    then show "case u of (u, uu_) \<Rightarrow> terms_kept u \<and> l_config u = l_config s"
      using terms_calc_reward by (cases st; cases x; cases u) fastforce
  qed (use assms(2) in simp)
  then show ?thesis by simp
qed

subsection \<open>The callbacks\<close>

lemma pending_proxy_none:
  "generator_proxy_debt li = [] \<Longrightarrow> pending_proxy_rewards pool n li = Ok r \<longleftrightarrow> r = ([], [])"
  by (cases r) (auto simp: pending_proxy_rewards_def)

lemma one_time_rewards_lockups:
  "one_time_rewards d cfg a user s = Ok (s', ms) \<Longrightarrow> l_lockups s' = l_lockups s \<and> l_config s' = l_config s"
  by (auto simp: one_time_rewards_def Let_def split: if_splits)

lemma withdraw_generator_rewards_terms:
  assumes "withdraw_generator_rewards d pool g a user w n li = Ok (li', ms)" and "generator_proxy_debt li = []"
  shows "generator_proxy_debt li' = [] \<and> unlock_timestamp li' = unlock_timestamp li"
  using assms unfolding withdraw_generator_rewards_def
  by (cases "is_staked pool") (auto simp: pending_proxy_none)

lemma release_lockup_stored:
  assumes "release_lockup (p, a, dur) pool li n s = Ok s'"
  shows "l_lockups s' = save (p, a, dur) (LockupV2 (li\<lparr>astroport_lp_transferred := Some n\<rparr>)) (l_lockups s) \<and>
    l_config s' = l_config s"
  using assms by (auto simp: release_lockup_Ok)

text \<open>What a callback does to the stored lockups: nothing, or it saves the one it was sent for.\<close>

definition callback_target :: "lockdrop_callback \<Rightarrow> (lockup_key \<times> bool) option" where
  "callback_target cb = (case cb of
       WithdrawUserLockupRewardsCallback p a dur w \<Rightarrow> Some ((p, a, dur), w)
     | WithdrawUserLockupCallback p a dur g lp n \<Rightarrow> Some ((p, a, dur), True)
     | _ \<Rightarrow> None)"

lemma callback_stores:
  assumes "handle_lockdrop_callback d env cb s = Ok (s', ms)" and t: "terms_kept s"
  shows "terms_kept s' \<and> l_config s' = l_config s \<and>
    (case callback_target cb of
       None \<Rightarrow> l_lockups s' = l_lockups s
     | Some (k, w) \<Rightarrow> \<exists>li. l_lockups s' = save k (LockupV2 li) (l_lockups s) \<and>
         (w \<or> lockup_view s k = Some (lp_units_locked li, astroport_lp_transferred li, unlock_timestamp li)))"
proof (cases cb)
  case (WithdrawUserLockupRewardsCallback p a dur w)
  then have "callback_withdraw_user_rewards_for_lockup_optional_withdraw d env p a dur w s = Ok (s', ms)"
    using assms(1) by simp
  then show ?thesis
  proof (rule withdraw_rewards_inversion, goal_cases)
    case (1 cfg pool li generator lp_amount li' reward_ms s1 unlock_ms one_ms)
    note l = terms_load [OF t 1(3)]
    note l' = withdraw_generator_rewards_terms [OF 1(6) conjunct1 [OF l]] withdraw_generator_rewards_frame [OF 1(6)]
    obtain li2 where s1: "l_lockups s1 = save (p, a, dur) (LockupV2 li2) (l_lockups s)" "l_config s1 = l_config s"
      "generator_proxy_debt li2 = []" "unlock_timestamp li2 = unlock_timestamp li" "\<not> w \<longrightarrow> li2 = li'"
    proof (cases w)
      case True
      then show ?thesis using that release_lockup_stored [of p a dur pool li' lp_amount s s1] 1(7) l' by simp
    next
      case False
      then show ?thesis using that [of li'] 1(7) l' by simp
    qed
    note o = one_time_rewards_lockups [OF 1(8)]
    have "terms_kept s'"
      by (rule terms_save [OF t, of s' p a dur li2]) (use o s1 l in \<open>simp_all add: windows_end_def\<close>)
    moreover have "\<not> w \<longrightarrow> lockup_view s (p, a, dur) =
        Some (lp_units_locked li2, astroport_lp_transferred li2, unlock_timestamp li2)"
      using lockup_view_load [OF 1(3)] s1(5) l' by auto
    ultimately show ?thesis
      using o s1(1,2) by (auto simp: WithdrawUserLockupRewardsCallback callback_target_def)
  qed
next
  case (WithdrawUserLockupCallback p a dur g lp n)
  with assms(1) have "callback_withdraw_user_lockup d env p a dur g lp n s = Ok (s', ms)" by simp
  then obtain cfg :: lockdrop_config and li pool where
    l: "compatible_load d s (p, a, dur) (lc_generator cfg) = Ok li" and
    rel: "release_lockup (p, a, dur) pool li n s = Ok s'"
    unfolding callback_withdraw_user_lockup_def by clarsimp
  note r = release_lockup_stored [OF rel] and tl = terms_load [OF t l]
  have "terms_kept s'"
    by (rule terms_save [OF t, of s' p a dur "li\<lparr>astroport_lp_transferred := Some n\<rparr>"])
      (use r tl in \<open>simp_all add: windows_end_def\<close>)
  then show ?thesis using r by (auto simp: WithdrawUserLockupCallback callback_target_def)
next
  case (UpdatePoolOnDualRewardsClaim p n ns)
  then have "l_lockups s' = l_lockups s \<and> l_config s' = l_config s"
    using assms(1) by (auto simp: update_pool_on_dual_rewards_claim_def)
  moreover from this have "terms_kept s'" using terms_frame [OF t, of s'] windows_end_config [of s' s] by simp
  ultimately show ?thesis by (simp add: UpdatePoolOnDualRewardsClaim callback_target_def)
next
  case (InitMigrateLockupToPCLPoolsCallback p a dur)
  then have "s' = s" using assms(1) by (auto simp: callback_init_migrate_lockup_to_pcl_pools_def split: if_splits)
  then show ?thesis using t by (simp add: InitMigrateLockupToPCLPoolsCallback callback_target_def)
next
  case (TransferAllRewardsBeforeMigrationCallback p a dur)
  with assms(1) obtain cfg user ms' where "one_time_rewards d cfg a user s = Ok (s', ms')"
    by (auto simp: callback_transfer_all_rewards_before_migration_def Let_def)
  note o = one_time_rewards_lockups [OF this]
  moreover from this have "terms_kept s'" using terms_frame [OF t, of s'] windows_end_config [of s' s] by simp
  ultimately show ?thesis by (simp add: TransferAllRewardsBeforeMigrationCallback callback_target_def)
next
  case (MigrateUserLockupToPCLPairCallback p a dur n denom m)
  then have "s' = s" using assms(1) by (auto simp: callback_migrate_user_lockup_to_pcl_pair_def Let_def)
  then show ?thesis using t by (simp add: MigrateUserLockupToPCLPairCallback callback_target_def)
qed

lemma run_terms:
  "lockdrop_run env q s t \<Longrightarrow> terms_kept s \<Longrightarrow> terms_kept t \<and> l_config t = l_config s"
proof (induction rule: lockdrop_run.induct)
  case (callback d info cb s u ms q t fs)
  then have "handle_lockdrop_callback d env cb s = Ok (u, ms)"
    by (simp add: receive_lockdrop_callback_def split: if_splits)
  from callback_stores [OF this callback.prems] show ?case using callback.IH by simp
qed auto

text \<open>A queue whose callbacks can pay out one lockup only leaves every other lockup as it is.\<close>

definition pays_only :: "env \<Rightarrow> lockup_key \<Rightarrow> bool \<Rightarrow> msg \<Rightarrow> bool" where
  "pays_only env k w m = (case own_callback env m of
       None \<Rightarrow> True
     | Some (UpdatePoolOnDualRewardsClaim p n ns) \<Rightarrow> True
     | Some (MigrateUserLockupToPCLPairCallback p a dur n denom m) \<Rightarrow> True
     | Some (WithdrawUserLockupRewardsCallback p a dur w') \<Rightarrow> (p, a, dur) = k \<and> w' = w
     | _ \<Rightarrow> False)"

lemma quiet_pays_only1: "quiet env m \<Longrightarrow> pays_only env k w m"
  by (auto simp: quiet_def pays_only_def split: option.splits lockdrop_callback.splits)

lemma quiet_pays_only: "list_all (quiet env) ms \<Longrightarrow> list_all (pays_only env k w) ms"
  by (simp add: list_all_iff quiet_pays_only1)

lemma one_time_rewards_quiet: "one_time_rewards d cfg a user s = Ok (s', ms) \<Longrightarrow> list_all (quiet env) ms"
  by (auto simp: one_time_rewards_def claim_airdrop_tokens_with_multiplier_msg_def Let_def split: if_splits)

lemma pays_only_emits_quiet:
  assumes "handle_lockdrop_callback d env cb s = Ok (u, ms)"
    and "pays_only env k w (WasmExecute (this_contract env) (LockdropCallback cb) fs)"
  shows "list_all (quiet env) ms"
proof (cases cb)
  case (WithdrawUserLockupRewardsCallback p a dur w')
  then have "callback_withdraw_user_rewards_for_lockup_optional_withdraw d env p a dur w' s = Ok (u, ms)"
    using assms(1) by simp
  then show ?thesis
  proof (rule withdraw_rewards_inversion, goal_cases)
    case (1 cfg pool li generator lp_amount li' reward_ms s1 unlock_ms one_ms)
    then show ?case
      using withdraw_generator_rewards_frame [OF 1(6), of env] one_time_rewards_quiet [OF 1(8), of env]
      by (cases w') auto
  qed
next
  case (MigrateUserLockupToPCLPairCallback p a dur n denom m)
  then show ?thesis using assms(1) by (auto simp: callback_migrate_user_lockup_to_pcl_pair_def Let_def)
next
  case (UpdatePoolOnDualRewardsClaim p n ns)
  then show ?thesis using assms(1) by (auto simp: update_pool_on_dual_rewards_claim_def)
qed (use assms(2) in \<open>auto simp: pays_only_def\<close>)

lemma lockup_view_frame: "l_lockups s' = l_lockups s \<Longrightarrow> lockup_view s' = lockup_view s"
  by (simp add: lockup_view_def fun_eq_iff)

lemma run_pays_only:
  "lockdrop_run env q s t \<Longrightarrow> terms_kept s \<Longrightarrow> list_all (pays_only env k w) q \<Longrightarrow> k' \<noteq> k \<or> \<not> w \<Longrightarrow>
   lockup_view t k' = lockup_view s k'"
proof (induction rule: lockdrop_run.induct)
  case (callback d info cb s u ms q t fs)
  then have h: "handle_lockdrop_callback d env cb s = Ok (u, ms)"
    by (simp add: receive_lockdrop_callback_def split: if_splits)
  note st = callback_stores [OF h callback.prems(1)]
  have p: "pays_only env k w (WasmExecute (this_contract env) (LockdropCallback cb) fs)"
    using callback.prems(2) by simp
  have "list_all (pays_only env k w) (ms @ q)"
    using quiet_pays_only [OF pays_only_emits_quiet [OF h p]] callback.prems(2) by simp
  then have "lockup_view t k' = lockup_view u k'" using callback.IH st callback.prems(3) by blast
  also have "\<dots> = lockup_view s k'"
  proof (cases "callback_target cb")
    case None
    then show ?thesis using st lockup_view_frame [of u s] by simp
  next
    case (Some kw)
    then have kw: "kw = (k, w)" using p
      by (auto simp: pays_only_def callback_target_def split: lockdrop_callback.splits)
    obtain li where "l_lockups u = save k (LockupV2 li) (l_lockups s)"
      "w \<or> lockup_view s k = Some (lp_units_locked li, astroport_lp_transferred li, unlock_timestamp li)"
      using st Some kw by auto
    then show ?thesis using callback.prems(3) by (auto simp: lockup_view_def map_of_save)
  qed
  finally show ?case .
qed auto

subsection \<open>Transactions\<close>

lemma admin_lockups:
  "handle_increasing_ntrn_incentives env info s = Ok (s', ms) \<Longrightarrow> l_lockups s' = l_lockups s"
  "handle_update_config d info na ng s = Ok (s', ms) \<Longrightarrow> l_lockups s' = l_lockups s"
  "lockdrop_propose_new_owner d' env info n e s = Ok (s', ms) \<Longrightarrow> l_lockups s' = l_lockups s"
  "lockdrop_drop_ownership_proposal info s = Ok (s', ms) \<Longrightarrow> l_lockups s' = l_lockups s"
  "lockdrop_claim_ownership env info s = Ok (s', ms) \<Longrightarrow> l_lockups s' = l_lockups s"
  "lockdrop_receive_cw20 d'' env info cs amount hook s = Ok (s', ms) \<Longrightarrow> l_lockups s' = l_lockups s"
  "handle_set_token_info d info usdc atom g s = Ok (s', ms) \<Longrightarrow> l_lockups s' = l_lockups s"
proof -
  show "lockdrop_receive_cw20 d'' env info cs amount hook s = Ok (s', ms) \<Longrightarrow> l_lockups s' = l_lockups s"
    unfolding lockdrop_receive_cw20_def handle_initialize_pool_def
    by (cases hook) (auto simp: Let_def)
qed (auto simp: handle_increasing_ntrn_incentives_def handle_update_config_def
      lockdrop_propose_new_owner_def lockdrop_drop_ownership_proposal_def lockdrop_claim_ownership_def
      handle_set_token_info_def Let_def)

lemma claim_rewards_terms:
  assumes "handle_claim_rewards_and_unlock_for_lockup d env info p dur w s = Ok (s', ms)"
    and t: "terms_kept s" and b: "lockdrop_books s"
  shows "terms_kept s' \<and> lockup_view s' = lockup_view s \<and> l_config s' = l_config s \<and>
    list_all (pays_only env (p, sender info, dur) w) ms \<and>
    (\<exists>u e. lockup_view s (p, sender info, dur) = Some (u, None, e) \<and> (w \<longrightarrow> e \<le> block_time env))"
  using assms(1)
proof (rule claim_rewards_inversion, goal_cases)
  case (1 cfg total_share window_end pool user s1 user' li claim_ms)
  have s1: "terms_kept s1 \<and> lockup_view s1 = lockup_view s \<and> l_config s1 = l_config s"
    using 1(7) t terms_update_positions [OF _ t, of d cfg total_share "sender info" s1]
      update_positions_frame [OF _ b, of d cfg total_share "sender info" s1]
    by (auto simp: rewards_frame_def split: if_splits)
  have s': "l_lockups s' = l_lockups s1" "l_config s' = l_config s1" using 1(8) by simp_all
  have "terms_kept s'" using terms_frame [of s1 s'] s1 s' windows_end_config [of s' s1] by simp
  moreover have v: "lockup_view s' = lockup_view s" using lockup_view_frame [OF s'(1)] s1 by simp
  moreover have "list_all (pays_only env (p, sender info, dur) w) ms"
    using quiet_pays_only [of env claim_ms] claim_generator_rewards_quiet [of d env p "lp_token pool" _ claim_ms] 1(12)
    by (auto simp: 1(13) pays_only_def split: if_splits)
  moreover have "lockup_view s (p, sender info, dur) = Some (lp_units_locked li, None, unlock_timestamp li)"
    using lockup_view_load [OF 1(9)] 1(11) v by simp
  ultimately show ?case using s1 s'(2) 1(10) by auto
qed

lemma migrate_terms:
  assumes "handle_migrate_liquidity_to_pcl_pools d info env u s = Ok (s', ms)" and t: "terms_kept s"
  shows "terms_kept s' \<and> l_config s' = l_config s"
proof -
  from assms(1) obtain a cfg total_share user where
    s': "(if total_ntrn_rewards user = 0 then
          and_then (update_user_lockup_positions_and_calc_rewards d cfg total_share a s) (\<lambda>(s, r).
          Ok (s\<lparr>l_users := save a (user\<lparr>total_ntrn_rewards := r\<rparr>) (l_users s)\<rparr>))
        else Ok s) = Ok s'"
    unfolding handle_migrate_liquidity_to_pcl_pools_def lockdrop_load_config_def by clarsimp
  show ?thesis
  proof (cases "total_ntrn_rewards user = 0")
    case True
    then obtain s1 r where f: "update_user_lockup_positions_and_calc_rewards d cfg total_share a s = Ok (s1, r)"
      and s1: "s' = s1\<lparr>l_users := save a (user\<lparr>total_ntrn_rewards := r\<rparr>) (l_users s1)\<rparr>"
      using s' by auto
    note f' = terms_update_positions [OF f t]
    have "terms_kept s'" by (rule terms_frame [of s1]) (use f' in \<open>simp_all add: s1 windows_end_def\<close>)
    then show ?thesis using f' by (simp add: s1)
  qed (use s' t in simp)
qed

text \<open>The messages other than claims and migrations answer with no message to the contract itself, and
  pay nothing out.\<close>

lemma tx_plain_cases:
  assumes "lockdrop_tx env info m s t" and i: "lockdrop_inv (block_time env) s" and k: "terms_kept s"
  obtains (plain) "terms_kept t" "windows_end t = windows_end s"
      "\<And>k u e u' n e'. lockup_view s k = Some (u, None, e) \<Longrightarrow> lockup_view t k \<noteq> Some (u', Some n, e')"
  | (claim) p dur w where "m = LClaimRewardsAndOptionallyUnlock p dur w" "terms_kept t"
      "windows_end t = windows_end s"
      "\<And>k. k \<noteq> (p, sender info, dur) \<or> \<not> w \<Longrightarrow> lockup_view t k = lockup_view s k"
      "\<exists>u e. lockup_view s (p, sender info, dur) = Some (u, None, e) \<and> (w \<longrightarrow> e \<le> block_time env)"
  | (migrate) a where "m = LMigrateLiquidityToPCLPools a" "terms_kept t" "windows_end t = windows_end s"
  using assms(1)
proof (cases rule: lockdrop_tx.cases)
  case (1 d u ms)
  have b: "lockdrop_books s" using i by (simp add: lockdrop_inv_def)
  have run: "t = u" if "plain_step s u ms"
    using that run_no_callbacks [OF 1(5)] by (simp add: plain_step_def)
  have same: thesis if "l_lockups u = l_lockups s" "plain_step s u ms"
  proof (rule plain)
    show "terms_kept t" using terms_frame [OF k, of u] that run by (simp add: plain_step_def)
    show "windows_end t = windows_end s" using that run by (simp add: plain_step_def)
    show "lockup_view t k \<noteq> Some (u', Some n, e')" if "lockup_view s k = Some (v, None, e)" for k v e u' n e'
      using that lockup_view_frame [of u s] \<open>l_lockups u = l_lockups s\<close> run [OF \<open>plain_step s u ms\<close>] by simp
  qed
  have opened: thesis if "open_lockups s" "terms_kept u" "plain_step s u ms"
  proof (rule plain)
    show "terms_kept t" using that run by simp
    show "windows_end t = windows_end s" using that run by (simp add: plain_step_def)
    have "open_lockups t" using that run by (simp add: plain_step_def)
    then show "lockup_view t k \<noteq> Some (u', Some n, e')" if "lockup_view s k = Some (v, None, e)" for k v e u' n e'
      by (auto simp: open_lockups_view simp del: split_paired_All)
  qed
  note admin = admin_plain [OF b]
  show ?thesis
  proof (cases m)
    case (LClaimRewardsAndOptionallyUnlock p dur w)
    then have h: "handle_claim_rewards_and_unlock_for_lockup d env info p dur w s = Ok (u, ms)" using 1(2) by simp
    note c = claim_rewards_terms [OF h k b]
    note r = run_terms [OF 1(5) conjunct1 [OF c]]
    show ?thesis
    proof (rule claim [OF LClaimRewardsAndOptionallyUnlock])
      show "terms_kept t" using r by simp
      show "windows_end t = windows_end s" using r c windows_end_config [of t s] by simp
      show "lockup_view t k = lockup_view s k" if "k \<noteq> (p, sender info, dur) \<or> \<not> w" for k
        using run_pays_only [OF 1(5) conjunct1 [OF c] _ that] c by simp
      show "\<exists>u e. lockup_view s (p, sender info, dur) = Some (u, None, e) \<and> (w \<longrightarrow> e \<le> block_time env)"
        using c by simp
    qed
  next
    case (LMigrateLiquidityToPCLPools a)
    then have h: "handle_migrate_liquidity_to_pcl_pools d info env a s = Ok (u, ms)" using 1(2) by simp
    note c = migrate_terms [OF h k]
    note r = run_terms [OF 1(5) conjunct1 [OF c]]
    show ?thesis
      using migrate [OF LMigrateLiquidityToPCLPools] r c windows_end_config [of t s] by simp
  next
    case (LIncreaseLockupFor a p n dur)
    then have h: "handle_increase_lockup d env info a p dur n s = Ok (u, ms)" using 1(2) by simp
    have "open_lockups s"
      using h by (rule increase_inversion) (rule windows_end_open [OF i], auto simp: word_less_nat_alt)
    then show ?thesis by (rule opened) (rule terms_increase [OF h k] increase_plain [OF h i])+
  next
    case (LWithdrawFromLockup a p dur n)
    then have h: "handle_withdraw_from_lockup d env info a p dur n s = Ok (u, ms)" using 1(2) by simp
    have ok: "store_ok (l_lockups s)" using b by (simp add: lockdrop_books_def)
    have "open_lockups s"
      using h by (rule withdraw_from_lockup_inversion)
        (rule windows_end_open [OF i], auto simp: word_less_nat_alt withdrawal_window_end_def lock_window_end_def)
    then show ?thesis by (rule opened) (rule terms_withdraw [OF h k ok] withdraw_plain [OF h i])+
  next
    case (LSetTokenInfo atom usdc g)
    then have h: "handle_set_token_info d info usdc atom g s = Ok (u, ms)" and e: "l_lockups s = []"
      using 1(2,4) by (simp_all add: deployed_use_def)
    from set_token_info_start [OF h b e] have "plain_step s u ms"
      by (simp add: plain_step_def open_lockups_def)
    then show ?thesis by (rule same [OF admin_lockups(7) [OF h]])
  next
    case (LCallback cb)
    then show ?thesis using 1(1,2) by (simp add: receive_lockdrop_callback_def)
  qed (use 1(2) in \<open>auto intro: same admin_lockups admin\<close>)
qed

lemma reachable_terms: "lockdrop_reachable t s \<Longrightarrow> terms_kept s"
proof (induction rule: lockdrop_reachable.induct)
  case (start d env info m s ms)
  then show ?case by (auto simp: lockdrop_instantiate_def lockdrop_empty_def terms_kept_def split: if_splits)
next
  case (tx t s env info m s')
  have "lockdrop_inv (block_time env) s" using lockdrop_inv_later [OF reachable_inv [OF tx(1)] tx(2)] .
  from tx(3) this tx.IH show ?case by (rule tx_plain_cases) auto
next
  case (upgrade t s d a s' ms)
  then show ?case by (auto simp: lockdrop_migrate_def terms_kept_def lockup_terms_def windows_end_def)
qed

end
