(* ===== verification/Auction_Lockdrop.thy ===== *)
theory Auction_Lockdrop
  imports Auction_Proofs Lockdrop_Lifetime
begin

text \<open>
  The auction and the lockdrop together. Locking and unlocking LP tokens are messages of the
  auction that carry a message to the lockdrop in the same transaction: both handlers succeed or
  neither does. \<open>joint\<close> is the set of pairs of states that such transactions, and every other
  message of the auction and the administration of the lockdrop, can reach before the first claim or
  migration. In it both contracts have the same amounts on their books. \<open>together\<close> goes on: claims,
  migrations and the upgrade of the lockdrop are steps too, and the amounts are the same up to what
  the lockdrop has paid out.
\<close>

subsection \<open>What is locked\<close>

definition locked_of :: "pool_type \<Rightarrow> auction_user \<Rightarrow> nat" where
  "locked_of p u = (case p of USDC \<Rightarrow> unat (usdc_lp_locked u) | ATOM \<Rightarrow> unat (atom_lp_locked u))"

definition locked_by :: "(addr, auction_user) store \<Rightarrow> pool_type \<Rightarrow> addr \<Rightarrow> nat" where
  "locked_by us p a = (case map_of us a of Some u \<Rightarrow> locked_of p u | None \<Rightarrow> 0)"

definition locked_total :: "auction \<Rightarrow> pool_type \<Rightarrow> nat" where
  "locked_total s p = (case a_state s of
       Some st \<Rightarrow> (case p of USDC \<Rightarrow> unat (total_usdc_lp_locked st) | ATOM \<Rightarrow> unat (total_atom_lp_locked st))
     | None \<Rightarrow> 0)"

text \<open>The message of the lockdrop that a payload stands for.\<close>

definition lockdrop_call :: "wasm_msg \<Rightarrow> lockdrop_execute_msg option" where
  "lockdrop_call w = (case w of
       IncreaseLockupFor user p n dur \<Rightarrow> Some (LIncreaseLockupFor user p n dur)
     | WithdrawFromLockup user p n dur \<Rightarrow> Some (LWithdrawFromLockup user p dur n)
     | _ \<Rightarrow> None)"

definition moves_lockups :: "auction_execute_msg \<Rightarrow> bool" where
  "moves_lockups m = (case m of AuctionLockLp p n t \<Rightarrow> True | AuctionWithdrawLp p n t \<Rightarrow> True | _ \<Rightarrow> False)"

text \<open>Messages to the lockdrop that pay nothing out and are not the auction's; its tokens are set
  once.\<close>

definition lockdrop_admin :: "lockdrop_execute_msg \<Rightarrow> lockdrop \<Rightarrow> bool" where
  "lockdrop_admin m l = (case m of
       LIncreaseLockupFor user p n dur \<Rightarrow> False
     | LWithdrawFromLockup user p dur n \<Rightarrow> False
     | LClaimRewardsAndOptionallyUnlock p dur w \<Rightarrow> False
     | LCallback cb \<Rightarrow> False
     | LMigrateLiquidityToPCLPools u \<Rightarrow> False
     | LSetTokenInfo atom usdc g \<Rightarrow> l_lockups l = []
     | _ \<Rightarrow> True)"

inductive joint :: "addr \<Rightarrow> addr \<Rightarrow> auction \<Rightarrow> lockdrop \<Rightarrow> bool" for A L where
  joint_start: "auction_instantiate (d :: deps) env info m auction_empty = Ok (s, ms) \<Longrightarrow>
     lockdrop_instantiate (d' :: lockdrop_deps) env' info' m' lockdrop_empty = Ok (l, ms') \<Longrightarrow>
     joint A L s l"
| joint_lock: "joint A L s l \<Longrightarrow> auction_execute (d :: auction_deps) env info m s = Ok (s', [WasmExecute L w fs]) \<Longrightarrow>
     moves_lockups m \<Longrightarrow> lockdrop_call w = Some lm \<Longrightarrow> addr_validate_identity d' \<Longrightarrow>
     lockdrop_execute (d' :: lockdrop_deps) (env\<lparr>this_contract := L\<rparr>) \<lparr>sender = A, funds = fs\<rparr> lm l = Ok (l', ms) \<Longrightarrow>
     joint A L s' l'"
| joint_auction: "joint A L s l \<Longrightarrow> auction_execute (d :: auction_deps) env info m s = Ok (s', ms) \<Longrightarrow>
     \<not> moves_lockups m \<Longrightarrow> joint A L s' l"
| joint_lockdrop: "joint A L s l \<Longrightarrow> lockdrop_execute (d' :: lockdrop_deps) env info lm l = Ok (l', ms) \<Longrightarrow>
     lockdrop_admin lm l \<Longrightarrow> joint A L s l'"

subsection \<open>The auction's side\<close>

lemma locked_by_save:
  "locked_by (save a u us) p b = (if b = a then locked_of p u else locked_by us p b)"
  by (simp add: locked_by_def map_of_save)

lemma locked_by_load:
  "map_of us a = Some u \<Longrightarrow> locked_of p u = locked_by us p a"
  by (simp add: locked_by_def)

lemma locked_by_default:
  "locked_of p (unwrap_or (map_of us a) auction_user_default) = locked_by us p a"
  by (cases "map_of us a"; cases p) (simp_all add: locked_by_def locked_of_def)

lemma locked_of_sel [simp]:
  "locked_of p (u\<lparr>usdc_deposited := x\<rparr>) = locked_of p u"
  "locked_of p (u\<lparr>atom_deposited := x\<rparr>) = locked_of p u"
  "locked_of p (u\<lparr>is_vested := b\<rparr>) = locked_of p u"
  "locked_of p (u\<lparr>withdrawn := b\<rparr>) = locked_of p u"
  "locked_of p (if c then u\<lparr>withdrawn := b\<rparr> else u) = locked_of p u"
  "locked_of USDC (u\<lparr>usdc_lp_locked := x\<rparr>) = unat x" "locked_of ATOM (u\<lparr>atom_lp_locked := x\<rparr>) = unat x"
  "locked_of ATOM (u\<lparr>usdc_lp_locked := x\<rparr>) = locked_of ATOM u"
  "locked_of USDC (u\<lparr>atom_lp_locked := x\<rparr>) = locked_of USDC u"
  by (simp_all add: locked_of_def split: pool_type.split)

lemma migrate_locked:
  assumes "execute_migrate_to_vesting env s = Ok (s', ms)" and "store_ok (a_users s)"
  shows "locked_by (a_users s') p b = locked_by (a_users s) p b \<and> a_state s' = a_state s"
  using assms(1)
proof (rule migrate_inversion, goal_cases)
  case (1 cfg st q m)
  have "\<forall>b. locked_by (mig_users m) p b = locked_by (a_users s) p b"
    using 1(6)
  proof (rule try_fold_invariant [where P = "\<lambda>m. \<forall>b. locked_by (mig_users m) p b = locked_by (a_users s) p b"])
    fix r au u
    assume au: "au \<in> set (take (unat (vesting_migration_pack_size cfg)) (users_not_vested (a_users s)))"
      and r: "\<forall>b. locked_by (mig_users r) p b = locked_by (a_users s) p b"
      and u: "migrate_user env cfg st r au = Ok u"
    obtain a w where aw: "au = (a, w)" by (cases au)
    have "map_of (a_users s) a = Some w" using not_vested_props(2) [OF assms(2)] au aw by blast
    then show "\<forall>b. locked_by (mig_users u) p b = locked_by (a_users s) p b"
      using migrate_user_Ok u r aw by (fastforce simp: locked_by_save locked_by_load)
  qed simp
  then show ?case using 1(7) by simp
qed

lemma other_messages_keep_locked:
  assumes "auction_execute d env info m s = Ok (s', ms)" and "\<not> moves_lockups m" and "auction_wf s"
  shows "locked_by (a_users s') p b = locked_by (a_users s) p b \<and> locked_total s' p = locked_total s p"
proof (cases m)
  case AuctionDeposit
  with assms(1) have "execute_deposit env info s = Ok (s', ms)" by simp
  then show ?thesis
    by (rule deposit_inversion)
      (auto simp: locked_by_save locked_by_default locked_total_def split: pool_type.split)
next
  case (AuctionWithdraw au aa)
  with assms(1) have "auction_execute_withdraw env info au aa s = Ok (s', ms)" by simp
  then show ?thesis
    by (rule withdraw_inversion)
      (auto simp: locked_by_save locked_by_load locked_total_def split: pool_type.split)
next
  case AuctionSetPoolSize
  with assms(1) have "execute_set_pool_size d env s = Ok (s', ms)" by simp
  then show ?thesis
    by (rule set_pool_size_inversion) (auto simp: locked_total_def split: pool_type.split)
next
  case AuctionMigrateToVesting
  with assms(1) have "execute_migrate_to_vesting env s = Ok (s', ms)" by simp
  from migrate_locked [OF this] assms(3) show ?thesis by (simp add: auction_wf_def locked_total_def)
next
  case (AuctionFinalize prev)
  with assms(1) have "execute_finalize_init_pool d env info prev s = Ok (s', ms)" by simp
  then show ?thesis
    by (rule finalize_inversion) (auto simp: locked_total_def split: pool_type.split)
qed (use assms in \<open>auto simp: moves_lockups_def locked_total_def dest!: auction_admin_frame\<close>)

lemma lock_locked:
  assumes "execute_lock_lp_tokens env info p n dur s = Ok (s', ms)"
  shows "\<exists>lockdrop. ms = [WasmExecute lockdrop (IncreaseLockupFor (sender info) p n dur) []] \<and>
    (\<forall>q b. locked_by (a_users s') q b =
       locked_by (a_users s) q b + (if q = p \<and> b = sender info then unat n else 0)) \<and>
    (\<forall>q. locked_total s' q = locked_total s q + (if q = p then unat n else 0))"
  using assms
proof (rule lock_inversion, goal_cases)
  case (1 cfg st user lockdrop lp u k)
  show ?case
  proof (cases p)
    case USDC
    with 1 show ?thesis
      by (auto simp: locked_by_save locked_by_load [OF 1(3), symmetric] locked_total_def locked_of_def
          split: pool_type.split)
  next
    case ATOM
    with 1 show ?thesis
      by (auto simp: locked_by_save locked_by_load [OF 1(3), symmetric] locked_total_def locked_of_def
          split: pool_type.split)
  qed
qed

lemma unlock_locked:
  assumes "execute_withdraw_lp_tokens env info p n dur s = Ok (s', ms)"
  shows "\<exists>lockdrop. ms = [WasmExecute lockdrop (WithdrawFromLockup (sender info) p n dur) []] \<and>
    (\<forall>q b. locked_by (a_users s) q b =
       locked_by (a_users s') q b + (if q = p \<and> b = sender info then unat n else 0)) \<and>
    (\<forall>q. locked_total s q = locked_total s' q + (if q = p then unat n else 0))"
  using assms
proof (rule unlock_inversion, goal_cases)
  case (1 cfg st user lockdrop u k)
  show ?case
  proof (cases p)
    case USDC
    with 1 show ?thesis
      by (auto simp: locked_by_save locked_by_load [OF 1(3), symmetric] locked_total_def locked_of_def
          split: pool_type.split)
  next
    case ATOM
    with 1 show ?thesis
      by (auto simp: locked_by_save locked_by_load [OF 1(3), symmetric] locked_total_def locked_of_def
          split: pool_type.split)
  qed
qed

subsection \<open>The lockdrop's side\<close>

lemma user_total_save:
  "user_total (save (p, a) n ts) q b = (if q = p \<and> b = a then unat n else user_total ts q b)"
  by (auto simp: user_total_def map_of_save)

lemma pool_amount_save:
  "pool_amount (save p pool ps) q = (if q = p then unat (amount_in_lockups pool) else pool_amount ps q)"
  by (auto simp: pool_amount_def map_of_save)

lemma increase_totals:
  assumes "handle_increase_lockup d env info u p dur n l = Ok (l', ms)" and "addr_validate_identity d"
  shows "(\<forall>q b. user_total (l_totals l') q b = user_total (l_totals l) q b + (if q = p \<and> b = u then unat n else 0)) \<and>
    (\<forall>q. pool_amount (l_pools l') q = pool_amount (l_pools l) q + (if q = p then unat n else 0))"
  using assms(1)
proof (rule increase_inversion, goal_cases)
  case (1 cfg window_end a pool weight weighted in_lockups found li user total')
  then have "a = u" using assms(2) by (simp add: addr_validate_identityD)
  with 1 show ?case by (auto simp: user_total_save pool_amount_save) (simp_all add: pool_amount_def)
qed

lemma withdraw_totals:
  assumes "handle_withdraw_from_lockup d env info u p dur n l = Ok (l', ms)" and "addr_validate_identity d"
    and "lockdrop_books l" and "open_lockups l"
  shows "(\<forall>q b. user_total (l_totals l) q b = user_total (l_totals l') q b + (if q = p \<and> b = u then unat n else 0)) \<and>
    (\<forall>q. pool_amount (l_pools l) q = pool_amount (l_pools l') q + (if q = p then unat n else 0))"
  using assms(1)
proof (rule withdraw_from_lockup_inversion, goal_cases)
  case (1 cfg window_end pool a li allowed lock_end units weight weighted in_lockups lockups users totals)
  have a: "a = u" using 1(7) assms(2) by (simp add: addr_validate_identityD)
  obtain m where totals: "totals = save (p, a) m (l_totals l)"
    and m: "case map_of (l_totals l) (p, a) of Some la \<Rightarrow> unat la = unat m + unat n | None \<Rightarrow> m = 0"
    using 1(18) by (auto simp: sub_user_total_Ok)
  have "n \<noteq> 0" by (rule 1)
  have "unat n \<le> live_at (l_lockups l) (p, a, dur)"
    using compatible_load_live(1) [OF 1(8)] open_lockups_load [OF assms(4) 1(8)] 1(13)
    by (simp add: live_units_def)
  also have "\<dots> \<le> user_total (l_totals l) p a"
    using assms(3) live_at_le_user_total by blast
  finally have "unat n \<le> user_total (l_totals l) p a" .
  then have "user_total (l_totals l) p a = unat m + unat n"
    using m \<open>n \<noteq> 0\<close> by (auto simp: user_total_def unat_eq_0 split: option.splits)
  with 1 a show ?case
    by (auto simp: totals user_total_save pool_amount_save) (simp_all add: pool_amount_def)
qed

lemma admin_keeps_totals:
  assumes "lockdrop_execute d env info m l = Ok (l', ms)" and "lockdrop_admin m l"
    and "lockdrop_books l" and "open_lockups l"
  shows "(\<forall>p a. user_total (l_totals l') p a = user_total (l_totals l) p a) \<and>
    (\<forall>p. pool_amount (l_pools l') p = pool_amount (l_pools l) p) \<and>
    lockdrop_books l' \<and> open_lockups l'"
proof -
  have "lockdrop_books l' \<and> l_lockups l' = l_lockups l"
  proof (cases "\<exists>atom usdc g. m = LSetTokenInfo atom usdc g")
    case True
    then obtain atom usdc g where "m = LSetTokenInfo atom usdc g" by blast
    with assms have "handle_set_token_info d info usdc atom g l = Ok (l', ms)" "l_lockups l = []"
      by (simp_all add: lockdrop_admin_def)
    from set_token_info_start [OF this(1) assms(3) this(2)] \<open>l_lockups l = []\<close> show ?thesis by simp
  next
    case False
    have "plain_step l l' ms"
      using assms(1,2) False
      by (cases m) (auto simp: lockdrop_admin_def dest: admin_plain [OF assms(3)])
    moreover have "l_lockups l' = l_lockups l"
      using assms(1,2) by (cases m) (auto simp: lockdrop_admin_def dest: admin_lockups)
    ultimately show ?thesis by (simp add: plain_step_def)
  qed
  with assms(3,4) show ?thesis by (simp add: lockdrop_books_def open_lockups_def)
qed

subsection \<open>Together\<close>

definition joint_ok :: "auction \<Rightarrow> lockdrop \<Rightarrow> bool" where
  "joint_ok s l \<longleftrightarrow> auction_wf s \<and> lockdrop_books l \<and> open_lockups l \<and>
     (\<forall>p a. locked_by (a_users s) p a = user_total (l_totals l) p a) \<and>
     (\<forall>p. locked_total s p = pool_amount (l_pools l) p)"

lemma joint_lock_ok:
  assumes i: "joint_ok s l" and "auction_execute d env info m s = Ok (s', [WasmExecute L w fs])"
    and "moves_lockups m" and "lockdrop_call w = Some lm" and "addr_validate_identity d'"
    and "lockdrop_execute d' env' info' lm l = Ok (l', ms)"
  shows "joint_ok s' l'"
proof -
  have wf: "auction_wf s'" using auction_wf_execute [OF assms(2)] i by (simp add: joint_ok_def)
  have b: "lockdrop_books l" "open_lockups l" using i by (simp_all add: joint_ok_def)
  consider p n dur where "m = AuctionLockLp p n dur" | p n dur where "m = AuctionWithdrawLp p n dur"
    using assms(3) by (auto simp: moves_lockups_def split: auction_execute_msg.splits)
  then show ?thesis
  proof cases
    case 1
    with assms(2) have x: "execute_lock_lp_tokens env info p n dur s = Ok (s', [WasmExecute L w fs])" by simp
    note a = lock_locked [OF x]
    from a assms(4,6) have h: "handle_increase_lockup d' env' info' (sender info) p dur n l = Ok (l', ms)"
      by (auto simp: lockdrop_call_def)
    show ?thesis
      using i wf a increase_totals [OF h assms(5)] books_increase [OF h b] by (simp add: joint_ok_def)
  next
    case 2
    with assms(2) have x: "execute_withdraw_lp_tokens env info p n dur s = Ok (s', [WasmExecute L w fs])" by simp
    note a = unlock_locked [OF x]
    from a assms(4,6) have h: "handle_withdraw_from_lockup d' env' info' (sender info) p dur n l = Ok (l', ms)"
      by (auto simp: lockdrop_call_def)
    have "locked_by (a_users s') q c = user_total (l_totals l') q c" for q c
      using i a withdraw_totals [OF h assms(5) b] unfolding joint_ok_def by (metis add_right_cancel)
    moreover have "locked_total s' q = pool_amount (l_pools l') q" for q
      using i a withdraw_totals [OF h assms(5) b] unfolding joint_ok_def by (metis add_right_cancel)
    ultimately show ?thesis using wf books_withdraw [OF h b] by (simp add: joint_ok_def)
  qed
qed

lemma joint_start_ok:
  assumes "auction_instantiate (d :: deps) env info m auction_empty = Ok (s, ms)"
    and "lockdrop_instantiate (d' :: lockdrop_deps) env' info' m' lockdrop_empty = Ok (l, ms')"
  shows "joint_ok s l"
proof -
  have "auction_wf s" using auction_reachable_inv [OF auction_reachable.start [OF assms(1)]] by simp
  moreover have "lockdrop_books l"
    using reachable_inv [OF lockdrop_reachable.start [OF assms(2)]] by (simp add: lockdrop_inv_def)
  moreover have "l_lockups l = [] \<and> l_pools l = [] \<and> l_totals l = []"
    using assms(2) by (auto simp: lockdrop_instantiate_def lockdrop_empty_def split: if_splits)
  moreover have "a_users s = [] \<and> a_state s = Some auction_state_default"
    using instantiate_Ok [OF assms(1)] by (simp add: auction_empty_def)
  ultimately show ?thesis
    by (simp add: joint_ok_def open_lockups_def locked_by_def locked_total_def user_total_def pool_amount_def
        auction_state_default_def split: pool_type.split)
qed

lemma joint_invariant: "joint A L s l \<Longrightarrow> joint_ok s l"
proof (induction rule: joint.induct)
  case (joint_start d env info m s ms d' env' info' m' l ms')
  then show ?case by (rule joint_start_ok)
next
  case (joint_lock s l d env info m s' w fs lm d' l' ms)
  then show ?case using joint_lock_ok by blast
next
  case (joint_auction s l d env info m s' ms)
  then show ?case
    using other_messages_keep_locked [OF joint_auction(2,3)] auction_wf_execute [OF joint_auction(2)]
    by (simp add: joint_ok_def)
next
  case (joint_lockdrop s l d' env info lm l' ms)
  then show ?case
    using admin_keeps_totals [OF joint_lockdrop(2,3)] by (simp add: joint_ok_def)
qed

subsection \<open>Until the last pay-out\<close>

text \<open>
  \<open>together\<close> adds everything that \<open>joint\<close> leaves to the lockdrop's own runs: its claims and
  migrations with their callbacks, and its upgrade. A lockup that is paid out stays stored with its
  LP units, so that what the users locked in the auction is what the lockdrop's books still have
  and what it has paid out.
\<close>

definition paid_units :: "stored_lockup \<Rightarrow> nat" where
  "paid_units v = (if stored_transferred v = None then 0 else unat (stored_units v))"

definition user_paid :: "pool_type \<Rightarrow> addr \<Rightarrow> lockups \<Rightarrow> nat" where
  "user_paid q b l = store_sum (\<lambda>(p, a, dur) v. if p = q \<and> a = b then paid_units v else 0) l"

definition pool_paid :: "pool_type \<Rightarrow> lockups \<Rightarrow> nat" where
  "pool_paid q l = store_sum (\<lambda>(p, a, dur) v. if p = q then paid_units v else 0) l"

definition auction_of :: "lockdrop \<Rightarrow> addr option" where
  "auction_of l = map_option lc_auction_contract (l_config l)"

definition moves_units :: "lockdrop_execute_msg \<Rightarrow> bool" where
  "moves_units m = (case m of
       LIncreaseLockupFor user p n dur \<Rightarrow> True
     | LWithdrawFromLockup user p dur n \<Rightarrow> True
     | _ \<Rightarrow> False)"

text \<open>\<open>A\<close> is the auction and \<open>L\<close> the lockdrop. The lockdrop is told of \<open>A\<close> at its start, and no owner points
  it to another auction; only the lock and unlock messages of the auction make it call the lockdrop.\<close>

inductive together :: "addr \<Rightarrow> addr \<Rightarrow> u64 \<Rightarrow> auction \<Rightarrow> lockdrop \<Rightarrow> bool" for A L where
  together_start: "auction_instantiate (d :: deps) env info m auction_empty = Ok (s, ms) \<Longrightarrow>
     lockdrop_instantiate (d' :: lockdrop_deps) env' info' m' lockdrop_empty = Ok (l, ms') \<Longrightarrow>
     auction_of l = Some A \<Longrightarrow> together A L (max (block_time env) (block_time env')) s l"
| together_lock: "together A L t s l \<Longrightarrow> t \<le> block_time env \<Longrightarrow>
     auction_execute (d :: auction_deps) env info m s = Ok (s', [WasmExecute L w fs]) \<Longrightarrow>
     moves_lockups m \<Longrightarrow> lockdrop_call w = Some lm \<Longrightarrow>
     lockdrop_tx (env\<lparr>this_contract := L\<rparr>) \<lparr>sender = A, funds = fs\<rparr> lm l l' \<Longrightarrow>
     together A L (block_time env) s' l'"
| together_auction: "together A L t s l \<Longrightarrow> t \<le> block_time env \<Longrightarrow>
     auction_execute (d :: auction_deps) env info m s = Ok (s', ms) \<Longrightarrow> \<not> moves_lockups m \<Longrightarrow>
     together A L (block_time env) s' l"
| together_lockdrop: "together A L t s l \<Longrightarrow> t \<le> block_time env \<Longrightarrow> this_contract env = L \<Longrightarrow>
     lockdrop_tx env info lm l l' \<Longrightarrow> \<not> (moves_units lm \<and> sender info = A) \<Longrightarrow> auction_of l' = Some A \<Longrightarrow>
     together A L (block_time env) s l'"
| together_upgrade: "together A L t s l \<Longrightarrow> lockdrop_migrate (d :: lockdrop_deps) a l = Ok (l', ms) \<Longrightarrow>
     together A L t s l'"

text \<open>The units on record, paid out or not.\<close>

definition user_units :: "lockdrop \<Rightarrow> pool_type \<Rightarrow> addr \<Rightarrow> nat" where
  "user_units l q b = store_sum (\<lambda>(p, a, dur) v. if p = q \<and> a = b then unat (stored_units v) else 0) (l_lockups l)"

definition pool_units :: "lockdrop \<Rightarrow> pool_type \<Rightarrow> nat" where
  "pool_units l q = store_sum (\<lambda>(p, a, dur) v. if p = q then unat (stored_units v) else 0) (l_lockups l)"

lemma units_split:
  "user_units l q b = user_live q b (l_lockups l) + user_paid q b (l_lockups l)"
  "pool_units l q = pool_live q (l_lockups l) + pool_paid q (l_lockups l)"
proof -
  have add: "store_sum f s + store_sum g s = store_sum (\<lambda>k v. f k v + g k v) s"
    for f g :: "lockup_key \<Rightarrow> stored_lockup \<Rightarrow> nat" and s
    by (induction s) auto
  show "user_units l q b = user_live q b (l_lockups l) + user_paid q b (l_lockups l)"
    "pool_units l q = pool_live q (l_lockups l) + pool_paid q (l_lockups l)"
    unfolding user_units_def user_live_def user_paid_def pool_units_def pool_live_def pool_paid_def add
    by (auto intro!: store_sum_cong simp: live_units_def paid_units_def)
qed

lemma open_nothing_paid:
  assumes "open_lockups l" and "store_ok (l_lockups l)"
  shows "user_paid q b (l_lockups l) = 0" "pool_paid q (l_lockups l) = 0"
proof -
  have "paid_units v = 0" if "(k, v) \<in> set (l_lockups l)" for k v
    using assms(1) store_ok_map_of [OF assms(2) that] by (simp add: open_lockups_def paid_units_def del: split_paired_All)
  then have "user_paid q b (l_lockups l) = store_sum (\<lambda>_ _. 0) (l_lockups l)"
    and "pool_paid q (l_lockups l) = store_sum (\<lambda>_ _. 0) (l_lockups l)"
    unfolding user_paid_def pool_paid_def by (auto intro!: store_sum_cong)
  moreover have "store_sum (\<lambda>_ _. 0) s = (0 :: nat)" for s :: lockups by (induction s) auto
  ultimately show "user_paid q b (l_lockups l) = 0" "pool_paid q (l_lockups l) = 0" by simp_all
qed

definition units_kept :: "lockdrop \<Rightarrow> lockdrop \<Rightarrow> bool" where
  "units_kept l l' \<longleftrightarrow> store_ok (l_lockups l') \<and> user_units l' = user_units l \<and> pool_units l' = pool_units l"

lemma units_kept_trans: "units_kept l l' \<Longrightarrow> units_kept l' l'' \<Longrightarrow> units_kept l l''"
  by (simp add: units_kept_def)

lemma units_frame: "store_ok (l_lockups l) \<Longrightarrow> l_lockups l' = l_lockups l \<Longrightarrow> units_kept l l'"
  by (simp add: units_kept_def user_units_def pool_units_def fun_eq_iff)

lemma units_touch:
  assumes "store_ok (l_lockups l)" and ld: "compatible_load d l k g = Ok li"
    and "lp_units_locked li' = lp_units_locked li" and l': "l_lockups l' = save k (LockupV2 li') (l_lockups l)"
  shows "units_kept l l'"
proof -
  obtain v where v: "map_of (l_lockups l) k = Some v" "stored_units v = lp_units_locked li'"
    using compatible_load_stored [OF ld] assms(3) by auto
  have "store_sum f (l_lockups l') = store_sum f (l_lockups l)"
    if "f k (LockupV2 li') = f k v" for f :: "lockup_key \<Rightarrow> stored_lockup \<Rightarrow> nat"
    using cw.total_same [OF assms(1) v(1), of f "LockupV2 li'"] that by (simp add: l')
  then show ?thesis
    using assms(1) v(2)
    by (cases k) (auto simp: units_kept_def user_units_def pool_units_def fun_eq_iff l' store_ok_save)
qed

text \<open>Callbacks pay lockups out and touch rewards, but keep every lockup with its units.\<close>

lemma callback_units:
  assumes "handle_lockdrop_callback d env cb s = Ok (s', ms)" and ok: "store_ok (l_lockups s)"
  shows "units_kept s s'"
proof (cases cb)
  case (WithdrawUserLockupRewardsCallback p a dur w)
  with assms(1) have "callback_withdraw_user_rewards_for_lockup_optional_withdraw d env p a dur w s = Ok (s', ms)"
    by simp
  then show ?thesis
  proof (rule withdraw_rewards_inversion, goal_cases)
    case (1 cfg pool li generator lp_amount li' reward_ms s1 unlock_ms one_ms)
    note f = withdraw_generator_rewards_frame [OF 1(6)] and o = one_time_rewards_lockups [OF 1(8)]
    let ?li = "if w then li'\<lparr>astroport_lp_transferred := Some lp_amount\<rparr> else li'"
    have "l_lockups s' = save (p, a, dur) (LockupV2 ?li) (l_lockups s)"
      using o release_lockup_stored [of p a dur pool li' lp_amount s s1] 1(7) by (cases w) simp_all
    then show ?case by (rule units_touch [OF ok 1(3), rotated]) (use f in simp)
  qed
next
  case (WithdrawUserLockupCallback p a dur g lp n)
  with assms(1) have "callback_withdraw_user_lockup d env p a dur g lp n s = Ok (s', ms)" by simp
  then obtain cfg :: lockdrop_config and li pool where
    l: "compatible_load d s (p, a, dur) (lc_generator cfg) = Ok li" and
    rel: "release_lockup (p, a, dur) pool li n s = Ok s'"
    unfolding callback_withdraw_user_lockup_def by clarsimp
  show ?thesis
    by (rule units_touch [OF ok l, of "li\<lparr>astroport_lp_transferred := Some n\<rparr>"])
      (use release_lockup_stored [OF rel] in simp_all)
next
  case (UpdatePoolOnDualRewardsClaim p n ns)
  then have "l_lockups s' = l_lockups s"
    using assms(1) by (auto simp: update_pool_on_dual_rewards_claim_def)
  then show ?thesis by (rule units_frame [OF ok])
next
  case (InitMigrateLockupToPCLPoolsCallback p a dur)
  then have "s' = s" using assms(1) by (auto simp: callback_init_migrate_lockup_to_pcl_pools_def split: if_splits)
  then show ?thesis using units_frame [OF ok] by simp
next
  case (TransferAllRewardsBeforeMigrationCallback p a dur)
  with assms(1) obtain cfg user ms' where "one_time_rewards d cfg a user s = Ok (s', ms')"
    by (auto simp: callback_transfer_all_rewards_before_migration_def Let_def)
  then show ?thesis using units_frame [OF ok] one_time_rewards_lockups by blast
next
  case (MigrateUserLockupToPCLPairCallback p a dur n denom m)
  then have "s' = s" using assms(1) by (auto simp: callback_migrate_user_lockup_to_pcl_pair_def Let_def)
  then show ?thesis using units_frame [OF ok] by simp
qed

lemma run_units: "lockdrop_run env q s t \<Longrightarrow> store_ok (l_lockups s) \<Longrightarrow> units_kept s t"
proof (induction rule: lockdrop_run.induct)
  case (callback d info cb s u ms q t fs)
  then have "handle_lockdrop_callback d env cb s = Ok (u, ms)"
    by (simp add: receive_lockdrop_callback_def split: if_splits)
  from callback_units [OF this callback.prems] have "units_kept s u" .
  moreover from this have "units_kept u t" using callback.IH by (simp add: units_kept_def)
  ultimately show ?case by (rule units_kept_trans)
qed (auto intro: units_frame)

lemma update_positions_units:
  assumes "update_user_lockup_positions_and_calc_rewards d cfg total_share a s = Ok (s', r)"
    and "store_ok (l_lockups s)"
  shows "units_kept s s'"
proof -
  have "(\<lambda>(u, _). units_kept s u) (s', r)"
    using assms(1) unfolding update_user_lockup_positions_and_calc_rewards_def
  proof (rule try_fold_invariant [where P = "\<lambda>(u, _). units_kept s u"])
    show "case (s, 0) of (u, uu_) \<Rightarrow> units_kept s u" using units_frame [OF assms(2)] by simp
  next
    fix x st u
    assume k: "case st of (u, uu_) \<Rightarrow> units_kept s u" and c: "calc_lockup_reward d cfg total_share a st x = Ok u"
    obtain s1 acc s2 acc2 p dur where eq: "st = (s1, acc)" "u = (s2, acc2)" "x = (p, dur)"
      by (cases st; cases u; cases x)
    from c obtain li where l: "compatible_load d s1 (p, a, dur) (lc_generator cfg) = Ok li"
      and s2: "s2 = s1 \<or> (\<exists>r. s2 = s1\<lparr>l_lockups := save (p, a, dur) (LockupV2 (li\<lparr>ntrn_rewards := r\<rparr>)) (l_lockups s1)\<rparr>)"
      unfolding eq calc_lockup_reward_def by (auto simp: Let_def split: if_splits)
    have ok1: "store_ok (l_lockups s1)" using k by (simp add: eq units_kept_def)
    have "units_kept s1 s2"
    proof (cases "s2 = s1")
      case False
      then obtain r where "s2 = s1\<lparr>l_lockups := save (p, a, dur) (LockupV2 (li\<lparr>ntrn_rewards := r\<rparr>)) (l_lockups s1)\<rparr>"
        using s2 by blast
      then show ?thesis by (intro units_touch [OF ok1 l, of "li\<lparr>ntrn_rewards := r\<rparr>"]) simp_all
    qed (simp add: units_frame [OF ok1])
    then show "case u of (u, uu_) \<Rightarrow> units_kept s u" using k by (auto simp: eq elim: units_kept_trans)
  qed
  then show ?thesis by simp
qed

lemma claim_units:
  assumes "handle_claim_rewards_and_unlock_for_lockup d env info p dur w s = Ok (s', ms)"
    and ok: "store_ok (l_lockups s)"
  shows "units_kept s s'"
  using assms(1)
proof (rule claim_rewards_inversion, goal_cases)
  case (1 cfg total_share window_end pool user s1 user' li claim_ms)
  have "units_kept s s1"
    using 1(7) update_positions_units [of d cfg total_share "sender info" s s1, OF _ ok] units_frame [OF ok]
    by (auto split: if_splits)
  moreover from this have "units_kept s1 s'" by (intro units_frame) (simp_all add: units_kept_def 1(8))
  ultimately show ?case by (rule units_kept_trans)
qed

lemma migration_units:
  assumes "handle_migrate_liquidity_to_pcl_pools d info env u s = Ok (s', ms)" and ok: "store_ok (l_lockups s)"
  shows "units_kept s s'"
proof -
  from assms(1) obtain a cfg total_share user where
    s': "(if total_ntrn_rewards user = 0 then
          and_then (update_user_lockup_positions_and_calc_rewards d cfg total_share a s) (\<lambda>(s, r).
          Ok (s\<lparr>l_users := save a (user\<lparr>total_ntrn_rewards := r\<rparr>) (l_users s)\<rparr>))
        else Ok s) = Ok s'"
    unfolding handle_migrate_liquidity_to_pcl_pools_def lockdrop_load_config_def by clarsimp
  show ?thesis
  proof (cases "total_ntrn_rewards user = 0")
    case True
    then obtain s1 r where f: "update_user_lockup_positions_and_calc_rewards d cfg total_share a s = Ok (s1, r)"
      and s1: "s' = s1\<lparr>l_users := save a (user\<lparr>total_ntrn_rewards := r\<rparr>) (l_users s1)\<rparr>"
      using s' by auto
    have "units_kept s s1" by (rule update_positions_units [OF f ok])
    moreover from this have "units_kept s1 s'" by (intro units_frame) (simp_all add: units_kept_def s1)
    ultimately show ?thesis by (rule units_kept_trans)
  qed (use s' units_frame [OF ok] in simp)
qed

lemma other_tx_units:
  assumes "lockdrop_tx env info m s t" and "store_ok (l_lockups s)"
    and "\<not> (moves_units m \<and> auction_of s = Some (sender info))"
  shows "units_kept s t"
  using assms(1)
proof (cases rule: lockdrop_tx.cases)
  case (1 d u ms)
  have "units_kept s u"
  proof (cases m)
    case (LIncreaseLockupFor a p n dur)
    with 1(2) have "handle_increase_lockup d env info a p dur n s = Ok (u, ms)" by simp
    then show ?thesis
      by (rule increase_inversion) (use assms(3) LIncreaseLockupFor in \<open>simp add: moves_units_def auction_of_def\<close>)
  next
    case (LWithdrawFromLockup a p dur n)
    with 1(2) have "handle_withdraw_from_lockup d env info a p dur n s = Ok (u, ms)" by simp
    then show ?thesis
      by (rule withdraw_from_lockup_inversion)
        (use assms(3) LWithdrawFromLockup in \<open>simp add: moves_units_def auction_of_def\<close>)
  next
    case (LClaimRewardsAndOptionallyUnlock p dur w)
    with 1(2) show ?thesis by (simp add: claim_units [OF _ assms(2)])
  next
    case (LMigrateLiquidityToPCLPools a)
    with 1(2) show ?thesis by (simp add: migration_units [OF _ assms(2)])
  next
    case (LCallback cb)
    with 1(1,2) show ?thesis by (simp add: receive_lockdrop_callback_def)
  qed (use 1(2) in \<open>auto intro: units_frame [OF assms(2)] admin_lockups\<close>)
  moreover from this have "units_kept u t" by (intro run_units [OF 1(5)]) (simp add: units_kept_def)
  ultimately show ?thesis by (rule units_kept_trans)
qed

definition together_ok :: "addr \<Rightarrow> u64 \<Rightarrow> auction \<Rightarrow> lockdrop \<Rightarrow> bool" where
  "together_ok A t s l \<longleftrightarrow> auction_wf s \<and> lockdrop_inv t l \<and> auction_of l = Some A \<and>
     (\<forall>p a. locked_by (a_users s) p a = user_units l p a) \<and> (\<forall>p. locked_total s p = pool_units l p)"

lemma together_ok_open:
  assumes "together_ok A t s l" and "open_lockups l"
  shows "locked_by (a_users s) p a = user_total (l_totals l) p a" "locked_total s p = pool_amount (l_pools l) p"
  using assms open_nothing_paid [of l]
  by (simp_all add: together_ok_def lockdrop_inv_def lockdrop_books_def units_split)

lemma together_okI:
  assumes "auction_wf s" and "lockdrop_inv t l" and "auction_of l = Some A" and "open_lockups l"
    and "\<And>p a. locked_by (a_users s) p a = user_total (l_totals l) p a"
    and "\<And>p. locked_total s p = pool_amount (l_pools l) p"
  shows "together_ok A t s l"
  using assms open_nothing_paid [of l]
  by (simp add: together_ok_def lockdrop_inv_def lockdrop_books_def units_split)

text \<open>A lock or unlock message answers with no message, while every lockup is open.\<close>

lemma lock_tx:
  assumes "lockdrop_tx env info lm l l'" and i: "lockdrop_inv (block_time env) l" and "moves_units lm"
  shows "\<exists>d :: lockdrop_deps. lockdrop_execute d env info lm l = Ok (l', []) \<and> addr_validate_identity d \<and>
    open_lockups l \<and> open_lockups l' \<and> l_config l' = l_config l"
  using assms(1)
proof (cases rule: lockdrop_tx.cases)
  case (1 d u ms)
  have b: "lockdrop_books l" using i by (simp add: lockdrop_inv_def)
  have "open_lockups l \<and> open_lockups u \<and> ms = [] \<and> l_config u = l_config l"
  proof (cases lm)
    case (LIncreaseLockupFor a p n dur)
    then have h: "handle_increase_lockup d env info a p dur n l = Ok (u, ms)" using 1(2) by simp
    then have "open_lockups l"
      by (rule increase_inversion) (rule windows_end_open [OF i], auto simp: word_less_nat_alt)
    then show ?thesis using books_increase [OF h b] by simp
  next
    case (LWithdrawFromLockup a p dur n)
    then have h: "handle_withdraw_from_lockup d env info a p dur n l = Ok (u, ms)" using 1(2) by simp
    then have "open_lockups l"
      by (rule withdraw_from_lockup_inversion)
        (rule windows_end_open [OF i], auto simp: word_less_nat_alt withdrawal_window_end_def lock_window_end_def)
    then show ?thesis using books_withdraw [OF h b] by simp
  qed (use assms(3) in \<open>simp_all add: moves_units_def\<close>)
  moreover from this have "l' = u" using run_no_callbacks [OF 1(5)] by simp
  ultimately show ?thesis using 1(2,3) by blast
qed

lemma together_lock_ok:
  assumes i: "together_ok A t s l" and "t \<le> block_time env"
    and x: "auction_execute d env info m s = Ok (s', [WasmExecute L w fs])"
    and "moves_lockups m" and "lockdrop_call w = Some lm"
    and tx: "lockdrop_tx (env\<lparr>this_contract := L\<rparr>) \<lparr>sender = A, funds = fs\<rparr> lm l l'"
  shows "together_ok A (block_time env) s' l'"
proof -
  let ?env = "env\<lparr>this_contract := L\<rparr>"
  have inv: "lockdrop_inv (block_time ?env) l"
    using i assms(2) lockdrop_inv_later by (auto simp: together_ok_def)
  have "moves_units lm" using assms(5) by (auto simp: lockdrop_call_def moves_units_def split: wasm_msg.splits)
  from lock_tx [OF tx inv this] obtain d' :: lockdrop_deps where
    l': "lockdrop_execute d' ?env \<lparr>sender = A, funds = fs\<rparr> lm l = Ok (l', [])" "addr_validate_identity d'"
    and "open_lockups l" "open_lockups l'" "l_config l' = l_config l" by blast
  have "joint_ok s l"
    using i \<open>open_lockups l\<close> together_ok_open [OF i] by (simp add: together_ok_def joint_ok_def lockdrop_inv_def)
  from joint_lock_ok [OF this x assms(4,5) l'(2,1)] have "joint_ok s' l'" .
  moreover have "lockdrop_inv (block_time env) l'" using tx_inv [OF tx inv] by simp
  ultimately show ?thesis
    using i \<open>open_lockups l'\<close> \<open>l_config l' = l_config l\<close>
    by (intro together_okI) (simp_all add: joint_ok_def together_ok_def auction_of_def)
qed

lemma together_lockdrop_ok:
  assumes i: "together_ok A t s l" and "t \<le> block_time env" and tx: "lockdrop_tx env info lm l l'"
    and "\<not> (moves_units lm \<and> sender info = A)" and "auction_of l' = Some A"
  shows "together_ok A (block_time env) s l'"
proof -
  have inv: "lockdrop_inv (block_time env) l"
    using i assms(2) lockdrop_inv_later by (auto simp: together_ok_def)
  have "units_kept l l'"
    by (rule other_tx_units [OF tx]) (use i assms(4) in \<open>auto simp: together_ok_def lockdrop_inv_def lockdrop_books_def\<close>)
  then show ?thesis using i assms(5) tx_inv [OF tx inv] by (simp add: together_ok_def units_kept_def)
qed

lemma together_invariant: "together A L t s l \<Longrightarrow> together_ok A t s l"
proof (induction rule: together.induct)
  case (together_start d env info m s ms d' env' info' m' l ms')
  then have "joint_ok s l" by (intro joint_start_ok)
  then show ?case
    using together_start(3) by (intro together_okI) (simp_all add: joint_ok_def lockdrop_inv_def)
next
  case (together_lock t s l env d info m s' w fs lm l')
  then show ?case using together_lock_ok by blast
next
  case (together_auction t s l env d info m s' ms)
  then show ?case
    using other_messages_keep_locked [of d env info m s s' ms] auction_wf_execute [of d env info m s s' ms]
      lockdrop_inv_later [of t l "block_time env"]
    by (simp add: together_ok_def)
next
  case (together_lockdrop t s l env info lm l')
  then show ?case using together_lockdrop_ok by blast
next
  case (together_upgrade t s l d a l' ms)
  then have "l_lockups l' = l_lockups l" "lockdrop_inv t l'" "auction_of l' = auction_of l"
    by (auto simp: lockdrop_migrate_def together_ok_def lockdrop_inv_def lockdrop_books_def open_lockups_def
        windows_end_def auction_of_def)
  then show ?case using together_upgrade.IH by (simp add: together_ok_def user_units_def pool_units_def)
qed

lemma together_agree:
  assumes "together A L t s l"
  shows "locked_by (a_users s) p a = user_total (l_totals l) p a + user_paid p a (l_lockups l)"
    and "locked_total s p = pool_amount (l_pools l) p + pool_paid p (l_lockups l)"
    and "unat t < windows_end l \<Longrightarrow> user_paid p a (l_lockups l) = 0 \<and> pool_paid p (l_lockups l) = 0"
  using together_invariant [OF assms] open_nothing_paid [of l]
  by (simp_all add: together_ok_def lockdrop_inv_def lockdrop_books_def units_split)

end
