(* ===== verification/Auction_Properties.thy ===== *)
theory Auction_Properties
  imports Auction_Proofs
begin

text \<open>
  The properties of the auction, and a concrete run of it, from the instantiation to the migration
  of the remaining shares, at which they are witnessed.
\<close>

subsection \<open>A run of the auction\<close>

text \<open>The square root that the run uses: base-4 digit recursion.\<close>

definition isqrt_digit :: "nat \<Rightarrow> nat \<Rightarrow> nat" where
  "isqrt_digit n r = (if (2 * r + 1) * (2 * r + 1) \<le> n then 2 * r + 1 else 2 * r)"

fun isqrt :: "nat \<Rightarrow> nat" where
  "isqrt n = (if n = 0 then 0 else isqrt_digit n (isqrt (n div 4)))"

lemmas [simp del] = isqrt.simps

lemma isqrt_floor: "isqrt n ^ 2 \<le> n \<and> n < (isqrt n + 1) ^ 2"
proof (induction n rule: isqrt.induct)
  case (1 n)
  show ?case
  proof (cases "n = 0")
    case True
    then show ?thesis by (simp add: isqrt.simps)
  next
    case False
    let ?k = "isqrt (n div 4)"
    have IH: "?k ^ 2 \<le> n div 4" "n div 4 < (?k + 1) ^ 2" using 1 [OF False] by auto
    have a: "(2 * ?k)^2 \<le> n" using IH(1) by (simp add: power2_eq_square)
    have "n < 4 * (?k + 1)^2" using IH(2) by linarith
    then have b: "n < (2 * ?k + 2)^2" by (simp add: power2_eq_square algebra_simps)
    have eq: "isqrt n = isqrt_digit n ?k"
      using False by (simp add: isqrt.simps [of n])
    show ?thesis using a b unfolding eq isqrt_digit_def by (auto simp: power2_eq_square)
  qed
qed

definition run_deps :: auction_deps where
  "run_deps = \<lparr>addr_validate = Ok, bank_balance = (\<lambda>a d. Ok 9000000), cw20_balance = (\<lambda>c a. Ok 7000000),
     query_rates = (\<lambda>a. Ok [\<lparr>rate = 10, resolve_time = 290, request_id = 1\<rparr>,
                            \<lparr>rate = 1, resolve_time = 290, request_id = 1\<rparr>]),
     integer_sqrt = isqrt\<rparr>"

definition run_env :: "u64 \<Rightarrow> env" where
  "run_env t = \<lparr>block_time = t, block_height = 1, this_contract = ''auction''\<rparr>"

definition call_by :: "addr \<Rightarrow> message_info" where
  "call_by a = \<lparr>sender = a, funds = []\<rparr>"

definition run_pools :: pool_info where
  "run_pools = \<lparr>ntrn_usdc_pool_address = ''pool_usdc'', ntrn_atom_pool_address = ''pool_atom'',
     ntrn_usdc_lp_token_address = ''lp_usdc'', ntrn_atom_lp_token_address = ''lp_atom''\<rparr>"

definition run_config :: auction_config where
  "run_config =
     \<lparr>ac_owner = ''dao'', ac_token_info_manager = ''manager'', reserve_contract_address = ''reserve'',
      vesting_usdc_contract_address = ''vest_usdc'', vesting_atom_contract_address = ''vest_atom'',
      lockdrop_contract_address = Some ''lockdrop'', price_feed_contract = ''feed'',
      ac_pool_info = Some run_pools, ac_init_timestamp = 100, deposit_window = 100,
      ac_withdrawal_window = 100, lp_tokens_lock_window = 100, ac_ntrn_denom = ''untrn'',
      usdc_denom = Some ''usdc'', atom_denom = Some ''atom'', min_ntrn_amount = 1,
      max_exchange_rate_age = 50, vesting_migration_pack_size = 10, vesting_lp_duration = 1000\<rparr>"

definition run_user :: "u128 \<Rightarrow> u128 \<Rightarrow> bool \<Rightarrow> u128 \<Rightarrow> u128 \<Rightarrow> auction_user" where
  "run_user usdc atom w usdc_locked atom_locked =
     \<lparr>usdc_deposited = usdc, atom_deposited = atom, withdrawn = w, usdc_lp_locked = usdc_locked,
      atom_lp_locked = atom_locked, is_vested = False\<rparr>"

definition run_totals :: "u128 \<Rightarrow> u128 \<Rightarrow> auction_state" where
  "run_totals usdc atom =
     auction_state_default\<lparr>total_usdc_deposited := usdc, total_atom_deposited := atom\<rparr>"

definition run_sizes :: auction_state where
  "run_sizes = (run_totals 5000000 1000000)
     \<lparr>usdc_ntrn_size := 2999999, atom_ntrn_size := 6000001, usdc_lp_size := 3871982,
      atom_lp_size := 2448489\<rparr>"

text \<open>Ready for deposits, after two deposits, after a withdrawal, with the pool size set, with
  shares locked, with the pools created.\<close>

definition run_ready :: auction where
  "run_ready = \<lparr>a_config = Some run_config, a_state = Some auction_state_default, a_users = []\<rparr>"

definition run_deposited :: auction where
  "run_deposited = \<lparr>a_config = Some run_config, a_state = Some (run_totals 8000000 1000000),
     a_users = [(''alice'', run_user 8000000 400000 False 0 0), (''bob'', run_user 0 600000 False 0 0)]\<rparr>"

definition run_withdrawn :: auction where
  "run_withdrawn = \<lparr>a_config = Some run_config, a_state = Some (run_totals 5000000 1000000),
     a_users = [(''alice'', run_user 5000000 400000 True 0 0), (''bob'', run_user 0 600000 False 0 0)]\<rparr>"

definition run_sized :: auction where
  "run_sized = run_withdrawn\<lparr>a_state := Some run_sizes\<rparr>"

definition run_locked :: auction where
  "run_locked = \<lparr>a_config = Some run_config,
     a_state = Some (run_sizes\<lparr>total_usdc_lp_locked := 2000, total_atom_lp_locked := 1000\<rparr>),
     a_users = [(''alice'', run_user 5000000 400000 True 2000 0), (''bob'', run_user 0 600000 False 0 1000)]\<rparr>"

definition run_final :: auction where
  "run_final = run_locked\<lparr>a_state := Some (run_sizes\<lparr>total_usdc_lp_locked := 2000, total_atom_lp_locked := 1000,
     lp_usdc_shares_minted := Some 7000000, lp_atom_shares_minted := Some 7000000, pool_init_timestamp := 410\<rparr>)\<rparr>"

lemmas run_defs = run_deps_def run_env_def call_by_def run_pools_def run_config_def run_user_def
  run_totals_def run_sizes_def run_ready_def run_deposited_def run_withdrawn_def run_sized_def
  run_locked_def run_final_def

definition run_instantiate :: auction_instantiate_msg where
  "run_instantiate = \<lparr>im_owner = Some ''dao'', im_token_info_manager = ''manager'',
     im_price_feed_contract = ''feed'', im_lockdrop_contract_address = Some ''lockdrop'',
     im_reserve_contract_address = ''reserve'', im_vesting_usdc_contract_address = ''vest_usdc'',
     im_vesting_atom_contract_address = ''vest_atom'', im_lp_tokens_lock_window = 100,
     im_init_timestamp = 100, im_deposit_window = 100, im_withdrawal_window = 100,
     im_max_exchange_rate_age = 50, im_min_ntrn_amount = 1, im_vesting_migration_pack_size = 10,
     im_vesting_lp_duration = 1000\<rparr>"

definition run_fresh :: auction where
  "run_fresh = run_ready\<lparr>a_config := Some (run_config\<lparr>ac_pool_info := None, usdc_denom := None, atom_denom := None\<rparr>)\<rparr>"

lemma run_step_start:
  "auction_instantiate (deps.truncate run_deps) (run_env 50) (call_by ''dao'') run_instantiate auction_empty = Ok (run_fresh, [])"
  by (simp add: auction_ops run_defs run_instantiate_def run_fresh_def deps.defs)

lemma run_step_ready:
  "auction_execute run_deps (run_env 60) (call_by ''manager'')
     (AuctionSetTokenInfo (Some ''usdc'') (Some ''atom'') (Some run_pools)) run_fresh = Ok (run_ready, [])"
  by (simp add: auction_ops run_defs run_fresh_def)

definition run_half :: auction where
  "run_half = run_ready\<lparr>a_state := Some (run_totals 8000000 400000),
     a_users := [(''alice'', run_user 8000000 400000 False 0 0)]\<rparr>"

definition alice_sends :: message_info where
  "alice_sends = \<lparr>sender = ''alice'', funds = [\<lparr>coin_denom = ''usdc'', coin_amount = 8000000\<rparr>,
     \<lparr>coin_denom = ''atom'', coin_amount = 400000\<rparr>]\<rparr>"

definition bob_sends :: message_info where
  "bob_sends = \<lparr>sender = ''bob'', funds = [\<lparr>coin_denom = ''atom'', coin_amount = 600000\<rparr>]\<rparr>"

lemma run_step_half:
  "execute_deposit (run_env 150) alice_sends run_ready = Ok (run_half, [])"
  by (simp add: auction_ops run_defs run_half_def alice_sends_def eval_arith)

lemma run_step_deposited:
  "execute_deposit (run_env 160) bob_sends run_half = Ok (run_deposited, [])"
  by (simp add: auction_ops run_defs run_half_def bob_sends_def eval_arith)

lemma run_step_withdrawn:
  "auction_execute_withdraw (run_env 220) (call_by ''alice'') 3000000 0 run_deposited =
     Ok (run_withdrawn, [BankSend ''alice'' [\<lparr>coin_denom = ''usdc'', coin_amount = 3000000\<rparr>]])"
  by (simp add: auction_ops run_defs eval_arith)

lemma run_step_sized:
  "execute_set_pool_size run_deps (run_env 300) run_withdrawn = Ok (run_sized, [])"
  by (simp add: auction_ops run_defs eval_arith isqrt.simps isqrt_digit_def)

definition run_lock1 :: auction where
  "run_lock1 = run_sized\<lparr>a_state := Some (run_sizes\<lparr>total_usdc_lp_locked := 2000\<rparr>),
     a_users := [(''alice'', run_user 5000000 400000 True 2000 0), (''bob'', run_user 0 600000 False 0 0)]\<rparr>"

lemma run_step_lock1:
  "execute_lock_lp_tokens (run_env 320) (call_by ''alice'') USDC 2000 20 run_sized =
     Ok (run_lock1, [WasmExecute ''lockdrop'' (IncreaseLockupFor ''alice'' USDC 2000 20) []])"
  by (simp add: auction_ops run_defs run_lock1_def eval_arith)

lemma run_step_locked:
  "execute_lock_lp_tokens (run_env 330) (call_by ''bob'') ATOM 1000 10 run_lock1 =
     Ok (run_locked, [WasmExecute ''lockdrop'' (IncreaseLockupFor ''bob'' ATOM 1000 10) []])"
  by (simp add: auction_ops run_defs run_lock1_def eval_arith)

definition run_finalize_msgs :: "msg list" where
  "run_finalize_msgs = 
   [WasmExecute ''lp_usdc'' (Cw20Transfer ''reserve'' 3500000) [],
    WasmExecute ''lp_atom'' (Cw20Transfer ''reserve'' 3500000) [],
    WasmExecute ''lp_atom'' (Cw20Send ''lockdrop'' 1000 (InitializePool ATOM 6000001)) [],
    WasmExecute ''lp_usdc'' (Cw20Send ''lockdrop'' 2000 (InitializePool USDC 2999999)) []]"

lemma run_step_final:
  "execute_finalize_init_pool run_deps (run_env 410) (call_by ''auction'') \<lparr>pb_atom = 0, pb_usdc = 0\<rparr> run_locked =
     Ok (run_final, run_finalize_msgs)"
  by (simp add: auction_ops run_defs run_finalize_msgs_def eval_arith)

definition run_migrate_msgs :: "msg list" where
  "run_migrate_msgs =
     [WasmExecute ''lp_atom'' (Cw20Send ''vest_atom'' 1223243 (RegisterVestingAccountsHook
        [linear_vesting_account ''alice'' 420 1420 489697, linear_vesting_account ''bob'' 420 1420 733546])) [],
      WasmExecute ''lp_usdc'' (Cw20Send ''vest_usdc'' 1933991 (RegisterVestingAccountsHook
        [linear_vesting_account ''alice'' 420 1420 1933991])) []]"

lemma run_step_migrated:
  "execute_migrate_to_vesting (run_env 420) run_final = Ok
     (run_final\<lparr>a_users := [(''alice'', (run_user 5000000 400000 True 2000 0)\<lparr>is_vested := True\<rparr>),
        (''bob'', (run_user 0 600000 False 0 1000)\<lparr>is_vested := True\<rparr>)]\<rparr>, run_migrate_msgs)"
  by (simp add: auction_ops run_defs run_migrate_msgs_def eval_arith)

lemma run_env_time [simp]: "block_time (run_env t) = t"
  by (simp add: run_env_def)

lemma run_reachable:
  "auction_reachable 60 run_ready" "auction_reachable 160 run_deposited" "auction_reachable 220 run_withdrawn"
  "auction_reachable 300 run_sized" "auction_reachable 330 run_locked" "auction_reachable 410 run_final"
proof -
  note step = auction_reachable.step [where env = "run_env t" for t, simplified run_env_time]
  have "auction_reachable 50 run_fresh"
    using auction_reachable.start [OF run_step_start] by simp
  from step [OF this _ run_step_ready] show r1: "auction_reachable 60 run_ready" by simp
  from step [OF this, of 150 run_deps alice_sends AuctionDeposit run_half] run_step_half
  have "auction_reachable 150 run_half" by simp
  from step [OF this, of 160 run_deps bob_sends AuctionDeposit run_deposited] run_step_deposited
  show "auction_reachable 160 run_deposited" by simp
  from step [OF this, of 220 run_deps "call_by ''alice''" "AuctionWithdraw 3000000 0" run_withdrawn] run_step_withdrawn
  show "auction_reachable 220 run_withdrawn" by simp
  from step [OF this, of 300 run_deps "call_by ''carol''" AuctionSetPoolSize run_sized] run_step_sized
  show "auction_reachable 300 run_sized" by simp
  from step [OF this, of 320 run_deps "call_by ''alice''" "AuctionLockLp USDC 2000 20" run_lock1] run_step_lock1
  have "auction_reachable 320 run_lock1" by simp
  from step [OF this, of 330 run_deps "call_by ''bob''" "AuctionLockLp ATOM 1000 10" run_locked] run_step_locked
  show "auction_reachable 330 run_locked" by simp
  from step [OF this, of 410 run_deps "call_by ''auction''" "AuctionFinalize \<lparr>pb_atom = 0, pb_usdc = 0\<rparr>" run_final] run_step_final
  show "auction_reachable 410 run_final" by simp
qed

subsection \<open>Properties\<close>

lemma withdraw_bounds:
  assumes "auction_execute_withdraw env info au aa s = Ok (s', ms)" and "a_config s = Some cfg"
    and "map_of (a_users s) (sender info) = Some user"
  shows "\<exists>q. allowed_withdrawal_percent (block_time env) cfg = Ok q \<and>
    unat au \<le> unat (usdc_deposited user) * unat (atomics q) div DECIMAL_FRACTIONAL \<and>
    unat aa \<le> unat (atom_deposited user) * unat (atomics q) div DECIMAL_FRACTIONAL"
  using assms(1)
proof (rule withdraw_inversion)
  fix c st u q mu ma
  assume "a_config s = Some c" "map_of (a_users s) (sender info) = Some u"
    "allowed_withdrawal_percent (block_time env) c = Ok q"
    "mul_decimal (usdc_deposited u) q = (Ok mu :: (std_error, u128) result)"
    "mul_decimal (atom_deposited u) q = (Ok ma :: (std_error, u128) result)" "au \<le> mu" "aa \<le> ma"
  then show ?thesis using assms(2,3) by (auto simp: word_le_nat_alt)
qed

text \<open>C6: In every state the auction contract can reach, the four totals of its state (deposited USDC and ATOM, locked shares of each pool) are the sums over the users.\<close>
theorem auction_totals_are_sums:
  assumes "auction_reachable t s" and "a_state s = Some st"
  shows "unat (total_usdc_deposited st) = store_sum (\<lambda>_ u. unat (usdc_deposited u)) (a_users s) \<and>
    unat (total_atom_deposited st) = store_sum (\<lambda>_ u. unat (atom_deposited u)) (a_users s) \<and>
    unat (total_usdc_lp_locked st) = store_sum (\<lambda>_ u. unat (usdc_lp_locked u)) (a_users s) \<and>
    unat (total_atom_lp_locked st) = store_sum (\<lambda>_ u. unat (atom_lp_locked u)) (a_users s)"
  using auction_reachable_inv [OF assms(1)] assms(2)
  by (simp add: auction_wf_def totals_match_def users_total_def)

theorem auction_totals_are_sums_witness:
  "unat (total_usdc_lp_locked (run_sizes\<lparr>total_usdc_lp_locked := 2000, total_atom_lp_locked := 1000\<rparr>)) =
     store_sum (\<lambda>_ u. unat (usdc_lp_locked u)) (a_users run_locked)"
  using auction_totals_are_sums [OF run_reachable(5)] by (simp add: run_locked_def)


lemma locked_within_half:
  assumes "auction_reachable t s" and "a_config s = Some cfg" and "a_state s = Some st"
    and "0 < ac_withdrawal_window cfg"
  shows "unat (total_usdc_lp_locked st) \<le> unat (usdc_lp_size st) div 2 \<and>
    unat (total_atom_lp_locked st) \<le> unat (atom_lp_size st) div 2"
proof -
  have wf: "auction_wf s" and ph: "auction_phase t s" using auction_reachable_inv [OF assms(1)] by auto
  have "all_users (lock_bounded st) (a_users s)"
    using auction_phaseD [OF ph order_refl assms(2,3,4)] by (simp add: phase_ok_def)
  then have "lock_bounded st u" if "(a, u) \<in> set (a_users s)" for a u
    using that wf by (auto simp: all_users_def auction_wf_def dest: store_ok_map_of)
  then show ?thesis
    using wf assms(3) sum_of_shares [of usdc_deposited "a_users s" "total_usdc_deposited st" "\<lambda>u. unat (usdc_lp_locked u)" "usdc_lp_size st"]
      sum_of_shares [of atom_deposited "a_users s" "total_atom_deposited st" "\<lambda>u. unat (atom_lp_locked u)" "atom_lp_size st"]
    by (auto simp: auction_wf_def totals_match_def users_total_def lock_bounded_def)
qed

text \<open>C7: When the withdrawal window is not empty (instantiate does not check it), in every reachable state no user has locked more LP shares than get_user_lp_info grants him, and all locks together are at most half of each pool, the half that is not reserved.\<close>
theorem auction_locks_within_half:
  assumes "auction_reachable t s" and "a_config s = Some cfg" and "a_state s = Some st"
    and "0 < ac_withdrawal_window cfg"
  shows "unat (total_usdc_lp_locked st) \<le> unat (usdc_lp_size st) div 2 \<and>
    unat (total_atom_lp_locked st) \<le> unat (atom_lp_size st) div 2 \<and>
    (\<forall>a u lp. map_of (a_users s) a = Some u \<longrightarrow> user_lp_info_of st u = Ok lp \<longrightarrow>
       usdc_lp_locked u \<le> usdc_lp_amount lp \<and> atom_lp_locked u \<le> atom_lp_amount lp)"
proof -
  have ph: "auction_phase t s" using auction_reachable_inv [OF assms(1)] by auto
  then have "lock_bounded st u" if "map_of (a_users s) a = Some u" for a u
    using auction_phaseD [OF ph order_refl assms(2,3,4)] that
    by (auto simp: phase_ok_def intro: all_users_load)
  then show ?thesis
    using locked_within_half [OF assms] user_lp_info_amounts
    by (auto simp: lock_bounded_def word_le_nat_alt)
qed

theorem auction_locks_within_half_witness:
  "unat (2000 :: u128) \<le> unat (3871982 :: u128) div 2 \<and> unat (1000 :: u128) \<le> unat (2448489 :: u128) div 2"
  using auction_locks_within_half [OF run_reachable(5), of run_config]
  by (simp add: run_locked_def run_sizes_def run_config_def)


text \<open>A withdrawal pays exactly the amounts asked for, takes them off the user's deposit, never exceeds it, and after the deposit window is at most half of it and marks the user.\<close>
theorem auction_withdraw_pays_within_curve:
  assumes "auction_execute_withdraw env info au aa s = Ok (s', ms)"
    and "a_config s = Some cfg" and "get_denoms cfg = Ok (usdc, atom)" and "usdc \<noteq> atom"
    and "map_of (a_users s) (sender info) = Some user"
  shows "outflow usdc ms = unat au \<and> outflow atom ms = unat aa \<and>
    unat au \<le> unat (usdc_deposited user) \<and> unat aa \<le> unat (atom_deposited user) \<and>
    (unat (ac_init_timestamp cfg) + unat (deposit_window cfg) \<le> unat (block_time env) \<longrightarrow>
       2 * unat au \<le> unat (usdc_deposited user) \<and> 2 * unat aa \<le> unat (atom_deposited user)) \<and>
    (\<exists>user'. map_of (a_users s') (sender info) = Some user' \<and>
       usdc_deposited user' = usdc_deposited user - au \<and> atom_deposited user' = atom_deposited user - aa \<and>
       (unat (ac_init_timestamp cfg) + unat (deposit_window cfg) \<le> unat (block_time env) \<longrightarrow> withdrawn user'))"
proof -
  obtain q where q: "allowed_withdrawal_percent (block_time env) cfg = Ok q"
    and b: "unat au \<le> unat (usdc_deposited user) * unat (atomics q) div DECIMAL_FRACTIONAL"
      "unat aa \<le> unat (atom_deposited user) * unat (atomics q) div DECIMAL_FRACTIONAL"
    using withdraw_bounds [OF assms(1,2,5)] by blast
  have out: "outflow usdc ms = unat au \<and> outflow atom ms = unat aa"
    using assms(1) by (rule withdraw_inversion) (use assms(2-4) in \<open>auto simp: word_gt_0\<close>)
  have user: "\<exists>user'. map_of (a_users s') (sender info) = Some user' \<and>
       usdc_deposited user' = usdc_deposited user - au \<and> atom_deposited user' = atom_deposited user - aa \<and>
       (unat (ac_init_timestamp cfg) + unat (deposit_window cfg) \<le> unat (block_time env) \<longrightarrow> withdrawn user')"
    using assms(1) by (rule withdraw_inversion)
      (use assms(2,5) in \<open>auto simp: map_of_save sub_panic_def word_le_nat_alt split: if_splits\<close>)
  show ?thesis
    using out user order_trans [OF b(1) auction_curve.share_bound [OF q]]
      order_trans [OF b(2) auction_curve.share_bound [OF q]]
      auction_curve.share_bound_half [OF q, of "unat (usdc_deposited user)"]
      auction_curve.share_bound_half [OF q, of "unat (atom_deposited user)"] b
    by (auto intro: order_trans [OF mult_le_mono2])
qed

theorem auction_withdraw_pays_within_curve_witness:
  "outflow ''usdc'' [BankSend ''alice'' [\<lparr>coin_denom = ''usdc'', coin_amount = 3000000\<rparr>] :: msg] = 3000000"
  using auction_withdraw_pays_within_curve [OF run_step_withdrawn, of run_config "''usdc''" "''atom''"
      "run_user 8000000 400000 False 0 0"]
  by (simp add: run_deposited_def run_config_def get_denoms_def call_by_def)


lemma get_lp_size_Ok:
  assumes "get_lp_size d x y = Ok l" and "integer_sqrt_floor d"
  shows "(unat l + 1000)\<^sup>2 \<le> unat x * unat y \<and> unat x * unat y < (unat l + 1001)\<^sup>2"
proof -
  have r: "integer_sqrt d (unat x * unat y) = unat l + 1000"
    using assms(1) by (auto simp: get_lp_size_def minimum_liquidity_amount_def)
  have "(integer_sqrt d (unat x * unat y))\<^sup>2 \<le> unat x * unat y \<and>
      unat x * unat y < (integer_sqrt d (unat x * unat y) + 1)\<^sup>2"
    using assms(2) by (simp add: integer_sqrt_floor_def)
  then show ?thesis by (simp add: r add.commute [of 1001])
qed

text \<open>SetPoolSize splits the contract's NTRN balance exactly between the two pools, sizes each LP token within the square root of its product, needs both assets to be deposited, and works only once.\<close>
theorem auction_set_pool_size_splits_ntrn:
  assumes "execute_set_pool_size d env s = Ok (s', ms)" and "integer_sqrt_floor d"
    and "a_config s = Some cfg" and "a_state s = Some st" and "a_state s' = Some st'"
    and "bank_balance d (this_contract env) (ac_ntrn_denom cfg) = Ok ntrn"
  shows "unat (usdc_ntrn_size st') + unat (atom_ntrn_size st') = unat ntrn \<and>
    0 < unat (total_usdc_deposited st) \<and> 0 < unat (total_atom_deposited st) \<and>
    0 < usdc_ntrn_size st' \<and> 0 < atom_ntrn_size st' \<and>
    (unat (usdc_lp_size st') + 1000)\<^sup>2 \<le> unat (usdc_ntrn_size st') * unat (total_usdc_deposited st) \<and>
    (unat (atom_lp_size st') + 1000)\<^sup>2 \<le> unat (atom_ntrn_size st') * unat (total_atom_deposited st) \<and>
    execute_set_pool_size d' env' s' \<noteq> Ok (s'', ms')"
  using assms(1)
proof (rule set_pool_size_inversion, goal_cases)
  case (1 c t ntrn' r0 r1 q dec aiu all_usdc ratio x y la lu)
  have eq: "c = cfg" "t = st" "ntrn' = ntrn"
    using 1 assms(3,4,6) by auto
  have st': "st' = st\<lparr>usdc_ntrn_size := x, atom_ntrn_size := y, atom_lp_size := la, usdc_lp_size := lu\<rparr>"
    using 1(20) assms(5) eq by simp
  have split: "unat x + unat y = unat ntrn" using 1(17) eq by simp
  have u: "(unat lu + 1000)\<^sup>2 \<le> unat x * unat (total_usdc_deposited st)"
    and a: "(unat la + 1000)\<^sup>2 \<le> unat y * unat (total_atom_deposited st)"
    using get_lp_size_Ok [OF _ assms(2)] 1(18,19) eq by auto
  have pos: "0 < n \<and> 0 < m" if "(k + 1000)\<^sup>2 \<le> n * m" for k n m :: nat
    using that by (cases "n = 0 \<or> m = 0") auto
  have nz: "0 < unat x \<and> 0 < unat (total_usdc_deposited st)" "0 < unat y \<and> 0 < unat (total_atom_deposited st)"
    using pos [OF u] pos [OF a] by auto
  then have nz': "0 < x" "0 < y" by (simp_all add: unat_gt_0 word_neq_0_conv)
  have once: "execute_set_pool_size d' env' s' \<noteq> Ok (s'', ms')"
  proof
    assume "execute_set_pool_size d' env' s' = Ok (s'', ms')"
    then show False
      by (rule set_pool_size_inversion) (use nz' assms(5) st' in auto)
  qed
  show ?case using split u a nz nz' once by (simp add: st')
qed

theorem auction_set_pool_size_splits_ntrn_witness:
  "unat (usdc_ntrn_size run_sizes) + unat (atom_ntrn_size run_sizes) = unat (9000000 :: u128) \<and>
   (unat (usdc_lp_size run_sizes) + 1000)\<^sup>2 \<le> unat (usdc_ntrn_size run_sizes) * 5000000"
proof -
  have "integer_sqrt_floor run_deps"
    using isqrt_floor by (simp add: integer_sqrt_floor_def run_deps_def)
  from auction_set_pool_size_splits_ntrn [OF run_step_sized this, of run_config "run_totals 5000000 1000000" run_sizes 9000000
      run_deps "run_env 1" run_sized "[]"]
  show ?thesis by (simp add: run_withdrawn_def run_sized_def run_deps_def run_totals_def)
qed


text \<open>The amount of LP tokens that MigrateToVesting sends to a vesting contract is the total of the vesting accounts in the hook.\<close>
theorem auction_migration_sends_registered_amounts:
  assumes "execute_migrate_to_vesting env s = Ok (s', ms)" and "store_ok (a_users s)"
    and "WasmExecute lp_token (Cw20Send vesting n (RegisterVestingAccountsHook accounts)) fs \<in> set ms"
  shows "unat n = accounts_total accounts \<and> n \<noteq> 0"
  using assms(1)
proof (rule migrate_inversion)
  fix cfg st p m
  assume m: "try_fold (migrate_user env cfg st)
       \<lparr>atom_users = [], usdc_users = [], mig_atom_lp = 0, mig_usdc_lp = 0, mig_users = a_users s\<rparr>
       (take (unat (vesting_migration_pack_size cfg)) (users_not_vested (a_users s))) = Ok m"
    and ms: "ms = (if mig_atom_lp m \<noteq> 0
           then [WasmExecute (ntrn_atom_lp_token_address p)
                   (Cw20Send (vesting_atom_contract_address cfg) (mig_atom_lp m)
                      (RegisterVestingAccountsHook (atom_users m))) []] else []) @
          (if mig_usdc_lp m \<noteq> 0
           then [WasmExecute (ntrn_usdc_lp_token_address p)
                   (Cw20Send (vesting_usdc_contract_address cfg) (mig_usdc_lp m)
                      (RegisterVestingAccountsHook (usdc_users m))) []] else [])"
  have "unat (mig_atom_lp m) = accounts_total (atom_users m) \<and> unat (mig_usdc_lp m) = accounts_total (usdc_users m)"
  proof (rule try_fold_invariant [OF m])
    fix x r u
    assume "unat (mig_atom_lp r) = accounts_total (atom_users r) \<and> unat (mig_usdc_lp r) = accounts_total (usdc_users r)"
      and "migrate_user env cfg st r x = Ok u"
    then show "unat (mig_atom_lp u) = accounts_total (atom_users u) \<and> unat (mig_usdc_lp u) = accounts_total (usdc_users u)"
      by (cases x) (auto dest!: migrate_user_Ok)
  qed simp
  then show ?thesis using assms(3) unfolding ms by (auto split: if_splits)
qed

theorem auction_migration_sends_registered_amounts_witness:
  "unat (1933991 :: u128) = accounts_total [linear_vesting_account ''alice'' 420 1420 1933991]"
  using auction_migration_sends_registered_amounts [OF run_step_migrated, of "''lp_usdc''" "''vest_usdc''" 1933991
      "[linear_vesting_account ''alice'' 420 1420 1933991]" "[]"]
  by (simp add: run_final_def run_locked_def run_migrate_msgs_def)


lemma push_vesting_account_total:
  assumes "unat lp_sum + unat n < 2 ^ 128" and "unat (block_time env) + unat (vesting_lp_duration cfg) < 2 ^ 64"
  shows "\<exists>r. push_vesting_account env cfg a n accounts lp_sum = Ok r"
  using assms by (simp add: push_vesting_account_def add_panic_def narrow_fits)

definition usdc_share :: "auction_state \<Rightarrow> auction_user \<Rightarrow> nat" where
  "usdc_share st u = lp_share (usdc_deposited u) (total_usdc_deposited st) (usdc_lp_size st)"

definition atom_share :: "auction_state \<Rightarrow> auction_user \<Rightarrow> nat" where
  "atom_share st u = lp_share (atom_deposited u) (total_atom_deposited st) (atom_lp_size st)"

text \<open>A user whose deposits are part of the totals and whose locks are within his share.\<close>

definition user_sound :: "auction_state \<Rightarrow> auction_user \<Rightarrow> bool" where
  "user_sound st u \<longleftrightarrow> lock_bounded st u \<and>
     unat (usdc_deposited u) \<le> unat (total_usdc_deposited st) \<and>
     unat (atom_deposited u) \<le> unat (total_atom_deposited st)"

lemma migrate_user_total:
  assumes "user_sound st u"
    and "unat (mig_atom_lp m) + atom_share st u < 2 ^ 128"
    and "unat (mig_usdc_lp m) + usdc_share st u < 2 ^ 128"
    and "unat (block_time env) + unat (vesting_lp_duration cfg) < 2 ^ 64"
  shows "\<exists>m'. migrate_user env cfg st m (a, u) = Ok m' \<and>
    unat (mig_atom_lp m') \<le> unat (mig_atom_lp m) + atom_share st u \<and>
    unat (mig_usdc_lp m') \<le> unat (mig_usdc_lp m) + usdc_share st u"
proof -
  obtain lp where lp: "user_lp_info_of st u = Ok lp"
    using user_lp_info_total [of u st] assms(1) by (auto simp: user_sound_def)
  note am = user_lp_info_amounts [OF lp]
  have le: "unat (usdc_lp_locked u) \<le> unat (usdc_lp_amount lp)" "unat (atom_lp_locked u) \<le> unat (atom_lp_amount lp)"
    using assms(1) am by (auto simp: user_sound_def lock_bounded_def)
  let ?va = "atom_lp_amount lp - atom_lp_locked u" and ?vu = "usdc_lp_amount lp - usdc_lp_locked u"
  have va: "unat ?va \<le> atom_share st u" and vu: "unat ?vu \<le> usdc_share st u"
    using le am by (simp_all add: unat_sub word_le_nat_alt atom_share_def usdc_share_def)
  obtain as na where a: "push_vesting_account env cfg a ?va (atom_users m) (mig_atom_lp m) = Ok (as, na)"
    using push_vesting_account_total [of "mig_atom_lp m" ?va env cfg a "atom_users m"] va assms(2,4) by auto
  obtain us nu where u: "push_vesting_account env cfg a ?vu (usdc_users m) (mig_usdc_lp m) = Ok (us, nu)"
    using push_vesting_account_total [of "mig_usdc_lp m" ?vu env cfg a "usdc_users m"] vu assms(3,4) by auto
  have subs: "sub_panic (atom_lp_amount lp) (atom_lp_locked u) = Ok ?va"
    "sub_panic (usdc_lp_amount lp) (usdc_lp_locked u) = Ok ?vu"
    using le by (simp_all add: sub_panic_def del: sub_panic_Ok_iff)
  have "migrate_user env cfg st m (a, u) = Ok \<lparr>atom_users = as, usdc_users = us, mig_atom_lp = na,
      mig_usdc_lp = nu, mig_users = save a (u\<lparr>is_vested := True\<rparr>) (mig_users m)\<rparr>"
    unfolding migrate_user_def prod.case lp subs and_then.simps a u ..
  then show ?thesis
    using push_vesting_account_Ok [OF a] push_vesting_account_Ok [OF u] va vu by auto
qed

lemma migrate_loop_total:
  assumes "\<And>a u. (a, u) \<in> set us \<Longrightarrow> user_sound st u"
    and "unat (mig_atom_lp m) + sum_list (map (\<lambda>(a, u). atom_share st u) us) < 2 ^ 128"
    and "unat (mig_usdc_lp m) + sum_list (map (\<lambda>(a, u). usdc_share st u) us) < 2 ^ 128"
    and "unat (block_time env) + unat (vesting_lp_duration cfg) < 2 ^ 64"
  shows "\<exists>m'. try_fold (migrate_user env cfg st) m us = Ok m'"
  using assms(1-3)
proof (induction us arbitrary: m)
  case (Cons au us)
  obtain a u where au: "au = (a, u)" by (cases au)
  have "\<exists>k. migrate_user env cfg st m (a, u) = Ok k \<and>
    unat (mig_atom_lp k) \<le> unat (mig_atom_lp m) + atom_share st u \<and>
    unat (mig_usdc_lp k) \<le> unat (mig_usdc_lp m) + usdc_share st u"
    using Cons.prems au assms(4) by (intro migrate_user_total) auto
  then obtain k where k: "migrate_user env cfg st m (a, u) = Ok k"
    "unat (mig_atom_lp k) \<le> unat (mig_atom_lp m) + atom_share st u"
    "unat (mig_usdc_lp k) \<le> unat (mig_usdc_lp m) + usdc_share st u" by blast
  have "\<exists>m'. try_fold (migrate_user env cfg st) k us = Ok m'"
    using Cons.prems k au by (intro Cons.IH) auto
  then show ?case by (simp add: au k)
qed simp

lemma users_sound:
  assumes "auction_reachable t s" and "a_config s = Some cfg" and "a_state s = Some st"
    and "0 < ac_withdrawal_window cfg" and "(a, u) \<in> set (a_users s)"
  shows "user_sound st u"
proof -
  have wf: "auction_wf s" and ph: "auction_phase t s" using auction_reachable_inv [OF assms(1)] by auto
  have load: "map_of (a_users s) a = Some u"
    using wf assms(5) by (auto simp: auction_wf_def intro: store_ok_map_of)
  have "lock_bounded st u"
    using auction_phaseD [OF ph order_refl assms(2,3,4)] load by (auto simp: phase_ok_def intro: all_users_load)
  then show ?thesis
    using wf assms(3) store_sum_ge [OF load, of "\<lambda>_ u. unat (usdc_deposited u)"]
      store_sum_ge [OF load, of "\<lambda>_ u. unat (atom_deposited u)"]
    by (simp add: user_sound_def auction_wf_def totals_match_def users_total_def)
qed


lemma users_not_vested_card:
  assumes "store_ok us"
  shows "length (users_not_vested us) = card {a. \<exists>u. map_of us a = Some u \<and> \<not> is_vested u}"
proof -
  have "distinct (map fst (users_not_vested us))"
    using store_ok_distinct [OF assms] unfolding users_not_vested_def by (induction us) auto
  then have "length (users_not_vested us) = card (fst ` set (users_not_vested us))"
    by (metis distinct_card length_map list.set_map)
  moreover have "fst ` set (users_not_vested us) = {a. \<exists>u. map_of us a = Some u \<and> \<not> is_vested u}"
    using store_ok_distinct [OF assms] unfolding users_not_vested_def
    by (auto simp: image_iff map_of_eq_Some_iff Bex_def)
  ultimately show ?thesis by simp
qed

lemma migrate_loop_count:
  assumes "try_fold (migrate_user env cfg st) m (take n (users_not_vested (mig_users m))) = Ok m'"
    and "migration_ok st' m"
  shows "length (users_not_vested (mig_users m')) = length (users_not_vested (mig_users m)) - n"
proof -
  let ?us = "take n (users_not_vested (mig_users m))"
  have ok: "store_ok (mig_users m)" using assms(2) by (simp add: migration_ok_def)
  note nv = not_vested_props [OF ok, where n = n]
  have loop: "migration_ok st' m'"
      "map_of (mig_users m') = (\<lambda>a. case map_of ?us a of Some u \<Rightarrow> Some (u\<lparr>is_vested := True\<rparr>)
         | None \<Rightarrow> map_of (mig_users m) a)"
    using migrate_loop [OF assms nv(1)] nv(2) by blast+
  let ?P = "\<lambda>s. {a. \<exists>u. map_of s a = Some u \<and> \<not> is_vested u}"
  have "?P (mig_users m') = ?P (mig_users m) - fst ` set ?us"
    unfolding loop(2) using map_of_eq_None_iff [of ?us]
    by (auto split: option.splits simp del: map_of_eq_None_iff) 
  moreover have "fst ` set ?us \<subseteq> ?P (mig_users m)" using nv(2) by auto
  moreover have "card (fst ` set ?us) = min n (length (users_not_vested (mig_users m)))"
    using distinct_card [OF nv(1)] by (simp add: min.commute)
  ultimately have "card (?P (mig_users m')) = card (?P (mig_users m)) - min n (length (users_not_vested (mig_users m)))"
    by (simp add: card_Diff_subset)
  then show ?thesis
    using users_not_vested_card [OF ok] users_not_vested_card loop(1) by (simp add: migration_ok_def)
qed

text \<open>In a reachable state with the pools created, MigrateToVesting neither fails nor panics and takes exactly one pack of users off the list of those not yet vested.\<close>
theorem auction_migration_never_stuck:
  assumes "auction_reachable t s" and "a_config s = Some cfg" and "a_state s = Some st"
    and "0 < ac_withdrawal_window cfg"
    and "ac_pool_info cfg \<noteq> None" and "pool_init_timestamp st \<noteq> 0" and "0 < vesting_migration_pack_size cfg"
    and "users_not_vested (a_users s) \<noteq> []"
    and "unat (block_time env) + unat (vesting_lp_duration cfg) < 2 ^ 64"
  shows "\<exists>s' ms. execute_migrate_to_vesting env s = Ok (s', ms) \<and>
    length (users_not_vested (a_users s')) =
      length (users_not_vested (a_users s)) - unat (vesting_migration_pack_size cfg)"
proof -
  let ?n = "unat (vesting_migration_pack_size cfg)"
  let ?us = "take ?n (users_not_vested (a_users s))"
  let ?m = "\<lparr>atom_users = [], usdc_users = [], mig_atom_lp = 0, mig_usdc_lp = 0, mig_users = a_users s\<rparr>"
  have wf: "auction_wf s" using auction_reachable_inv [OF assms(1)] by simp
  have ok: "store_ok (a_users s)" using wf by (simp add: auction_wf_def)
  have sums: "unat (total_usdc_deposited st) = store_sum (\<lambda>_ u. unat (usdc_deposited u)) (a_users s)"
    "unat (total_atom_deposited st) = store_sum (\<lambda>_ u. unat (atom_deposited u)) (a_users s)"
    using wf assms(3) by (auto simp: auction_wf_def totals_match_def users_total_def)
  have total: "sum_list (map (\<lambda>(a, u). f u) ?us) \<le> store_sum (\<lambda>_ u. f u) (a_users s)" for f
    unfolding users_not_vested_def store_sum_def by (rule sum_list_map_take_filter_le)
  have "sum_list (map (\<lambda>(a, u). usdc_share st u) ?us) \<le> unat (usdc_lp_size st) div 2"
    using total [of "usdc_share st"] sum_of_shares [OF sums(1) [symmetric], of "usdc_share st" "usdc_lp_size st"]
    by (simp add: usdc_share_def)
  then have u: "sum_list (map (\<lambda>(a, u). usdc_share st u) ?us) < 2 ^ 128"
    using unat_le_u128_max [of "usdc_lp_size st"] by linarith
  have "sum_list (map (\<lambda>(a, u). atom_share st u) ?us) \<le> unat (atom_lp_size st) div 2"
    using total [of "atom_share st"] sum_of_shares [OF sums(2) [symmetric], of "atom_share st" "atom_lp_size st"]
    by (simp add: atom_share_def)
  then have a: "sum_list (map (\<lambda>(a, u). atom_share st u) ?us) < 2 ^ 128"
    using unat_le_u128_max [of "atom_lp_size st"] by linarith
  have "user_sound st u" if "(a, u) \<in> set ?us" for a u
    using users_sound [OF assms(1-4), of a u] in_set_takeD [OF that] by (simp add: users_not_vested_def)
  then obtain m where m: "try_fold (migrate_user env cfg st) ?m ?us = Ok m"
    using migrate_loop_total [of ?us st ?m env cfg] a u assms(9) by auto
  have ne: "?us \<noteq> []" using assms(7,8) by (simp add: unat_gt_0)
  have "migration_ok st ?m" using ok wf assms(3) by (simp add: migration_ok_def auction_wf_def)
  then have "length (users_not_vested (mig_users m)) = length (users_not_vested (a_users s)) - ?n"
    using migrate_loop_count [of env cfg st ?m ?n m] m by simp
  moreover obtain p where "ac_pool_info cfg = Some p" using assms(5) by auto
  ultimately show ?thesis
    using m ne assms(2,3,6)
    by (simp add: execute_migrate_to_vesting_def load_defs Let_def)
qed

theorem auction_migration_never_stuck_witness:
  "\<exists>s' ms. execute_migrate_to_vesting (run_env 420) run_final = Ok (s', ms) \<and> users_not_vested (a_users s') = []"
  using auction_migration_never_stuck [OF run_reachable(6), of run_config _ "run_env 420"]
  by (simp add: run_final_def run_locked_def run_config_def run_pools_def users_not_vested_def run_user_def)



text \<open>Once the pool size is set, no deposit and no withdrawal succeeds any more (withdrawal window not empty).\<close>
theorem auction_pool_size_freezes_deposits:
  assumes "auction_reachable t s" and "a_config s = Some cfg" and "a_state s = Some st"
    and "0 < ac_withdrawal_window cfg" and "usdc_ntrn_size st \<noteq> 0" and "atom_ntrn_size st \<noteq> 0"
    and "t \<le> block_time env"
  shows "execute_deposit env info s \<noteq> Ok r \<and> auction_execute_withdraw env info au aa s \<noteq> Ok r"
proof -
  have ph: "auction_phase t s" using auction_reachable_inv [OF assms(1)] by simp
  have "windows_end cfg \<le> unat (block_time env)"
    using auction_phaseD [OF ph assms(7,2,3,4)] assms(5,6) by (simp add: phase_ok_def pool_size_set_def)
  then show ?thesis
    using deposit_before_end [OF _ assms(2)] withdraw_before_end [OF _ assms(2,4)]
    by (metis not_less prod.exhaust)
qed

theorem auction_pool_size_freezes_deposits_witness:
  "execute_deposit (run_env 305) bob_sends run_sized \<noteq> Ok (run_sized, [])"
  using auction_pool_size_freezes_deposits [OF run_reachable(4), of run_config run_sizes "run_env 305" bob_sends "(run_sized, [])"]
  by (simp add: run_sized_def run_withdrawn_def run_sizes_def run_config_def)


text \<open>A deposit adds exactly the attached coins of the two denoms to the user's deposits and changes nothing else of the user.\<close>
theorem auction_deposit_credits_funds:
  assumes "execute_deposit env info s = Ok (s', ms)" and "a_config s = Some cfg"
    and "get_denoms cfg = Ok (usdc, atom)" and "usdc \<noteq> atom" and "distinct (map coin_denom (funds info))"
  shows "\<exists>user. map_of (a_users s') (sender info) = Some user \<and>
    (let old = unwrap_or (map_of (a_users s) (sender info)) auction_user_default in
       unat (usdc_deposited user) = unat (usdc_deposited old) + coins_total usdc (funds info) \<and>
       unat (atom_deposited user) = unat (atom_deposited old) + coins_total atom (funds info) \<and>
       usdc_lp_locked user = usdc_lp_locked old \<and> withdrawn user = withdrawn old) \<and> ms = []"
  using assms(1)
proof (rule deposit_inversion, goal_cases)
  case (1 c u a x y st user tu ta uu ua)
  have "u = usdc" "a = atom" using 1(1,2) assms(2,3) by auto
  then have "unat x = coins_total usdc (funds info) \<and> unat y = coins_total atom (funds info)"
    using deposit_amounts_total [OF _ assms(4,5)] 1(6) by simp
  then show ?case using 1(7,10-13) by (simp add: map_of_save)
qed

theorem auction_deposit_credits_funds_witness:
  "\<exists>user. map_of (a_users run_deposited) ''bob'' = Some user \<and> unat (atom_deposited user) = 600000"
  using auction_deposit_credits_funds [OF run_step_deposited, of run_config "''usdc''" "''atom''"]
  by (auto simp: run_half_def run_ready_def run_config_def get_denoms_def bob_sends_def auction_user_default_def)


text \<open>After a withdrawal past the deposit window every other withdrawal of the same user is rejected.\<close>
theorem auction_second_withdraw_rejected:
  assumes "auction_execute_withdraw env info au aa s = Ok (s', ms)"
    and "a_config s = Some cfg"
    and "unat (ac_init_timestamp cfg) + unat (deposit_window cfg) \<le> unat (block_time env)"
    and "sender info' = sender info"
  shows "auction_execute_withdraw env' info' au' aa' s' = Err (GenericErr ''Max 1 withdrawal allowed'')"
  using assms(1)
proof (rule withdraw_inversion, goal_cases)
  case (1 c usdc atom st user q mu ma we tu ta uu ua)
  have "we \<le> block_time env" using 1(1,12) assms(2,3) by (simp add: word_le_nat_alt)
  then show ?case using 1(1,2,17) assms(4)
    by (simp add: auction_execute_withdraw_def load_defs map_of_save)
qed

theorem auction_second_withdraw_rejected_witness:
  "auction_execute_withdraw (run_env 230) (call_by ''alice'') 1 0 run_withdrawn =
     Err (GenericErr ''Max 1 withdrawal allowed'')"
  using auction_second_withdraw_rejected [OF run_step_withdrawn, of run_config "call_by ''alice''"]
  by (simp add: run_deposited_def run_config_def)


text \<open>No call by anyone but the owner changes the owner, the reserve, the lockdrop or price feed address or the windows; only the owner and the token info manager change the configuration at all.\<close>
theorem auction_config_only_by_owner:
  assumes "auction_execute d env info m s = Ok (s', ms)" and "a_config s = Some cfg"
    and "sender info \<noteq> ac_owner cfg"
  shows "(sender info \<noteq> ac_token_info_manager cfg \<longrightarrow> a_config s' = a_config s) \<and>
    (\<exists>cfg'. a_config s' = Some cfg' \<and> ac_owner cfg' = ac_owner cfg \<and>
       reserve_contract_address cfg' = reserve_contract_address cfg \<and>
       lockdrop_contract_address cfg' = lockdrop_contract_address cfg \<and>
       price_feed_contract cfg' = price_feed_contract cfg \<and> auction_times cfg' = auction_times cfg)"
proof (cases "\<exists>u a p. m = AuctionSetTokenInfo u a p")
  case True
  then show ?thesis
    using assms
    by (auto simp: execute_set_token_info_def load_defs auction_times_def dest!: update_if_frame [where f =
        "\<lambda>c. (ac_owner c, reserve_contract_address c, lockdrop_contract_address c, price_feed_contract c, auction_times c)"])
next
  case False
  have "a_config s' = a_config s"
  proof (cases m)
    case (AuctionUpdateConfig x1)
    then show ?thesis using assms by (auto simp: auction_update_config_def load_defs)
  next
    case (AuctionSetTokenInfo x21 x22 x23)
    then show ?thesis using False by blast
  qed (use assms(1) in \<open>simp_all add: auction_config_frame\<close>)
  then show ?thesis using assms(2) by simp
qed

theorem auction_config_only_by_owner_witness:
  "\<exists>cfg'. a_config run_ready = Some cfg' \<and> ac_owner cfg' = ''dao'' \<and> price_feed_contract cfg' = ''feed''"
  using auction_config_only_by_owner [OF run_step_ready]
  by (simp add: run_fresh_def run_config_def run_ready_def call_by_def)


lemma finalize_outflow:
  assumes "execute_finalize_init_pool d env info prev s = Ok (s', ms)"
    and "a_config s = Some cfg" and "a_state s = Some st" and "ac_pool_info cfg = Some p"
    and "ntrn_usdc_lp_token_address p \<noteq> ntrn_atom_lp_token_address p"
    and "a_state s' = Some st'"
  shows "\<exists>u a. lp_usdc_shares_minted st' = Some u \<and> lp_atom_shares_minted st' = Some a \<and>
    cw20_outflow (ntrn_usdc_lp_token_address p) ms = unat u div 2 + unat (total_usdc_lp_locked st) \<and>
    cw20_outflow (ntrn_atom_lp_token_address p) ms = unat a div 2 + unat (total_atom_lp_locked st)"
  using assms(1)
proof (rule finalize_inversion, goal_cases)
  case (1 c t lockdrop q cu ca u a)
  have eqs: "c = cfg" "t = st" "q = p" using 1(2,3,5) assms(2-4) by auto
  have st': "st' = st\<lparr>lp_atom_shares_minted := Some a, lp_usdc_shares_minted := Some u,
      pool_init_timestamp := block_time env\<rparr>"
    using 1(9) assms(6) eqs by simp
  show ?case using 1(10) assms(5) eqs by (auto simp: st' unat_div)
qed

text \<open>C8: In reachable states, when the withdrawal window is not empty, the two pools have different LP tokens and they mint at least the computed LP sizes, the reserve half and the lockdrop's part that FinalizePoolInitialization sends out never exceed what was minted, and only the contract itself can run it.\<close>
theorem auction_finalize_solvent:
  assumes "auction_reachable t s" and "execute_finalize_init_pool d env info prev s = Ok (s', ms)"
    and "a_config s = Some cfg" and "a_state s = Some st" and "ac_pool_info cfg = Some p"
    and "ntrn_usdc_lp_token_address p \<noteq> ntrn_atom_lp_token_address p"
    and "0 < ac_withdrawal_window cfg" and "a_state s' = Some st'"
    and "usdc_lp_size st \<le> unwrap_or (lp_usdc_shares_minted st') 0"
    and "atom_lp_size st \<le> unwrap_or (lp_atom_shares_minted st') 0"
  shows "sender info = this_contract env \<and>
    cw20_outflow (ntrn_usdc_lp_token_address p) ms \<le> unat (unwrap_or (lp_usdc_shares_minted st') 0) \<and>
    cw20_outflow (ntrn_atom_lp_token_address p) ms \<le> unat (unwrap_or (lp_atom_shares_minted st') 0)"
proof -
  have wf: "auction_wf s" and ph: "auction_phase t s" using auction_reachable_inv [OF assms(1)] by auto
  have half: "unat (total_usdc_lp_locked st) \<le> unat (usdc_lp_size st) div 2"
    "unat (total_atom_lp_locked st) \<le> unat (atom_lp_size st) div 2"
    using locked_within_half [OF assms(1,3,4,7)] by auto
  have "sender info = this_contract env"
    using assms(2) by (rule finalize_inversion) simp
  then show ?thesis
    using finalize_outflow [OF assms(2-6,8)] half assms(9,10) by (fastforce simp: word_le_nat_alt)
qed

theorem auction_finalize_solvent_witness:
  "cw20_outflow ''lp_usdc'' run_finalize_msgs \<le> 7000000"
  using auction_finalize_solvent [OF run_reachable(5) run_step_final, of run_config _ run_pools
      "the (a_state run_final)"]
  by (simp add: run_final_def run_locked_def run_config_def run_pools_def run_sizes_def)


subsection \<open>The migration ends\<close>

primrec migrate_packs :: "env list \<Rightarrow> auction \<Rightarrow> (std_error, auction \<times> msg list) result" where
  "migrate_packs [] s = Ok (s, [])"
| "migrate_packs (env # envs) s =
     and_then (execute_migrate_to_vesting env s) (\<lambda>(s, ms).
     and_then (migrate_packs envs s) (\<lambda>(s, ns). Ok (s, ms @ ns)))"

definition packs :: "nat \<Rightarrow> nat \<Rightarrow> nat" where
  "packs pack n = (n + pack - 1) div pack"

lemma packs_step:
  assumes "0 < pack" "0 < n"
  shows "packs pack n = Suc (packs pack (n - pack))"
proof (cases "pack \<le> n")
  case True
  then obtain m where n: "n = m + pack" by (metis le_add_diff_inverse2)
  have "(m + pack + pack - 1) div pack = ((m + pack - 1) + pack) div pack" using assms(1) by simp
  also have "\<dots> = Suc ((m + pack - 1) div pack)" using assms(1) by (simp only: div_add_self2)
  finally show ?thesis by (simp add: packs_def n)
next
  case False
  then have "(n + pack - 1) div pack = 1" using assms by (intro div_nat_eqI) simp_all
  then show ?thesis using False assms by (simp add: packs_def)
qed

lemma packs_0 [simp]: "0 < pack \<Longrightarrow> packs pack 0 = 0"
  by (simp add: packs_def)

lemma migrate_keeps:
  "execute_migrate_to_vesting env s = Ok (s', ms) \<Longrightarrow> a_config s' = a_config s \<and> a_state s' = a_state s"
  by (auto simp: execute_migrate_to_vesting_def Let_def)

lemma migrate_done:
  assumes "a_config s = Some cfg" "a_state s = Some st" "ac_pool_info cfg \<noteq> None" "pool_init_timestamp st \<noteq> 0"
    and "users_not_vested (a_users s) = []"
  shows "execute_migrate_to_vesting env s = Err (GenericErr ''No users to migrate!'')"
  using assms by (auto simp: execute_migrate_to_vesting_def load_defs Let_def)

text \<open>C18: From a reachable state with the pools created, when the withdrawal window is not empty, the pack size is positive and no migration time plus the vesting duration overflows 64 bits, as many MigrateToVesting calls (at times that do not go back) as there are packs of users all succeed and leave no user unvested; the next call fails because nobody is left.\<close>
theorem auction_migration_terminates:
  assumes "auction_reachable t s" and "a_config s = Some cfg" and "a_state s = Some st"
    and "0 < ac_withdrawal_window cfg"
    and "ac_pool_info cfg \<noteq> None" and "pool_init_timestamp st \<noteq> 0" and "0 < vesting_migration_pack_size cfg"
    and "length envs = packs (unat (vesting_migration_pack_size cfg)) (length (users_not_vested (a_users s)))"
    and "sorted (t # map block_time envs)"
    and "list_all (\<lambda>env. unat (block_time env) + unat (vesting_lp_duration cfg) < 2 ^ 64) envs"
  shows "\<exists>s' ms. migrate_packs envs s = Ok (s', ms) \<and> users_not_vested (a_users s') = [] \<and>
    execute_migrate_to_vesting env s' = Err (GenericErr ''No users to migrate!'')"
  using assms(1-3,8-10)
proof (induction envs arbitrary: s t)
  case Nil
  have "0 < unat (vesting_migration_pack_size cfg)" using assms(7) by (simp add: word_less_nat_alt)
  then have "users_not_vested (a_users s) = []"
    using Nil(4) packs_step by (metis Zero_not_Suc length_0_conv length_greater_0_conv)
  then show ?case using migrate_done [OF Nil(2,3) assms(5,6)] by simp
next
  case (Cons e envs)
  let ?k = "unat (vesting_migration_pack_size cfg)" and ?n = "length (users_not_vested (a_users s))"
  have k: "0 < ?k" using assms(7) by (simp add: word_less_nat_alt)
  have n: "users_not_vested (a_users s) \<noteq> []" using Cons.prems(4) packs_0 [OF k] by auto
  have time: "unat (block_time e) + unat (vesting_lp_duration cfg) < 2 ^ 64" using Cons.prems(6) by simp
  obtain u ms where step: "execute_migrate_to_vesting e s = Ok (u, ms)"
    and left: "length (users_not_vested (a_users u)) = ?n - ?k"
    using auction_migration_never_stuck [OF Cons.prems(1-3) assms(4-7) n time] by blast
  have "auction_execute (undefined :: auction_deps) e undefined AuctionMigrateToVesting s = Ok (u, ms)"
    using step by simp
  note run = this
  have r: "auction_reachable (block_time e) u"
    using auction_reachable.step [OF Cons.prems(1) _ run] Cons.prems(5) by simp
  have c: "a_config u = Some cfg" "a_state u = Some st"
    using migrate_keeps [OF step] Cons.prems(2,3) by simp_all
  have "length envs = packs ?k (length (users_not_vested (a_users u)))"
    using Cons.prems(4) packs_step [OF k, of ?n] n left by simp
  moreover have "sorted (block_time e # map block_time envs)" using Cons.prems(5) by simp
  moreover have "list_all (\<lambda>env. unat (block_time env) + unat (vesting_lp_duration cfg) < 2 ^ 64) envs"
    using Cons.prems(6) by simp
  ultimately obtain s' ns where "migrate_packs envs u = Ok (s', ns)" "users_not_vested (a_users s') = []"
    "execute_migrate_to_vesting env s' = Err (GenericErr ''No users to migrate!'')"
    using Cons.IH [OF r c] by blast
  then show ?case using step by simp
qed

theorem auction_migration_terminates_witness:
  "\<exists>s' ms. migrate_packs [run_env 420] run_final = Ok (s', ms) \<and> users_not_vested (a_users s') = [] \<and>
    execute_migrate_to_vesting (run_env 420) s' = Err (GenericErr ''No users to migrate!'')"
  using auction_migration_terminates [OF run_reachable(6), of run_config _ "[run_env 420]" "run_env 420"]
  by (simp add: run_final_def run_locked_def run_config_def run_pools_def users_not_vested_def run_user_def packs_def run_env_def)

end
