(* ===== verification/Credits.thy ===== *)
theory Credits
  imports Messages
begin

text \<open>
  The credits contract, \<open>contracts/credits\<close>: the non-transferable cNTRN token. The DAO mints cNTRN
  one to one against \<open>untrn\<close>, the airdrop contract hands it out together with a vesting
  schedule, and a holder burns what has vested for the same amount of \<open>untrn\<close>.

  The token itself is the \<open>cw20_base\<close> crate, which is not in this repository. It is the argument
  \<open>L\<close>, a record of the library's functions on an abstract token state \<open>'t\<close> with errors \<open>'e\<close>. What
  the contract relies on is the predicate \<open>cw20_laws\<close>: the documented effect of transfer, burn and
  mint on balances, supply and minter.
\<close>

subsection \<open>The token library\<close>

record cw20_token_info =
  token_name :: string
  token_symbol :: string
  token_decimals :: u8
  token_total_supply :: u128
  token_mint :: "(addr \<times> u128 option) option"   \<comment> \<open>minter and cap\<close>

record ('t, 'e) cw20_lib =
  token_balance :: "'t \<Rightarrow> addr \<Rightarrow> u128 option"             \<comment> \<open>\<open>BALANCES.may_load\<close>\<close>
  token_info :: "'t \<Rightarrow> cw20_token_info option"              \<comment> \<open>\<open>TOKEN_INFO.may_load\<close>\<close>
  token_balance_at :: "'t \<Rightarrow> addr \<Rightarrow> u64 \<Rightarrow> (std_error, u128 option) result"
  token_info_at :: "'t \<Rightarrow> u64 \<Rightarrow> (std_error, cw20_token_info option) result"
  token_save_info :: "cw20_token_info \<Rightarrow> u64 \<Rightarrow> 't \<Rightarrow> 't"  \<comment> \<open>\<open>TOKEN_INFO.save\<close>\<close>
  token_query_balance :: "'t \<Rightarrow> string \<Rightarrow> (std_error, u128) result"
  token_transfer :: "env \<Rightarrow> message_info \<Rightarrow> string \<Rightarrow> u128 \<Rightarrow> 't \<Rightarrow> ('e, 't \<times> msg list) result"
  token_burn :: "env \<Rightarrow> message_info \<Rightarrow> u128 \<Rightarrow> 't \<Rightarrow> ('e, 't \<times> msg list) result"
  token_mint_to :: "env \<Rightarrow> message_info \<Rightarrow> string \<Rightarrow> u128 \<Rightarrow> 't \<Rightarrow> ('e, 't \<times> msg list) result"

definition token_supply :: "('t, 'e) cw20_lib \<Rightarrow> 't \<Rightarrow> nat" where
  "token_supply L t = (case token_info L t of None \<Rightarrow> 0 | Some i \<Rightarrow> unat (token_total_supply i))"

definition token_minter :: "('t, 'e) cw20_lib \<Rightarrow> 't \<Rightarrow> addr option" where
  "token_minter L t =
     (case token_info L t of None \<Rightarrow> None | Some i \<Rightarrow> map_option fst (token_mint i))"

definition balance_of :: "('t, 'e) cw20_lib \<Rightarrow> 't \<Rightarrow> addr \<Rightarrow> nat" where
  "balance_of L t a = (case token_balance L t a of None \<Rightarrow> 0 | Some b \<Rightarrow> unat b)"

text \<open>The documented behaviour of \<open>cw20_base\<close>.\<close>

definition cw20_burn_law :: "('t, 'e) cw20_lib \<Rightarrow> bool" where
  "cw20_burn_law L \<longleftrightarrow> (\<forall>env info n t t' ms. token_burn L env info n t = Ok (t', ms) \<longrightarrow>
     ms = [] \<and> balance_of L t (sender info) = balance_of L t' (sender info) + unat n \<and>
     (\<forall>a. a \<noteq> sender info \<longrightarrow> token_balance L t' a = token_balance L t a) \<and>
     token_supply L t = token_supply L t' + unat n \<and> token_minter L t' = token_minter L t)"

definition cw20_mint_law :: "('t, 'e) cw20_lib \<Rightarrow> bool" where
  "cw20_mint_law L \<longleftrightarrow> (\<forall>env info r n t t' ms. token_mint_to L env info r n t = Ok (t', ms) \<longrightarrow>
     ms = [] \<and> token_minter L t = Some (sender info) \<and> token_minter L t' = token_minter L t \<and>
     balance_of L t' r = balance_of L t r + unat n \<and>
     (\<forall>a. a \<noteq> r \<longrightarrow> token_balance L t' a = token_balance L t a) \<and>
     token_supply L t' = token_supply L t + unat n)"

definition cw20_transfer_law :: "('t, 'e) cw20_lib \<Rightarrow> bool" where
  "cw20_transfer_law L \<longleftrightarrow> (\<forall>env info r n t t' ms. token_transfer L env info r n t = Ok (t', ms) \<longrightarrow>
     ms = [] \<and> unat n \<le> balance_of L t (sender info) \<and> token_minter L t' = token_minter L t \<and>
     token_supply L t' = token_supply L t \<and>
     (r \<noteq> sender info \<longrightarrow> balance_of L t' r = balance_of L t r + unat n \<and>
        balance_of L t (sender info) = balance_of L t' (sender info) + unat n) \<and>
     (\<forall>a. a \<noteq> r \<longrightarrow> a \<noteq> sender info \<longrightarrow> token_balance L t' a = token_balance L t a))"

definition cw20_laws :: "('t, 'e) cw20_lib \<Rightarrow> bool" where
  "cw20_laws L \<longleftrightarrow> cw20_burn_law L \<and> cw20_mint_law L \<and> cw20_transfer_law L \<and>
     (\<forall>i h t. token_info L (token_save_info L i h t) = Some i \<and>
        token_balance L (token_save_info L i h t) = token_balance L t)"

subsection \<open>Data\<close>

datatype 'e credits_error =
    CreditsStd std_error
  | CreditsUnauthorized
  | TooEarlyToClaim
  | NoFundsToClaim
  | IncorrectFundsSupplied
  | NoFundsSupplied
  | AirdropNotConfigured
  | LockdropNotConfigured
  | WhenWithdrawableIsNotConfigured
  | AlreadyVested string
  | Cw20Error 'e

record credits_config =
  dao_address :: addr
  airdrop_address :: "addr option"
  lockdrop_address :: "addr option"
  when_withdrawable :: "u64 option"

record credits_schedule =
  start_time :: u64
  cliff :: u64
  duration :: u64

record allocation =
  allocated_amount :: u128
  withdrawn_amount :: u128
  alloc_schedule :: credits_schedule

record 't credits =
  c_config :: "credits_config option"
  c_allocations :: "(addr, allocation) store"
  c_token :: 't

record credits_update_config_msg =
  cu_airdrop_address :: "string option"
  cu_lockdrop_address :: "string option"
  cu_when_withdrawable :: "u64 option"

datatype credits_execute_msg =
    CreditsUpdateConfig credits_update_config_msg
  | CreditsAddVesting string u128 u64 u64
  | CreditsTransfer string u128
  | CreditsWithdraw
  | CreditsBurn u128
  | CreditsBurnFrom string u128
  | CreditsMint

type_synonym ('t, 'e) credits_result = "('e credits_error, 't credits \<times> msg list) result"

definition vesting_cliff :: u64 where
  "vesting_cliff = 0"

definition deposited_symbol :: string where
  "deposited_symbol = ''untrn''"

subsection \<open>Operations\<close>

definition credits_instantiate ::
  "('t, 'e) cw20_lib \<Rightarrow> ('d) deps_scheme \<Rightarrow> env \<Rightarrow> string \<Rightarrow> 't credits
     \<Rightarrow> (std_error, 't credits \<times> msg list) result" where
  "credits_instantiate L d env dao s =
     and_then (addr_validate d dao) (\<lambda>dao.
     Ok (s\<lparr>c_config := Some \<lparr>dao_address = dao, airdrop_address = None, lockdrop_address = None,
                             when_withdrawable = None\<rparr>,
           c_token := token_save_info L
             \<lparr>token_name = ''cNTRN'', token_symbol = ''cNTRN'', token_decimals = 6,
              token_total_supply = 0, token_mint = Some (dao, None)\<rparr>
             (block_height env) (c_token s)\<rparr>, []))"

definition credits_load_config :: "'t credits \<Rightarrow> ('e credits_error, credits_config) result" where
  "credits_load_config s = load_item (c_config s) (CreditsStd (NotFound ''config''))"

definition credits_update_config ::
  "('d) deps_scheme \<Rightarrow> message_info \<Rightarrow> credits_update_config_msg \<Rightarrow> 't credits
     \<Rightarrow> ('t, 'e) credits_result" where
  "credits_update_config d info m s =
     and_then (credits_load_config s) (\<lambda>cfg.
     if sender info \<noteq> dao_address cfg then Err CreditsUnauthorized
     else
     and_then (update_if (cu_airdrop_address m) (\<lambda>a. map_err CreditsStd (addr_validate d a))
       (\<lambda>v c. c\<lparr>airdrop_address := Some v\<rparr>) cfg) (\<lambda>cfg.
     and_then (update_if (cu_lockdrop_address m) (\<lambda>a. map_err CreditsStd (addr_validate d a))
       (\<lambda>v c. c\<lparr>lockdrop_address := Some v\<rparr>) cfg) (\<lambda>cfg.
     and_then (update_if (cu_when_withdrawable m) Ok (\<lambda>v c. c\<lparr>when_withdrawable := Some v\<rparr>) cfg) (\<lambda>cfg.
     Ok (s\<lparr>c_config := Some cfg\<rparr>, [])))))"

definition credits_add_vesting ::
  "('t, 'e) cw20_lib \<Rightarrow> ('d) deps_scheme \<Rightarrow> message_info \<Rightarrow> string \<Rightarrow> u128 \<Rightarrow> u64 \<Rightarrow> u64 \<Rightarrow> 't credits
     \<Rightarrow> ('t, 'e) credits_result" where
  "credits_add_vesting L d info address amount start dur s =
     and_then (credits_load_config s) (\<lambda>cfg.
     and_then (ok_or (airdrop_address cfg) AirdropNotConfigured) (\<lambda>airdrop.
     if sender info \<noteq> airdrop then Err CreditsUnauthorized
     else
     and_then (map_err CreditsStd (token_query_balance L (c_token s) address)) (\<lambda>user_balance.
     if user_balance < amount then Err NoFundsSupplied
     else
     and_then (map_err CreditsStd (addr_validate d address)) (\<lambda>vested_to.
     case may_load (c_allocations s) vested_to of
       Some _ \<Rightarrow> Err (AlreadyVested address)
     | None \<Rightarrow>
         Ok (s\<lparr>c_allocations := save vested_to
                 \<lparr>allocated_amount = amount, withdrawn_amount = 0,
                  alloc_schedule = \<lparr>start_time = start, cliff = vesting_cliff, duration = dur\<rparr>\<rparr>
                 (c_allocations s)\<rparr>, [])))))"

text \<open>A result of the library: its new token state and messages in the contract's state.\<close>

definition with_token ::
  "'t credits \<Rightarrow> ('e, 't \<times> msg list) result \<Rightarrow> ('t, 'e) credits_result" where
  "with_token s r = map_err Cw20Error (map_ok (\<lambda>(t, ms). (s\<lparr>c_token := t\<rparr>, ms)) r)"

definition credits_transfer ::
  "('t, 'e) cw20_lib \<Rightarrow> env \<Rightarrow> message_info \<Rightarrow> string \<Rightarrow> u128 \<Rightarrow> 't credits \<Rightarrow> ('t, 'e) credits_result" where
  "credits_transfer L env info recipient amount s =
     and_then (credits_load_config s) (\<lambda>cfg.
     and_then (ok_or (airdrop_address cfg) AirdropNotConfigured) (\<lambda>airdrop.
     if sender info \<noteq> airdrop then Err CreditsUnauthorized
     else with_token s (token_transfer L env info recipient amount (c_token s))))"

definition burn_and_send ::
  "('t, 'e) cw20_lib \<Rightarrow> env \<Rightarrow> message_info \<Rightarrow> u128 \<Rightarrow> 't credits \<Rightarrow> ('t, 'e) credits_result" where
  "burn_and_send L env info amount s =
     and_then (with_token s (token_burn L env info amount (c_token s))) (\<lambda>(s, ms).
     Ok (s, ms @ [BankSend (sender info)
                    [\<lparr>coin_denom = deposited_symbol, coin_amount = amount\<rparr>]]))"

definition compute_withdrawable_amount ::
  "u128 \<Rightarrow> u128 \<Rightarrow> credits_schedule \<Rightarrow> u64 \<Rightarrow> (std_error, u128) result" where
  "compute_withdrawable_amount allocated withdrawn' sch now =
     and_then (add_panic (start_time sch) (cliff sch)) (\<lambda>cliff_end.
     and_then (if now < cliff_end then Ok 0
       else
       and_then (add_panic (start_time sch) (duration sch)) (\<lambda>vesting_end.
       if now < vesting_end then
         and_then (sub_panic now (start_time sch)) (\<lambda>passed.
         multiply_ratio allocated (unat passed) (unat (duration sch)))
       else Ok allocated)) (\<lambda>vested.
     checked_sub vested withdrawn'))"

definition credits_withdraw ::
  "('t, 'e) cw20_lib \<Rightarrow> env \<Rightarrow> message_info \<Rightarrow> 't credits \<Rightarrow> ('t, 'e) credits_result" where
  "credits_withdraw L env info s =
     and_then (credits_load_config s) (\<lambda>cfg.
     and_then (ok_or (when_withdrawable cfg) WhenWithdrawableIsNotConfigured) (\<lambda>when.
     if block_time env < when then Err TooEarlyToClaim
     else
     and_then (ok_or (may_load (c_allocations s) (sender info)) (CreditsStd (NotFound ''allocations'')))
       (\<lambda>al.
     and_then (map_err CreditsStd (compute_withdrawable_amount (allocated_amount al)
       (withdrawn_amount al) (alloc_schedule al) (block_time env))) (\<lambda>max_withdrawable.
     if max_withdrawable = 0 then Err NoFundsToClaim
     else
     and_then (ok_or (token_balance L (c_token s) (sender info)) (CreditsStd (NotFound ''balance'')))
       (\<lambda>actual_balance.
     let to_withdraw = min max_withdrawable actual_balance in
     if to_withdraw = 0 then Err NoFundsToClaim
     else
     and_then (add_panic (withdrawn_amount al) to_withdraw) (\<lambda>w.
     burn_and_send L env info to_withdraw
       (s\<lparr>c_allocations := save (sender info) (al\<lparr>withdrawn_amount := w\<rparr>) (c_allocations s)\<rparr>)))))))"

definition credits_burn ::
  "('t, 'e) cw20_lib \<Rightarrow> env \<Rightarrow> message_info \<Rightarrow> u128 \<Rightarrow> 't credits \<Rightarrow> ('t, 'e) credits_result" where
  "credits_burn L env info amount s =
     and_then (credits_load_config s) (\<lambda>cfg.
     and_then (ok_or (airdrop_address cfg) AirdropNotConfigured) (\<lambda>airdrop.
     if sender info \<noteq> airdrop then Err CreditsUnauthorized
     else burn_and_send L env info amount s))"

text \<open>The caller is replaced by the owner, whose tokens are burned and who gets the coins.\<close>

definition credits_burn_from ::
  "('t, 'e) cw20_lib \<Rightarrow> ('d) deps_scheme \<Rightarrow> env \<Rightarrow> message_info \<Rightarrow> string \<Rightarrow> u128 \<Rightarrow> 't credits
     \<Rightarrow> ('t, 'e) credits_result" where
  "credits_burn_from L d env info owner amount s =
     and_then (credits_load_config s) (\<lambda>cfg.
     and_then (ok_or (lockdrop_address cfg) LockdropNotConfigured) (\<lambda>lockdrop.
     if sender info \<noteq> lockdrop then Err CreditsUnauthorized
     else
     and_then (map_err CreditsStd (addr_validate d owner)) (\<lambda>owner.
     burn_and_send L env (info\<lparr>sender := owner\<rparr>) amount s)))"

definition try_find_untrns :: "coin list \<Rightarrow> ('e credits_error, u128) result" where
  "try_find_untrns coins =
     (case coins of
        [] \<Rightarrow> Err NoFundsSupplied
      | token # _ \<Rightarrow>
          if coin_denom token \<noteq> deposited_symbol then Err IncorrectFundsSupplied
          else Ok (coin_amount token))"

definition credits_mint ::
  "('t, 'e) cw20_lib \<Rightarrow> env \<Rightarrow> message_info \<Rightarrow> 't credits \<Rightarrow> ('t, 'e) credits_result" where
  "credits_mint L env info s =
     and_then (try_find_untrns (funds info)) (\<lambda>untrn_amount.
     and_then (credits_load_config s) (\<lambda>cfg.
     and_then (ok_or (airdrop_address cfg) AirdropNotConfigured) (\<lambda>recipient.
     with_token s (token_mint_to L env info recipient untrn_amount (c_token s)))))"

primrec credits_execute ::
  "('t, 'e) cw20_lib \<Rightarrow> ('d) deps_scheme \<Rightarrow> env \<Rightarrow> message_info \<Rightarrow> credits_execute_msg \<Rightarrow> 't credits
     \<Rightarrow> ('t, 'e) credits_result" where
  "credits_execute L d env info (CreditsUpdateConfig m) s = credits_update_config d info m s"
| "credits_execute L d env info (CreditsAddVesting a n start dur) s =
     credits_add_vesting L d info a n start dur s"
| "credits_execute L d env info (CreditsTransfer r n) s = credits_transfer L env info r n s"
| "credits_execute L d env info CreditsWithdraw s = credits_withdraw L env info s"
| "credits_execute L d env info (CreditsBurn n) s = credits_burn L env info n s"
| "credits_execute L d env info (CreditsBurnFrom owner n) s =
     credits_burn_from L d env info owner n s"
| "credits_execute L d env info CreditsMint s = credits_mint L env info s"

subsection \<open>Queries\<close>

definition query_total_supply_at_height ::
  "('t, 'e) cw20_lib \<Rightarrow> u64 option \<Rightarrow> 't credits \<Rightarrow> (std_error, u128) result" where
  "query_total_supply_at_height L height s =
     and_then (case height of
         Some h \<Rightarrow> token_info_at L (c_token s) h
       | None \<Rightarrow> Ok (token_info L (c_token s))) (\<lambda>i.
     Ok (unwrap_or (map_option token_total_supply i) 0))"

definition query_balance_at_height ::
  "('t, 'e) cw20_lib \<Rightarrow> ('d) deps_scheme \<Rightarrow> string \<Rightarrow> u64 option \<Rightarrow> 't credits \<Rightarrow> (std_error, u128) result" where
  "query_balance_at_height L d address height s =
     and_then (addr_validate d address) (\<lambda>a.
     and_then (case height of
         Some h \<Rightarrow> token_balance_at L (c_token s) a h
       | None \<Rightarrow> Ok (token_balance L (c_token s) a)) (\<lambda>b.
     Ok (unwrap_or b 0)))"

definition query_allocation :: "('d) deps_scheme \<Rightarrow> string \<Rightarrow> 't credits \<Rightarrow> (std_error, allocation) result" where
  "query_allocation d address s =
     and_then (addr_validate d address) (\<lambda>owner.
     ok_or (may_load (c_allocations s) owner) (NotFound ''allocations''))"

definition query_withdrawable_amount ::
  "('t, 'e) cw20_lib \<Rightarrow> ('d) deps_scheme \<Rightarrow> env \<Rightarrow> string \<Rightarrow> 't credits \<Rightarrow> (std_error, u128) result" where
  "query_withdrawable_amount L d env address s =
     and_then (addr_validate d address) (\<lambda>owner.
     and_then (ok_or (may_load (c_allocations s) owner) (NotFound ''allocations'')) (\<lambda>al.
     and_then (compute_withdrawable_amount (allocated_amount al) (withdrawn_amount al)
       (alloc_schedule al) (block_time env)) (\<lambda>max_withdrawable.
     and_then (ok_or (token_balance L (c_token s) owner) (GenericErr ''No balance'')) (\<lambda>actual_balance.
     Ok (min max_withdrawable actual_balance)))))"

definition query_vested_amount ::
  "('t, 'e) cw20_lib \<Rightarrow> ('d) deps_scheme \<Rightarrow> env \<Rightarrow> string \<Rightarrow> 't credits \<Rightarrow> (std_error, u128) result" where
  "query_vested_amount L d env address s =
     and_then (addr_validate d address) (\<lambda>owner.
     and_then (ok_or (may_load (c_allocations s) owner) (NotFound ''allocations'')) (\<lambda>al.
     and_then (compute_withdrawable_amount (allocated_amount al) (withdrawn_amount al)
       (alloc_schedule al) (block_time env)) (\<lambda>max_withdrawable.
     and_then (ok_or (token_balance L (c_token s) owner) (NotFound ''balance'')) (\<lambda>actual_balance.
     sub_panic actual_balance (min max_withdrawable actual_balance)))))"

end
