(* ===== verification/Credits_Properties.thy ===== *)
theory Credits_Properties
  imports Credits
begin

text \<open>
  The properties of the credits contract: the vesting formula and its invariant, the one-to-one
  backing of the token by the coins the contract holds, and who can move a balance.
\<close>

subsection \<open>The vesting formula\<close>

text \<open>What has vested at a time: nothing before the cliff, a linear part of the allocation until
  the end, then all of it. This is the contract's promise; \<open>compute_withdrawable_amount\<close> is its
  implementation on bounded integers.\<close>

definition vested_at :: "allocation \<Rightarrow> nat \<Rightarrow> nat" where
  "vested_at al t =
     (let start = unat (start_time (alloc_schedule al)); dur = unat (duration (alloc_schedule al));
          n = unat (allocated_amount al)
      in if t < start + unat (cliff (alloc_schedule al)) then 0
         else if t < start + dur then n * (t - start) div dur
         else n)"

lemma vested_at_le: "vested_at al t \<le> unat (allocated_amount al)"
proof -
  have "n * k div d \<le> n" if "k < d" for n k d :: nat
  proof -
    have "n * k div d \<le> n * d div d" using that by (intro div_le_mono mult_le_mono2) simp
    then show ?thesis using that by simp
  qed
  then show ?thesis by (auto simp: vested_at_def Let_def)
qed

lemma vested_at_mono:
  assumes "t \<le> t'"
  shows "vested_at al t \<le> vested_at al t'"
proof -
  let ?start = "unat (start_time (alloc_schedule al))" and ?dur = "unat (duration (alloc_schedule al))"
  show ?thesis
  proof (cases "t' < ?start + ?dur")
    case True
    then show ?thesis using assms
      by (auto simp: vested_at_def Let_def intro!: div_le_mono mult_le_mono2)
  next
    case False
    then have "vested_at al t' = (if t' < ?start + unat (cliff (alloc_schedule al)) then 0
        else unat (allocated_amount al))" by (simp add: vested_at_def Let_def)
    then show ?thesis using vested_at_le [of al t] assms
      by (auto simp: vested_at_def Let_def)
  qed
qed

lemma compute_withdrawable_Ok:
  assumes "compute_withdrawable_amount (allocated_amount al) w (alloc_schedule al) now = Ok n"
  shows "vested_at al (unat now) = unat n + unat w"
  using assms unfolding compute_withdrawable_amount_def
  by (auto simp: vested_at_def Let_def word_less_nat_alt split: if_split_asm)

lemma compute_withdrawable_total:
  assumes "unat w \<le> vested_at al (unat now)"
    and "unat (start_time (alloc_schedule al)) + unat (cliff (alloc_schedule al)) < 2 ^ 64"
    and "unat (start_time (alloc_schedule al)) + unat (duration (alloc_schedule al)) < 2 ^ 64"
  shows "\<exists>n. compute_withdrawable_amount (allocated_amount al) w (alloc_schedule al) now = Ok n"
proof -
  let ?sch = "alloc_schedule al"
  obtain ce :: u64 where ce: "unat ce = unat (start_time ?sch) + unat (cliff ?sch)"
    using word_of_nat_ex [where 'a = 64] assms(2) by fastforce
  obtain ve :: u64 where ve: "unat ve = unat (start_time ?sch) + unat (duration ?sch)"
    using word_of_nat_ex [where 'a = 64] assms(3) by fastforce
  have c: "add_panic (start_time ?sch) (cliff ?sch) = Ok ce" "add_panic (start_time ?sch) (duration ?sch) = Ok ve"
    using ce ve by simp_all
  consider "now < ce" | "ce \<le> now" "now < ve" | "ce \<le> now" "ve \<le> now" by fastforce
  then show ?thesis
  proof cases
    case 1
    then have "vested_at al (unat now) = 0" using ce by (simp add: vested_at_def Let_def word_less_nat_alt)
    then have "checked_sub 0 w = Ok 0" using assms(1) by (simp add: unat_eq_0)
    then have "compute_withdrawable_amount (allocated_amount al) w ?sch now = Ok 0"
      using 1 by (simp only: compute_withdrawable_amount_def c and_then.simps if_True)
    then show ?thesis by blast
  next
    case 2
    have ge: "unat (start_time ?sch) \<le> unat now" using 2(1) ce by (simp add: word_le_nat_alt)
    have p: "sub_panic now (start_time ?sch) = Ok (now - start_time ?sch)"
      using ge by (simp add: sub_panic_def del: sub_panic_Ok_iff)
    have up: "unat (now - start_time ?sch) = unat now - unat (start_time ?sch)"
      using ge by (simp add: unat_sub word_le_nat_alt)
    have lt: "unat (now - start_time ?sch) < unat (duration ?sch)"
      using 2(2) ve up ge by (simp add: word_less_nat_alt)
    have m: "multiply_ratio (allocated_amount al) (unat (now - start_time ?sch)) (unat (duration ?sch))
        = Ok (of_nat (unat (allocated_amount al) * unat (now - start_time ?sch) div unat (duration ?sch)))"
      (is "_ = Ok ?v") using lt by (intro multiply_ratio_total) auto
    have "unat ?v = vested_at al (unat now)"
      using multiply_ratio_Ok_iff [THEN iffD1, OF m] 2 ce ve up
      by (simp add: vested_at_def Let_def word_less_nat_alt word_le_nat_alt)
    then have "\<exists>n. checked_sub ?v w = Ok n"
      using assms(1) by (simp add: checked_sub_def del: checked_sub_Ok_iff)
    then show ?thesis using 2 by (auto simp: compute_withdrawable_amount_def c p m)
  next
    case 3
    then have "vested_at al (unat now) = unat (allocated_amount al)"
      using ce ve by (simp add: vested_at_def Let_def word_le_nat_alt)
    then have "\<exists>n. checked_sub (allocated_amount al) w = Ok n"
      using assms(1) by (simp add: checked_sub_def del: checked_sub_Ok_iff)
    then show ?thesis using 3 by (auto simp: compute_withdrawable_amount_def c)
  qed
qed

subsection \<open>Inversion of the handlers\<close>

lemma with_token_Ok:
  "with_token s r = Ok (s', ms) \<longleftrightarrow> (\<exists>t. r = Ok (t, ms) \<and> s' = s\<lparr>c_token := t\<rparr>)"
  by (auto simp: with_token_def)

lemma burn_and_send_Ok:
  assumes "burn_and_send L env info n s = Ok (s', ms)" and "cw20_laws L"
  shows "ms = [BankSend (sender info) [\<lparr>coin_denom = ''untrn'', coin_amount = n\<rparr>]] \<and>
    c_config s' = c_config s \<and> c_allocations s' = c_allocations s \<and>
    balance_of L (c_token s) (sender info) = balance_of L (c_token s') (sender info) + unat n \<and>
    (\<forall>a. a \<noteq> sender info \<longrightarrow> token_balance L (c_token s') a = token_balance L (c_token s) a) \<and>
    token_supply L (c_token s) = token_supply L (c_token s') + unat n \<and>
    token_minter L (c_token s') = token_minter L (c_token s)"
  using assms unfolding burn_and_send_def cw20_laws_def cw20_burn_law_def
  by (auto simp: with_token_Ok deposited_symbol_def)

lemma credits_withdraw_inversion:
  assumes "credits_withdraw L env info s = Ok (s', ms)"
  obtains cfg from_time al m b w where
    "c_config s = Some cfg" "when_withdrawable cfg = Some from_time" "from_time \<le> block_time env"
    "map_of (c_allocations s) (sender info) = Some al"
    "compute_withdrawable_amount (allocated_amount al) (withdrawn_amount al) (alloc_schedule al)
       (block_time env) = Ok m"
    "token_balance L (c_token s) (sender info) = Some b" "min m b \<noteq> 0"
    "unat w = unat (withdrawn_amount al) + unat (min m b)"
    "burn_and_send L env info (min m b) (s\<lparr>c_allocations :=
       save (sender info) (al\<lparr>withdrawn_amount := w\<rparr>) (c_allocations s)\<rparr>) = Ok (s', ms)"
  using assms unfolding credits_withdraw_def credits_load_config_def
  by (clarsimp simp: Let_def not_less)

lemma credits_add_vesting_inversion:
  assumes "credits_add_vesting L d info address n start dur s = Ok (s', ms)"
  obtains cfg a where
    "c_config s = Some cfg" "airdrop_address cfg = Some (sender info)"
    "addr_validate d address = Ok a" "map_of (c_allocations s) a = None"
    "s' = s\<lparr>c_allocations := save a \<lparr>allocated_amount = n, withdrawn_amount = 0,
       alloc_schedule = \<lparr>start_time = start, cliff = 0, duration = dur\<rparr>\<rparr> (c_allocations s)\<rparr>"
    "ms = []"
  using assms unfolding credits_add_vesting_def credits_load_config_def
  by (clarsimp simp: vesting_cliff_def split: option.splits)

subsection \<open>Allocations\<close>

definition allocations_ok :: "nat \<Rightarrow> 't credits \<Rightarrow> bool" where
  "allocations_ok t s \<longleftrightarrow> (\<forall>a al. map_of (c_allocations s) a = Some al \<longrightarrow>
     unat (withdrawn_amount al) \<le> vested_at al t \<and> cliff (alloc_schedule al) = 0)"

lemma allocations_ok_later: "allocations_ok t s \<Longrightarrow> t \<le> t' \<Longrightarrow> allocations_ok t' s"
  unfolding allocations_ok_def by (meson le_trans vested_at_mono)

lemma credits_allocations_frame:
  assumes "credits_execute L d env info m s = Ok (s', ms)" and "cw20_laws L"
    and "m \<noteq> CreditsWithdraw" and "\<And>a n start dur. m \<noteq> CreditsAddVesting a n start dur"
  shows "c_allocations s' = c_allocations s"
  using assms
  by (cases m)
    (auto simp: credits_update_config_def credits_transfer_def credits_burn_def credits_burn_from_def
      credits_mint_def with_token_Ok dest!: burn_and_send_Ok)

lemma allocations_ok_step:
  assumes "credits_execute L d env info m s = Ok (s', ms)" and "cw20_laws L"
    and "allocations_ok (unat (block_time env)) s"
  shows "allocations_ok (unat (block_time env)) s'"
proof (cases "m = CreditsWithdraw")
  case True
  then have "credits_withdraw L env info s = Ok (s', ms)" using assms(1) by simp
  then show ?thesis
  proof (rule credits_withdraw_inversion)
    fix al n b w
    assume al: "map_of (c_allocations s) (sender info) = Some al"
      and n: "compute_withdrawable_amount (allocated_amount al) (withdrawn_amount al) (alloc_schedule al)
        (block_time env) = Ok n"
      and w: "unat w = unat (withdrawn_amount al) + unat (min n b)"
      and bs: "burn_and_send L env info (min n b) (s\<lparr>c_allocations :=
       save (sender info) (al\<lparr>withdrawn_amount := w\<rparr>) (c_allocations s)\<rparr>) = Ok (s', ms)"
    have "unat (min n b) \<le> unat n" by (simp add: min_def word_le_nat_alt)
    then have le: "unat w \<le> vested_at al (unat (block_time env))"
      using compute_withdrawable_Ok [OF n] w by simp
    have "vested_at (al\<lparr>withdrawn_amount := w\<rparr>) t = vested_at al t" for t by (simp add: vested_at_def)
    with le burn_and_send_Ok [OF bs assms(2)] assms(3) al show ?thesis
      by (auto simp: allocations_ok_def map_of_save)
  qed
next
  case False
  show ?thesis
  proof (cases "\<exists>a n start dur. m = CreditsAddVesting a n start dur")
    case True
    then obtain a n start dur where "credits_add_vesting L d info a n start dur s = Ok (s', ms)"
      using assms(1) by auto
    then show ?thesis
      by (rule credits_add_vesting_inversion)
        (use assms(3) in \<open>auto simp: allocations_ok_def map_of_save\<close>)
  next
    case F: False
    show ?thesis
      using credits_allocations_frame [OF assms(1,2) False] F assms(3)
      by (simp add: allocations_ok_def)
  qed
qed

lemma credits_store_ok:
  assumes "credits_execute L d env info m s = Ok (s', ms)" and "cw20_laws L"
    and "store_ok (c_allocations s)"
  shows "store_ok (c_allocations s')"
proof (cases m)
  case CreditsWithdraw
  then have "credits_withdraw L env info s = Ok (s', ms)" using assms(1) by simp
  then show ?thesis
    by (rule credits_withdraw_inversion) (use assms in \<open>auto dest!: burn_and_send_Ok simp: store_ok_save\<close>)
next
  case (CreditsAddVesting a n start dur)
  then have "credits_add_vesting L d info a n start dur s = Ok (s', ms)" using assms(1) by simp
  then show ?thesis
    by (rule credits_add_vesting_inversion) (use assms(3) in \<open>simp add: store_ok_save\<close>)
qed (use credits_allocations_frame [OF assms(1,2)] assms(3) in auto)

subsection \<open>Reachable states\<close>

text \<open>The states of a deployed contract, with the time of the last block and the \<open>untrn\<close> that the
  contract's account holds: the funds of the calls come in, what the responses send goes out, and
  anyone may send coins to the account.\<close>

inductive credits_reachable :: "('t, 'e) cw20_lib \<Rightarrow> deps \<Rightarrow> u64 \<Rightarrow> nat \<Rightarrow> 't credits \<Rightarrow> bool"
  for L d where
  start: "credits_instantiate L d env dao \<lparr>c_config = None, c_allocations = [], c_token = t0\<rparr> = Ok (s, ms) \<Longrightarrow>
     credits_reachable L d (block_time env) 0 s"
| call: "credits_reachable L d t held s \<Longrightarrow> t \<le> block_time env \<Longrightarrow>
     credits_execute L d env info m s = Ok (s', ms) \<Longrightarrow>
     credits_reachable L d (block_time env)
       (held + coins_total ''untrn'' (funds info) - outflow ''untrn'' ms) s'"
| gift: "credits_reachable L d t held s \<Longrightarrow> credits_reachable L d t (held + n) s"

text \<open>Every call changes the supply by what it takes in and pays out.\<close>

lemma credits_supply_step:
  assumes "credits_execute L d env info m s = Ok (s', ms)" and "cw20_laws L"
  shows "token_supply L (c_token s') + outflow ''untrn'' ms
    \<le> token_supply L (c_token s) + coins_total ''untrn'' (funds info)"
proof -
  have bs: "token_supply L (c_token s') + outflow ''untrn'' ms = token_supply L (c_token s0)"
    if "burn_and_send L env i n s0 = Ok (s', ms)" for i n s0
    using burn_and_send_Ok [OF that assms(2)] by simp
  have laws: "cw20_transfer_law L" "cw20_mint_law L" using assms(2) by (simp_all add: cw20_laws_def)
  show ?thesis
  proof (cases m)
    case CreditsWithdraw
    then have "credits_withdraw L env info s = Ok (s', ms)" using assms(1) by simp
    then show ?thesis by (rule credits_withdraw_inversion) (auto dest!: bs)
  next
    case (CreditsTransfer r n)
    then show ?thesis using assms(1) laws(1) unfolding cw20_transfer_law_def
      by (fastforce simp: credits_transfer_def with_token_Ok)
  next
    case CreditsMint
    then show ?thesis using assms(1) laws(2) unfolding cw20_mint_law_def
      by (fastforce simp: credits_mint_def with_token_Ok try_find_untrns_def deposited_symbol_def
          split: list.splits if_splits)
  qed (use assms(1) in \<open>auto simp: credits_update_config_def credits_burn_def credits_burn_from_def
        dest!: bs elim!: credits_add_vesting_inversion\<close>)
qed

lemma credits_reachable_inv:
  assumes "credits_reachable L d t held s" and "cw20_laws L"
  shows "token_supply L (c_token s) \<le> held \<and> allocations_ok (unat t) s \<and> store_ok (c_allocations s)"
  using assms(1)
proof (induction rule: credits_reachable.induct)
  case (start env dao t0 s ms)
  then show ?case using assms(2)
    by (auto simp: credits_instantiate_def cw20_laws_def token_supply_def allocations_ok_def)
next
  case (call t held s env info m s' ms)
  have "allocations_ok (unat (block_time env)) s"
    using call by (auto simp: word_le_nat_alt intro: allocations_ok_later)
  then have "allocations_ok (unat (block_time env)) s'"
    by (rule allocations_ok_step [OF call(3) assms(2)])
  moreover have "store_ok (c_allocations s')"
    using credits_store_ok [OF call(3) assms(2)] call.IH by simp
  ultimately show ?case
    using credits_supply_step [OF call(3) assms(2)] call.IH by linarith
qed auto

subsection \<open>A token library that satisfies the laws\<close>

record simple_token =
  st_balances :: "(addr, u128) store"
  st_info :: "cw20_token_info option"

definition st_balance :: "simple_token \<Rightarrow> addr \<Rightarrow> u128" where
  "st_balance t a = unwrap_or (may_load (st_balances t) a) 0"

definition st_burn :: "env \<Rightarrow> message_info \<Rightarrow> u128 \<Rightarrow> simple_token \<Rightarrow> (std_error, simple_token \<times> msg list) result" where
  "st_burn env info n t =
     and_then (ok_or (st_info t) (NotFound ''token_info'')) (\<lambda>i.
     and_then (checked_sub (st_balance t (sender info)) n) (\<lambda>b.
     and_then (checked_sub (token_total_supply i) n) (\<lambda>sup.
     Ok (t\<lparr>st_balances := save (sender info) b (st_balances t),
           st_info := Some (i\<lparr>token_total_supply := sup\<rparr>)\<rparr>, []))))"

definition st_mint :: "env \<Rightarrow> message_info \<Rightarrow> string \<Rightarrow> u128 \<Rightarrow> simple_token \<Rightarrow> (std_error, simple_token \<times> msg list) result" where
  "st_mint env info r n t =
     and_then (ok_or (st_info t) (NotFound ''token_info'')) (\<lambda>i.
     if map_option fst (token_mint i) \<noteq> Some (sender info) then Err (GenericErr ''Unauthorized'')
     else
     and_then (checked_add (token_total_supply i) n) (\<lambda>sup.
     and_then (checked_add (st_balance t r) n) (\<lambda>b.
     Ok (t\<lparr>st_balances := save r b (st_balances t),
           st_info := Some (i\<lparr>token_total_supply := sup\<rparr>)\<rparr>, []))))"

definition st_transfer :: "env \<Rightarrow> message_info \<Rightarrow> string \<Rightarrow> u128 \<Rightarrow> simple_token \<Rightarrow> (std_error, simple_token \<times> msg list) result" where
  "st_transfer env info r n t =
     and_then (checked_sub (st_balance t (sender info)) n) (\<lambda>b.
     let t = t\<lparr>st_balances := save (sender info) b (st_balances t)\<rparr> in
     and_then (checked_add (st_balance t r) n) (\<lambda>b.
     Ok (t\<lparr>st_balances := save r b (st_balances t)\<rparr>, [])))"

definition simple_cw20 :: "(simple_token, std_error) cw20_lib" where
  "simple_cw20 =
     \<lparr>token_balance = (\<lambda>t a. may_load (st_balances t) a), token_info = st_info,
      token_balance_at = (\<lambda>t a h. Ok (may_load (st_balances t) a)),
      token_info_at = (\<lambda>t h. Ok (st_info t)),
      token_save_info = (\<lambda>i h t. t\<lparr>st_info := Some i\<rparr>),
      token_query_balance = (\<lambda>t a. Ok (st_balance t a)),
      token_transfer = st_transfer, token_burn = st_burn, token_mint_to = st_mint\<rparr>"

lemma simple_cw20_laws: "cw20_laws simple_cw20"
proof -
  have b: "balance_of simple_cw20 t a = unat (st_balance t a)" for t a
    by (simp add: balance_of_def simple_cw20_def st_balance_def split: option.split)
  have "cw20_burn_law simple_cw20"
    unfolding cw20_burn_law_def b
    by (auto simp: simple_cw20_def st_burn_def st_balance_def map_of_save token_supply_def token_minter_def)
  moreover have "cw20_mint_law simple_cw20"
    unfolding cw20_mint_law_def b
    by (auto simp: simple_cw20_def st_mint_def st_balance_def map_of_save token_supply_def token_minter_def)
  moreover have "cw20_transfer_law simple_cw20"
    unfolding cw20_transfer_law_def b
  proof (intro allI impI)
    fix env info r n t t' ms
    assume "token_transfer simple_cw20 env info r n t = Ok (t', ms)"
    then show "ms = [] \<and> unat n \<le> unat (st_balance t (sender info)) \<and>
        token_minter simple_cw20 t' = token_minter simple_cw20 t \<and>
        token_supply simple_cw20 t' = token_supply simple_cw20 t \<and>
        (r \<noteq> sender info \<longrightarrow> unat (st_balance t' r) = unat (st_balance t r) + unat n \<and>
           unat (st_balance t (sender info)) = unat (st_balance t' (sender info)) + unat n) \<and>
        (\<forall>a. a \<noteq> r \<longrightarrow> a \<noteq> sender info \<longrightarrow>
           token_balance simple_cw20 t' a = token_balance simple_cw20 t a)"
      by (cases "r = sender info")
        (auto simp: simple_cw20_def st_transfer_def st_balance_def map_of_save token_supply_def
          token_minter_def Let_def)
  qed
  ultimately show ?thesis by (simp add: cw20_laws_def simple_cw20_def)
qed

subsection \<open>A run of the credits contract\<close>

definition cr_deps :: deps where
  "cr_deps = \<lparr>addr_validate = Ok, bank_balance = (\<lambda>a d. Ok 0), cw20_balance = (\<lambda>c a. Ok 0)\<rparr>"

definition cr_env :: "u64 \<Rightarrow> env" where
  "cr_env t = \<lparr>block_time = t, block_height = 1, this_contract = ''credits''\<rparr>"

definition cr_call :: "addr \<Rightarrow> coin list \<Rightarrow> message_info" where
  "cr_call a cs = \<lparr>sender = a, funds = cs\<rparr>"

definition cr_config :: credits_config where
  "cr_config = \<lparr>dao_address = ''dao'', airdrop_address = Some ''airdrop'',
     lockdrop_address = Some ''lockdrop'', when_withdrawable = Some 100\<rparr>"

definition cr_token :: "(addr, u128) store \<Rightarrow> u128 \<Rightarrow> simple_token" where
  "cr_token bs n = \<lparr>st_balances = bs, st_info = Some \<lparr>token_name = ''cNTRN'', token_symbol = ''cNTRN'',
     token_decimals = 6, token_total_supply = n, token_mint = Some (''dao'', None)\<rparr>\<rparr>"

definition cr_alloc :: "u128 \<Rightarrow> allocation" where
  "cr_alloc w = \<lparr>allocated_amount = 1000, withdrawn_amount = w,
     alloc_schedule = \<lparr>start_time = 200, cliff = 0, duration = 400\<rparr>\<rparr>"

definition cr_fresh :: "simple_token credits" where
  "cr_fresh = \<lparr>c_config = Some \<lparr>dao_address = ''dao'', airdrop_address = None, lockdrop_address = None,
     when_withdrawable = None\<rparr>, c_allocations = [], c_token = cr_token [] 0\<rparr>"

definition cr_ready :: "simple_token credits" where
  "cr_ready = \<lparr>c_config = Some cr_config, c_allocations = [], c_token = cr_token [] 0\<rparr>"

definition cr_minted :: "simple_token credits" where
  "cr_minted = cr_ready\<lparr>c_token := cr_token [(''airdrop'', 5000)] 5000\<rparr>"

definition cr_moved :: "simple_token credits" where
  "cr_moved = cr_ready\<lparr>c_token := cr_token [(''airdrop'', 4000), (''alice'', 1000)] 5000\<rparr>"

definition cr_vesting :: "simple_token credits" where
  "cr_vesting = cr_moved\<lparr>c_allocations := [(''alice'', cr_alloc 0)]\<rparr>"

definition cr_paid :: "simple_token credits" where
  "cr_paid = \<lparr>c_config = Some cr_config, c_allocations = [(''alice'', cr_alloc 250)],
     c_token = cr_token [(''airdrop'', 4000), (''alice'', 750)] 4750\<rparr>"

lemmas cr_defs = cr_deps_def cr_env_def cr_call_def cr_config_def cr_token_def cr_alloc_def cr_fresh_def
  cr_ready_def cr_minted_def cr_moved_def cr_vesting_def cr_paid_def simple_cw20_def st_burn_def
  st_mint_def st_transfer_def st_balance_def

lemmas credits_ops = credits_instantiate_def credits_load_config_def credits_update_config_def
  credits_add_vesting_def with_token_def credits_transfer_def burn_and_send_def
  compute_withdrawable_amount_def credits_withdraw_def credits_burn_def credits_burn_from_def
  try_find_untrns_def credits_mint_def deposited_symbol_def vesting_cliff_def update_if_def

lemma cr_step_start:
  "credits_instantiate simple_cw20 cr_deps (cr_env 10) ''dao''
     \<lparr>c_config = None, c_allocations = [], c_token = \<lparr>st_balances = [], st_info = None\<rparr>\<rparr> = Ok (cr_fresh, [])"
  by (simp add: credits_ops cr_defs)

lemma cr_step_ready:
  "credits_execute simple_cw20 cr_deps (cr_env 20) (cr_call ''dao'' [])
     (CreditsUpdateConfig \<lparr>cu_airdrop_address = Some ''airdrop'', cu_lockdrop_address = Some ''lockdrop'',
        cu_when_withdrawable = Some 100\<rparr>) cr_fresh = Ok (cr_ready, [])"
  by (simp add: credits_ops cr_defs)

lemma cr_step_minted:
  "credits_execute simple_cw20 cr_deps (cr_env 30)
     (cr_call ''dao'' [\<lparr>coin_denom = ''untrn'', coin_amount = 5000\<rparr>]) CreditsMint cr_ready = Ok (cr_minted, [])"
  by (simp add: credits_ops cr_defs eval_arith)

lemma cr_step_moved:
  "credits_execute simple_cw20 cr_deps (cr_env 40) (cr_call ''airdrop'' []) (CreditsTransfer ''alice'' 1000)
     cr_minted = Ok (cr_moved, [])"
  by (simp add: credits_ops cr_defs eval_arith)

lemma cr_step_vesting:
  "credits_execute simple_cw20 cr_deps (cr_env 40) (cr_call ''airdrop'' [])
     (CreditsAddVesting ''alice'' 1000 200 400) cr_moved = Ok (cr_vesting, [])"
  by (simp add: credits_ops cr_defs eval_arith)

lemma cr_step_paid:
  "credits_withdraw simple_cw20 (cr_env 300) (cr_call ''alice'' []) cr_vesting =
     Ok (cr_paid, [BankSend ''alice'' [\<lparr>coin_denom = ''untrn'', coin_amount = 250\<rparr>]])"
  by (simp add: credits_ops cr_defs eval_arith min_def)

lemma cr_env_time [simp]: "block_time (cr_env t) = t"
  by (simp add: cr_env_def)

lemma cr_reachable: "credits_reachable simple_cw20 cr_deps 300 4750 cr_paid"
proof -
  note call = credits_reachable.call [where L = simple_cw20 and d = cr_deps]
  have "credits_reachable simple_cw20 cr_deps 10 0 cr_fresh"
    using credits_reachable.start [OF cr_step_start] by simp
  from call [OF this _ cr_step_ready] have "credits_reachable simple_cw20 cr_deps 20 0 cr_ready"
    by (simp add: cr_call_def)
  from call [OF this _ cr_step_minted] have "credits_reachable simple_cw20 cr_deps 30 5000 cr_minted"
    by (simp add: cr_call_def)
  from call [OF this _ cr_step_moved] have "credits_reachable simple_cw20 cr_deps 40 5000 cr_moved"
    by (simp add: cr_call_def)
  from call [OF this _ cr_step_vesting] have "credits_reachable simple_cw20 cr_deps 40 5000 cr_vesting"
    by (simp add: cr_call_def)
  from call [OF this, of "cr_env 300" "cr_call ''alice'' []" CreditsWithdraw cr_paid] cr_step_paid
  show ?thesis by (simp add: cr_call_def)
qed

subsection \<open>Properties\<close>

text \<open>C5: In every reachable state of the credits contract the cNTRN supply is at most the untrn that the contract holds, so every token can be redeemed one to one.\<close>
theorem credits_fully_backed:
  assumes "credits_reachable L d t held s" and "cw20_laws L"
  shows "token_supply L (c_token s) \<le> held"
  using credits_reachable_inv [OF assms] by blast

theorem credits_fully_backed_witness: "token_supply simple_cw20 (c_token cr_paid) \<le> 4750"
  using credits_fully_backed [OF cr_reachable simple_cw20_laws] .

text \<open>C31: A withdrawal burns and pays the smaller of the vested rest and the balance, never zero, and books it on the allocation.\<close>
theorem credits_withdraw_pays_vested:
  assumes "credits_withdraw L env info s = Ok (s', ms)" and "cw20_laws L"
    and "map_of (c_allocations s) (sender info) = Some al"
  shows "\<exists>n al'. 0 < n \<and>
    unat n = min (vested_at al (unat (block_time env)) - unat (withdrawn_amount al))
                 (balance_of L (c_token s) (sender info)) \<and>
    ms = [BankSend (sender info) [\<lparr>coin_denom = ''untrn'', coin_amount = n\<rparr>]] \<and>
    balance_of L (c_token s) (sender info) = balance_of L (c_token s') (sender info) + unat n \<and>
    c_allocations s' = save (sender info) al' (c_allocations s) \<and>
    unat (withdrawn_amount al') = unat (withdrawn_amount al) + unat n \<and>
    allocated_amount al' = allocated_amount al \<and> alloc_schedule al' = alloc_schedule al"
  using assms(1)
proof (rule credits_withdraw_inversion, goal_cases)
  case (1 cfg from_time a m b w)
  have "a = al" using 1(4) assms(3) by simp
  have "unat (min m b) = min (unat m) (unat b)" by (auto simp: min_def word_le_nat_alt)
  moreover have "vested_at al (unat (block_time env)) - unat (withdrawn_amount al) = unat m"
    using compute_withdrawable_Ok [OF 1(5)] \<open>a = al\<close> by simp
  moreover have "balance_of L (c_token s) (sender info) = unat b" using 1(6) by (simp add: balance_of_def)
  ultimately show ?case
    using burn_and_send_Ok [OF 1(9) assms(2)] 1(7,8) \<open>a = al\<close>
    by (intro exI [of _ "min m b"] exI [of _ "al\<lparr>withdrawn_amount := w\<rparr>"]) (auto simp: word_gt_0)
qed

theorem credits_withdraw_pays_vested_witness:
  "\<exists>n. unat n = min (vested_at (cr_alloc 0) 300 - 0) (balance_of simple_cw20 (c_token cr_vesting) ''alice'') \<and>
     n = (250 :: u128)"
  using credits_withdraw_pays_vested [OF cr_step_paid simple_cw20_laws, of "cr_alloc 0"]
  by (auto simp: cr_vesting_def cr_call_def cr_alloc_def)

text \<open>In every reachable state the withdrawable amount of every allocation is computed without an error, is what has vested and is not yet withdrawn, and after the end of the schedule is the whole rest.\<close>
theorem credits_withdrawable_always_computed:
  assumes "credits_reachable L d t held s" and "cw20_laws L"
    and "map_of (c_allocations s) a = Some al" and "t \<le> now"
    and "unat (start_time (alloc_schedule al)) + unat (duration (alloc_schedule al)) < 2 ^ 64"
  shows "\<exists>n. compute_withdrawable_amount (allocated_amount al) (withdrawn_amount al) (alloc_schedule al) now = Ok n \<and>
    unat n + unat (withdrawn_amount al) = vested_at al (unat now) \<and>
    unat n + unat (withdrawn_amount al) \<le> unat (allocated_amount al) \<and>
    (unat (start_time (alloc_schedule al)) + unat (duration (alloc_schedule al)) \<le> unat now \<longrightarrow>
       unat n + unat (withdrawn_amount al) = unat (allocated_amount al))"
proof -
  have ok: "allocations_ok (unat now) s"
    using credits_reachable_inv [OF assms(1,2)] assms(4) by (auto simp: word_le_nat_alt intro: allocations_ok_later)
  then have le: "unat (withdrawn_amount al) \<le> vested_at al (unat now)" and c: "cliff (alloc_schedule al) = 0"
    using assms(3) by (auto simp: allocations_ok_def)
  have "unat (start_time (alloc_schedule al)) < 2 ^ 64"
    using unsigned_less [of "start_time (alloc_schedule al)"] by simp
  then obtain n where n: "compute_withdrawable_amount (allocated_amount al) (withdrawn_amount al) (alloc_schedule al) now = Ok n"
    using compute_withdrawable_total [OF le _ assms(5)] c by auto
  have "vested_at al (unat now) = unat (allocated_amount al)"
    if "unat (start_time (alloc_schedule al)) + unat (duration (alloc_schedule al)) \<le> unat now"
    using that c by (simp add: vested_at_def Let_def)
  then show ?thesis
    using n compute_withdrawable_Ok [OF n] vested_at_le [of al "unat now"] by auto
qed

theorem credits_withdrawable_always_computed_witness:
  "\<exists>n. compute_withdrawable_amount 1000 250 (alloc_schedule (cr_alloc 250)) 700 = Ok n \<and> unat n + 250 = 1000"
  using credits_withdrawable_always_computed [OF cr_reachable simple_cw20_laws, of "''alice''" "cr_alloc 250" 700]
  by (auto simp: cr_paid_def cr_alloc_def)

text \<open>No call changes the amount or schedule of an existing allocation or removes it; its withdrawn amount only grows, and only by the owner's withdrawals.\<close>
theorem credits_allocation_immutable:
  assumes "credits_execute L d env info m s = Ok (s', ms)" and "cw20_laws L"
    and "map_of (c_allocations s) a = Some al"
  shows "\<exists>al'. map_of (c_allocations s') a = Some al' \<and> allocated_amount al' = allocated_amount al \<and>
    alloc_schedule al' = alloc_schedule al \<and> withdrawn_amount al \<le> withdrawn_amount al' \<and>
    (al' \<noteq> al \<longrightarrow> sender info = a \<and> m = CreditsWithdraw)"
proof (cases m)
  case CreditsWithdraw
  then have "credits_withdraw L env info s = Ok (s', ms)" using assms(1) by simp
  then show ?thesis
    by (rule credits_withdraw_inversion)
      (use assms(2,3) CreditsWithdraw in \<open>auto dest!: burn_and_send_Ok simp: map_of_save word_le_nat_alt\<close>)
next
  case (CreditsAddVesting b n start dur)
  then have "credits_add_vesting L d info b n start dur s = Ok (s', ms)" using assms(1) by simp
  then show ?thesis
    by (rule credits_add_vesting_inversion) (use assms(3) in \<open>auto simp: map_of_save\<close>)
qed (use credits_allocations_frame [OF assms(1,2)] assms(3) in auto)

theorem credits_allocation_immutable_witness:
  "\<exists>al. map_of (c_allocations cr_paid) ''alice'' = Some al \<and> allocated_amount al = 1000"
  using credits_allocation_immutable [of simple_cw20 cr_deps "cr_env 300" "cr_call ''alice'' []" CreditsWithdraw
      cr_vesting cr_paid _ "''alice''" "cr_alloc 0"] cr_step_paid simple_cw20_laws
  by (auto simp: cr_vesting_def cr_alloc_def)

text \<open>C32: A balance shrinks only by the holder's own withdrawal, by the lockdrop's BurnFrom, or because the holder is the airdrop contract: cNTRN cannot be transferred by its holders.\<close>
theorem credits_balance_moves_only_by_right:
  assumes "credits_execute L d env info m s = Ok (s', ms)" and "cw20_laws L" and "c_config s = Some cfg"
    and "addr_validate_identity d"
    and "balance_of L (c_token s') a < balance_of L (c_token s) a"
  shows "(m = CreditsWithdraw \<and> sender info = a) \<or>
    (\<exists>n. m = CreditsBurnFrom a n \<and> lockdrop_address cfg = Some (sender info)) \<or>
    (airdrop_address cfg = Some a \<and> sender info = a)"
proof -
  have bal: "token_balance L (c_token s') a \<noteq> token_balance L (c_token s) a"
    using assms(5) by (auto simp: balance_of_def)
  have laws: "cw20_transfer_law L" "cw20_mint_law L" using assms(2) by (simp_all add: cw20_laws_def)
  have bs: "sender i = a" if "burn_and_send L env i n s0 = Ok (s', ms)" "c_token s0 = c_token s" for i n s0
    using burn_and_send_Ok [OF that(1) assms(2)] that(2) bal by metis
  show ?thesis
  proof (cases m)
    case CreditsWithdraw
    then have "credits_withdraw L env info s = Ok (s', ms)" using assms(1) by simp
    then show ?thesis
      by (rule credits_withdraw_inversion) (use CreditsWithdraw in \<open>auto dest!: bs\<close>)
  next
    case (CreditsTransfer r n)
    then obtain t where t: "token_transfer L env info r n (c_token s) = Ok (t, ms)" "s' = s\<lparr>c_token := t\<rparr>"
      and ad: "airdrop_address cfg = Some (sender info)"
      using assms(1,3) by (auto simp: credits_transfer_def credits_load_config_def with_token_Ok)
    have "a = sender info"
    proof (rule ccontr)
      assume ne: "a \<noteq> sender info"
      show False
      proof (cases "a = r")
        case True
        then show False using laws(1) t assms(5) ne unfolding cw20_transfer_law_def by fastforce
      next
        case False
        then show False using laws(1) t bal ne unfolding cw20_transfer_law_def by fastforce
      qed
    qed
    then show ?thesis using ad by simp
  next
    case CreditsMint
    then obtain r n t where "token_mint_to L env info r n (c_token s) = Ok (t, ms)" "s' = s\<lparr>c_token := t\<rparr>"
      using assms(1) by (auto simp: credits_mint_def with_token_Ok)
    then have False using laws(2) assms(5) bal unfolding cw20_mint_law_def
      by (cases "a = r") fastforce+
    then show ?thesis ..
  next
    case (CreditsBurnFrom owner n)
    then obtain o' where o': "addr_validate d owner = Ok o'" "lockdrop_address cfg = Some (sender info)"
      "burn_and_send L env (info\<lparr>sender := o'\<rparr>) n s = Ok (s', ms)"
      using assms(1,3) by (auto simp: credits_burn_from_def credits_load_config_def)
    then show ?thesis
      using CreditsBurnFrom bs [OF o'(3)] addr_validate_identityD [OF assms(4) o'(1)] by simp
  next
    case (CreditsBurn n)
    then show ?thesis using assms(1,3) bs by (auto simp: credits_burn_def credits_load_config_def)
  next
    case (CreditsUpdateConfig u)
    then show ?thesis using assms(1) bal by (auto simp: credits_update_config_def)
  next
    case (CreditsAddVesting b n start dur)
    then have "credits_add_vesting L d info b n start dur s = Ok (s', ms)" using assms(1) by simp
    then show ?thesis by (rule credits_add_vesting_inversion) (use bal in simp)
  qed
qed

theorem credits_balance_moves_only_by_right_witness:
  "airdrop_address cr_config = Some ''airdrop''"
  using credits_balance_moves_only_by_right [OF cr_step_moved simple_cw20_laws, of cr_config "''airdrop''"]
  by (simp add: cr_defs addr_validate_identity_def balance_of_def)

end
