(* ===== verification/Vesting_Base.thy ===== *)
theory Vesting_Base
  imports Ownership
begin

text \<open>
  The vesting library, \<open>packages/vesting-base\<close>, on which the vesting contracts are built. The owner
  or a manager registers accounts with schedules against tokens that it sends, an account claims
  what has vested, and the owner of a managed contract may take an account's rest back.

  State: the configuration, the ownership proposal, the managers, the totals and one entry per
  account. The two storage flavours of the source (with and without a height log) hold the same
  current values; the queries at a past height take the logged value as an argument.
  \<open>must_pay\<close> is a function of the \<open>cw_utils\<close> crate.
\<close>

subsection \<open>Data\<close>

datatype vesting_error =
    VStd std_error
  | VPayment string
  | VUnauthorized
  | AmountIsNotAvailable
  | VestingScheduleError string
  | VestingScheduleExtractError string
  | VestingScheduleAmountError
  | MigrationError
  | VestingTokenIsNotSet
  | VestingTokenAlreadySet

record vesting_config =
  vc_owner :: addr
  vesting_token :: "asset_info option"
  vc_token_info_manager :: addr
  ext_historical :: bool
  ext_managed :: bool
  ext_with_managers :: bool

record vesting_state =
  total_granted :: u128
  total_released :: u128

definition vesting_state_default :: vesting_state where
  "vesting_state_default = \<lparr>total_granted = 0, total_released = 0\<rparr>"

record vesting =
  v_config :: "vesting_config option"
  v_proposal :: "ownership_proposal option"
  v_managers :: "(addr, unit) store"
  v_state :: "vesting_state option"
  v_infos :: "(addr, vesting_info) store"

definition vesting_empty :: vesting where
  "vesting_empty = \<lparr>v_config = None, v_proposal = None, v_managers = [], v_state = None, v_infos = []\<rparr>"

record vesting_deps = deps +
  must_pay :: "message_info \<Rightarrow> string \<Rightarrow> (string, u128) result"

text \<open>The documented behaviour of \<open>must_pay\<close>: exactly one coin, of that denom, not zero.\<close>

definition must_pay_law :: "('d) vesting_deps_scheme \<Rightarrow> bool" where
  "must_pay_law d \<longleftrightarrow> (\<forall>info denom n. must_pay d info denom = Ok n \<longrightarrow>
     n \<noteq> 0 \<and> funds info = [\<lparr>coin_denom = denom, coin_amount = n\<rparr>])"

datatype order_by = Asc | Desc

datatype vesting_execute_msg =
    VClaim "string option" "u128 option"
  | VReceive string u128 cw20_hook          \<comment> \<open>cw20 sender, amount, hook\<close>
  | VRegister "vesting_account list"
  | VProposeNewOwner string u64
  | VDropOwnershipProposal
  | VClaimOwnership
  | VSetVestingToken asset_info
  | VRemoveVestingAccounts "string list" string
  | VAddVestingManagers "string list"
  | VRemoveVestingManagers "string list"

type_synonym vesting_result = "(vesting_error, vesting \<times> msg list) result"

subsection \<open>Instantiation\<close>

record vesting_builder =
  b_managers :: "string list"
  b_historical :: bool
  b_managed :: bool
  b_with_managers :: bool

definition builder_default :: vesting_builder where
  "builder_default = \<lparr>b_managers = [], b_historical = False, b_managed = False, b_with_managers = False\<rparr>"

definition builder_managed :: "vesting_builder \<Rightarrow> vesting_builder" where
  "builder_managed b = b\<lparr>b_managed := True\<rparr>"

definition builder_with_managers :: "string list \<Rightarrow> vesting_builder \<Rightarrow> vesting_builder" where
  "builder_with_managers ms b = b\<lparr>b_managers := b_managers b @ ms, b_with_managers := True\<rparr>"

definition builder_historical :: "vesting_builder \<Rightarrow> vesting_builder" where
  "builder_historical b = b\<lparr>b_historical := True\<rparr>"

definition builder_build ::
  "vesting_builder \<Rightarrow> ('d) deps_scheme \<Rightarrow> string \<Rightarrow> string \<Rightarrow> vesting \<Rightarrow> (std_error, vesting) result" where
  "builder_build b d owner manager s =
     and_then (addr_validate d owner) (\<lambda>owner.
     and_then (addr_validate d manager) (\<lambda>manager.
     let s = s\<lparr>v_config := Some \<lparr>vc_owner = owner, vesting_token = None,
                 vc_token_info_manager = manager, ext_historical = b_historical b,
                 ext_managed = b_managed b, ext_with_managers = b_with_managers b\<rparr>\<rparr> in
     if b_with_managers b then
       and_then (try_fold (\<lambda>ms m. and_then (addr_validate d m) (\<lambda>a. Ok (save a () ms)))
         (v_managers s) (b_managers b)) (\<lambda>ms.
       Ok (s\<lparr>v_managers := ms\<rparr>))
     else Ok s))"

text \<open>The three deployments: \<open>vesting-lti\<close> (managed), \<open>vesting-investors\<close> (managed, with history)
  and the base that \<open>vesting-lp\<close> and \<open>vesting-lp-pcl\<close> use (with managers, with history).\<close>

definition vesting_lti_instantiate ::
  "('d) deps_scheme \<Rightarrow> string \<Rightarrow> string \<Rightarrow> vesting \<Rightarrow> (std_error, vesting) result" where
  "vesting_lti_instantiate d owner manager s =
     builder_build (builder_managed builder_default) d owner manager s"

definition vesting_investors_instantiate ::
  "('d) deps_scheme \<Rightarrow> string \<Rightarrow> string \<Rightarrow> vesting \<Rightarrow> (std_error, vesting) result" where
  "vesting_investors_instantiate d owner manager s =
     builder_build (builder_managed (builder_historical builder_default)) d owner manager s"

subsection \<open>Helpers\<close>

definition load_vesting_config :: "vesting \<Rightarrow> (vesting_error, vesting_config) result" where
  "load_vesting_config s = load_item (v_config s) (VStd (NotFound ''config''))"

definition get_vesting_token :: "vesting_config \<Rightarrow> (vesting_error, asset_info) result" where
  "get_vesting_token cfg = ok_or (vesting_token cfg) VestingTokenIsNotSet"

definition load_vesting_info :: "vesting \<Rightarrow> addr \<Rightarrow> (vesting_error, vesting_info) result" where
  "load_vesting_info s a = ok_or (may_load (v_infos s) a) (VStd (NotFound ''vesting_info''))"

definition is_sender_whitelisted :: "vesting \<Rightarrow> vesting_config \<Rightarrow> addr \<Rightarrow> bool" where
  "is_sender_whitelisted s cfg a = (if a = vc_owner cfg then True else has (v_managers s) a)"

definition schedule_valid :: "vesting_schedule \<Rightarrow> bool" where
  "schedule_valid sch =
     (case end_point sch of
        None \<Rightarrow> True
      | Some e \<Rightarrow> point_time (start_point sch) < point_time e \<and>
                  point_amount (start_point sch) < point_amount e)"

definition assert_vesting_schedules ::
  "addr \<Rightarrow> vesting_schedule list \<Rightarrow> (vesting_error, unit) result" where
  "assert_vesting_schedules a ss =
     try_fold (\<lambda>_ sch. if schedule_valid sch then Ok () else Err (VestingScheduleError a)) () ss"

definition add_schedule_amounts :: "u128 \<Rightarrow> vesting_schedule list \<Rightarrow> (std_error, u128) result" where
  "add_schedule_amounts n ss =
     try_fold (\<lambda>acc sch. checked_add acc
       (case end_point sch of Some e \<Rightarrow> point_amount e | None \<Rightarrow> point_amount (start_point sch))) n ss"

text \<open>One schedule's part in \<open>compute_available_amount\<close>; a schedule that starts later is skipped.\<close>

definition add_available :: "u64 \<Rightarrow> u128 \<Rightarrow> vesting_schedule \<Rightarrow> (std_error, u128) result" where
  "add_available now acc sch =
     (if now < point_time (start_point sch) then Ok acc
      else
      and_then (checked_add acc (point_amount (start_point sch))) (\<lambda>acc.
      case end_point sch of
        None \<Rightarrow> Ok acc
      | Some e \<Rightarrow>
          and_then (sub_panic (min now (point_time e)) (point_time (start_point sch))) (\<lambda>passed.
          and_then (sub_panic (point_time e) (point_time (start_point sch))) (\<lambda>period.
          if passed \<noteq> 0 \<and> period \<noteq> 0 then
            and_then (checked_sub (point_amount e) (point_amount (start_point sch))) (\<lambda>delta.
            and_then (multiply_ratio (widen passed) (unat delta) (unat period)) (\<lambda>release.
            checked_add acc release))
          else Ok acc))))"

definition compute_available_amount :: "u64 \<Rightarrow> vesting_info \<Rightarrow> (std_error, u128) result" where
  "compute_available_amount now vi =
     and_then (try_fold (add_available now) 0 (schedules vi)) (\<lambda>available.
     checked_sub available (released_amount vi))"

definition compute_unclaimed_amount :: "vesting_info \<Rightarrow> (std_error, u128) result" where
  "compute_unclaimed_amount vi =
     and_then (add_schedule_amounts 0 (schedules vi)) (\<lambda>granted.
     checked_sub granted (released_amount vi))"

subsection \<open>Registration and claims\<close>

text \<open>One account of \<open>register_vesting_accounts\<close>: the loop state is the sum so far and the infos.\<close>

definition register_account ::
  "('d) deps_scheme \<Rightarrow> u128 \<times> (addr, vesting_info) store \<Rightarrow> vesting_account
     \<Rightarrow> (vesting_error, u128 \<times> (addr, vesting_info) store) result" where
  "register_account d = (\<lambda>(to_deposit, infos) va.
     and_then (map_err VStd (addr_validate d (account_address va))) (\<lambda>a.
     and_then (assert_vesting_schedules a (account_schedules va)) (\<lambda>_.
     and_then (map_err VStd (add_schedule_amounts to_deposit (account_schedules va))) (\<lambda>to_deposit.
     Ok (to_deposit,
         case may_load infos a of
           Some old \<Rightarrow> save a \<lparr>schedules = account_schedules va @ schedules old,
                              released_amount = released_amount old\<rparr> infos
         | None \<Rightarrow> save a \<lparr>schedules = account_schedules va, released_amount = 0\<rparr> infos)))))"

definition register_vesting_accounts ::
  "('d) deps_scheme \<Rightarrow> vesting_account list \<Rightarrow> u128 \<Rightarrow> vesting \<Rightarrow> vesting_result" where
  "register_vesting_accounts d accounts amount s =
     and_then (load_vesting_config s) (\<lambda>cfg.
     and_then (try_fold (register_account d) (0, v_infos s) accounts) (\<lambda>(to_deposit, infos).
     if to_deposit \<noteq> amount then Err VestingScheduleAmountError
     else
     let st = unwrap_or (v_state s) vesting_state_default in
     and_then (map_err VStd (checked_add (total_granted st) to_deposit)) (\<lambda>granted.
     Ok (s\<lparr>v_infos := infos, v_state := Some (st\<lparr>total_granted := granted\<rparr>)\<rparr>, []))))"

definition vesting_claim ::
  "env \<Rightarrow> message_info \<Rightarrow> string option \<Rightarrow> u128 option \<Rightarrow> vesting \<Rightarrow> vesting_result" where
  "vesting_claim env info recipient amount s =
     and_then (load_vesting_config s) (\<lambda>cfg.
     and_then (get_vesting_token cfg) (\<lambda>token.
     and_then (load_vesting_info s (sender info)) (\<lambda>vi.
     and_then (map_err VStd (compute_available_amount (block_time env) vi)) (\<lambda>available.
     and_then (case amount of
         Some a \<Rightarrow> if available < a then Err AmountIsNotAvailable else Ok a
       | None \<Rightarrow> Ok available) (\<lambda>claim_amount.
     if claim_amount = 0 then Ok (s, [])
     else
     and_then (map_err VStd (into_msg (with_balance token claim_amount)
       (unwrap_or recipient (sender info)))) (\<lambda>transfer.
     and_then (map_err VStd (checked_add (released_amount vi) claim_amount)) (\<lambda>released.
     and_then (ok_or (v_state s) AmountIsNotAvailable) (\<lambda>st.
     and_then (map_err VStd (checked_add (total_released st) claim_amount)) (\<lambda>tr.
     Ok (s\<lparr>v_infos := save (sender info) (vi\<lparr>released_amount := released\<rparr>) (v_infos s),
           v_state := Some (st\<lparr>total_released := tr\<rparr>)\<rparr>, [transfer]))))))))))"

definition receive_cw20 ::
  "('d) deps_scheme \<Rightarrow> message_info \<Rightarrow> string \<Rightarrow> u128 \<Rightarrow> cw20_hook \<Rightarrow> vesting \<Rightarrow> vesting_result" where
  "receive_cw20 d info cw20_sender amount hook s =
     and_then (load_vesting_config s) (\<lambda>cfg.
     and_then (get_vesting_token cfg) (\<lambda>token.
     and_then (map_err VStd (addr_validate d cw20_sender)) (\<lambda>a.
     if \<not> is_sender_whitelisted s cfg a \<or> token_asset_info (sender info) \<noteq> token
     then Err VUnauthorized
     else case hook of
       RegisterVestingAccountsHook accounts \<Rightarrow> register_vesting_accounts d accounts amount s
     | _ \<Rightarrow> Err (VStd ParseErr))))"

definition execute_register_vesting_accounts ::
  "('d) vesting_deps_scheme \<Rightarrow> message_info \<Rightarrow> vesting_account list \<Rightarrow> vesting \<Rightarrow> vesting_result" where
  "execute_register_vesting_accounts d info accounts s =
     and_then (load_vesting_config s) (\<lambda>cfg.
     and_then (get_vesting_token cfg) (\<lambda>token.
     case token of
       NativeToken denom \<Rightarrow>
         if is_sender_whitelisted s cfg (sender info) then
           and_then (map_err VPayment (must_pay d info denom)) (\<lambda>amount.
           register_vesting_accounts d accounts amount s)
         else Err VUnauthorized
     | Token _ \<Rightarrow> Err VUnauthorized))"

subsection \<open>Administration\<close>

definition set_vesting_token ::
  "('d) deps_scheme \<Rightarrow> message_info \<Rightarrow> asset_info \<Rightarrow> vesting \<Rightarrow> vesting_result" where
  "set_vesting_token d info token s =
     and_then (load_vesting_config s) (\<lambda>cfg.
     if sender info \<noteq> vc_owner cfg \<and> sender info \<noteq> vc_token_info_manager cfg then Err VUnauthorized
     else if vesting_token cfg \<noteq> None then Err VestingTokenAlreadySet
     else
     and_then (map_err VStd (asset_check d token)) (\<lambda>_.
     Ok (s\<lparr>v_config := Some (cfg\<lparr>vesting_token := Some token\<rparr>)\<rparr>, [])))"

definition vesting_propose_new_owner ::
  "('d) deps_scheme \<Rightarrow> env \<Rightarrow> message_info \<Rightarrow> string \<Rightarrow> u64 \<Rightarrow> vesting \<Rightarrow> vesting_result" where
  "vesting_propose_new_owner d env info new_owner expires_in s =
     and_then (load_vesting_config s) (\<lambda>cfg.
     and_then (map_err VStd (propose_new_owner d info env new_owner expires_in (vc_owner cfg))) (\<lambda>p.
     Ok (s\<lparr>v_proposal := p\<rparr>, [])))"

definition vesting_drop_ownership_proposal :: "message_info \<Rightarrow> vesting \<Rightarrow> vesting_result" where
  "vesting_drop_ownership_proposal info s =
     and_then (load_vesting_config s) (\<lambda>cfg.
     and_then (map_err VStd (drop_ownership_proposal info (vc_owner cfg))) (\<lambda>p.
     Ok (s\<lparr>v_proposal := p\<rparr>, [])))"

definition vesting_claim_ownership :: "env \<Rightarrow> message_info \<Rightarrow> vesting \<Rightarrow> vesting_result" where
  "vesting_claim_ownership env info s =
     and_then (map_err VStd (claim_ownership info env (v_proposal s))) (\<lambda>(p, new_owner).
     and_then (load_vesting_config s) (\<lambda>cfg.
     Ok (s\<lparr>v_proposal := p, v_config := Some (cfg\<lparr>vc_owner := new_owner\<rparr>)\<rparr>, [])))"

definition ext_unsupported_err :: "string \<Rightarrow> std_error" where
  "ext_unsupported_err extension =
     GenericErr (''Extension is not enabled for the contract: '' @ extension @ ''.'')"

text \<open>One account of \<open>remove_vesting_accounts\<close>; an unknown account is skipped. The loop state is the
  infos, the totals and the messages.\<close>

definition remove_vesting_account ::
  "('d) deps_scheme \<Rightarrow> asset_info \<Rightarrow> addr \<Rightarrow> vesting \<times> msg list \<Rightarrow> string \<Rightarrow> vesting_result" where
  "remove_vesting_account d token clawback = (\<lambda>(s, ms) account.
     and_then (map_err VStd (addr_validate d account)) (\<lambda>a.
     case may_load (v_infos s) a of
       None \<Rightarrow> Ok (s, ms)
     | Some vi \<Rightarrow>
         and_then (map_err VStd (add_schedule_amounts 0 (schedules vi))) (\<lambda>granted.
         and_then (map_err VStd (checked_sub granted (released_amount vi))) (\<lambda>back.
         and_then (map_err VStd (into_msg (with_balance token back) clawback)) (\<lambda>transfer.
         and_then (ok_or (v_state s) AmountIsNotAvailable) (\<lambda>st.
         and_then (map_err VStd (checked_sub (total_granted st) granted)) (\<lambda>tg.
         and_then (map_err VStd (checked_sub (total_released st) (released_amount vi))) (\<lambda>tr.
         Ok (s\<lparr>v_state := Some \<lparr>total_granted = tg, total_released = tr\<rparr>,
               v_infos := remove a (v_infos s)\<rparr>, ms @ [transfer])))))))))"

definition remove_vesting_accounts ::
  "('d) deps_scheme \<Rightarrow> message_info \<Rightarrow> string list \<Rightarrow> string \<Rightarrow> vesting \<Rightarrow> vesting_result" where
  "remove_vesting_accounts d info accounts clawback_account s =
     and_then (load_vesting_config s) (\<lambda>cfg.
     if sender info \<noteq> vc_owner cfg then Err VUnauthorized
     else
     and_then (get_vesting_token cfg) (\<lambda>token.
     and_then (map_err VStd (addr_validate d clawback_account)) (\<lambda>clawback.
     try_fold (remove_vesting_account d token clawback) (s, []) accounts)))"

definition handle_execute_managed_msg ::
  "('d) deps_scheme \<Rightarrow> message_info \<Rightarrow> string list \<Rightarrow> string \<Rightarrow> vesting \<Rightarrow> vesting_result" where
  "handle_execute_managed_msg d info accounts clawback s =
     and_then (load_vesting_config s) (\<lambda>cfg.
     if \<not> ext_managed cfg then Err (VStd (ext_unsupported_err ''managed''))
     else remove_vesting_accounts d info accounts clawback s)"

definition add_vesting_managers ::
  "('d) deps_scheme \<Rightarrow> message_info \<Rightarrow> string list \<Rightarrow> vesting \<Rightarrow> vesting_result" where
  "add_vesting_managers d info managers s =
     and_then (load_vesting_config s) (\<lambda>cfg.
     if sender info \<noteq> vc_owner cfg then Err VUnauthorized
     else
     and_then (try_fold (\<lambda>ms m.
         and_then (map_err VStd (addr_validate d m)) (\<lambda>a.
         if has ms a then Ok ms else Ok (save a () ms))) (v_managers s) managers) (\<lambda>ms.
     Ok (s\<lparr>v_managers := ms\<rparr>, [])))"

definition remove_vesting_managers ::
  "('d) deps_scheme \<Rightarrow> message_info \<Rightarrow> string list \<Rightarrow> vesting \<Rightarrow> vesting_result" where
  "remove_vesting_managers d info managers s =
     and_then (load_vesting_config s) (\<lambda>cfg.
     if sender info \<noteq> vc_owner cfg then Err VUnauthorized
     else
     and_then (try_fold (\<lambda>ms m.
         and_then (map_err VStd (addr_validate d m)) (\<lambda>a.
         if has ms a then Ok (remove a ms) else Ok ms)) (v_managers s) managers) (\<lambda>ms.
     Ok (s\<lparr>v_managers := ms\<rparr>, [])))"

definition handle_execute_with_managers_msg ::
  "(vesting \<Rightarrow> vesting_result) \<Rightarrow> vesting \<Rightarrow> vesting_result" where
  "handle_execute_with_managers_msg handler s =
     and_then (load_vesting_config s) (\<lambda>cfg.
     if \<not> ext_with_managers cfg then Err (VStd (ext_unsupported_err ''with_managers''))
     else handler s)"

subsection \<open>The entry point\<close>

primrec vesting_execute ::
  "('d) vesting_deps_scheme \<Rightarrow> env \<Rightarrow> message_info \<Rightarrow> vesting_execute_msg \<Rightarrow> vesting
     \<Rightarrow> vesting_result" where
  "vesting_execute d env info (VClaim recipient amount) s = vesting_claim env info recipient amount s"
| "vesting_execute d env info (VReceive cw20_sender amount hook) s =
     receive_cw20 d info cw20_sender amount hook s"
| "vesting_execute d env info (VRegister accounts) s =
     execute_register_vesting_accounts d info accounts s"
| "vesting_execute d env info (VProposeNewOwner new_owner expires_in) s =
     vesting_propose_new_owner d env info new_owner expires_in s"
| "vesting_execute d env info VDropOwnershipProposal s = vesting_drop_ownership_proposal info s"
| "vesting_execute d env info VClaimOwnership s = vesting_claim_ownership env info s"
| "vesting_execute d env info (VSetVestingToken token) s = set_vesting_token d info token s"
| "vesting_execute d env info (VRemoveVestingAccounts accounts clawback) s =
     handle_execute_managed_msg d info accounts clawback s"
| "vesting_execute d env info (VAddVestingManagers managers) s =
     handle_execute_with_managers_msg (add_vesting_managers d info managers) s"
| "vesting_execute d env info (VRemoveVestingManagers managers) s =
     handle_execute_with_managers_msg (remove_vesting_managers d info managers) s"

subsection \<open>Queries\<close>

definition query_vesting_account ::
  "('d) deps_scheme \<Rightarrow> string \<Rightarrow> vesting \<Rightarrow> (vesting_error, addr \<times> vesting_info) result" where
  "query_vesting_account d address s =
     and_then (map_err VStd (addr_validate d address)) (\<lambda>a.
     and_then (load_vesting_config s) (\<lambda>cfg.
     and_then (load_vesting_info s a) (\<lambda>vi. Ok (a, vi))))"

definition query_vesting_available_amount ::
  "('d) deps_scheme \<Rightarrow> env \<Rightarrow> string \<Rightarrow> vesting \<Rightarrow> (vesting_error, u128) result" where
  "query_vesting_available_amount d env address s =
     and_then (map_err VStd (addr_validate d address)) (\<lambda>a.
     and_then (load_vesting_config s) (\<lambda>cfg.
     and_then (load_vesting_info s a) (\<lambda>vi.
     map_err VStd (compute_available_amount (block_time env) vi))))"

definition vesting_max_limit :: nat where "vesting_max_limit = 30"
definition vesting_default_limit :: nat where "vesting_default_limit = 10"

definition read_vesting_infos ::
  "addr option \<Rightarrow> u32 option \<Rightarrow> order_by option \<Rightarrow> (addr, vesting_info) store
     \<Rightarrow> (addr \<times> vesting_info) list" where
  "read_vesting_infos start_after limit order infos =
     (let n = min (case limit of Some l \<Rightarrow> unat l | None \<Rightarrow> vesting_default_limit) vesting_max_limit in
      take n (case order of
          Some Asc \<Rightarrow> filter (\<lambda>(a, vi). case start_after of Some b \<Rightarrow> b < a | None \<Rightarrow> True) infos
        | _ \<Rightarrow> rev (filter (\<lambda>(a, vi). case start_after of Some b \<Rightarrow> a < b | None \<Rightarrow> True) infos)))"

definition query_vesting_accounts ::
  "('d) deps_scheme \<Rightarrow> string option \<Rightarrow> u32 option \<Rightarrow> order_by option \<Rightarrow> vesting
     \<Rightarrow> (std_error, (addr \<times> vesting_info) list) result" where
  "query_vesting_accounts d start_after limit order s =
     and_then (addr_opt_validate d start_after) (\<lambda>start_after.
     Ok (read_vesting_infos start_after limit order (v_infos s)))"

definition query_vesting_managers :: "vesting \<Rightarrow> (std_error, addr list) result" where
  "query_vesting_managers s = Ok (store_keys (v_managers s))"

definition query_unclaimed_amount_at_height ::
  "('d) deps_scheme \<Rightarrow> (addr \<Rightarrow> u64 \<Rightarrow> (std_error, vesting_info option) result) \<Rightarrow> string \<Rightarrow> u64 \<Rightarrow> vesting
     \<Rightarrow> (std_error, u128) result" where
  "query_unclaimed_amount_at_height d info_at address height s =
     and_then (addr_validate d address) (\<lambda>a.
     and_then (load_item (v_config s) (NotFound ''config'')) (\<lambda>cfg.
     and_then (info_at a height) (\<lambda>vi.
     case vi of Some vi \<Rightarrow> compute_unclaimed_amount vi | None \<Rightarrow> Ok 0)))"

definition query_total_unclaimed_amount_at_height ::
  "(u64 \<Rightarrow> (std_error, vesting_state option) result) \<Rightarrow> u64 \<Rightarrow> vesting \<Rightarrow> (std_error, u128) result" where
  "query_total_unclaimed_amount_at_height state_at height s =
     and_then (load_item (v_config s) (NotFound ''config'')) (\<lambda>cfg.
     and_then (state_at height) (\<lambda>st.
     case st of Some st \<Rightarrow> checked_sub (total_granted st) (total_released st) | None \<Rightarrow> Ok 0))"

subsection \<open>The ownership interface\<close>

definition vesting_owner_of :: "vesting \<Rightarrow> addr" where
  "vesting_owner_of s = (case v_config s of Some cfg \<Rightarrow> vc_owner cfg | None \<Rightarrow> [])"

interpretation vesting_ownable: ownable vesting_owner_of v_proposal
  "\<lambda>env info n e s. map_ok fst (vesting_propose_new_owner d env info n e s)"
  "\<lambda>info s. map_ok fst (vesting_drop_ownership_proposal info s)"
  "\<lambda>env info s. map_ok fst (vesting_claim_ownership env info s)" for d :: "('d) deps_scheme"
  by unfold_locales
    (auto simp: vesting_propose_new_owner_def vesting_drop_ownership_proposal_def
      vesting_claim_ownership_def load_vesting_config_def vesting_owner_of_def propose_new_owner_Ok
      claim_ownership_Ok drop_ownership_proposal_def)

end
