(* ===== verification/Vesting_Proofs.thy ===== *)
theory Vesting_Proofs
  imports Vesting_Base
begin

text \<open>
  The library of the vesting contracts: the vesting curve of a schedule and its implementation,
  the invariant of the books (totals are sums over the accounts, nobody has more released than has
  vested), its preservation by every operation, and the ownership interface.
\<close>

subsection \<open>The vesting curve\<close>

definition schedule_vested :: "vesting_schedule \<Rightarrow> nat \<Rightarrow> nat" where
  "schedule_vested sch t =
     (let ts = unat (point_time (start_point sch)); as = unat (point_amount (start_point sch)) in
      if t < ts then 0
      else as + (case end_point sch of
          None \<Rightarrow> 0
        | Some e \<Rightarrow> (min t (unat (point_time e)) - ts) * (unat (point_amount e) - as)
                     div (unat (point_time e) - ts)))"

definition vested_total :: "vesting_schedule list \<Rightarrow> nat \<Rightarrow> nat" where
  "vested_total ss t = sum_list (map (\<lambda>sch. schedule_vested sch t) ss)"

lemma vested_total_simps [simp]:
  "vested_total [] t = 0"
  "vested_total (sch # ss) t = schedule_vested sch t + vested_total ss t"
  "vested_total (ss @ rs) t = vested_total ss t + vested_total rs t"
  by (simp_all add: vested_total_def)

lemma linear_part_le:
  fixes p d n :: nat
  assumes "p \<le> d"
  shows "p * n div d \<le> n"
proof (cases "d = 0")
  case False
  have "p * n div d \<le> d * n div d" using assms by (intro div_le_mono mult_le_mono1)
  then show ?thesis using False by simp
qed simp

lemma add_le_of_le_diff: "x \<le> e - a \<Longrightarrow> a \<le> e \<Longrightarrow> a + x \<le> (e :: nat)"
  by simp

lemma schedule_vested_le:
  assumes "schedule_valid sch"
  shows "schedule_vested sch t \<le> unat (schedule_amount sch)"
proof (cases "end_point sch")
  case None
  then show ?thesis by (simp add: schedule_vested_def schedule_amount_def Let_def)
next
  case (Some e)
  have "(min t (unat (point_time e)) - unat (point_time (start_point sch)))
      * (unat (point_amount e) - unat (point_amount (start_point sch)))
      div (unat (point_time e) - unat (point_time (start_point sch)))
      \<le> unat (point_amount e) - unat (point_amount (start_point sch))"
    by (rule linear_part_le) simp
  moreover have "unat (point_amount (start_point sch)) \<le> unat (point_amount e)"
    using assms Some by (simp add: schedule_valid_def word_less_nat_alt)
  ultimately show ?thesis
    using Some add_le_of_le_diff by (simp add: schedule_vested_def schedule_amount_def Let_def)
qed

lemma schedule_vested_mono: "t \<le> t' \<Longrightarrow> schedule_vested sch t \<le> schedule_vested sch t'"
  by (auto simp: schedule_vested_def Let_def split: option.split intro!: div_le_mono mult_le_mono1)

lemma schedule_vested_end:
  assumes "schedule_valid sch" and "unat (point_time (start_point sch)) \<le> t"
    and "\<And>e. end_point sch = Some e \<Longrightarrow> unat (point_time e) \<le> t"
  shows "schedule_vested sch t = unat (schedule_amount sch)"
  using assms by (auto simp: schedule_vested_def schedule_amount_def Let_def schedule_valid_def
      word_less_nat_alt split: option.splits)

lemma vested_total_le:
  "list_all schedule_valid ss \<Longrightarrow> vested_total ss t \<le> schedules_total ss"
  by (induction ss) (auto intro: add_mono schedule_vested_le)

lemma vested_total_mono: "t \<le> t' \<Longrightarrow> vested_total ss t \<le> vested_total ss t'"
  by (induction ss) (auto intro: add_mono schedule_vested_mono)

lemma add_available_Ok:
  assumes "add_available now acc sch = Ok n"
  shows "unat n = unat acc + schedule_vested sch (unat now)"
proof (cases "now < point_time (start_point sch)")
  case True
  then show ?thesis using assms
    by (simp add: add_available_def schedule_vested_def word_less_nat_alt)
next
  case False
  have m: "unat (min now x) = min (unat now) (unat x)" for x
    by (simp add: min_def word_le_nat_alt)
  from False assms show ?thesis
    unfolding add_available_def schedule_vested_def
    by (auto simp: Let_def word_less_nat_alt m unat_eq_0 split: option.splits if_split_asm)
qed

lemma available_loop_Ok:
  "try_fold (add_available now) acc ss = Ok n \<Longrightarrow> unat n = unat acc + vested_total ss (unat now)"
  by (induction ss arbitrary: acc) (auto dest!: add_available_Ok)

lemma compute_available_Ok:
  "compute_available_amount now vi = Ok n \<Longrightarrow>
   unat n + unat (released_amount vi) = vested_total (schedules vi) (unat now)"
  by (auto simp: compute_available_amount_def dest!: available_loop_Ok)

lemma add_available_total:
  assumes "schedule_valid sch" and "unat acc + unat (schedule_amount sch) < 2 ^ 128"
  shows "\<exists>n. add_available now acc sch = Ok n"
proof (cases "now < point_time (start_point sch)")
  case True
  then show ?thesis by (simp add: add_available_def)
next
  case False
  let ?s = "start_point sch"
  have start: "unat acc + unat (point_amount ?s) < 2 ^ 128"
    using assms by (auto simp: schedule_amount_def schedule_valid_def word_less_nat_alt split: option.splits)
  then obtain acc1 where a1: "checked_add acc (point_amount ?s) = Ok acc1"
    using word_of_nat_ex [where 'a = 128] by fastforce
  show ?thesis
  proof (cases "end_point sch")
    case None
    then show ?thesis using False a1 by (simp add: add_available_def del: checked_add_Ok_iff)
  next
    case (Some e)
    have lt: "unat (point_time ?s) < unat (point_time e)" "unat (point_amount ?s) < unat (point_amount e)"
      using assms(1) Some by (auto simp: schedule_valid_def word_less_nat_alt)
    have m: "unat (min now (point_time e)) = min (unat now) (unat (point_time e))"
      by (simp add: min_def word_le_nat_alt)
    obtain p where p: "sub_panic (min now (point_time e)) (point_time ?s) = (Ok p :: (std_error, u64) result)"
      using False lt m by (auto simp: sub_panic_def word_less_nat_alt simp del: sub_panic_Ok_iff)
    obtain q where q: "sub_panic (point_time e) (point_time ?s) = (Ok q :: (std_error, u64) result)"
      using lt by (auto simp: sub_panic_def simp del: sub_panic_Ok_iff)
    obtain d where d: "checked_sub (point_amount e) (point_amount ?s) = Ok d"
      using lt by (auto simp: checked_sub_def simp del: checked_sub_Ok_iff)
    note eqs = iffD1 [OF sub_panic_Ok_iff p] iffD1 [OF sub_panic_Ok_iff q] iffD1 [OF checked_sub_Ok_iff d]
    have up: "unat p \<le> unat q" using eqs(1,2) m by simp
    have uq: "0 < unat q" using eqs(2) lt by simp
    have ud: "unat d = unat (point_amount e) - unat (point_amount ?s)" using eqs(3) by simp
    have r: "unat p * unat d div unat q \<le> unat d" using up by (rule linear_part_le)
    then have "unat p * unat d div unat q < 2 ^ 128"
      using unat_le_u128_max [of d] by (rule le_less_trans)
    then obtain w :: u128 where w: "unat w = unat p * unat d div unat q"
      using word_of_nat_ex [where 'a = 128] by fastforce
    have mr: "multiply_ratio (widen p) (unat d) (unat q) = (Ok w :: (std_error, u128) result)"
      using w uq by simp
    have "unat acc1 + unat w < 2 ^ 128"
      using a1 r w ud lt assms(2) Some by (simp add: schedule_amount_def)
    then obtain z where z: "checked_add acc1 w = Ok z"
      using word_of_nat_ex [where 'a = 128] by fastforce
    have "add_available now acc sch = (if p \<noteq> 0 \<and> q \<noteq> 0 then Ok z else Ok acc1)"
      using False Some by (simp add: add_available_def a1 p q d mr z del: uint_simps and_then_Ok_iff)
    then show ?thesis by auto
  qed
qed

lemma available_loop_total:
  assumes "list_all schedule_valid ss" and "unat acc + schedules_total ss < 2 ^ 128"
  shows "\<exists>n. try_fold (add_available now) acc ss = Ok n"
  using assms
proof (induction ss arbitrary: acc)
  case (Cons sch ss)
  obtain n where n: "add_available now acc sch = Ok n"
    using add_available_total [of sch acc now] Cons.prems by auto
  have "unat n + schedules_total ss < 2 ^ 128"
    using add_available_Ok [OF n] schedule_vested_le [of sch "unat now"] Cons.prems by simp
  then show ?case using Cons.IH [of n] Cons.prems(1) by (simp add: n)
qed simp

lemma compute_available_total:
  assumes "list_all schedule_valid (schedules vi)" and "schedules_total (schedules vi) < 2 ^ 128"
    and "unat (released_amount vi) \<le> vested_total (schedules vi) (unat now)"
  shows "\<exists>n. compute_available_amount now vi = Ok n"
proof -
  obtain m where m: "try_fold (add_available now) 0 (schedules vi) = Ok m"
    using available_loop_total [of "schedules vi" 0 now] assms(1,2) by auto
  then have "unat m = vested_total (schedules vi) (unat now)" by (auto dest: available_loop_Ok)
  then have "\<exists>n. checked_sub m (released_amount vi) = Ok n"
    using assms(3) by (simp add: checked_sub_def del: checked_sub_Ok_iff)
  then show ?thesis by (simp add: compute_available_amount_def m del: checked_sub_Ok_iff)
qed

lemma add_schedule_amounts_Ok:
  "add_schedule_amounts n ss = Ok m \<Longrightarrow> unat m = unat n + schedules_total ss"
  unfolding add_schedule_amounts_def
  by (induction ss arbitrary: n) (auto simp: schedule_amount_def split: option.splits)

lemma assert_vesting_schedules_Ok:
  "assert_vesting_schedules a ss = Ok u \<longleftrightarrow> list_all schedule_valid ss"
  unfolding assert_vesting_schedules_def by (induction ss) auto

subsection \<open>The books\<close>

definition granted_sum :: "(addr, vesting_info) store \<Rightarrow> nat" where
  "granted_sum infos = store_sum (\<lambda>_ vi. schedules_total (schedules vi)) infos"

definition released_sum :: "(addr, vesting_info) store \<Rightarrow> nat" where
  "released_sum infos = store_sum (\<lambda>_ vi. unat (released_amount vi)) infos"

definition account_ok :: "nat \<Rightarrow> vesting_info \<Rightarrow> bool" where
  "account_ok t vi \<longleftrightarrow> list_all schedule_valid (schedules vi) \<and>
     unat (released_amount vi) \<le> vested_total (schedules vi) t"

definition infos_ok :: "nat \<Rightarrow> (addr, vesting_info) store \<Rightarrow> bool" where
  "infos_ok t infos \<longleftrightarrow> store_ok infos \<and> (\<forall>a vi. map_of infos a = Some vi \<longrightarrow> account_ok t vi)"

definition vesting_books :: "nat \<Rightarrow> vesting \<Rightarrow> bool" where
  "vesting_books t s \<longleftrightarrow> infos_ok t (v_infos s) \<and>
     (case v_state s of None \<Rightarrow> v_infos s = []
      | Some st \<Rightarrow> unat (total_granted st) = granted_sum (v_infos s) \<and>
                   unat (total_released st) = released_sum (v_infos s))"

text \<open>Books that are off by a slack: \<open>k\<close> in the granted and \<open>j\<close> in the released total. A migration of
  an account to another contract leaves such books; every operation keeps the slack.\<close>

definition vesting_slack :: "nat \<Rightarrow> nat \<Rightarrow> nat \<Rightarrow> vesting \<Rightarrow> bool" where
  "vesting_slack t k j s \<longleftrightarrow> infos_ok t (v_infos s) \<and>
     (case v_state s of None \<Rightarrow> v_infos s = [] \<and> k = 0 \<and> j = 0
      | Some st \<Rightarrow> unat (total_granted st) = granted_sum (v_infos s) + k \<and>
                   unat (total_released st) = released_sum (v_infos s) + j)"

lemma vesting_slack_0: "vesting_slack t 0 0 s = vesting_books t s"
  by (simp add: vesting_slack_def vesting_books_def split: option.split)

lemma sums_Nil [simp]: "granted_sum [] = 0" "released_sum [] = 0"
  by (simp_all add: granted_sum_def released_sum_def)

lemma infos_ok_load: "infos_ok t infos \<Longrightarrow> map_of infos a = Some vi \<Longrightarrow> account_ok t vi"
  by (auto simp: infos_ok_def)

lemma infos_ok_save: "infos_ok t infos \<Longrightarrow> account_ok t vi \<Longrightarrow> infos_ok t (save a vi infos)"
  by (auto simp: infos_ok_def store_simps)

lemma infos_ok_remove: "infos_ok t infos \<Longrightarrow> infos_ok t (remove a infos)"
  by (auto simp: infos_ok_def store_simps split: if_splits)

lemma account_ok_later: "account_ok t vi \<Longrightarrow> t \<le> t' \<Longrightarrow> account_ok t' vi"
  unfolding account_ok_def by (meson le_trans vested_total_mono)

lemma vesting_books_later: "vesting_books t s \<Longrightarrow> t \<le> t' \<Longrightarrow> vesting_books t' s"
  unfolding vesting_books_def infos_ok_def by (meson account_ok_later)

lemma account_ok_released_le:
  "account_ok t vi \<Longrightarrow> unat (released_amount vi) \<le> schedules_total (schedules vi)"
  unfolding account_ok_def by (meson le_trans vested_total_le)

lemma released_le_granted: "infos_ok t infos \<Longrightarrow> released_sum infos \<le> granted_sum infos"
  unfolding released_sum_def granted_sum_def infos_ok_def
  by (intro store_sum_mono) (meson account_ok_released_le store_ok_map_of)

lemma sums_insert:
  assumes "store_ok infos" and "map_of infos a = None"
  shows "granted_sum (save a vi infos) = granted_sum infos + schedules_total (schedules vi)"
    and "released_sum (save a vi infos) = released_sum infos + unat (released_amount vi)"
  unfolding granted_sum_def released_sum_def by (simp_all add: cw.total_insert [OF assms])

lemma sums_update:
  assumes "store_ok infos" and "map_of infos a = Some w"
  shows "granted_sum (save a vi infos) + schedules_total (schedules w)
       = granted_sum infos + schedules_total (schedules vi)"
    and "released_sum (save a vi infos) + unat (released_amount w)
       = released_sum infos + unat (released_amount vi)"
  unfolding granted_sum_def released_sum_def
  using cw.total_save [OF assms(1), of _ a vi] assms(2) by simp_all

lemma sums_remove:
  assumes "store_ok infos" and "map_of infos a = Some w"
  shows "granted_sum (remove a infos) + schedules_total (schedules w) = granted_sum infos"
    and "released_sum (remove a infos) + unat (released_amount w) = released_sum infos"
  unfolding granted_sum_def released_sum_def by (rule cw.total_delete [OF assms])+

subsection \<open>Registration\<close>

lemma register_account_ok:
  assumes "register_account d (n, infos) va = Ok (n', infos')" and "infos_ok t infos"
  shows "infos_ok t infos' \<and> unat n' = unat n + schedules_total (account_schedules va) \<and>
    granted_sum infos' = granted_sum infos + schedules_total (account_schedules va) \<and>
    released_sum infos' = released_sum infos"
proof -
  from assms(1) obtain a where valid: "list_all schedule_valid (account_schedules va)"
    and n': "unat n' = unat n + schedules_total (account_schedules va)"
    and infos': "infos' = (case may_load infos a of
           Some old \<Rightarrow> save a \<lparr>schedules = account_schedules va @ schedules old,
                              released_amount = released_amount old\<rparr> infos
         | None \<Rightarrow> save a \<lparr>schedules = account_schedules va, released_amount = 0\<rparr> infos)"
    by (auto simp: register_account_def assert_vesting_schedules_Ok dest!: add_schedule_amounts_Ok)
  have ok: "store_ok infos" using assms(2) by (simp add: infos_ok_def)
  show ?thesis
  proof (cases "map_of infos a")
    case None
    have "infos_ok t infos'"
      unfolding infos' None option.case
      by (rule infos_ok_save [OF assms(2)]) (simp add: account_ok_def valid)
    then show ?thesis using sums_insert [OF ok None] n' by (simp add: infos' None)
  next
    case (Some old)
    have "account_ok t old" by (rule infos_ok_load [OF assms(2) Some])
    then have "infos_ok t infos'"
      unfolding infos' Some option.case
      by (intro infos_ok_save [OF assms(2)]) (simp add: account_ok_def valid)
    then show ?thesis
      using sums_update [OF ok Some, of "\<lparr>schedules = account_schedules va @ schedules old,
          released_amount = released_amount old\<rparr>"] n' by (simp add: infos' Some)
  qed
qed

lemma register_loop_ok:
  assumes "try_fold (register_account d) (n, infos) accounts = Ok (n', infos')" and "infos_ok t infos"
  shows "infos_ok t infos' \<and> unat n' = unat n + accounts_total accounts \<and>
    granted_sum infos' = granted_sum infos + accounts_total accounts \<and>
    released_sum infos' = released_sum infos"
  using assms
proof (induction accounts arbitrary: n infos)
  case (Cons va accounts)
  from Cons.prems(1) obtain m js where step: "register_account d (n, infos) va = Ok (m, js)"
    and rest: "try_fold (register_account d) (m, js) accounts = Ok (n', infos')"
    by fastforce
  note one = register_account_ok [OF step Cons.prems(2)]
  show ?case using Cons.IH [OF rest] one by simp
qed simp

lemma register_vesting_accounts_slack:
  assumes "register_vesting_accounts d accounts amount s = Ok (s', ms)" and "vesting_slack t k j s"
  shows "vesting_slack t k j s' \<and> ms = [] \<and> unat amount = accounts_total accounts \<and>
    granted_sum (v_infos s') = granted_sum (v_infos s) + unat amount \<and>
    released_sum (v_infos s') = released_sum (v_infos s) \<and>
    v_config s' = v_config s \<and> v_managers s' = v_managers s \<and> v_proposal s' = v_proposal s"
proof -
  from assms(1) obtain infos g where
    loop: "try_fold (register_account d) (0, v_infos s) accounts = Ok (amount, infos)"
    and g: "unat g = unat (total_granted (unwrap_or (v_state s) vesting_state_default)) + unat amount"
    and s': "s' = s\<lparr>v_infos := infos,
      v_state := Some ((unwrap_or (v_state s) vesting_state_default)\<lparr>total_granted := g\<rparr>)\<rparr>" "ms = []"
    unfolding register_vesting_accounts_def by (auto simp: Let_def split: prod.splits)
  have ok: "infos_ok t (v_infos s)" using assms(2) by (simp add: vesting_slack_def)
  note l = register_loop_ok [OF loop ok]
  have "vesting_slack t k j s'"
    using assms(2) l g by (cases "v_state s") (auto simp: s' vesting_slack_def vesting_state_default_def)
  then show ?thesis using l by (simp add: s')
qed

subsection \<open>Claims and clawbacks\<close>

lemma vesting_claim_inversion:
  assumes "vesting_claim env info recipient amount s = Ok (s', ms)"
  obtains cfg token vi available n where
    "v_config s = Some cfg" "vesting_token cfg = Some token" "map_of (v_infos s) (sender info) = Some vi"
    "compute_available_amount (block_time env) vi = Ok available" "n \<le> available"
    "n = (case amount of Some a \<Rightarrow> a | None \<Rightarrow> available)"
    "n = 0 \<and> s' = s \<and> ms = [] \<or>
     n \<noteq> 0 \<and> (\<exists>m r st tr. into_msg (with_balance token n) (unwrap_or recipient (sender info)) = Ok m \<and>
       unat r = unat (released_amount vi) + unat n \<and> v_state s = Some st \<and>
       unat tr = unat (total_released st) + unat n \<and> ms = [m] \<and>
       s' = s\<lparr>v_infos := save (sender info) (vi\<lparr>released_amount := r\<rparr>) (v_infos s),
              v_state := Some (st\<lparr>total_released := tr\<rparr>)\<rparr>)"
proof -
  from assms obtain cfg token vi available n where 1:
    "v_config s = Some cfg" "vesting_token cfg = Some token" "map_of (v_infos s) (sender info) = Some vi"
    "compute_available_amount (block_time env) vi = Ok available"
    and n: "(case amount of Some a \<Rightarrow> if available < a then Err AmountIsNotAvailable else Ok a
       | None \<Rightarrow> Ok available) = Ok n"
    and 2: "n = 0 \<and> s' = s \<and> ms = [] \<or>
     n \<noteq> 0 \<and> (\<exists>m r st tr. into_msg (with_balance token n) (unwrap_or recipient (sender info)) = Ok m \<and>
       unat r = unat (released_amount vi) + unat n \<and> v_state s = Some st \<and>
       unat tr = unat (total_released st) + unat n \<and> ms = [m] \<and>
       s' = s\<lparr>v_infos := save (sender info) (vi\<lparr>released_amount := r\<rparr>) (v_infos s),
              v_state := Some (st\<lparr>total_released := tr\<rparr>)\<rparr>)"
    unfolding vesting_claim_def load_vesting_config_def get_vesting_token_def load_vesting_info_def
    by (clarsimp split: if_split_asm) blast+
  have "n \<le> available \<and> n = (case amount of Some a \<Rightarrow> a | None \<Rightarrow> available)"
    using n by (auto split: option.splits if_split_asm)
  then show thesis using that 1 2 by blast
qed

lemma vesting_claim_slack:
  assumes "vesting_claim env info recipient amount s = Ok (s', ms)"
    and "vesting_slack (unat (block_time env)) k j s" and "v_config s = Some cfg" and "vesting_token cfg = Some token"
  shows "vesting_slack (unat (block_time env)) k j s' \<and>
    released_sum (v_infos s') = released_sum (v_infos s) + asset_paid token ms \<and>
    granted_sum (v_infos s') = granted_sum (v_infos s) \<and>
    v_config s' = v_config s \<and> v_managers s' = v_managers s \<and> v_proposal s' = v_proposal s"
  using assms(1)
proof (rule vesting_claim_inversion, goal_cases)
  case (1 c tk vi available n)
  have tk: "tk = token" using 1(1,2) assms(3,4) by simp
  have ok: "infos_ok (unat (block_time env)) (v_infos s)" using assms(2) by (simp add: vesting_slack_def)
  then have sok: "store_ok (v_infos s)" by (simp add: infos_ok_def)
  show ?case
  proof (cases "n = 0")
    case True
    then show ?thesis using 1(7) assms(2) by simp
  next
    case False
    then obtain m r st tr where m: "into_msg (with_balance token n) (unwrap_or recipient (sender info)) = Ok m"
      and r: "unat r = unat (released_amount vi) + unat n" and st: "v_state s = Some st"
      and tr: "unat tr = unat (total_released st) + unat n" and ms: "ms = [m]"
      and s': "s' = s\<lparr>v_infos := save (sender info) (vi\<lparr>released_amount := r\<rparr>) (v_infos s),
              v_state := Some (st\<lparr>total_released := tr\<rparr>)\<rparr>"
      using 1(7) tk by blast
    have "unat r \<le> vested_total (schedules vi) (unat (block_time env))"
      using compute_available_Ok [OF 1(4)] r 1(5) by (simp add: word_le_nat_alt)
    then have "account_ok (unat (block_time env)) (vi\<lparr>released_amount := r\<rparr>)"
      using infos_ok_load [OF ok 1(3)] by (simp add: account_ok_def)
    then have "infos_ok (unat (block_time env)) (v_infos s')"
      by (simp add: s' infos_ok_save [OF ok])
    then show ?thesis
      using sums_update [OF sok 1(3), of "vi\<lparr>released_amount := r\<rparr>"] assms(2) st r tr into_msg_paid [OF m]
      by (simp add: s' ms vesting_slack_def)
  qed
qed

lemma remove_vesting_account_slack:
  assumes "remove_vesting_account d token clawback (s, ms) account = Ok (s', ms')" and "vesting_slack t k j s"
  shows "vesting_slack t k j s' \<and>
    granted_sum (v_infos s') + released_sum (v_infos s) + asset_paid token ms'
      = granted_sum (v_infos s) + released_sum (v_infos s') + asset_paid token ms \<and>
    v_config s' = v_config s \<and> v_managers s' = v_managers s \<and> v_proposal s' = v_proposal s \<and>
    (\<exists>a. addr_validate d account = Ok a \<and> map_of (v_infos s') a = None \<and>
       (\<forall>b. b \<noteq> a \<longrightarrow> map_of (v_infos s') b = map_of (v_infos s) b))"
proof -
  from assms(1) obtain a where a: "addr_validate d account = Ok a"
    unfolding remove_vesting_account_def by auto
  have ok: "infos_ok t (v_infos s)" using assms(2) by (simp add: vesting_slack_def)
  then have sok: "store_ok (v_infos s)" by (simp add: infos_ok_def)
  show ?thesis
  proof (cases "map_of (v_infos s) a")
    case None
    then show ?thesis using assms a by (auto simp: remove_vesting_account_def)
  next
    case (Some vi)
    with assms(1) a obtain g b m st tg tr where
      g: "add_schedule_amounts 0 (schedules vi) = Ok g" and b: "checked_sub g (released_amount vi) = Ok b"
      and m: "into_msg (with_balance token b) clawback = Ok m" and st: "v_state s = Some st"
      and tg: "checked_sub (total_granted st) g = Ok tg"
      and tr: "checked_sub (total_released st) (released_amount vi) = Ok tr"
      and s': "s' = s\<lparr>v_state := Some \<lparr>total_granted = tg, total_released = tr\<rparr>,
               v_infos := remove a (v_infos s)\<rparr>" and ms': "ms' = ms @ [m]"
      unfolding remove_vesting_account_def by (auto simp del: uint_simps)
    have "infos_ok t (v_infos s')" by (simp add: s' infos_ok_remove [OF ok])
    then show ?thesis
      using sums_remove [OF sok Some] assms(2) st add_schedule_amounts_Ok [OF g] b tg tr into_msg_paid [OF m] a
      by (auto simp: s' ms' vesting_slack_def map_of_remove [OF sok])
  qed
qed

lemma remove_loop_slack:
  assumes "try_fold (remove_vesting_account d token clawback) (s, ms) accounts = Ok (s', ms')"
    and "vesting_slack t k j s"
  shows "vesting_slack t k j s' \<and>
    granted_sum (v_infos s') + released_sum (v_infos s) + asset_paid token ms'
      = granted_sum (v_infos s) + released_sum (v_infos s') + asset_paid token ms \<and>
    v_config s' = v_config s \<and> v_managers s' = v_managers s \<and> v_proposal s' = v_proposal s"
  using assms
proof (induction accounts arbitrary: s ms)
  case (Cons account accounts)
  from Cons.prems(1) obtain r ks where step: "remove_vesting_account d token clawback (s, ms) account = Ok (r, ks)"
    and rest: "try_fold (remove_vesting_account d token clawback) (r, ks) accounts = Ok (s', ms')"
    by fastforce
  note one = remove_vesting_account_slack [OF step Cons.prems(2)]
  show ?case using Cons.IH [OF rest] one by simp
qed simp

text \<open>The tokens a call brings in.\<close>

fun vesting_received :: "asset_info \<Rightarrow> message_info \<Rightarrow> vesting_execute_msg \<Rightarrow> nat" where
  "vesting_received token info (VReceive s n hook) = unat n"
| "vesting_received (NativeToken denom) info (VRegister accounts) = coins_total denom (funds info)"
| "vesting_received token info m = 0"

text \<open>Every operation keeps the books and moves exactly what they say.\<close>

lemma vesting_execute_slack:
  assumes "vesting_execute d env info m s = Ok (s', ms)" and "vesting_slack (unat (block_time env)) k j s"
    and "must_pay_law d"
  shows "vesting_slack (unat (block_time env)) k j s'"
    and "v_config s = Some cfg \<Longrightarrow> vesting_token cfg = Some token \<Longrightarrow>
      granted_sum (v_infos s') + released_sum (v_infos s) + asset_paid token ms
        = granted_sum (v_infos s) + released_sum (v_infos s') + vesting_received token info m"
    and "v_config s = Some cfg \<Longrightarrow> vesting_token cfg = None \<Longrightarrow> ms = [] \<and> v_infos s' = v_infos s"
proof -
  let ?t = "unat (block_time env)"
  have books_cong: "vesting_slack ?t k j s'" if "v_infos s' = v_infos s" "v_state s' = v_state s"
    using assms(2) that by (auto simp: vesting_slack_def split: option.splits)
  have "vesting_slack ?t k j s' \<and>
    (\<forall>cfg token. v_config s = Some cfg \<longrightarrow> vesting_token cfg = Some token \<longrightarrow>
      granted_sum (v_infos s') + released_sum (v_infos s) + asset_paid token ms
        = granted_sum (v_infos s) + released_sum (v_infos s') + vesting_received token info m) \<and>
    (\<forall>cfg. v_config s = Some cfg \<longrightarrow> vesting_token cfg = None \<longrightarrow> ms = [] \<and> v_infos s' = v_infos s)"
    (is "?goal")
  proof (cases m)
    case (VClaim r n)
    then have c: "vesting_claim env info r n s = Ok (s', ms)" using assms(1) by simp
    then obtain cfg token where ct: "v_config s = Some cfg" "vesting_token cfg = Some token"
      by (rule vesting_claim_inversion) blast
    then show ?thesis using vesting_claim_slack [OF c assms(2) ct] VClaim by simp
  next
    case (VReceive cs n hook)
    with assms(1) obtain accounts cfg token where "register_vesting_accounts d accounts n s = Ok (s', ms)"
      "v_config s = Some cfg" "vesting_token cfg = Some token"
      by (auto simp: receive_cw20_def load_vesting_config_def get_vesting_token_def split: cw20_hook.splits)
    then show ?thesis using register_vesting_accounts_slack [OF _ assms(2)] VReceive by fastforce
  next
    case (VRegister accounts)
    with assms(1) obtain n cfg denom where "register_vesting_accounts d accounts n s = Ok (s', ms)"
      and c: "v_config s = Some cfg" "vesting_token cfg = Some (NativeToken denom)" "must_pay d info denom = Ok n"
      by (auto simp: execute_register_vesting_accounts_def load_vesting_config_def get_vesting_token_def
          native_only_Ok_iff)
    moreover have "coins_total denom (funds info) = unat n"
      using assms(3) c(3) by (simp add: must_pay_law_def)
    ultimately show ?thesis using register_vesting_accounts_slack [OF _ assms(2)] VRegister by fastforce
  next
    case (VRemoveVestingAccounts accounts clawback)
    with assms(1) obtain a cfg token where loop:
      "try_fold (remove_vesting_account d token a) (s, []) accounts = Ok (s', ms)"
      "v_config s = Some cfg" "vesting_token cfg = Some token"
      by (auto simp: handle_execute_managed_msg_def remove_vesting_accounts_def load_vesting_config_def
          get_vesting_token_def)
    then show ?thesis using remove_loop_slack [OF loop(1) assms(2)] VRemoveVestingAccounts by simp
  qed (use assms(1) books_cong in \<open>auto simp: vesting_propose_new_owner_def
      vesting_drop_ownership_proposal_def vesting_claim_ownership_def set_vesting_token_def
      handle_execute_with_managers_msg_def add_vesting_managers_def remove_vesting_managers_def
      split: prod.splits\<close>)
  then show "vesting_slack ?t k j s'"
    and "v_config s = Some cfg \<Longrightarrow> vesting_token cfg = Some token \<Longrightarrow>
      granted_sum (v_infos s') + released_sum (v_infos s) + asset_paid token ms
        = granted_sum (v_infos s) + released_sum (v_infos s') + vesting_received token info m"
    and "v_config s = Some cfg \<Longrightarrow> vesting_token cfg = None \<Longrightarrow> ms = [] \<and> v_infos s' = v_infos s"
    by blast+
qed

text \<open>Without slack these are the facts on the books.\<close>

lemmas register_vesting_accounts_ok = register_vesting_accounts_slack [where k = 0 and j = 0, unfolded vesting_slack_0]
lemmas vesting_claim_ok = vesting_claim_slack [where k = 0 and j = 0, unfolded vesting_slack_0]
lemmas remove_vesting_account_ok = remove_vesting_account_slack [where k = 0 and j = 0, unfolded vesting_slack_0]
lemmas remove_loop_ok = remove_loop_slack [where k = 0 and j = 0, unfolded vesting_slack_0]
lemmas vesting_execute_books = vesting_execute_slack [where k = 0 and j = 0, unfolded vesting_slack_0]

end
