(* ===== verification/Vesting_Properties.thy ===== *)
theory Vesting_Properties
  imports Vesting_Proofs
begin

text \<open>
  The properties of the vesting library, over the states that a deployed contract can reach and on
  a concrete run at which they are witnessed.
\<close>

subsection \<open>Reachable states\<close>

definition vesting_token_of :: "vesting \<Rightarrow> asset_info option" where
  "vesting_token_of s = (case v_config s of Some cfg \<Rightarrow> vesting_token cfg | None \<Rightarrow> None)"

definition token_in :: "vesting \<Rightarrow> message_info \<Rightarrow> vesting_execute_msg \<Rightarrow> nat" where
  "token_in s info m = (case vesting_token_of s of Some token \<Rightarrow> vesting_received token info m | None \<Rightarrow> 0)"

definition token_out :: "vesting \<Rightarrow> msg list \<Rightarrow> nat" where
  "token_out s ms = (case vesting_token_of s of Some token \<Rightarrow> asset_paid token ms | None \<Rightarrow> 0)"

text \<open>The states of a deployed contract, with the time of the last block and the vesting tokens that
  the contract holds.\<close>

inductive vesting_reachable :: "vesting_deps \<Rightarrow> u64 \<Rightarrow> nat \<Rightarrow> vesting \<Rightarrow> bool" for d where
  start: "builder_build b d owner manager vesting_empty = Ok s \<Longrightarrow> vesting_reachable d t 0 s"
| call: "vesting_reachable d t held s \<Longrightarrow> t \<le> block_time env \<Longrightarrow>
     vesting_execute d env info m s = Ok (s', ms) \<Longrightarrow>
     vesting_reachable d (block_time env) (held + token_in s info m - token_out s ms) s'"
| gift: "vesting_reachable d t held s \<Longrightarrow> vesting_reachable d t (held + n) s"

lemma vesting_config_stays:
  assumes "vesting_execute d env info m s = Ok (s', ms)" and "v_config s = Some cfg"
    and "vesting_slack (unat (block_time env)) k j s"
  shows "\<exists>cfg'. v_config s' = Some cfg' \<and> (vesting_token cfg \<noteq> None \<longrightarrow> vesting_token cfg' = vesting_token cfg)"
proof (cases m)
  case (VClaim r n)
  then have c: "vesting_claim env info r n s = Ok (s', ms)" using assms(1) by simp
  then obtain c' token where "v_config s = Some c'" "vesting_token c' = Some token"
    by (rule vesting_claim_inversion) blast
  then show ?thesis using vesting_claim_slack [OF c assms(3)] assms(2) by simp
next
  case (VReceive cs n hook)
  with assms(1) obtain accounts where "register_vesting_accounts d accounts n s = Ok (s', ms)"
    by (auto simp: receive_cw20_def split: cw20_hook.splits)
  then show ?thesis using register_vesting_accounts_slack [OF _ assms(3)] assms(2) by fastforce
next
  case (VRegister accounts)
  with assms(1) obtain n where "register_vesting_accounts d accounts n s = Ok (s', ms)"
    by (auto simp: execute_register_vesting_accounts_def native_only_Ok_iff)
  then show ?thesis using register_vesting_accounts_slack [OF _ assms(3)] assms(2) by fastforce
next
  case (VRemoveVestingAccounts accounts clawback)
  with assms(1) obtain a token where "try_fold (remove_vesting_account d token a) (s, []) accounts = Ok (s', ms)"
    by (auto simp: handle_execute_managed_msg_def remove_vesting_accounts_def)
  then show ?thesis using remove_loop_slack [OF _ assms(3)] assms(2) by fastforce
qed (use assms(1,2) in \<open>auto simp: load_vesting_config_def vesting_propose_new_owner_def vesting_drop_ownership_proposal_def
      vesting_claim_ownership_def set_vesting_token_def handle_execute_with_managers_msg_def
      add_vesting_managers_def remove_vesting_managers_def split: prod.splits\<close>)

text \<open>Tokens that cover what the accounts are owed still do so after any call.\<close>

lemma vesting_held_step:
  assumes "vesting_execute d env info m s = Ok (s', ms)" and "must_pay_law d"
    and "vesting_slack (unat (block_time env)) k j s" and "v_config s \<noteq> None"
    and "granted_sum (v_infos s) \<le> held + released_sum (v_infos s)"
  shows "vesting_slack (unat (block_time env)) k j s' \<and> v_config s' \<noteq> None \<and>
    granted_sum (v_infos s') \<le> held + token_in s info m - token_out s ms + released_sum (v_infos s')"
proof -
  from assms(4) obtain cfg where cfg: "v_config s = Some cfg" by auto
  note step = vesting_execute_slack [OF assms(1,3,2)]
  have le: "released_sum (v_infos s) \<le> granted_sum (v_infos s)" "released_sum (v_infos s') \<le> granted_sum (v_infos s')"
    using assms(3) step(1) by (auto simp: vesting_slack_def intro: released_le_granted)
  have "granted_sum (v_infos s') \<le> held + token_in s info m - token_out s ms + released_sum (v_infos s')"
  proof (cases "vesting_token cfg")
    case None
    then show ?thesis using step(3) [OF cfg] assms(5)
      by (simp add: token_in_def token_out_def vesting_token_of_def cfg)
  next
    case (Some token)
    then have "token_in s info m = vesting_received token info m" "token_out s ms = asset_paid token ms"
      by (simp_all add: token_in_def token_out_def vesting_token_of_def cfg)
    then show ?thesis using step(2) [OF cfg Some] assms(5) le by linarith
  qed
  then show ?thesis using step(1) vesting_config_stays [OF assms(1) cfg assms(3)] by auto
qed

lemma vesting_reachable_inv:
  assumes "vesting_reachable d t held s" and "must_pay_law d"
  shows "vesting_books (unat t) s \<and> v_config s \<noteq> None \<and> 
    granted_sum (v_infos s) \<le> held + released_sum (v_infos s)"
  using assms(1)
proof (induction rule: vesting_reachable.induct)
  case (start b owner manager s t)
  then have "v_infos s = [] \<and> v_state s = None \<and> v_config s \<noteq> None"
    by (auto simp: builder_build_def vesting_empty_def Let_def split: if_split_asm)
  then show ?case by (simp add: vesting_books_def infos_ok_def)
next
  case (call t held s env info m s' ms)
  have "vesting_books (unat (block_time env)) s"
    using call by (auto simp: word_le_nat_alt intro: vesting_books_later)
  then show ?case
    using vesting_held_step [OF call(3) assms(2), where k = 0 and j = 0 and held = held] call.IH by (simp add: vesting_slack_0)
qed auto


subsection \<open>A run of a managed vesting contract\<close>

definition vr_deps :: vesting_deps where
  "vr_deps = \<lparr>addr_validate = Ok, bank_balance = (\<lambda>a d. Ok 0), cw20_balance = (\<lambda>c a. Ok 0),
     must_pay = (\<lambda>info denom. case funds info of
        [c] \<Rightarrow> if coin_denom c = denom \<and> coin_amount c \<noteq> 0 then Ok (coin_amount c) else Err ''MissingDenom''
      | _ \<Rightarrow> Err ''NoFunds'')\<rparr>"

lemma vr_must_pay: "must_pay_law vr_deps"
  by (auto simp: must_pay_law_def vr_deps_def split: list.splits if_splits)

lemma vr_validate: "addr_validate_identity vr_deps"
  by (simp add: addr_validate_identity_def vr_deps_def)

definition vr_env :: "u64 \<Rightarrow> env" where
  "vr_env t = \<lparr>block_time = t, block_height = 1, this_contract = ''vesting''\<rparr>"

definition vr_call :: "addr \<Rightarrow> message_info" where
  "vr_call a = \<lparr>sender = a, funds = []\<rparr>"

definition vr_config :: "asset_info option \<Rightarrow> vesting_config" where
  "vr_config token = \<lparr>vc_owner = ''dao'', vesting_token = token, vc_token_info_manager = ''manager'',
     ext_historical = False, ext_managed = True, ext_with_managers = True\<rparr>"

definition vr_schedule :: vesting_schedule where
  "vr_schedule = \<lparr>start_point = \<lparr>point_time = 100, point_amount = 500\<rparr>,
     end_point = Some \<lparr>point_time = 200, point_amount = 1500\<rparr>\<rparr>"

definition vr_accounts :: "vesting_account list" where
  "vr_accounts = [\<lparr>account_address = ''alice'', account_schedules = [vr_schedule]\<rparr>]"

definition vr_info :: "u128 \<Rightarrow> vesting_info" where
  "vr_info n = \<lparr>schedules = [vr_schedule], released_amount = n\<rparr>"

definition vr_fresh :: vesting where
  "vr_fresh = \<lparr>v_config = Some (vr_config None), v_proposal = None, v_managers = [(''auction'', ())],
     v_state = None, v_infos = []\<rparr>"

definition vr_ready :: vesting where
  "vr_ready = vr_fresh\<lparr>v_config := Some (vr_config (Some (Token ''lp'')))\<rparr>"

definition vr_registered :: vesting where
  "vr_registered = vr_ready\<lparr>v_state := Some \<lparr>total_granted = 1500, total_released = 0\<rparr>,
     v_infos := [(''alice'', vr_info 0)]\<rparr>"

definition vr_claimed :: vesting where
  "vr_claimed = vr_ready\<lparr>v_state := Some \<lparr>total_granted = 1500, total_released = 1000\<rparr>,
     v_infos := [(''alice'', vr_info 1000)]\<rparr>"

definition vr_removed :: vesting where
  "vr_removed = vr_ready\<lparr>v_state := Some \<lparr>total_granted = 0, total_released = 0\<rparr>, v_infos := []\<rparr>"

lemmas vr_defs = vr_deps_def vr_env_def vr_call_def vr_config_def vr_schedule_def vr_accounts_def
  vr_info_def vr_fresh_def vr_ready_def vr_registered_def vr_claimed_def vr_removed_def

lemmas vesting_ops = builder_build_def builder_default_def builder_managed_def builder_with_managers_def
  load_vesting_config_def get_vesting_token_def load_vesting_info_def is_sender_whitelisted_def
  schedule_valid_def assert_vesting_schedules_def add_schedule_amounts_def add_available_def
  compute_available_amount_def register_account_def register_vesting_accounts_def vesting_claim_def
  receive_cw20_def set_vesting_token_def vesting_propose_new_owner_def vesting_claim_ownership_def
  handle_execute_managed_msg_def remove_vesting_accounts_def remove_vesting_account_def
  vesting_state_default_def vesting_empty_def token_asset_info_def asset_check_def
  addr_validate_to_lower_def to_lowercase_def char_to_lower_def into_msg_cases with_balance_def has_def

lemma vr_step_start:
  "builder_build (builder_managed (builder_with_managers [''auction''] builder_default)) vr_deps
     ''dao'' ''manager'' vesting_empty = Ok vr_fresh"
  by (simp add: vesting_ops vr_defs)

lemma vr_step_ready:
  "vesting_execute vr_deps (vr_env 10) (vr_call ''manager'') (VSetVestingToken (Token ''lp'')) vr_fresh
     = Ok (vr_ready, [])"
  by (simp add: vesting_ops vr_defs)

lemma vr_step_registered:
  "receive_cw20 vr_deps (vr_call ''lp'') ''auction'' 1500 (RegisterVestingAccountsHook vr_accounts) vr_ready
     = Ok (vr_registered, [])"
  by (simp add: vesting_ops vr_defs eval_arith)

lemma vr_step_claimed:
  "vesting_claim (vr_env 150) (vr_call ''alice'') None None vr_registered
     = Ok (vr_claimed, [WasmExecute ''lp'' (Cw20Transfer ''alice'' 1000) []])"
  by (simp add: vesting_ops vr_defs eval_arith min_def)

lemma vr_step_removed:
  "vesting_execute vr_deps (vr_env 160) (vr_call ''dao'') (VRemoveVestingAccounts [''alice''] ''safe'') vr_claimed
     = Ok (vr_removed, [WasmExecute ''lp'' (Cw20Transfer ''safe'' 500) []])"
  by (simp add: vesting_ops vr_defs eval_arith)

lemma vr_env_time [simp]: "block_time (vr_env t) = t"
  by (simp add: vr_env_def)

lemma vr_reachable: "vesting_reachable vr_deps 150 500 vr_claimed"
proof -
  note call = vesting_reachable.call [where d = vr_deps]
  have "vesting_reachable vr_deps 5 0 vr_fresh"
    by (rule vesting_reachable.start [OF vr_step_start])
  from call [OF this _ vr_step_ready] have "vesting_reachable vr_deps 10 0 vr_ready"
    by (simp add: token_in_def token_out_def vesting_token_of_def vr_defs)
  from call [OF this, of "vr_env 20" "vr_call ''lp''" "VReceive ''auction'' 1500 (RegisterVestingAccountsHook vr_accounts)"
      vr_registered] vr_step_registered
  have "vesting_reachable vr_deps 20 1500 vr_registered"
    by (simp add: token_in_def token_out_def vesting_token_of_def vr_ready_def vr_config_def)
  from call [OF this, of "vr_env 150" "vr_call ''alice''" "VClaim None None" vr_claimed] vr_step_claimed
  show ?thesis
    by (simp add: token_in_def token_out_def vesting_token_of_def vr_registered_def vr_ready_def
        vr_config_def asset_paid_def)
qed

lemma vr_books: "vesting_books 150 vr_claimed"
  using vesting_reachable_inv [OF vr_reachable vr_must_pay] by simp

subsection \<open>Properties\<close>

text \<open>In every reachable state total_granted and total_released are the sums over the registered accounts.\<close>
theorem vesting_totals_are_sums:
  assumes "vesting_reachable d t held s" and "must_pay_law d" and "v_state s = Some st"
  shows "unat (total_granted st) = store_sum (\<lambda>_ vi. schedules_total (schedules vi)) (v_infos s) \<and>
    unat (total_released st) = store_sum (\<lambda>_ vi. unat (released_amount vi)) (v_infos s)"
  using vesting_reachable_inv [OF assms(1,2)] assms(3)
  by (simp add: vesting_books_def granted_sum_def released_sum_def)

theorem vesting_totals_are_sums_witness:
  "store_sum (\<lambda>_ vi. schedules_total (schedules vi)) (v_infos vr_claimed) = 1500"
  using vesting_totals_are_sums [OF vr_reachable vr_must_pay] by (simp add: vr_claimed_def)

text \<open>C9: In every reachable state of a vesting contract the released total is at most the granted total and the difference is covered by the tokens the contract holds.\<close>
theorem vesting_solvent:
  assumes "vesting_reachable d t held s" and "must_pay_law d" and "v_state s = Some st"
  shows "total_released st \<le> total_granted st \<and> unat (total_granted st) - unat (total_released st) \<le> held"
proof -
  have inv: "vesting_books (unat t) s" "granted_sum (v_infos s) \<le> held + released_sum (v_infos s)"
    using vesting_reachable_inv [OF assms(1,2)] by auto
  then have "released_sum (v_infos s) \<le> granted_sum (v_infos s)"
    by (auto simp: vesting_books_def intro: released_le_granted)
  then show ?thesis using inv assms(3) by (simp add: vesting_books_def word_le_nat_alt)
qed

theorem vesting_solvent_witness: "unat (1500 :: u128) - unat (1000 :: u128) \<le> 500"
  using vesting_solvent [OF vr_reachable vr_must_pay] by (simp add: vr_claimed_def)

text \<open>C22: In every reachable state the available amount of every account is computed without error or panic, is the vested part of its schedules minus what was released, and after the last end is the whole rest.\<close>
theorem vesting_available_always_computed:
  assumes "vesting_reachable d t held s" and "must_pay_law d" and "map_of (v_infos s) a = Some vi" and "t \<le> now"
  shows "\<exists>n. compute_available_amount now vi = Ok n \<and>
    unat n + unat (released_amount vi) = vested_total (schedules vi) (unat now) \<and>
    unat n + unat (released_amount vi) \<le> schedules_total (schedules vi) \<and>
    ((\<forall>sch \<in> set (schedules vi). point_time (start_point sch) \<le> now \<and>
        (\<forall>e. end_point sch = Some e \<longrightarrow> point_time e \<le> now)) \<longrightarrow>
     unat n + unat (released_amount vi) = schedules_total (schedules vi))"
proof -
  have books: "vesting_books (unat now) s"
    using vesting_reachable_inv [OF assms(1,2)] assms(4)
    by (auto simp: word_le_nat_alt intro: vesting_books_later)
  then have ok: "account_ok (unat now) vi"
    using assms(3) by (auto simp: vesting_books_def intro: infos_ok_load)
  have le: "schedules_total (schedules vi) \<le> granted_sum (v_infos s)"
    unfolding granted_sum_def by (rule store_sum_ge [OF assms(3)])
  obtain st where st: "v_state s = Some st"
    using books assms(3) by (cases "v_state s") (auto simp: vesting_books_def)
  then have "granted_sum (v_infos s) < 2 ^ 128"
    using books unat_le_u128_max [of "total_granted st"] by (simp add: vesting_books_def)
  with le have fits: "schedules_total (schedules vi) < 2 ^ 128" by linarith
  obtain n where n: "compute_available_amount now vi = Ok n"
    using compute_available_total [OF _ fits] ok by (auto simp: account_ok_def)
  have full: "vested_total ss (unat now) = schedules_total ss"
    if "list_all schedule_valid ss" and "\<forall>sch \<in> set ss. point_time (start_point sch) \<le> now \<and>
        (\<forall>e. end_point sch = Some e \<longrightarrow> point_time e \<le> now)" for ss
    using that by (induction ss) (auto simp: word_le_nat_alt intro!: schedule_vested_end)
  show ?thesis
    using n compute_available_Ok [OF n] vested_total_le [of "schedules vi" "unat now"] full [of "schedules vi"] ok
    by (auto simp: account_ok_def)
qed

theorem vesting_available_always_computed_witness:
  "\<exists>n. compute_available_amount 300 (vr_info 1000) = Ok n \<and> unat n + 1000 = 1500"
  using vesting_available_always_computed [OF vr_reachable vr_must_pay, of "''alice''" "vr_info 1000" 300]
  by (auto simp: vr_claimed_def vr_info_def vr_schedule_def schedule_amount_def)

text \<open>A claim pays the requested amount or all that is available, never more than that, in the vesting token to the recipient, and books it as released.\<close>
theorem vesting_claim_pays_available:
  assumes "vesting_claim env info recipient amount s = Ok (s', ms)"
    and "v_config s = Some cfg" and "vesting_token cfg = Some token"
    and "map_of (v_infos s) (sender info) = Some vi"
  shows "\<exists>available n. compute_available_amount (block_time env) vi = Ok available \<and> n \<le> available \<and>
    n = (case amount of Some a \<Rightarrow> a | None \<Rightarrow> available) \<and> asset_paid token ms = unat n \<and>
    (n \<noteq> 0 \<longrightarrow> (\<exists>vi'. into_msg (with_balance token n) (unwrap_or recipient (sender info)) = Ok (hd ms) \<and>
       v_infos s' = save (sender info) vi' (v_infos s) \<and> schedules vi' = schedules vi \<and>
       unat (released_amount vi') = unat (released_amount vi) + unat n)) \<and>
    (n = 0 \<longrightarrow> s' = s \<and> ms = [])"
  using assms(1)
proof (rule vesting_claim_inversion, goal_cases)
  case (1 c tk w available n)
  have eq: "tk = token" "w = vi" using 1(1-3) assms(2-4) by auto
  show ?case
  proof (cases "n = 0")
    case True
    then show ?thesis using 1 eq by auto
  next
    case False
    then obtain m r st tr where m: "into_msg (with_balance token n) (unwrap_or recipient (sender info)) = Ok m"
      and r: "unat r = unat (released_amount vi) + unat n" and ms: "ms = [m]"
      and s': "s' = s\<lparr>v_infos := save (sender info) (vi\<lparr>released_amount := r\<rparr>) (v_infos s),
              v_state := Some (st\<lparr>total_released := tr\<rparr>)\<rparr>"
      using 1(7) eq by blast
    show ?thesis
      using False 1(4-6) eq m r into_msg_paid [OF m]
      by (intro exI [of _ available] exI [of _ n]) (auto simp: ms s')
  qed
qed

theorem vesting_claim_pays_available_witness:
  "asset_paid (Token ''lp'') [WasmExecute ''lp'' (Cw20Transfer ''alice'' 1000) []] = 1000 \<and>
   compute_available_amount 150 (vr_info 0) \<noteq> Ok 0"
  using vesting_claim_pays_available [OF vr_step_claimed, of "vr_config (Some (Token ''lp''))" "Token ''lp''" "vr_info 0"]
  by (auto simp: vr_registered_def vr_ready_def vr_config_def vr_call_def asset_paid_def)

text \<open>A cw20 registration is accepted only from the owner or a manager, in the vesting token, and when the amount is the total of the schedules; the granted total grows by exactly that.\<close>
theorem vesting_receive_registers_exactly:
  assumes "receive_cw20 d info cw20_sender amount hook s = Ok (s', ms)" and "vesting_books t s"
    and "addr_validate_identity d"
  shows "\<exists>cfg accounts. v_config s = Some cfg \<and> hook = RegisterVestingAccountsHook accounts \<and>
    vesting_token cfg = Some (Token (sender info)) \<and>
    (cw20_sender = vc_owner cfg \<or> has (v_managers s) cw20_sender) \<and>
    unat amount = accounts_total accounts \<and>
    store_sum (\<lambda>_ vi. schedules_total (schedules vi)) (v_infos s')
      = store_sum (\<lambda>_ vi. schedules_total (schedules vi)) (v_infos s) + unat amount \<and> ms = []"
proof -
  from assms(1) obtain cfg accounts a where c: "v_config s = Some cfg"
      "vesting_token cfg = Some (Token (sender info))" "hook = RegisterVestingAccountsHook accounts"
      "addr_validate d cw20_sender = Ok a" "is_sender_whitelisted s cfg a"
      "register_vesting_accounts d accounts amount s = Ok (s', ms)"
    by (auto simp: receive_cw20_def load_vesting_config_def get_vesting_token_def token_asset_info_def
        split: cw20_hook.splits)
  have "a = cw20_sender" by (rule addr_validate_identityD [OF assms(3) c(4)])
  then show ?thesis
    using c register_vesting_accounts_ok [OF c(6) assms(2)]
    by (auto simp: is_sender_whitelisted_def granted_sum_def split: if_splits)
qed

theorem vesting_receive_registers_exactly_witness: "unat (1500 :: u128) = accounts_total vr_accounts"
proof -
  have "vesting_books 20 vr_ready"
    by (simp add: vesting_books_def infos_ok_def vr_ready_def vr_fresh_def)
  from vesting_receive_registers_exactly [OF vr_step_registered this vr_validate] show ?thesis by auto
qed

text \<open>C33: In a managed contract the owner's removal of an account pays back exactly what was granted and not yet released, forgets the account and leaves all others alone.\<close>
theorem vesting_clawback_returns_the_rest:
  assumes "vesting_execute d env info (VRemoveVestingAccounts [account] clawback) s = Ok (s', ms)"
    and "vesting_books t s" and "addr_validate_identity d" and "v_config s = Some cfg" and "vesting_token cfg = Some token"
    and "map_of (v_infos s) account = Some vi"
  shows "sender info = vc_owner cfg \<and> ext_managed cfg \<and>
    asset_paid token ms = schedules_total (schedules vi) - unat (released_amount vi) \<and>
    map_of (v_infos s') account = None \<and>
    (\<forall>a. a \<noteq> account \<longrightarrow> map_of (v_infos s') a = map_of (v_infos s) a)"
proof -
  from assms(1,4,5) obtain b where owner: "sender info = vc_owner cfg" "ext_managed cfg"
    and step: "remove_vesting_account d token b (s, []) account = Ok (s', ms)"
    by (auto simp: handle_execute_managed_msg_def remove_vesting_accounts_def load_vesting_config_def
        get_vesting_token_def)
  note r = remove_vesting_account_ok [OF step assms(2)]
  then have gone: "map_of (v_infos s') account = None"
    and rest: "\<forall>a. a \<noteq> account \<longrightarrow> map_of (v_infos s') a = map_of (v_infos s) a"
    using addr_validate_identityD [OF assms(3)] by auto
  have ok: "infos_ok t (v_infos s)" using assms(2) by (simp add: vesting_books_def)
  have acc: "addr_validate d account = Ok account"
    using r addr_validate_identityD [OF assms(3)] by metis
  from step acc assms(6) obtain g x m where g: "add_schedule_amounts 0 (schedules vi) = Ok g"
    and x: "checked_sub g (released_amount vi) = Ok x" and m: "into_msg (with_balance token x) b = Ok m" "ms = [m]"
    unfolding remove_vesting_account_def by (auto simp del: uint_simps)
  have "asset_paid token ms = schedules_total (schedules vi) - unat (released_amount vi)"
    using into_msg_paid [OF m(1)] m(2) add_schedule_amounts_Ok [OF g] x by simp
  then show ?thesis using owner gone rest by blast
qed

theorem vesting_clawback_returns_the_rest_witness:
  "asset_paid (Token ''lp'') [WasmExecute ''lp'' (Cw20Transfer ''safe'' 500) []] = 500"
  using vesting_clawback_returns_the_rest [OF vr_step_removed vr_books vr_validate,
      of "vr_config (Some (Token ''lp''))" "Token ''lp''" "vr_info 1000"]
  by (simp add: vr_claimed_def vr_ready_def vr_config_def vr_info_def vr_schedule_def schedule_amount_def)

text \<open>Ownership of a vesting contract moves only to another account that the owner proposed and that claims within two weeks, and the claim works only once.\<close>
theorem vesting_owner_handover:
  assumes "vesting_propose_new_owner d env info new_owner expires_in s = Ok (s1, ms1)"
    and "vesting_claim_ownership env' info' s1 = Ok (s2, ms2)"
  shows "sender info = vesting_owner_of s \<and> vesting_owner_of s2 = sender info' \<and>
    vesting_owner_of s2 \<noteq> vesting_owner_of s \<and> v_proposal s2 = None \<and>
    unat (block_time env') \<le> unat (block_time env) + unat max_proposal_ttl \<and>
    vesting_claim_ownership env'' info'' s2 \<noteq> Ok r"
proof -
  have p: "map_ok fst (vesting_propose_new_owner d env info new_owner expires_in s) = Ok s1"
    and c: "map_ok fst (vesting_claim_ownership env' info' s1) = Ok s2" using assms by simp_all
  have "map_ok fst (vesting_claim_ownership env'' info'' s2) \<noteq> Ok x" for x
    by (rule vesting_ownable.claim_only_once [OF c])
  then have "vesting_claim_ownership env'' info'' s2 \<noteq> Ok r" by fastforce
  then show ?thesis using vesting_ownable.handover [OF p c] by blast
qed

theorem vesting_owner_handover_witness:
  "vesting_owner_of (vr_ready\<lparr>v_config := Some ((vr_config (Some (Token ''lp'')))\<lparr>vc_owner := ''new''\<rparr>)\<rparr>) = ''new''"
proof -
  let ?p = "\<lparr>proposal_owner = ''new'', proposal_ttl = 1100\<rparr>"
  have p: "vesting_propose_new_owner vr_deps (vr_env 100) (vr_call ''dao'') ''new'' 1000 vr_ready
      = Ok (vr_ready\<lparr>v_proposal := Some ?p\<rparr>, [])"
    by (simp add: vesting_ops vr_defs propose_new_owner_def max_proposal_ttl_def eval_arith)
  have c: "vesting_claim_ownership (vr_env 200) (vr_call ''new'') (vr_ready\<lparr>v_proposal := Some ?p\<rparr>)
      = Ok (vr_ready\<lparr>v_config := Some ((vr_config (Some (Token ''lp'')))\<lparr>vc_owner := ''new''\<rparr>)\<rparr>, [])"
    by (simp add: vesting_ops vr_defs claim_ownership_def)
  show ?thesis using vesting_owner_handover [OF p c] by (simp add: vr_call_def)
qed

text \<open>An account's entry changes only by its own claim, by a registration of the owner or a manager, or by the owner's clawback in a managed contract.\<close>
theorem vesting_account_changes_by_right:
  assumes "vesting_execute d env info m s = Ok (s', ms)" and "v_config s = Some cfg"
    and "addr_validate_identity d" and "map_of (v_infos s') a \<noteq> map_of (v_infos s) a"
  shows "(\<exists>r n. m = VClaim r n \<and> sender info = a) \<or>
    (\<exists>cs n hook. m = VReceive cs n hook \<and> (cs = vc_owner cfg \<or> has (v_managers s) cs)) \<or>
    (\<exists>accounts. m = VRegister accounts \<and> (sender info = vc_owner cfg \<or> has (v_managers s) (sender info))) \<or>
    (\<exists>accounts clawback. m = VRemoveVestingAccounts accounts clawback \<and> sender info = vc_owner cfg \<and> ext_managed cfg)"
proof (cases m)
  case (VClaim r n)
  then have "vesting_claim env info r n s = Ok (s', ms)" using assms(1) by simp
  then have "sender info = a"
    by (rule vesting_claim_inversion) (use assms(4) in \<open>auto simp: map_of_save split: if_splits\<close>)
  then show ?thesis using VClaim by blast
next
  case (VReceive cs n hook)
  then obtain b where "addr_validate d cs = Ok b" "is_sender_whitelisted s cfg b"
    using assms(1,2) by (auto simp: receive_cw20_def load_vesting_config_def)
  then show ?thesis using VReceive addr_validate_identityD [OF assms(3)]
    by (auto simp: is_sender_whitelisted_def split: if_splits)
next
  case (VRegister accounts)
  then show ?thesis using assms(1,2)
    by (auto simp: execute_register_vesting_accounts_def load_vesting_config_def native_only_Ok_iff
        is_sender_whitelisted_def split: if_splits)
next
  case (VRemoveVestingAccounts accounts clawback)
  then show ?thesis using assms(1,2)
    by (auto simp: handle_execute_managed_msg_def remove_vesting_accounts_def load_vesting_config_def)
qed (use assms(1,4) in \<open>auto simp: vesting_propose_new_owner_def vesting_drop_ownership_proposal_def
      vesting_claim_ownership_def set_vesting_token_def handle_execute_with_managers_msg_def
      add_vesting_managers_def remove_vesting_managers_def split: prod.splits\<close>)

theorem vesting_account_changes_by_right_witness: "sender (vr_call ''dao'') = vc_owner (vr_config None)"
  using vesting_account_changes_by_right [OF vr_step_removed _ vr_validate, of "vr_config (Some (Token ''lp''))" "''alice''"]
  by (simp add: vr_claimed_def vr_removed_def vr_ready_def vr_config_def)

end
