(* ===== verification/Lockdrop_Properties.thy ===== *)
theory Lockdrop_Properties
  imports Lockdrop_Lifetime
begin

text \<open>
  The properties of the lockdrop, and a concrete deployment on which they are witnessed: one user
  locks LP tokens of the USDC pool, takes a part back in the withdrawal window, and unlocks the
  rest with the rewards after the lockup's end.
\<close>

subsection \<open>A run of the contract\<close>

definition lr_deps :: lockdrop_deps where
  "lr_deps = \<lparr>addr_validate = Ok, bank_balance = (\<lambda>a d. Ok 500), cw20_balance = (\<lambda>c a. Ok 0),
     gen_pending_token = (\<lambda>g lp a. Ok \<lparr>pending = 0, pending_on_proxy = None\<rparr>),
     gen_base_reward_token = (\<lambda>g lp. Ok (NativeToken ''untrn'')),
     gen_deposit = (\<lambda>g lp a. Ok 800), gen_pool_proxies = (\<lambda>g lp. Ok []),
     raw_user_info_amount = (\<lambda>g lp a. Ok (Some 800)), raw_cw20_balance = (\<lambda>c a. Ok None),
     raw_proxy_reward_asset = (\<lambda>g a. Ok None), cw20_minter = (\<lambda>c. Ok ''pair''),
     pair_assets = (\<lambda>c. Ok []), credits_withdrawable = (\<lambda>c a. Ok 0), credits_vested = (\<lambda>c a. Ok 0)\<rparr>"

lemma lr_validate: "addr_validate_identity lr_deps"
  by (simp add: addr_validate_identity_def lr_deps_def)

definition lr_env :: "u64 \<Rightarrow> env" where
  "lr_env t = \<lparr>block_time = t, block_height = 1, this_contract = ''lockdrop''\<rparr>"

definition lr_call :: "addr \<Rightarrow> message_info" where
  "lr_call a = \<lparr>sender = a, funds = []\<rparr>"

definition lr_msg :: lockdrop_instantiate_msg where
  "lr_msg = \<lparr>li_owner = None, li_token_info_manager = ''manager'', li_credits_contract = ''credits'',
     li_auction_contract = ''auction'', li_init_timestamp = 100, li_lock_window = 50,
     li_withdrawal_window = 20, li_min_lock_duration = 1, li_max_lock_duration = 100,
     li_max_positions_per_user = 2,
     li_lockup_rewards_info = [\<lparr>lr_duration = 10, lr_coefficient = Decimal256 500000000000000000\<rparr>]\<rparr>"

definition lr_config :: "addr option \<Rightarrow> u128 \<Rightarrow> lockdrop_config" where
  "lr_config g n = \<lparr>lc_owner = ''dao'', lc_token_info_manager = ''manager'',
     lc_credits_contract = ''credits'', lc_auction_contract = ''auction'', lc_generator = g,
     lc_init_timestamp = 100, lc_lock_window = 50, lc_withdrawal_window = 20,
     lc_min_lock_duration = 1, lc_max_lock_duration = 100, lockdrop_incentives = n,
     max_positions_per_user = 2,
     lc_lockup_rewards_info = [\<lparr>lr_duration = 10, lr_coefficient = Decimal256 500000000000000000\<rparr>]\<rparr>"

definition lr_fresh :: lockdrop where
  "lr_fresh = lockdrop_empty\<lparr>l_config := Some (lr_config None 0), l_state := Some 0\<rparr>"

definition lr_pools :: "lockdrop_pool \<Rightarrow> (pool_type, lockdrop_pool) store" where
  "lr_pools pool = [(ATOM, new_lockdrop_pool ''atomlp''), (USDC, pool)]"

definition lr_ready :: lockdrop where
  "lr_ready = lr_fresh\<lparr>l_config := Some (lr_config (Some ''gen'') 0),
     l_pools := lr_pools (new_lockdrop_pool ''usdclp'')\<rparr>"

definition lr_funded :: lockdrop where
  "lr_funded = lr_ready\<lparr>l_config := Some (lr_config (Some ''gen'') 1000)\<rparr>"

definition lr_lockup :: "u128 \<Rightarrow> bool \<Rightarrow> lockup_info" where
  "lr_lockup n flag = (new_lockup n 180)\<lparr>withdrawal_flag := flag\<rparr>"

definition lr_locked :: lockdrop where
  "lr_locked = lr_funded\<lparr>
     l_pools := lr_pools ((new_lockdrop_pool ''usdclp'')\<lparr>amount_in_lockups := 1000, weighted_amount := 1500\<rparr>),
     l_users := [(''alice'', user_info_default\<lparr>lockup_positions_index := 1\<rparr>)],
     l_lockups := [((USDC, ''alice'', 10), LockupV2 (lr_lockup 1000 False))],
     l_totals := [((USDC, ''alice''), 1000)]\<rparr>"

definition lr_shrunk_pool :: lockdrop_pool where
  "lr_shrunk_pool = (new_lockdrop_pool ''usdclp'')\<lparr>amount_in_lockups := 800, weighted_amount := 1200\<rparr>"

definition lr_shrunk :: lockdrop where
  "lr_shrunk = lr_locked\<lparr>l_pools := lr_pools lr_shrunk_pool,
     l_lockups := [((USDC, ''alice'', 10), LockupV2 (lr_lockup 800 True))],
     l_totals := [((USDC, ''alice''), 800)]\<rparr>"

definition lr_staked :: lockdrop where
  "lr_staked = lr_shrunk\<lparr>l_state := Some 1,
     l_pools := lr_pools (lr_shrunk_pool\<lparr>incentives_share := 1, is_staked := True\<rparr>)\<rparr>"

definition lr_claimed :: lockdrop where
  "lr_claimed = lr_staked\<lparr>
     l_users := [(''alice'', \<lparr>total_ntrn_rewards = 1000, ntrn_transferred = False, lockup_positions_index = 1\<rparr>)],
     l_lockups := [((USDC, ''alice'', 10), LockupV2 ((lr_lockup 800 True)\<lparr>ntrn_rewards := 1000\<rparr>))]\<rparr>"

definition lr_unlocked :: lockdrop where
  "lr_unlocked = lr_claimed\<lparr>
     l_pools := lr_pools (lr_shrunk_pool\<lparr>incentives_share := 1, is_staked := True, amount_in_lockups := 0\<rparr>),
     l_users := [(''alice'', \<lparr>total_ntrn_rewards = 1000, ntrn_transferred = True, lockup_positions_index = 1\<rparr>)],
     l_lockups := [((USDC, ''alice'', 10), LockupV2 ((lr_lockup 800 True)
        \<lparr>ntrn_rewards := 1000, astroport_lp_transferred := Some 800\<rparr>))],
     l_totals := [((USDC, ''alice''), 0)]\<rparr>"

lemmas lr_states = lr_deps_def lr_env_def lr_call_def lr_config_def lr_fresh_def lr_pools_def lr_ready_def
  lr_funded_def lr_lockup_def lr_locked_def lr_shrunk_pool_def lr_shrunk_def lr_staked_def
  lr_claimed_def lr_unlocked_def lockdrop_empty_def new_lockdrop_pool_def user_info_default_def new_lockup_def

lemmas lr_loads = lockdrop_load_config_def lockdrop_load_state_def load_pool_def load_user_or_default_def
  compatible_load_def compatible_may_load_def has_def lock_window_end_def withdrawal_window_end_def

lemmas lr_ops = lr_loads handle_increase_lockup_def grow_or_open_lockup_def calculate_weight_def
  max_withdrawal_allowed_def calculate_max_withdrawal_percent_allowed_def handle_withdraw_from_lockup_def
  store_or_close_lockup_def sub_user_total_def

lemma lr_instantiate: "lockdrop_instantiate lr_deps (lr_env 50) (lr_call ''dao'') lr_msg lockdrop_empty = Ok (lr_fresh, [])"
  by (simp add: lockdrop_instantiate_def lr_msg_def lr_states)

lemma lr_set_tokens:
  "lockdrop_execute lr_deps (lr_env 60) (lr_call ''manager'') (LSetTokenInfo ''atomlp'' ''usdclp'' ''gen'') lr_fresh
     = Ok (lr_ready, [])"
  by (simp add: handle_set_token_info_def lr_loads lr_states)

lemma lr_fund:
  "lockdrop_execute lr_deps (lr_env 70) \<lparr>sender = ''dao'', funds = [\<lparr>coin_denom = ''untrn'', coin_amount = 1000\<rparr>]\<rparr>
     LIncreaseNTRNIncentives lr_ready = Ok (lr_funded, [])"
  by (simp add: handle_increasing_ntrn_incentives_def lr_loads lr_states eval_arith ntrn_denom_def)

lemma lr_lock:
  "lockdrop_execute lr_deps (lr_env 120) (lr_call ''auction'') (LIncreaseLockupFor ''alice'' USDC 1000 10) lr_funded
     = Ok (lr_locked, [])"
  by (simp add: lr_ops lr_states eval_arith decimal256_one_def)

lemma lr_shrink:
  "lockdrop_execute lr_deps (lr_env 155) (lr_call ''auction'') (LWithdrawFromLockup ''alice'' USDC 10 200) lr_locked
     = Ok (lr_shrunk, [])"
  by (simp add: lr_ops lr_states eval_arith decimal256_one_def)

definition lr_stake_msgs :: "msg list" where
  "lr_stake_msgs = [WasmExecute ''usdclp'' (Cw20IncreaseAllowance ''gen'' 800 2) [],
     WasmExecute ''usdclp'' (Cw20Send ''gen'' 800 GeneratorDeposit) []]"

lemma lr_stake:
  "lockdrop_execute lr_deps (lr_env 175) (lr_call ''usdclp'') (LReceive ''auction'' 800 (InitializePool USDC 1)) lr_shrunk
     = Ok (lr_staked, lr_stake_msgs)"
  by (simp add: lockdrop_receive_cw20_def handle_initialize_pool_def stake_messages_def lr_loads lr_states
      eval_arith lr_stake_msgs_def)

lemma lr_claim:
  "lockdrop_execute lr_deps (lr_env 200) (lr_call ''alice'') (LClaimRewardsAndOptionallyUnlock USDC 10 True) lr_staked
     = Ok (lr_claimed, [WasmExecute ''lockdrop''
         (LockdropCallback (WithdrawUserLockupRewardsCallback USDC ''alice'' 10 True)) []])"
  by (simp add: handle_claim_rewards_and_unlock_for_lockup_def claim_generator_rewards_def lr_loads lr_states
      eval_arith update_user_lockup_positions_and_calc_rewards_def user_lockups_def lockup_durations_def
      store_keys_def calc_lockup_reward_def lockup_incentives_def calculate_weight_def decimal256_one_def
      calculate_astro_incentives_for_lockup_def)

definition lr_unlock_msgs :: "msg list" where
  "lr_unlock_msgs = [WasmExecute ''gen'' (GeneratorWithdraw ''usdclp'' 800) [],
     WasmExecute ''usdclp'' (Cw20Transfer ''alice'' 800) [],
     BankSend ''alice'' [\<lparr>coin_denom = ''untrn'', coin_amount = 1000\<rparr>]]"

lemma lr_unlock:
  "receive_lockdrop_callback lr_deps (lr_env 200) (lr_call ''lockdrop'')
     (WithdrawUserLockupRewardsCallback USDC ''alice'' 10 True) lr_claimed = Ok (lr_unlocked, lr_unlock_msgs)"
  by (simp add: receive_lockdrop_callback_def callback_withdraw_user_rewards_for_lockup_optional_withdraw_def
      withdraw_generator_rewards_def lockup_lp_amount_def lp_share_def pending_ntrn_reward_def
      pending_proxy_rewards_def release_lockup_def sub_user_total_def one_time_rewards_def
      lr_loads lr_states eval_arith decimal_zero_def lr_unlock_msgs_def ntrn_denom_def)

lemma lr_plain_tx:
  assumes "lockdrop_execute lr_deps (lr_env t) info m s = Ok (u, ms)"
    and "list_all (\<lambda>m. own_callback (lr_env t) m = None) ms"
    and "sender info \<noteq> ''lockdrop''" "deployed_use (lr_env t) m s"
  shows "lockdrop_tx (lr_env t) info m s u"
proof -
  have "lockdrop_run (lr_env t) ms u u"
    using assms(2) by (induction ms) (auto intro: lockdrop_run.intros)
  then show ?thesis
    using assms lr_validate by (intro lockdrop_tx.intros [where d = lr_deps]) (auto simp: lr_env_def)
qed

lemma lr_next:
  "lockdrop_reachable t s \<Longrightarrow> lockdrop_tx (lr_env t') info m s s' \<Longrightarrow> t \<le> t' \<Longrightarrow> lockdrop_reachable t' s'"
  using lockdrop_reachable.tx [of t s "lr_env t'" info m s'] by (simp add: lr_env_def)

lemma lr_reachable_locked: "lockdrop_reachable 120 lr_locked"
proof -
  have e: "l_lockups lr_fresh = []" by (simp add: lr_fresh_def lockdrop_empty_def)
  have 0: "lockdrop_reachable 50 lr_fresh"
    using lockdrop_reachable.start [OF lr_instantiate] by (simp add: lr_env_def)
  have "lockdrop_tx (lr_env 60) (lr_call ''manager'') (LSetTokenInfo ''atomlp'' ''usdclp'' ''gen'') lr_fresh lr_ready"
    by (rule lr_plain_tx [OF lr_set_tokens]) (simp_all add: lr_call_def deployed_use_def e)
  with 0 have 1: "lockdrop_reachable 60 lr_ready" by (rule lr_next) simp
  have "lockdrop_tx (lr_env 70) \<lparr>sender = ''dao'', funds = [\<lparr>coin_denom = ''untrn'', coin_amount = 1000\<rparr>]\<rparr>
     LIncreaseNTRNIncentives lr_ready lr_funded"
    by (rule lr_plain_tx [OF lr_fund]) (simp_all add: deployed_use_def)
  with 1 have 2: "lockdrop_reachable 70 lr_funded" by (rule lr_next) simp
  have "lockdrop_tx (lr_env 120) (lr_call ''auction'') (LIncreaseLockupFor ''alice'' USDC 1000 10) lr_funded lr_locked"
    by (rule lr_plain_tx [OF lr_lock]) (simp_all add: lr_call_def deployed_use_def)
  with 2 show ?thesis by (rule lr_next) simp
qed

lemma lr_unlock_tx:
  "lockdrop_tx (lr_env 200) (lr_call ''alice'') (LClaimRewardsAndOptionallyUnlock USDC 10 True) lr_staked lr_unlocked"
proof -
  have quiet: "lockdrop_run (lr_env 200) lr_unlock_msgs lr_unlocked lr_unlocked"
    unfolding lr_unlock_msgs_def by (auto intro!: lockdrop_run.intros)
  have "lockdrop_run (lr_env 200) [WasmExecute ''lockdrop''
      (LockdropCallback (WithdrawUserLockupRewardsCallback USDC ''alice'' 10 True)) []] lr_claimed lr_unlocked"
    using lockdrop_run.callback [OF lr_unlock lr_validate, of "[]"] quiet by (simp add: lr_env_def)
  then show ?thesis
    by (intro lockdrop_tx.intros [OF _ lr_claim lr_validate]) (simp_all add: lr_env_def lr_call_def deployed_use_def)
qed

lemma lr_reachable_shrunk: "lockdrop_reachable 155 lr_shrunk"
proof -
  have "lockdrop_tx (lr_env 155) (lr_call ''auction'') (LWithdrawFromLockup ''alice'' USDC 10 200) lr_locked lr_shrunk"
    by (rule lr_plain_tx [OF lr_shrink]) (simp_all add: lr_call_def deployed_use_def)
  with lr_reachable_locked show ?thesis by (rule lr_next) simp
qed

lemma lr_reachable_staked: "lockdrop_reachable 175 lr_staked"
proof -
  have "lockdrop_tx (lr_env 175) (lr_call ''usdclp'') (LReceive ''auction'' 800 (InitializePool USDC 1)) lr_shrunk lr_staked"
    by (rule lr_plain_tx [OF lr_stake]) (simp_all add: lr_call_def deployed_use_def lr_stake_msgs_def)
  with lr_reachable_shrunk show ?thesis by (rule lr_next) simp
qed

lemma lr_reachable_unlocked: "lockdrop_reachable 200 lr_unlocked"
  by (rule lr_next [OF lr_reachable_staked lr_unlock_tx]) simp

subsection \<open>The properties\<close>

text \<open>C4: In every state the lockdrop reaches by transactions (a message with its callbacks; SetTokenInfo only while there are no lockups, migrations only after the windows, no calls back from other contracts), the amount a pool has in lockups and a user's total in a pool are the sums of the LP units over the stored lockups that are not paid out, and a user's number of positions is the number of all his stored lockups, paid out or not.\<close>
theorem lockdrop_books_balance:
  assumes "lockdrop_reachable t s"
  shows "(\<forall>p. pool_amount (l_pools s) p =
        store_sum (\<lambda>(q, a, dur) v. if q = p then live_units v else 0) (l_lockups s)) \<and>
    (\<forall>p a. user_total (l_totals s) p a =
        store_sum (\<lambda>(q, b, dur) v. if q = p \<and> b = a then live_units v else 0) (l_lockups s)) \<and>
    (\<forall>a. positions (l_users s) a =
        store_sum (\<lambda>(q, b, dur) v. if b = a then 1 else 0) (l_lockups s))"
  using reachable_inv [OF assms]
  by (simp add: lockdrop_inv_def lockdrop_books_def pool_live_def user_live_def position_count_def)

theorem lockdrop_books_balance_witness:
  "pool_amount (l_pools lr_locked) USDC = 1000 \<and>
   store_sum (\<lambda>(q, a, dur) v. if q = USDC then live_units v else 0) (l_lockups lr_locked) = 1000 \<and>
   pool_amount (l_pools lr_unlocked) USDC = 0"
  using lockdrop_books_balance [OF lr_reachable_locked] lockdrop_books_balance [OF lr_reachable_unlocked]
  by (simp add: lr_states pool_amount_def live_units_def)

text \<open>C27: A withdrawal from a lockup comes from the auction, is at most the curve's share of the lockup, after the lock window at most half of it, and is then the last one.\<close>
theorem lockdrop_withdrawal_is_bounded:
  assumes "handle_withdraw_from_lockup d env info u p dur amount s = Ok (s', ms)"
  shows "\<exists>cfg a li q. l_config s = Some cfg \<and> addr_validate d u = Ok a \<and>
    sender info = lc_auction_contract cfg \<and>
    compatible_load d s (p, a, dur) (lc_generator cfg) = Ok li \<and> \<not> withdrawal_flag li \<and>
    calculate_max_withdrawal_percent_allowed (block_time env) cfg = Ok q \<and>
    unat amount * DECIMAL_FRACTIONAL \<le> unat (lp_units_locked li) * unat (atomics q) \<and>
    0 < unat amount \<and> unat amount \<le> unat (lp_units_locked li) \<and>
    (unat (lc_init_timestamp cfg) + unat (lc_lock_window cfg) \<le> unat (block_time env) \<longrightarrow>
       2 * unat amount \<le> unat (lp_units_locked li) \<and>
       (\<forall>env' info' amount'. \<not> is_ok (handle_withdraw_from_lockup d env' info' u p dur amount' s')))"
  using assms
proof (rule withdraw_from_lockup_inversion, goal_cases)
  case (1 cfg window_end pool a li allowed lock_end units weight weighted in_lockups lockups users totals)
  obtain q where q: "calculate_max_withdrawal_percent_allowed (block_time env) cfg = Ok q"
    and al: "unat allowed = unat (lp_units_locked li) * unat (atomics q) div DECIMAL_FRACTIONAL"
    using 1(10) unfolding max_withdrawal_allowed_Ok by blast
  have le: "unat amount \<le> unat allowed" using 1(11) by (simp add: word_le_nat_alt)
  have exact: "unat amount * DECIMAL_FRACTIONAL \<le> unat (lp_units_locked li) * unat (atomics q)"
  proof -
    have "unat amount * DECIMAL_FRACTIONAL \<le> unat allowed * DECIMAL_FRACTIONAL"
      using le by (rule mult_le_mono1)
    also have "\<dots> \<le> unat (lp_units_locked li) * unat (atomics q)"
      unfolding al by (rule div_times_less_eq_dividend)
    finally show ?thesis .
  qed
  have late: "2 * unat amount \<le> unat (lp_units_locked li) \<and>
      \<not> is_ok (handle_withdraw_from_lockup d env' info' u p dur amount' s')"
    if t: "unat (lc_init_timestamp cfg) + unat (lc_lock_window cfg) \<le> unat (block_time env)"
    for env' info' amount'
  proof -
    have half: "2 * unat amount \<le> unat (lp_units_locked li)"
      using lockdrop_curve.share_bound_half [OF q t, of "unat (lp_units_locked li)"] le al by simp
    have flag: "lock_end \<le> block_time env"
      using 1(12) t by (simp add: lock_window_end_def word_le_nat_alt)
    have n0: "units \<noteq> 0" using half 1(13) 1(5) by (auto simp: unat_eq_0)
    have li': "compatible_load d s' (p, a, dur) g =
        Ok (li\<lparr>withdrawal_flag := True, lp_units_locked := units\<rparr>)" for g
      using 1(17,19) n0 flag by (simp add: store_or_close_Ok compatible_load_def map_of_save)
    have "\<not> is_ok (handle_withdraw_from_lockup d env' info' u p dur amount' s')"
    proof
      assume "is_ok (handle_withdraw_from_lockup d env' info' u p dur amount' s')"
      then obtain s2 ms2 where "handle_withdraw_from_lockup d env' info' u p dur amount' s' = Ok (s2, ms2)"
        by (auto simp: is_ok_iff)
      then show False
        by (rule withdraw_from_lockup_inversion) (use 1(7) li' in auto)
    qed
    with half show ?thesis by blast
  qed
  have "0 < unat amount" using 1(5) by (simp add: unat_gt_0)
  then show ?case using 1(1,2,7,8,9,13) q exact late by auto
qed

theorem lockdrop_withdrawal_is_bounded_witness:
  "sender (lr_call ''auction'') = ''auction'' \<and>
   (\<exists>q. calculate_max_withdrawal_percent_allowed 155 (lr_config (Some ''gen'') 1000) = Ok q \<and>
     200 * DECIMAL_FRACTIONAL \<le> 1000 * unat (atomics q)) \<and>
   \<not> is_ok (handle_withdraw_from_lockup lr_deps (lr_env 160) (lr_call ''auction'') ''alice'' USDC 10 1 lr_shrunk)"
  using lockdrop_withdrawal_is_bounded
    [of lr_deps "lr_env 155" "lr_call ''auction''" "''alice''" USDC 10 200 lr_locked lr_shrunk "[]"] lr_shrink
  by (auto simp: lr_states compatible_load_def)

subsection \<open>Unlocking\<close>

text \<open>C16: A transaction that pays out a lockup and is not a migration is a claim with withdraw_lp_stake by the lockup's own user, at or after the end of the windows plus the lockup's duration.\<close>
theorem lockdrop_pays_out_after_unlock_only:
  assumes "lockdrop_reachable t s" and "t \<le> block_time env" and "lockdrop_tx env info m s s'"
    and "lockup_view s (p, a, dur) = Some (u, None, e)" and "lockup_view s' (p, a, dur) = Some (u', Some n, e')"
    and "\<forall>b. m \<noteq> LMigrateLiquidityToPCLPools b"
  shows "m = LClaimRewardsAndOptionallyUnlock p dur True \<and> sender info = a \<and>
    windows_end s + unat dur \<le> unat (block_time env)"
proof -
  have i: "lockdrop_inv (block_time env) s"
    by (rule lockdrop_inv_later [OF reachable_inv [OF assms(1)] assms(2)])
  have k: "terms_kept s" by (rule reachable_terms [OF assms(1)])
  show ?thesis
    using assms(3) i k
  proof (cases rule: tx_plain_cases)
    case plain
    then show ?thesis using assms(4,5) by blast
  next
    case (claim q dur' w)
    have "(p, a, dur) = (q, sender info, dur') \<and> w"
      using claim(4) [of "(p, a, dur)"] assms(4,5) by (cases w) auto
    moreover obtain li where "map_of (l_lockups s) (p, a, dur) = Some (LockupV2 li)"
      "unlock_timestamp li = e" "unat (unlock_timestamp li) = windows_end s + unat dur"
    proof -
      obtain v where v: "map_of (l_lockups s) (p, a, dur) = Some v" "stored_unlock v = e"
        using assms(4) by (auto simp: lockup_view_def)
      then have "lockup_terms s dur v" using k by (auto simp: terms_kept_def)
      then show thesis using v that by (auto simp: lockup_terms_def)
    qed
    ultimately show ?thesis
      using claim(1,5) assms(4) by (auto simp: word_le_nat_alt)
  next
    case (migrate b)
    then show ?thesis using assms(6) by blast
  qed
qed

theorem lockdrop_pays_out_after_unlock_only_witness:
  "sender (lr_call ''alice'') = ''alice'' \<and> windows_end lr_staked + unat (10 :: u64) \<le> 200"
proof -
  have "lockup_view lr_staked (USDC, ''alice'', 10) = Some (800, None, 180)"
    "lockup_view lr_unlocked (USDC, ''alice'', 10) = Some (800, Some 800, 180)"
    by (simp_all add: lockup_view_def lr_states)
  from lockdrop_pays_out_after_unlock_only [OF lr_reachable_staked _ lr_unlock_tx this]
  show ?thesis by (simp add: lr_env_def)
qed

subsection \<open>Pay-outs\<close>

text \<open>The LP tokens paid for one lockup never exceed the pool's balance and never lower the share of a lockup that stays.\<close>
theorem lockdrop_unlocking_never_dilutes:
  assumes "lp_share u1 b t = Ok n1" and "lp_share u2 b t = Ok n2"
    and "unat u1 + unat u2 \<le> unat t" and "u2 \<noteq> 0"
  shows "unat n1 \<le> unat b \<and> (\<exists>n2'. lp_share u2 (b - n1) (t - u1) = Ok n2' \<and> unat n2 \<le> unat n2' \<and>
    unat n1 + unat n2' \<le> unat b)"
proof -
  have t: "0 < unat t" using assms(3,4) by (metis add_is_0 gr0I le_zero_eq unat_eq_0)
  have n1: "unat n1 = unat u1 * unat b div unat t" and n2: "unat n2 = unat u2 * unat b div unat t"
    using assms(1,2) by (auto simp: lp_share_def split: if_splits)
  have "unat u1 * unat b div unat t \<le> unat t * unat b div unat t"
    using assms(3) by (intro div_le_mono mult_le_mono1) simp
  then have n1_le: "unat n1 \<le> unat b" using n1 t by simp
  let ?b = "unat b - unat n1" and ?t = "unat t - unat u1"
  have b': "unat (b - n1) = ?b" using n1_le by (simp add: unat_sub word_le_nat_alt)
  have t': "unat (t - u1) = ?t" using assms(3) by (simp add: unat_sub word_le_nat_alt)
  have "0 < unat u2" using assms(4) by (simp add: unat_gt_0)
  then have pos: "0 < ?t" using assms(3) by linarith
  have tn: "t - u1 \<noteq> 0" using pos t' by (metis unat_0 less_irrefl)
  have "unat u2 * ?b div ?t \<le> ?t * ?b div ?t"
    using assms(3) by (intro div_le_mono mult_le_mono1) simp
  then have n2'_le: "unat u2 * ?b div ?t \<le> ?b" using pos by simp
  then have "unat u2 * ?b div ?t < 2 ^ LENGTH(128)"
    using unsigned_less [of b] by (meson diff_le_self le_less_trans)
  then obtain n2' :: u128 where n2': "unat n2' = unat u2 * ?b div ?t" using word_of_nat_ex by blast
  have "lp_share u2 (b - n1) (t - u1) = Ok n2'"
    unfolding lp_share_def using tn n2' b' t' by simp
  moreover have "unat n2 \<le> unat n2'"
  proof -
    have "unat n1 * unat t \<le> unat u1 * unat b" using n1 by simp
    then have "unat b * ?t \<le> ?b * unat t" by (simp add: diff_mult_distrib diff_mult_distrib2 mult.commute)
    have "unat n2 * unat t \<le> unat u2 * unat b" using n2 by simp
    then have "unat n2 * unat t * ?t \<le> unat u2 * unat b * ?t" by (rule mult_le_mono1)
    also have "\<dots> \<le> unat u2 * (?b * unat t)"
      using \<open>unat b * ?t \<le> ?b * unat t\<close> by (simp add: mult.assoc)
    finally have "(unat n2 * ?t) * unat t \<le> (unat u2 * ?b) * unat t" by (simp add: ac_simps)
    then have "unat n2 * ?t \<le> unat u2 * ?b" using t by simp
    then show ?thesis using n2' pos by (simp add: less_eq_div_iff_mult_less_eq)
  qed
  ultimately show ?thesis using n1_le n2'_le n2' by auto
qed

theorem lockdrop_unlocking_never_dilutes_witness:
  "\<exists>n2'. lp_share 200 (1000 - 375) (800 - 300) = Ok n2' \<and> 250 \<le> unat n2' \<and> 375 + unat n2' \<le> 1000"
  using lockdrop_unlocking_never_dilutes [of 300 1000 800 375 200 250]
  by (simp add: lp_share_def eval_arith)

text \<open>C28: The NTRN incentives of any lockups whose weights are within the pool's total weight are together at most the pool's part of the incentives.\<close>
theorem lockdrop_incentives_never_exceed_the_pool:
  assumes "list_all2 (\<lambda>w r. calculate_astro_incentives_for_lockup w total_weight share total_share incentives = Ok r) ws rs"
    and "sum_list (map unat ws) \<le> unat total_weight"
  shows "sum_list (map unat rs) * unat total_share \<le> unat share * unat incentives"
proof (cases "total_share = 0 \<or> total_weight = 0")
  case True
  then show ?thesis
  proof
    assume w: "total_weight = 0"
    have "sum_list (map unat rs) = 0" using assms(1)
      by (induction rule: list_all2_induct) (auto simp: w calculate_astro_incentives_for_lockup_def)
    then show ?thesis by (simp only: mult_0 le0)
  qed simp
next
  case False
  let ?d = "unat total_share * unat total_weight"
  have "sum_list (map unat rs) * ?d \<le> unat incentives * (unat share * sum_list (map unat ws))"
    using assms(1)
  proof (induction rule: list_all2_induct)
    case (Cons w ws r rs)
    then have "unat r * ?d \<le> unat incentives * (unat share * unat w)"
      using False decimal_share_floor_le [of "unat incentives" "unat share * unat w" ?d]
      by (auto simp: calculate_astro_incentives_for_lockup_def)
    then show ?case using Cons.IH by (simp add: algebra_simps)
  qed simp
  also have "\<dots> \<le> unat incentives * (unat share * unat total_weight)"
    using assms(2) by (intro mult_le_mono2)
  finally have "(sum_list (map unat rs) * unat total_share) * unat total_weight
      \<le> (unat share * unat incentives) * unat total_weight"
    by (simp add: ac_simps)
  then show ?thesis using False by (simp add: unat_gt_0)
qed

theorem lockdrop_incentives_never_exceed_the_pool_witness:
  "sum_list (map unat [500, 250 :: u128]) * unat (4 :: u128) \<le> unat (3 :: u128) * unat (1000 :: u128)"
  using lockdrop_incentives_never_exceed_the_pool [of 300 3 4 1000 "[200, 100]" "[500, 250]"]
  by (simp add: calculate_astro_incentives_for_lockup_def eval_arith)

text \<open>The transfers of cw20 tokens among the messages of a response.\<close>

fun is_cw20_transfer :: "msg \<Rightarrow> bool" where
  "is_cw20_transfer (WasmExecute c (Cw20Transfer to n) fs) = True"
| "is_cw20_transfer m = False"

definition airdrop_claim_msgs ::
  "('d) lockdrop_deps_scheme \<Rightarrow> lockdrop_config \<Rightarrow> addr \<Rightarrow> u128 \<Rightarrow> (std_error, msg list) result" where
  "airdrop_claim_msgs d cfg a rewards =
     and_then (cw20_balance d (lc_credits_contract cfg) a) (\<lambda>credits.
     if 0 < credits
     then map_ok (\<lambda>m. [m]) (claim_airdrop_tokens_with_multiplier_msg d (lc_credits_contract cfg) a rewards)
     else Ok [])"

lemma airdrop_claim_no_transfer:
  "airdrop_claim_msgs d cfg a rewards = Ok ms \<Longrightarrow> outflow ntrn_denom ms = 0 \<and> filter is_cw20_transfer ms = [] \<and>
     cw20_outflow token ms = 0"
  by (auto simp: airdrop_claim_msgs_def claim_airdrop_tokens_with_multiplier_msg_def split: if_splits)

lemma one_time_rewards_first:
  assumes "one_time_rewards d cfg a user s = Ok (s', ms)" and "\<not> ntrn_transferred user"
  shows "\<exists>airdrop. airdrop_claim_msgs d cfg a (total_ntrn_rewards user) = Ok airdrop \<and>
    s' = s\<lparr>l_users := save a (user\<lparr>ntrn_transferred := True\<rparr>) (l_users s)\<rparr> \<and>
    ms = (if 0 < total_ntrn_rewards user
          then [BankSend a [\<lparr>coin_denom = ntrn_denom, coin_amount = total_ntrn_rewards user\<rparr>]] else []) @ airdrop"
proof -
  have "one_time_rewards d cfg a user s =
    map_ok (\<lambda>airdrop. (s\<lparr>l_users := save a (user\<lparr>ntrn_transferred := True\<rparr>) (l_users s)\<rparr>,
        (if 0 < total_ntrn_rewards user
         then [BankSend a [\<lparr>coin_denom = ntrn_denom, coin_amount = total_ntrn_rewards user\<rparr>]] else []) @ airdrop))
      (airdrop_claim_msgs d cfg a (total_ntrn_rewards user))"
    using assms(2) unfolding one_time_rewards_def airdrop_claim_msgs_def
    by (cases "cw20_balance d (lc_credits_contract cfg) a";
        cases "claim_airdrop_tokens_with_multiplier_msg d (lc_credits_contract cfg) a (total_ntrn_rewards user)")
      (simp_all add: Let_def)
  from trans [OF sym [OF this] assms(1)] show ?thesis unfolding map_ok_Ok_iff prod.inject by blast
qed

text \<open>C19: The callback of a claim marks the caller's one-time rewards as paid and touches nobody else's. Its messages are exactly the generator's rewards, the LP tokens if they are unlocked, and, only if the rewards were not paid before, one BankSend of the calculated NTRN (none if that is 0) and the claim of the airdrop's multiplier: besides the generator's rewards the callback pays exactly the calculated NTRN the first time and none later.\<close>
theorem lockdrop_one_time_rewards_are_paid_once:
  assumes "callback_withdraw_user_rewards_for_lockup_optional_withdraw d env p a dur w s = Ok (s', ms)"
  shows "ntrn_transferred (load_user_or_default s' a) \<and>
    (\<forall>b. b \<noteq> a \<longrightarrow> load_user_or_default s' b = load_user_or_default s b) \<and>
    (\<exists>cfg pool li generator n li' reward_ms one_time. l_config s = Some cfg \<and> map_of (l_pools s) p = Some pool \<and>
       lc_generator cfg = Some generator \<and> compatible_load d s (p, a, dur) (lc_generator cfg) = Ok li \<and>
       lockup_lp_amount d env pool generator li = Ok n \<and>
       withdraw_generator_rewards d pool generator a (load_user_or_default s a) w n li = Ok (li', reward_ms) \<and>
       ms = reward_ms @ (if w then [WasmExecute (lp_token pool) (Cw20Transfer a n) []] else []) @ one_time \<and>
       (if ntrn_transferred (load_user_or_default s a) then one_time = []
        else \<exists>airdrop. airdrop_claim_msgs d cfg a (total_ntrn_rewards (load_user_or_default s a)) = Ok airdrop \<and>
          one_time = (if 0 < total_ntrn_rewards (load_user_or_default s a)
            then [BankSend a [\<lparr>coin_denom = ntrn_denom, coin_amount = total_ntrn_rewards (load_user_or_default s a)\<rparr>]]
            else []) @ airdrop) \<and>
       outflow ntrn_denom ms = outflow ntrn_denom reward_ms +
         (if ntrn_transferred (load_user_or_default s a) then 0
          else unat (total_ntrn_rewards (load_user_or_default s a))))"
  using assms
proof (rule withdraw_rewards_inversion, goal_cases)
  case (1 cfg pool li generator lp_amount li' reward_ms s1 unlock_ms one_ms)
  let ?user = "load_user_or_default s a"
  have users: "l_users s1 = l_users s"
    using 1(7) by (auto simp: release_lockup_Ok split: if_splits)
  have unlock: "unlock_ms = (if w then [WasmExecute (lp_token pool) (Cw20Transfer a lp_amount) []] else [])"
    using 1(7) by auto
  show ?case
  proof (cases "ntrn_transferred ?user")
    case True
    then have "s' = s1" "one_ms = []" using 1(8) by (auto simp: one_time_rewards_def)
    then show ?thesis using True users 1(1-6,9) unlock by (auto simp: load_user_or_default_def)
  next
    case False
    from one_time_rewards_first [OF 1(8) this] obtain airdrop where
      a: "airdrop_claim_msgs d cfg a (total_ntrn_rewards ?user) = Ok airdrop"
      and s': "s' = s1\<lparr>l_users := save a (?user\<lparr>ntrn_transferred := True\<rparr>) (l_users s1)\<rparr>"
      and one: "one_ms = (if 0 < total_ntrn_rewards ?user
        then [BankSend a [\<lparr>coin_denom = ntrn_denom, coin_amount = total_ntrn_rewards ?user\<rparr>]] else []) @ airdrop" by blast
    have "ntrn_transferred (load_user_or_default s' a) \<and>
        (\<forall>b. b \<noteq> a \<longrightarrow> load_user_or_default s' b = load_user_or_default s b)"
      using users by (auto simp: s' load_user_or_default_def map_of_save)
    moreover have "outflow ntrn_denom ms = outflow ntrn_denom reward_ms + unat (total_ntrn_rewards ?user)"
      using airdrop_claim_no_transfer [OF a] by (auto simp: 1(9) unlock one word_gt_0)
    ultimately show ?thesis using 1(1-6) a one False unlock unfolding 1(9) by auto
  qed
qed

theorem lockdrop_one_time_rewards_are_paid_once_witness:
  "ntrn_transferred (load_user_or_default lr_unlocked ''alice'') \<and> outflow ntrn_denom lr_unlock_msgs = 1000"
proof -
  have "callback_withdraw_user_rewards_for_lockup_optional_withdraw lr_deps (lr_env 200) USDC ''alice'' 10 True
      lr_claimed = Ok (lr_unlocked, lr_unlock_msgs)"
    using lr_unlock by (simp add: receive_lockdrop_callback_def split: if_splits)
  from lockdrop_one_time_rewards_are_paid_once [OF this]
  show ?thesis by (simp add: lr_unlock_msgs_def ntrn_denom_def)
qed

subsection \<open>The ledger\<close>

text \<open>The contract as an abstract ledger: the LP units of each lockup that are still held. Opening
  or growing a lockup adds to its entry, a withdrawal subtracts, a pay-out empties it.\<close>

definition ledger :: "lockdrop \<Rightarrow> lockup_key \<Rightarrow> nat" where
  "ledger s k = live_at (l_lockups s) k"

lemma ledger_increase:
  assumes h: "handle_increase_lockup d env info u p dur n s = Ok (s', ms)" and a: "addr_validate d u = Ok a"
    and i: "lockdrop_inv (block_time env) s"
  shows "ledger s' = (ledger s)((p, a, dur) := ledger s (p, a, dur) + unat n) \<and> ms = []"
  using h
proof (rule increase_inversion, goal_cases)
  case (1 cfg window_end b pool weight weighted in_lockups found li user total')
  have ab: "b = a" using 1(5) a by simp
  have "open_lockups s" using 1(1,3,4) by (intro windows_end_open [OF i]) (auto simp: word_less_nat_alt)
  note ol = open_lockups_load [OF this]
  have "live_units (LockupV2 li) = live_at (l_lockups s) (p, a, dur) + unat n"
  proof (cases found)
    case None
    then show ?thesis using 1(13,14) ab
      by (auto simp: compatible_may_load_Ok grow_or_open_Ok live_at_def live_units_def)
  next
    case (Some old)
    then have l: "compatible_load d s (p, a, dur) (lc_generator cfg) = Ok old"
      using 1(13) ab by (simp add: compatible_may_load_Ok)
    show ?thesis using 1(14) Some compatible_load_live [OF l] ol [OF l]
      by (auto simp: grow_or_open_Ok live_units_def)
  qed
  then show ?case using 1(16,17) ab by (auto simp: ledger_def live_at_def map_of_save fun_eq_iff)
qed

lemma ledger_withdraw:
  assumes h: "handle_withdraw_from_lockup d env info u p dur n s = Ok (s', ms)" and a: "addr_validate d u = Ok a"
    and i: "lockdrop_inv (block_time env) s"
  shows "unat n \<le> ledger s (p, a, dur) \<and>
    ledger s' = (ledger s)((p, a, dur) := ledger s (p, a, dur) - unat n) \<and> ms = []"
  using h
proof (rule withdraw_from_lockup_inversion, goal_cases)
  case (1 cfg window_end pool b li allowed lock_end units weight weighted in_lockups lockups users totals)
  have ok: "store_ok (l_lockups s)" using i by (simp add: lockdrop_inv_def lockdrop_books_def)
  have ab: "b = a" using 1(7) a by simp
  have "open_lockups s" using 1(1,3,4)
    by (intro windows_end_open [OF i]) (auto simp: word_less_nat_alt withdrawal_window_end_def lock_window_end_def)
  then have o: "astroport_lp_transferred li = None" using open_lockups_load 1(8) by blast
  have live: "live_at (l_lockups s) (p, a, dur) = unat units + unat n"
    using compatible_load_live(1) [OF 1(8)] o 1(13) ab by (simp add: live_units_def)
  show ?case
  proof (cases "units = 0")
    case True
    then have "l_lockups s' = remove (p, a, dur) (l_lockups s)"
      using 1(17,19) ab by (auto simp: store_or_close_Ok)
    then show ?thesis using live True ok 1(20)
      by (auto simp: ledger_def live_at_def map_of_remove fun_eq_iff)
  next
    case False
    then have "l_lockups s' = save (p, a, dur)
        (LockupV2 (li\<lparr>withdrawal_flag := lock_end \<le> block_time env, lp_units_locked := units\<rparr>)) (l_lockups s)"
      using 1(17,19) ab by (simp add: store_or_close_Ok)
    then show ?thesis using live o 1(20)
      by (auto simp: ledger_def live_at_def map_of_save fun_eq_iff live_units_def)
  qed
qed

lemma ledger_payout:
  assumes "callback_withdraw_user_rewards_for_lockup_optional_withdraw d env p a dur w s = Ok (s', ms)"
  shows "ledger s' = (if w then (ledger s)((p, a, dur) := 0) else ledger s)"
  using assms
proof (rule withdraw_rewards_inversion, goal_cases)
  case (1 cfg pool li generator lp_amount li' reward_ms s1 unlock_ms one_ms)
  note f = withdraw_generator_rewards_frame [OF 1(6)]
  have o: "l_lockups s' = l_lockups s1" using one_time_rewards_lockups [OF 1(8)] by simp
  show ?case
  proof (cases w)
    case True
    then show ?thesis using 1(7) release_lockup_stored [of p a dur pool li' lp_amount s s1] o
      by (auto simp: ledger_def live_at_def map_of_save fun_eq_iff live_units_def)
  next
    case False
    then show ?thesis using 1(7) o f compatible_load_live(1) [OF 1(3)]
      by (auto simp: ledger_def live_at_def map_of_save fun_eq_iff live_units_def)
  qed
qed

lemma payout_transfers:
  assumes h: "callback_withdraw_user_rewards_for_lockup_optional_withdraw d env p a dur w s = Ok (s', ms)"
    and k: "terms_kept s"
  shows "\<exists>cfg pool generator li n. l_config s = Some cfg \<and> map_of (l_pools s) p = Some pool \<and>
    lc_generator cfg = Some generator \<and> compatible_load d s (p, a, dur) (lc_generator cfg) = Ok li \<and>
    lockup_lp_amount d env pool generator li = Ok n \<and>
    filter is_cw20_transfer ms = (if w then [WasmExecute (lp_token pool) (Cw20Transfer a n) []] else []) \<and>
    (\<forall>token. cw20_outflow token ms = (if w \<and> token = lp_token pool then unat n else 0))"
  using h
proof (rule withdraw_rewards_inversion, goal_cases)
  case (1 cfg pool li generator n li' reward_ms s1 unlock_ms one_ms)
  have unlock: "unlock_ms = (if w then [WasmExecute (lp_token pool) (Cw20Transfer a n) []] else [])"
    using 1(7) by auto
  have "generator_proxy_debt li = []" using terms_load [OF k 1(3)] by simp
  then have reward: "filter is_cw20_transfer reward_ms = [] \<and> cw20_outflow token reward_ms = 0" for token
    using 1(6) unfolding withdraw_generator_rewards_def
    by (cases "is_staked pool") (auto simp: pending_proxy_none split: if_splits)
  have one: "filter is_cw20_transfer one_ms = [] \<and> cw20_outflow token one_ms = 0" for token
  proof (cases "ntrn_transferred (load_user_or_default s a)")
    case True
    then show ?thesis using 1(8) by (auto simp: one_time_rewards_def)
  next
    case False
    from one_time_rewards_first [OF 1(8) this] show ?thesis
      using airdrop_claim_no_transfer by fastforce
  qed
  have "filter is_cw20_transfer ms = (if w then [WasmExecute (lp_token pool) (Cw20Transfer a n) []] else [])"
    using reward one by (simp add: 1(9) unlock)
  moreover have "cw20_outflow token ms = (if w \<and> token = lp_token pool then unat n else 0)" for token
    using reward one by (auto simp: 1(9) unlock)
  ultimately show ?case using 1(1-5) by blast
qed

lemma ledger_view: "lockup_view s' = lockup_view s \<Longrightarrow> ledger s' = ledger s"
proof
  fix k
  assume "lockup_view s' = lockup_view s"
  then have "lockup_view s' k = lockup_view s k" by simp
  then show "ledger s' k = ledger s k"
    by (cases "map_of (l_lockups s') k"; cases "map_of (l_lockups s) k")
      (simp_all add: lockup_view_def ledger_def live_at_def live_units_def)
qed

text \<open>What happens between the claim and its callback, the messages of the generator, pays nothing out.\<close>

lemma claim_before_callback:
  assumes "handle_claim_rewards_and_unlock_for_lockup d env info p dur w s
      = Ok (u, q @ [WasmExecute (this_contract env)
          (LockdropCallback (WithdrawUserLockupRewardsCallback p (sender info) dur w)) []])"
    and "lockdrop_run env q u v" and k: "terms_kept s" and b: "lockdrop_books s"
  shows "terms_kept v \<and> ledger v = ledger s"
proof -
  note c = claim_rewards_terms [OF assms(1) k b]
  have "list_all (quiet env) q"
    using assms(1)
  proof (rule claim_rewards_inversion, goal_cases)
    case (1 cfg total_share window_end pool user s1 user' li claim_ms)
    then show ?case
      using claim_generator_rewards_quiet [of d env p "lp_token pool" _ claim_ms] by (auto split: if_splits)
  qed
  then have q: "list_all (pays_only env x False) q" for x by (rule quiet_pays_only)
  have "lockup_view v x = lockup_view u x" for x
    using run_pays_only [OF assms(2) conjunct1 [OF c] q] by simp
  then have "lockup_view v = lockup_view s" using c by (simp add: fun_eq_iff)
  then show ?thesis using run_terms [OF assms(2) conjunct1 [OF c]] ledger_view by blast
qed

text \<open>C15: The lockdrop implements a ledger of LP units per lockup: an increase adds to one entry, a withdrawal subtracts at most what is there, and both send nothing. A claim, from the handler over the generator's messages to its callback, empties the entry if it withdraws the LP stake and leaves the ledger alone otherwise; the callback's only cw20 transfer is then the lockup's LP tokens to the user, and without the flag there is none: no token but the pool's LP token leaves the lockdrop by a transfer, send or burn, and of that exactly the lockup's amount.\<close>
theorem lockdrop_refines_the_ledger:
  assumes "lockdrop_reachable t s" and "t \<le> block_time env"
  shows "(\<forall>u a s' ms. handle_increase_lockup d env info u p dur n s = Ok (s', ms) \<and> addr_validate d u = Ok a \<longrightarrow>
      ledger s' = (ledger s)((p, a, dur) := ledger s (p, a, dur) + unat n) \<and> ms = []) \<and>
    (\<forall>u a s' ms. handle_withdraw_from_lockup d env info u p dur n s = Ok (s', ms) \<and> addr_validate d u = Ok a \<longrightarrow>
      unat n \<le> ledger s (p, a, dur) \<and>
      ledger s' = (ledger s)((p, a, dur) := ledger s (p, a, dur) - unat n) \<and> ms = []) \<and>
    (\<forall>a s' ms w. callback_withdraw_user_rewards_for_lockup_optional_withdraw d env p a dur w s = Ok (s', ms) \<longrightarrow>
      ledger s' = (if w then (ledger s)((p, a, dur) := 0) else ledger s)) \<and>
    (\<forall>caller q u v w s' ms.
      handle_claim_rewards_and_unlock_for_lockup d env caller p dur w s
        = Ok (u, q @ [WasmExecute (this_contract env)
            (LockdropCallback (WithdrawUserLockupRewardsCallback p (sender caller) dur w)) []]) \<and>
      lockdrop_run env q u v \<and>
      callback_withdraw_user_rewards_for_lockup_optional_withdraw d' env p (sender caller) dur w v = Ok (s', ms) \<longrightarrow>
      ledger s' = (if w then (ledger s)((p, sender caller, dur) := 0) else ledger s) \<and>
      (\<exists>cfg pool generator li k. l_config v = Some cfg \<and> map_of (l_pools v) p = Some pool \<and>
         lc_generator cfg = Some generator \<and> compatible_load d' v (p, sender caller, dur) (lc_generator cfg) = Ok li \<and>
         lockup_lp_amount d' env pool generator li = Ok k \<and>
         filter is_cw20_transfer ms = (if w then [WasmExecute (lp_token pool) (Cw20Transfer (sender caller) k) []] else []) \<and>
         (\<forall>token. cw20_outflow token ms = (if w \<and> token = lp_token pool then unat k else 0))))"
proof -
  have i: "lockdrop_inv (block_time env) s" and k: "terms_kept s" and b: "lockdrop_books s"
    using lockdrop_inv_later [OF reachable_inv [OF assms(1)] assms(2)] reachable_terms [OF assms(1)]
    by (simp_all add: lockdrop_inv_def)
  have whole: "ledger s' = (if w then (ledger s)((p, sender caller, dur) := 0) else ledger s) \<and>
      (\<exists>cfg pool generator li k. l_config v = Some cfg \<and> map_of (l_pools v) p = Some pool \<and>
         lc_generator cfg = Some generator \<and> compatible_load d' v (p, sender caller, dur) (lc_generator cfg) = Ok li \<and>
         lockup_lp_amount d' env pool generator li = Ok k \<and>
         filter is_cw20_transfer ms = (if w then [WasmExecute (lp_token pool) (Cw20Transfer (sender caller) k) []] else []) \<and>
         (\<forall>token. cw20_outflow token ms = (if w \<and> token = lp_token pool then unat k else 0)))"
    if h: "handle_claim_rewards_and_unlock_for_lockup d env caller p dur w s
        = Ok (u, q @ [WasmExecute (this_contract env)
            (LockdropCallback (WithdrawUserLockupRewardsCallback p (sender caller) dur w)) []])"
      and r: "lockdrop_run env q u v"
      and c: "callback_withdraw_user_rewards_for_lockup_optional_withdraw d' env p (sender caller) dur w v = Ok (s', ms)"
    for caller q u v w s' ms
  proof -
    have "terms_kept v \<and> ledger v = ledger s"
      using claim_before_callback [OF _ r k b, of d caller] h by simp
    then show ?thesis using ledger_payout [OF c] payout_transfers [OF c] by (intro conjI) simp_all
  qed
  show ?thesis
    by (intro conjI allI impI; (elim conjE)?)
      (((drule (1) ledger_increase ledger_withdraw, rule i, simp)+) | (rule ledger_payout, assumption)
        | (drule (2) whole, blast))+
qed

theorem lockdrop_refines_the_ledger_witness:
  "ledger lr_shrunk = (ledger lr_locked)((USDC, ''alice'', 10) := 1000 - unat (200 :: u128)) \<and>
   ledger lr_unlocked = (ledger lr_staked)((USDC, ''alice'', 10) := 0) \<and>
   cw20_outflow ''usdclp'' lr_unlock_msgs = 800 \<and>
   filter is_cw20_transfer lr_unlock_msgs = [WasmExecute ''usdclp'' (Cw20Transfer ''alice'' 800) []]"
proof -
  have h: "handle_withdraw_from_lockup lr_deps (lr_env 155) (lr_call ''auction'') ''alice'' USDC 10 200 lr_locked
      = Ok (lr_shrunk, [])" using lr_shrink by simp
  have a: "addr_validate lr_deps ''alice'' = Ok ''alice''" by (simp add: lr_deps_def)
  have "(120 :: u64) \<le> block_time (lr_env 155)" by (simp add: lr_env_def)
  note r = lockdrop_refines_the_ledger [OF lr_reachable_locked this,
      where d = lr_deps and info = "lr_call ''auction''" and p = USDC and dur = 10 and n = 200]
  have 1: "ledger lr_shrunk = (ledger lr_locked)((USDC, ''alice'', 10) :=
      ledger lr_locked (USDC, ''alice'', 10) - unat (200 :: u128))"
    using r h a by blast
  have 2: "ledger lr_locked (USDC, ''alice'', 10) = 1000"
    by (simp add: ledger_def live_at_def lr_states live_units_def)
  have claim: "handle_claim_rewards_and_unlock_for_lockup lr_deps (lr_env 200) (lr_call ''alice'') USDC 10 True
      lr_staked = Ok (lr_claimed, [] @ [WasmExecute (this_contract (lr_env 200))
        (LockdropCallback (WithdrawUserLockupRewardsCallback USDC (sender (lr_call ''alice'')) 10 True)) []])"
    using lr_claim by (simp add: lr_call_def lr_env_def)
  have call: "callback_withdraw_user_rewards_for_lockup_optional_withdraw lr_deps (lr_env 200) USDC (sender (lr_call ''alice''))
      10 True lr_claimed = Ok (lr_unlocked, lr_unlock_msgs)"
    using lr_unlock by (simp add: receive_lockdrop_callback_def lr_call_def split: if_splits)
  have "(175 :: u64) \<le> block_time (lr_env 200)" by (simp add: lr_env_def)
  note r2 = lockdrop_refines_the_ledger [OF lr_reachable_staked this,
      where d = lr_deps and d' = lr_deps and p = USDC and dur = 10]
  have 3: "ledger lr_unlocked = (ledger lr_staked)((USDC, ''alice'', 10) := 0)"
    using r2 [THEN conjunct2, THEN conjunct2, THEN conjunct2, rule_format,
        OF conjI [OF claim conjI [OF lockdrop_run.finished call]]] by (simp add: lr_call_def)
  show ?thesis using 1 2 3 by (simp add: lr_unlock_msgs_def)
qed

subsection \<open>Set-up\<close>

lemma initialize_pool_inversion:
  assumes "handle_initialize_pool env info p cs share amount s = Ok (s', ms)"
  shows "\<exists>cfg pool generator total total' height. l_config s = Some cfg \<and> cs = lc_auction_contract cfg \<and>
    map_of (l_pools s) p = Some pool \<and> sender info = lp_token pool \<and> lc_generator cfg = Some generator \<and>
    l_state s = Some total \<and> unat total' = unat total + unat share \<and>
    s' = s\<lparr>l_pools := save p (pool\<lparr>incentives_share := share, is_staked := True\<rparr>) (l_pools s),
           l_state := Some total'\<rparr> \<and>
    ms = [WasmExecute (lp_token pool) (Cw20IncreaseAllowance generator amount height) [],
          WasmExecute (lp_token pool) (Cw20Send generator amount GeneratorDeposit) []]"
  using assms unfolding handle_initialize_pool_def lockdrop_load_config_def lockdrop_load_state_def
    load_pool_def stake_messages_def
  by (auto simp: Let_def)

text \<open>A cw20 hook is accepted only as InitializePool from the auction in the pool's own LP token; it books the incentives share and stakes exactly the received amount.\<close>
theorem lockdrop_only_auction_starts_a_pool:
  assumes "lockdrop_receive_cw20 d env info cw20_sender amount hook s = Ok (s', ms)"
  shows "\<exists>cfg p share pool generator total total'. hook = InitializePool p share \<and> l_config s = Some cfg \<and>
    addr_validate d cw20_sender = Ok (lc_auction_contract cfg) \<and>
    map_of (l_pools s) p = Some pool \<and> sender info = lp_token pool \<and> lc_generator cfg = Some generator \<and>
    l_state s = Some total \<and> unat total' = unat total + unat share \<and> amount \<noteq> 0 \<and>
    s' = s\<lparr>l_pools := save p (pool\<lparr>incentives_share := share, is_staked := True\<rparr>) (l_pools s),
           l_state := Some total'\<rparr> \<and>
    cw20_outflow (lp_token pool) ms = unat amount \<and>
    WasmExecute (lp_token pool) (Cw20Send generator amount GeneratorDeposit) [] \<in> set ms"
proof (cases hook)
  case (InitializePool p share)
  with assms obtain cs where "addr_validate d cw20_sender = Ok cs" "amount \<noteq> 0"
    and h: "handle_initialize_pool env info p cs share amount s = Ok (s', ms)"
    by (auto simp: lockdrop_receive_cw20_def)
  with InitializePool show ?thesis
    by (auto dest!: initialize_pool_inversion)
qed (use assms in \<open>auto simp: lockdrop_receive_cw20_def\<close>)

theorem lockdrop_only_auction_starts_a_pool_witness:
  "cw20_outflow ''usdclp'' lr_stake_msgs = 800 \<and> l_state lr_staked = Some 1"
proof -
  have "lockdrop_receive_cw20 lr_deps (lr_env 175) (lr_call ''usdclp'') ''auction'' 800 (InitializePool USDC 1) lr_shrunk
      = Ok (lr_staked, lr_stake_msgs)" using lr_stake by simp
  from lockdrop_only_auction_starts_a_pool [OF this]
  show ?thesis by (auto simp: lr_states)
qed

subsection \<open>What the code does not promise\<close>

text \<open>In a reachable state the generator rewards of a lockup never contain a proxy reward: the list of proxy debts is empty from the start and only its entries are paid.\<close>
theorem lockdrop_never_pays_proxy_rewards:
  assumes "lockdrop_reachable t s" and "compatible_load d s (p, a, dur) g = Ok li"
    and "withdraw_generator_rewards d pool generator a user w n li = Ok (li', ms)"
  shows "generator_proxy_debt li' = [] \<and>
    (\<forall>m \<in> set ms. (\<exists>r. gen_base_reward_token d generator (lp_token pool) = Ok r \<and>
        (\<exists>k. m = BankSend a [\<lparr>coin_denom = asset_info_string r, coin_amount = k\<rparr>])) \<or>
      m = WasmExecute generator (GeneratorWithdraw (lp_token pool) n) [])"
proof -
  have "generator_proxy_debt li = []"
    using terms_load [OF reachable_terms [OF assms(1)] assms(2)] by simp
  with assms(3) show ?thesis
    unfolding withdraw_generator_rewards_def
    by (cases "is_staked pool") (auto simp: pending_proxy_none split: if_splits)
qed

definition lr_proxy_pool :: lockdrop_pool where
  "lr_proxy_pool = lr_shrunk_pool\<lparr>incentives_share := 1, is_staked := True,
     generator_proxy_per_share := [(Token ''astro'', Decimal 500000000000000000)]\<rparr>"

definition lr_proxy :: lockdrop where
  "lr_proxy = lr_staked\<lparr>l_pools := lr_pools lr_proxy_pool\<rparr>"

theorem lockdrop_never_pays_proxy_rewards_witness:
  "withdraw_generator_rewards lr_deps lr_proxy_pool ''gen'' ''alice'' user_info_default True 800
       (lr_lockup 800 True)
     = Ok (lr_lockup 800 True, [WasmExecute ''gen'' (GeneratorWithdraw ''usdclp'' 800) []]) \<and>
   generator_proxy_debt (lr_lockup 800 True) = []"
proof
  have l: "compatible_load lr_deps lr_staked (USDC, ''alice'', 10) None = Ok (lr_lockup 800 True)"
    by (simp add: compatible_load_def lr_states)
  show w: "withdraw_generator_rewards lr_deps lr_proxy_pool ''gen'' ''alice'' user_info_default True 800
      (lr_lockup 800 True)
      = Ok (lr_lockup 800 True, [WasmExecute ''gen'' (GeneratorWithdraw ''usdclp'' 800) []])"
    by (simp add: withdraw_generator_rewards_def pending_ntrn_reward_def pending_proxy_rewards_def
        lr_proxy_pool_def lr_states eval_arith decimal_zero_def)
  show "generator_proxy_debt (lr_lockup 800 True) = []"
    using lockdrop_never_pays_proxy_rewards [OF lr_reachable_staked l w] by blast
qed

definition lr_proxy_deps :: lockdrop_deps where
  "lr_proxy_deps = lr_deps\<lparr>gen_pending_token := (\<lambda>g lp a.
     Ok \<lparr>pending = 0, pending_on_proxy = Some [\<lparr>ainfo = Token ''astro'', asset_amount = 0\<rparr>]\<rparr>)\<rparr>"

text \<open>A concrete state in which query_lockup_info reports 400 claimable proxy tokens and the claim that unlocks the lockup pays none of them.\<close>
theorem lockdrop_reports_proxy_rewards_it_does_not_pay:
  "map_ok claimable_generator_proxy_debt
     (query_lockup_info lr_proxy_deps (lr_env 200) ''alice'' USDC 10 lr_proxy) = Ok [(Token ''astro'', 400)] \<and>
   map_ok (\<lambda>(s, ms). cw20_outflow ''astro'' ms)
     (callback_withdraw_user_rewards_for_lockup_optional_withdraw lr_proxy_deps (lr_env 200) USDC ''alice'' 10 True
        lr_proxy) = Ok 0"
proof
  show "map_ok claimable_generator_proxy_debt
     (query_lockup_info lr_proxy_deps (lr_env 200) ''alice'' USDC 10 lr_proxy) = Ok [(Token ''astro'', 400)]"
    by (simp add: query_lockup_info_def claimable_generator_rewards_def raw_generator_deposit_def
        lp_share_def pending_ntrn_reward_def lockup_incentives_def calculate_weight_def
        calculate_astro_incentives_for_lockup_def lr_proxy_deps_def lr_proxy_def lr_proxy_pool_def
        lr_loads lr_states eval_arith decimal_zero_def decimal256_one_def)
  show "map_ok (\<lambda>(s, ms). cw20_outflow ''astro'' ms)
     (callback_withdraw_user_rewards_for_lockup_optional_withdraw lr_proxy_deps (lr_env 200) USDC ''alice'' 10 True
        lr_proxy) = Ok 0"
    by (simp add: callback_withdraw_user_rewards_for_lockup_optional_withdraw_def
        withdraw_generator_rewards_def lockup_lp_amount_def lp_share_def pending_ntrn_reward_def
        pending_proxy_rewards_def release_lockup_def sub_user_total_def one_time_rewards_def
        lr_proxy_deps_def lr_proxy_def lr_proxy_pool_def lr_loads lr_states eval_arith decimal_zero_def)
qed

text \<open>SetTokenInfo after lockups exist resets both pools, so that no lockup can be withdrawn from any more.\<close>
theorem lockdrop_set_token_info_strands_lockups:
  assumes "handle_set_token_info d info usdc atom g s = Ok (s', ms)"
  shows "l_lockups s' = l_lockups s \<and> l_totals s' = l_totals s \<and>
    (\<forall>p. pool_amount (l_pools s') p = 0) \<and>
    (\<forall>env info u p dur n. \<not> is_ok (handle_withdraw_from_lockup d' env info u p dur n s'))"
proof -
  have pools: "\<exists>pool. map_of (l_pools s') p = Some pool \<and> amount_in_lockups pool = 0" for p
    using assms unfolding handle_set_token_info_def
    by (cases p) (auto simp: map_of_save new_lockdrop_pool_def)
  have "\<not> is_ok (handle_withdraw_from_lockup d' env info u p dur n s')" for env info u p dur n
  proof
    assume "is_ok (handle_withdraw_from_lockup d' env info u p dur n s')"
    then obtain s2 ms2 where "handle_withdraw_from_lockup d' env info u p dur n s' = Ok (s2, ms2)"
      by (auto simp: is_ok_iff)
    then show False
      by (rule withdraw_from_lockup_inversion) (use pools [of p] in \<open>auto simp: unat_eq_0\<close>)
  qed
  moreover have "pool_amount (l_pools s') p = 0" for p
    using pools [of p] by (auto simp: pool_amount_def)
  ultimately show ?thesis using assms by (auto simp: handle_set_token_info_def)
qed

theorem lockdrop_set_token_info_strands_lockups_witness:
  "\<not> is_ok (handle_withdraw_from_lockup lr_deps (lr_env 155) (lr_call ''auction'') ''alice'' USDC 10 200
     (lr_locked\<lparr>l_pools := l_pools lr_ready\<rparr>)) \<and>
   is_ok (handle_withdraw_from_lockup lr_deps (lr_env 155) (lr_call ''auction'') ''alice'' USDC 10 200 lr_locked)"
proof -
  have "handle_set_token_info lr_deps (lr_call ''manager'') ''usdclp'' ''atomlp'' ''gen'' lr_locked
      = Ok (lr_locked\<lparr>l_pools := l_pools lr_ready\<rparr>, [])"
    by (simp add: handle_set_token_info_def lr_loads lr_states)
  from lockdrop_set_token_info_strands_lockups [OF this]
  have "\<not> is_ok (handle_withdraw_from_lockup lr_deps (lr_env 155) (lr_call ''auction'') ''alice'' USDC 10 200
     (lr_locked\<lparr>l_pools := l_pools lr_ready\<rparr>))" by blast
  then show ?thesis using lr_shrink by simp
qed

text \<open>Two deposits of one unit round their weights down separately, so that withdrawing the two units together fails with an overflow.\<close>
theorem lockdrop_weight_rounding_can_block_a_withdrawal:
  "map_ok (\<lambda>(s, ms). handle_withdraw_from_lockup lr_deps (lr_env 130) (lr_call ''auction'') ''alice'' USDC 10 2 s)
     (and_then (handle_increase_lockup lr_deps (lr_env 120) (lr_call ''auction'') ''alice'' USDC 10 1 lr_funded)
       (\<lambda>(s, _). handle_increase_lockup lr_deps (lr_env 121) (lr_call ''auction'') ''alice'' USDC 10 1 s))
   = Ok (Err Overflow)"
  by (simp add: lr_ops lr_states eval_arith decimal256_one_def)

end
