(* ===== verification/Airdrop.thy ===== *)
theory Airdrop
  imports Messages
begin

text \<open>
  The airdrop contract, \<open>contracts/cw20-merkle-airdrop\<close>. A list of addresses and amounts is fixed
  by the root of a Merkle tree over the texts \<open>address ++ amount\<close>; who shows a path from the text
  of its own address to the root gets that amount of cNTRN from the credits contract, with a
  vesting schedule. After the vesting period the reserve takes what was not claimed.

  SHA-256 (crate \<open>sha2\<close>) and hexadecimal decoding (crate \<open>hex\<close>) are fields of \<open>airdrop_deps\<close>.
\<close>

subsection \<open>Data\<close>

datatype hex_error = InvalidHexCharacter | OddLength | InvalidStringLength

datatype airdrop_error =
    AirdropStd std_error
  | Hex hex_error
  | AirdropUnauthorized
  | Claimed
  | WrongLength
  | VerificationFailed
  | CannotMigrate string
  | Expired u64
  | WithdrawAllUnavailable u64
  | NotBegun u64
  | Paused
  | NotPaused
  | SemVer string
  | CreditsAddress
  | ReserveAddress
  | VestingBeforeAirdrop u64 u64

record airdrop_config =
  airdrop_owner :: addr
  credits_address :: addr
  reserve_address :: addr

record airdrop =
  a_config :: "airdrop_config option"
  airdrop_start :: "u64 option"
  vesting_start :: "u64 option"
  vesting_duration :: "u64 option"
  a_amount :: "u128 option"
  amount_claimed :: "u128 option"
  account_map :: "(string, string) store"
  merkle_root :: "string option"
  claim_flags :: "(string, bool) store"      \<comment> \<open>\<open>CLAIM\<close>\<close>
  hrp :: "string option"
  paused :: "bool option"

definition airdrop_empty :: airdrop where
  "airdrop_empty = \<lparr>a_config = None, airdrop_start = None, vesting_start = None,
     vesting_duration = None, a_amount = None, amount_claimed = None, account_map = [],
     merkle_root = None, claim_flags = [], hrp = None, paused = None\<rparr>"

record airdrop_instantiate_msg =
  ai_credits_address :: string
  ai_reserve_address :: string
  ai_merkle_root :: string
  ai_airdrop_start :: u64
  ai_vesting_start :: u64
  ai_vesting_duration :: u64
  ai_total_amount :: "u128 option"
  ai_hrp :: "string option"

datatype airdrop_execute_msg =
    Claim u128 "string list"
  | WithdrawAll
  | Pause
  | Resume
  | UpdateReserve string

type_synonym bytes = "u8 list"

record airdrop_deps = deps +
  sha256 :: "bytes \<Rightarrow> bytes"
  hex_decode_32 :: "string \<Rightarrow> (hex_error, bytes) result"  \<comment> \<open>\<open>hex::decode_to_slice\<close> into \<open>[u8; 32]\<close>\<close>

text \<open>The documented behaviour of \<open>decode_to_slice\<close>: on success the whole buffer is written.\<close>

definition hex_law :: "('d) airdrop_deps_scheme \<Rightarrow> bool" where
  "hex_law d \<longleftrightarrow> (\<forall>s b. hex_decode_32 d s = Ok b \<longrightarrow> length b = 32)"

type_synonym airdrop_result = "(airdrop_error, airdrop \<times> msg list) result"

subsection \<open>Instantiation\<close>

definition airdrop_instantiate ::
  "('d) airdrop_deps_scheme \<Rightarrow> message_info \<Rightarrow> airdrop_instantiate_msg \<Rightarrow> airdrop \<Rightarrow> airdrop_result" where
  "airdrop_instantiate d info m s =
     and_then (map_err AirdropStd (addr_validate d (ai_credits_address m))) (\<lambda>credits.
     and_then (map_err AirdropStd (addr_validate d (ai_reserve_address m))) (\<lambda>reserve.
     and_then (map_err Hex (hex_decode_32 d (ai_merkle_root m))) (\<lambda>_.
     if ai_vesting_start m < ai_airdrop_start m
     then Err (VestingBeforeAirdrop (ai_airdrop_start m) (ai_vesting_start m))
     else
       Ok (s\<lparr>paused := Some False,
             a_config := Some \<lparr>airdrop_owner = sender info, credits_address = credits,
                               reserve_address = reserve\<rparr>,
             merkle_root := Some (ai_merkle_root m),
             airdrop_start := Some (ai_airdrop_start m),
             vesting_start := Some (ai_vesting_start m),
             vesting_duration := Some (ai_vesting_duration m),
             hrp := (case ai_hrp m of Some h \<Rightarrow> Some h | None \<Rightarrow> hrp s),
             a_amount := Some (unwrap_or (ai_total_amount m) 0),
             amount_claimed := Some 0\<rparr>, []))))"

subsection \<open>The claim\<close>

definition load_airdrop :: "'a option \<Rightarrow> (airdrop_error, 'a) result" where
  "load_airdrop x = load_item x (AirdropStd (NotFound ''item''))"

text \<open>\<open>Display\<close> of a \<open>Uint128\<close>: its decimal digits.\<close>

definition digit_char :: "nat \<Rightarrow> char" where
  "digit_char k = char_of (48 + k)"

fun show_decimal :: "nat \<Rightarrow> string" where
  "show_decimal n =
     (if n < 10 then [digit_char n] else show_decimal (n div 10) @ [digit_char (n mod 10)])"

declare show_decimal.simps [simp del]

definition as_bytes :: "string \<Rightarrow> bytes" where
  "as_bytes s = map (\<lambda>c. of_nat (of_char c)) s"

definition claim_text :: "addr \<Rightarrow> u128 \<Rightarrow> bytes" where
  "claim_text a n = as_bytes (a @ show_decimal (unat n))"

text \<open>\<open>Sha256::digest(x).as_slice().try_into()\<close> into \<open>[u8; 32]\<close>.\<close>

definition digest :: "('d) airdrop_deps_scheme \<Rightarrow> bytes \<Rightarrow> (airdrop_error, bytes) result" where
  "digest d x = (if length (sha256 d x) = 32 then Ok (sha256 d x) else Err WrongLength)"

text \<open>\<open>hashes.sort_unstable(); hashes.concat()\<close> of two hashes.\<close>

definition sorted_concat :: "bytes \<Rightarrow> bytes \<Rightarrow> bytes" where
  "sorted_concat a b = (if a \<le> b then a @ b else b @ a)"

definition proof_step :: "('d) airdrop_deps_scheme \<Rightarrow> bytes \<Rightarrow> string \<Rightarrow> (airdrop_error, bytes) result" where
  "proof_step d hash p =
     and_then (map_err Hex (hex_decode_32 d p)) (\<lambda>proof_buf.
     digest d (sorted_concat hash proof_buf))"

definition verify_merkle ::
  "('d) airdrop_deps_scheme \<Rightarrow> string \<Rightarrow> addr \<Rightarrow> u128 \<Rightarrow> string list \<Rightarrow> (airdrop_error, unit) result" where
  "verify_merkle d root proof_addr amount pf =
     and_then (digest d (claim_text proof_addr amount)) (\<lambda>hash.
     and_then (try_fold (proof_step d) hash pf) (\<lambda>hash.
     and_then (map_err Hex (hex_decode_32 d root)) (\<lambda>root_buf.
     if root_buf \<noteq> hash then Err VerificationFailed else Ok ())))"

text \<open>\<open>vesting_start + vesting_duration\<close>: the last second of the airdrop.\<close>

definition airdrop_expiration :: "airdrop \<Rightarrow> (airdrop_error, u64) result" where
  "airdrop_expiration s =
     and_then (load_airdrop (vesting_start s)) (\<lambda>start.
     and_then (load_airdrop (vesting_duration s)) (\<lambda>dur.
     add_panic start dur))"

definition execute_claim ::
  "('d) airdrop_deps_scheme \<Rightarrow> env \<Rightarrow> message_info \<Rightarrow> u128 \<Rightarrow> string list \<Rightarrow> airdrop \<Rightarrow> airdrop_result" where
  "execute_claim d env info amount pf s =
     and_then (load_airdrop (airdrop_start s)) (\<lambda>start.
     if block_time env < start then Err (NotBegun start)
     else
     and_then (load_airdrop (vesting_start s)) (\<lambda>vs.
     and_then (load_airdrop (vesting_duration s)) (\<lambda>vd.
     and_then (add_panic vs vd) (\<lambda>expiration.
     if expiration < block_time env then Err (Expired expiration)
     else
     and_then (load_airdrop (paused s)) (\<lambda>is_paused.
     if is_paused then Err Paused
     else if may_load (claim_flags s) (sender info) \<noteq> None then Err Claimed
     else
     and_then (load_airdrop (a_config s)) (\<lambda>cfg.
     and_then (load_airdrop (merkle_root s)) (\<lambda>root.
     and_then (verify_merkle d root (sender info) amount pf) (\<lambda>_.
     and_then (load_airdrop (amount_claimed s)) (\<lambda>claimed.
     and_then (add_panic claimed amount) (\<lambda>claimed.
     Ok (s\<lparr>claim_flags := save (sender info) True (claim_flags s), amount_claimed := Some claimed\<rparr>,
         [WasmExecute (credits_address cfg) (Cw20Transfer (sender info) amount) [],
          WasmExecute (credits_address cfg) (AddVesting (sender info) amount vs vd) []])))))))))))"

subsection \<open>Administration\<close>

definition execute_withdraw_all ::
  "('d) airdrop_deps_scheme \<Rightarrow> env \<Rightarrow> message_info \<Rightarrow> airdrop \<Rightarrow> airdrop_result" where
  "execute_withdraw_all d env info s =
     and_then (load_airdrop (a_config s)) (\<lambda>cfg.
     if sender info \<noteq> reserve_address cfg then Err AirdropUnauthorized
     else
     and_then (airdrop_expiration s) (\<lambda>expiration.
     if block_time env \<le> expiration then Err (WithdrawAllUnavailable expiration)
     else
     and_then (load_airdrop (paused s)) (\<lambda>is_paused.
     if is_paused then Err Paused
     else
     and_then (map_err AirdropStd (cw20_balance d (credits_address cfg) (this_contract env))) (\<lambda>amount.
     Ok (s, [WasmExecute (credits_address cfg) (Cw20Burn amount) [],
             BankSend (reserve_address cfg) [\<lparr>coin_denom = ntrn_denom, coin_amount = amount\<rparr>]])))))"

definition execute_update_reserve ::
  "('d) airdrop_deps_scheme \<Rightarrow> message_info \<Rightarrow> string \<Rightarrow> airdrop \<Rightarrow> airdrop_result" where
  "execute_update_reserve d info address s =
     and_then (load_airdrop (a_config s)) (\<lambda>cfg.
     if airdrop_owner cfg \<noteq> sender info \<and> reserve_address cfg \<noteq> sender info then Err AirdropUnauthorized
     else
     and_then (map_err AirdropStd (addr_validate d address)) (\<lambda>a.
     Ok (s\<lparr>a_config := Some (cfg\<lparr>reserve_address := a\<rparr>)\<rparr>, [])))"

definition execute_pause :: "env \<Rightarrow> message_info \<Rightarrow> airdrop \<Rightarrow> airdrop_result" where
  "execute_pause env info s =
     and_then (load_airdrop (a_config s)) (\<lambda>cfg.
     if sender info \<noteq> airdrop_owner cfg then Err AirdropUnauthorized
     else
     and_then (load_airdrop (airdrop_start s)) (\<lambda>start.
     if block_time env < start then Err (NotBegun start)
     else
     and_then (airdrop_expiration s) (\<lambda>expiration.
     if expiration < block_time env then Err (Expired expiration)
     else Ok (s\<lparr>paused := Some True\<rparr>, []))))"

definition execute_resume :: "env \<Rightarrow> message_info \<Rightarrow> airdrop \<Rightarrow> airdrop_result" where
  "execute_resume env info s =
     and_then (load_airdrop (a_config s)) (\<lambda>cfg.
     if sender info \<noteq> airdrop_owner cfg then Err AirdropUnauthorized
     else
     and_then (load_airdrop (airdrop_start s)) (\<lambda>start.
     if block_time env < start then Err (NotBegun start)
     else
     and_then (airdrop_expiration s) (\<lambda>expiration.
     if expiration < block_time env then Err (Expired expiration)
     else
     and_then (load_airdrop (paused s)) (\<lambda>is_paused.
     if \<not> is_paused then Err NotPaused
     else Ok (s\<lparr>paused := Some False\<rparr>, [])))))"

primrec airdrop_execute ::
  "('d) airdrop_deps_scheme \<Rightarrow> env \<Rightarrow> message_info \<Rightarrow> airdrop_execute_msg \<Rightarrow> airdrop \<Rightarrow> airdrop_result" where
  "airdrop_execute d env info (Claim amount pf) s = execute_claim d env info amount pf s"
| "airdrop_execute d env info WithdrawAll s = execute_withdraw_all d env info s"
| "airdrop_execute d env info Pause s = execute_pause env info s"
| "airdrop_execute d env info Resume s = execute_resume env info s"
| "airdrop_execute d env info (UpdateReserve address) s = execute_update_reserve d info address s"

subsection \<open>Queries\<close>

record merkle_root_response =
  r_merkle_root :: string
  r_airdrop_start :: u64
  r_vesting_start :: u64
  r_vesting_duration :: u64
  r_total_amount :: u128

definition airdrop_query_config :: "airdrop \<Rightarrow> (airdrop_error, airdrop_config) result" where
  "airdrop_query_config s = load_airdrop (a_config s)"

definition query_merkle_root :: "airdrop \<Rightarrow> (airdrop_error, merkle_root_response) result" where
  "query_merkle_root s =
     and_then (load_airdrop (merkle_root s)) (\<lambda>root.
     and_then (load_airdrop (airdrop_start s)) (\<lambda>start.
     and_then (load_airdrop (vesting_start s)) (\<lambda>vs.
     and_then (load_airdrop (vesting_duration s)) (\<lambda>vd.
     and_then (load_airdrop (a_amount s)) (\<lambda>total.
     Ok \<lparr>r_merkle_root = root, r_airdrop_start = start, r_vesting_start = vs,
         r_vesting_duration = vd, r_total_amount = total\<rparr>)))))"

definition query_is_claimed :: "airdrop \<Rightarrow> string \<Rightarrow> bool" where
  "query_is_claimed s address = unwrap_or (may_load (claim_flags s) address) False"

definition query_is_paused :: "airdrop \<Rightarrow> bool" where
  "query_is_paused s = unwrap_or (paused s) False"

definition query_total_claimed :: "airdrop \<Rightarrow> (airdrop_error, u128) result" where
  "query_total_claimed s = load_airdrop (amount_claimed s)"

definition query_address_map :: "airdrop \<Rightarrow> string \<Rightarrow> (airdrop_error, string \<times> string) result" where
  "query_address_map s external =
     and_then (load_airdrop (may_load (account_map s) external)) (\<lambda>host. Ok (host, external))"

definition airdrop_max_limit :: nat where "airdrop_max_limit = 1000"
definition airdrop_default_limit :: nat where "airdrop_default_limit = 10"

definition query_all_address_map ::
  "airdrop \<Rightarrow> string option \<Rightarrow> u32 option \<Rightarrow> (string \<times> string) list" where
  "query_all_address_map s start_after limit =
     (let n = min (case limit of Some l \<Rightarrow> unat l | None \<Rightarrow> airdrop_default_limit) airdrop_max_limit in
      map (\<lambda>(external, host). (host, external))
        (take n (filter (\<lambda>(external, _).
           case start_after of Some b \<Rightarrow> b < external | None \<Rightarrow> True) (account_map s))))"

end
