(* ===== verification/Airdrop_Properties.thy ===== *)
theory Airdrop_Properties
  imports Airdrop
begin

text \<open>
  What the airdrop promises. A reference Merkle tree gives the meaning of a root: the proofs it
  hands out are accepted, and an accepted proof is for one of its entries unless two different
  texts with the same hash are at hand. Over runs of the contract, every address claims at most
  once, the running total is the sum of the claims, and claims end before the reserve may take
  the rest.
\<close>

subsection \<open>Decimal texts\<close>

definition read_decimal :: "string \<Rightarrow> nat" where
  "read_decimal s = foldl (\<lambda>n c. 10 * n + (of_char c - 48)) 0 s"

lemma read_show_decimal: "read_decimal (show_decimal n) = n"
proof (induction n rule: show_decimal.induct)
  case (1 n)
  have digit: "of_char (digit_char k) - (48 :: nat) = k" if "k < 10" for k
    using that by (simp add: digit_char_def)
  show ?case
  proof (cases "n < 10")
    case True
    then show ?thesis by (subst show_decimal.simps) (simp add: read_decimal_def digit)
  next
    case False
    then have "read_decimal (show_decimal n) = 10 * read_decimal (show_decimal (n div 10)) + n mod 10"
      by (subst show_decimal.simps) (simp add: read_decimal_def digit)
    with 1 False show ?thesis by simp
  qed
qed

lemma show_decimal_inject: "show_decimal m = show_decimal n \<longleftrightarrow> m = n"
  by (metis read_show_decimal)

lemma as_bytes_inject: "as_bytes s = as_bytes t \<longleftrightarrow> s = t"
proof -
  have "(of_nat (of_char c) :: u8) = of_nat (of_char e) \<longleftrightarrow> c = e" for c e :: char
  proof
    assume "(of_nat (of_char c) :: u8) = of_nat (of_char e)"
    then have "unat (of_nat (of_char c) :: u8) = unat (of_nat (of_char e) :: u8)" by simp
    then have "(of_char c :: nat) = of_char e"
      using nat_of_char_less_256 [of c] nat_of_char_less_256 [of e] by (simp add: unat_of_nat)
    then show "c = e" by (rule of_char_eq_iff [THEN iffD1])
  qed simp
  then have "inj (\<lambda>c. (of_nat (of_char c) :: u8))" by (auto simp: inj_def)
  then show ?thesis unfolding as_bytes_def by (simp add: inj_map_eq_map)
qed

text \<open>Texts of addresses of the same length determine address and amount.\<close>

lemma claim_text_inject:
  assumes "length a = length b"
  shows "claim_text a m = claim_text b n \<longleftrightarrow> a = b \<and> m = n"
  using assms by (auto simp: claim_text_def as_bytes_inject show_decimal_inject word_unat_eq_iff)

subsection \<open>Merkle trees\<close>

datatype merkle = Leaf bytes | Node merkle merkle

primrec tree_hash :: "(bytes \<Rightarrow> bytes) \<Rightarrow> merkle \<Rightarrow> bytes" where
  "tree_hash H (Leaf x) = H x"
| "tree_hash H (Node l r) = H (sorted_concat (tree_hash H l) (tree_hash H r))"

primrec leaves :: "merkle \<Rightarrow> bytes list" where
  "leaves (Leaf x) = [x]"
| "leaves (Node l r) = leaves l @ leaves r"

text \<open>Every text that is hashed to build the tree.\<close>

primrec preimages :: "(bytes \<Rightarrow> bytes) \<Rightarrow> merkle \<Rightarrow> bytes list" where
  "preimages H (Leaf x) = [x]"
| "preimages H (Node l r) =
     sorted_concat (tree_hash H l) (tree_hash H r) # preimages H l @ preimages H r"

text \<open>The proof of every leaf: the hashes of the siblings on the way up.\<close>

primrec tree_proofs :: "(bytes \<Rightarrow> bytes) \<Rightarrow> merkle \<Rightarrow> (bytes \<times> bytes list) list" where
  "tree_proofs H (Leaf x) = [(x, [])]"
| "tree_proofs H (Node l r) =
     map (\<lambda>(x, ps). (x, ps @ [tree_hash H r])) (tree_proofs H l) @
     map (\<lambda>(x, ps). (x, ps @ [tree_hash H l])) (tree_proofs H r)"

definition fold_proof :: "(bytes \<Rightarrow> bytes) \<Rightarrow> bytes \<Rightarrow> bytes list \<Rightarrow> bytes" where
  "fold_proof H h ps = foldl (\<lambda>h p. H (sorted_concat h p)) h ps"

text \<open>Every text that is hashed to follow a proof.\<close>

fun proof_preimages :: "(bytes \<Rightarrow> bytes) \<Rightarrow> bytes \<Rightarrow> bytes list \<Rightarrow> bytes list" where
  "proof_preimages H x [] = [x]"
| "proof_preimages H x (p # ps) = x # proof_preimages H (sorted_concat (H x) p) ps"

text \<open>Two texts at hand that differ and have the same hash.\<close>

definition collision :: "(bytes \<Rightarrow> bytes) \<Rightarrow> bytes list \<Rightarrow> bytes list \<Rightarrow> bool" where
  "collision H us vs \<longleftrightarrow> (\<exists>u \<in> set us. \<exists>v \<in> set vs. u \<noteq> v \<and> H u = H v)"

lemma collisionI:
  "u \<in> set us \<Longrightarrow> v \<in> set vs \<Longrightarrow> u \<noteq> v \<Longrightarrow> H u = H v \<Longrightarrow> collision H us vs"
  by (auto simp: collision_def)

lemma sorted_concat_commute: "sorted_concat a b = sorted_concat b a"
  by (auto simp: sorted_concat_def)

lemma sorted_concat_inject:
  assumes "length a = n" "length b = n" "length c = n" "length e = n"
    and "sorted_concat a b = sorted_concat c e"
  shows "a = c \<and> b = e \<or> a = e \<and> b = c"
  using assms by (auto simp: sorted_concat_def split: if_splits)

lemma sorted_concat_length: "length (sorted_concat a b) = length a + length b"
  by (simp add: sorted_concat_def)

lemma fold_proof_snoc: "fold_proof H h (ps @ [p]) = H (sorted_concat (fold_proof H h ps) p)"
  by (simp add: fold_proof_def)

lemma proof_preimages_snoc:
  "set (proof_preimages H x (ps @ [p])) =
     insert (sorted_concat (fold_proof H (H x) ps) p) (set (proof_preimages H x ps))"
  by (induction H x ps rule: proof_preimages.induct) (auto simp: fold_proof_def)

lemma proof_preimages_first: "x \<in> set (proof_preimages H x ps)"
  by (cases ps) auto

lemma preimages_root: "\<exists>u \<in> set (preimages H t). tree_hash H t = H u"
  by (cases t) auto

text \<open>The proof of a leaf leads to the root.\<close>

lemma tree_proofs_accepted:
  "(x, ps) \<in> set (tree_proofs H t) \<Longrightarrow> fold_proof H (H x) ps = tree_hash H t"
proof (induction t arbitrary: ps)
  case (Node l r)
  then show ?case by (auto simp: fold_proof_snoc sorted_concat_commute)
qed (simp add: fold_proof_def)

text \<open>A path that leads to the root starts at a leaf, or a collision is at hand.\<close>

lemma accepted_is_leaf:
  assumes H: "\<And>y. length (H y) = 32"
    and "\<And>y. y \<in> set (leaves t) \<Longrightarrow> length y \<noteq> 64" and x: "length x \<noteq> 64"
    and "\<And>p. p \<in> set ps \<Longrightarrow> length p = 32"
    and "fold_proof H (H x) ps = tree_hash H t"
  shows "x \<in> set (leaves t) \<or> collision H (preimages H t) (proof_preimages H x ps)"
  using assms(2,4,5)
proof (induction ps arbitrary: t rule: rev_induct)
  case Nil
  have root: "H x = tree_hash H t" using Nil by (simp add: fold_proof_def)
  show ?case
  proof (cases t)
    case (Leaf y)
    then show ?thesis using root by (auto simp: collision_def)
  next
    case (Node l r)
    have len: "length (tree_hash H s) = 32" for s by (cases s) (simp_all add: H)
    have "sorted_concat (tree_hash H l) (tree_hash H r) \<noteq> x"
      using x by (auto simp: sorted_concat_length len)
    then show ?thesis using root Node by (auto simp: collision_def)
  qed
next
  case (snoc p ps)
  let ?h = "fold_proof H (H x) ps"
  have h: "length ?h = 32" by (induction ps rule: rev_induct) (simp_all add: fold_proof_def H)
  have p: "length p = 32" using snoc.prems by simp
  have root: "H (sorted_concat ?h p) = tree_hash H t" using snoc.prems by (simp add: fold_proof_snoc)
  have inner: "sorted_concat ?h p \<in> set (proof_preimages H x (ps @ [p]))"
    by (simp add: proof_preimages_snoc)
  show ?case
  proof (cases t)
    case (Leaf y)
    then have "length y \<noteq> 64" using snoc.prems by simp
    then have "sorted_concat ?h p \<noteq> y" by (auto simp: sorted_concat_length h p)
    then show ?thesis using Leaf root inner by (auto simp: collision_def)
  next
    case (Node l r)
    have len: "length (tree_hash H s) = 32" for s by (cases s) (simp_all add: H)
    show ?thesis
    proof (cases "sorted_concat ?h p = sorted_concat (tree_hash H l) (tree_hash H r)")
      case False
      then show ?thesis using Node root inner
        by (intro disjI2 collisionI [OF _ inner, of "sorted_concat (tree_hash H l) (tree_hash H r)"]) auto
    next
      case True
      then consider "?h = tree_hash H l" | "?h = tree_hash H r"
        using sorted_concat_inject [OF h p len len] by blast
      then show ?thesis
      proof cases
        case 1
        with snoc Node have "x \<in> set (leaves l) \<or> collision H (preimages H l) (proof_preimages H x ps)"
          by auto
        then show ?thesis using Node by (auto simp: collision_def proof_preimages_snoc)
      next
        case 2
        with snoc Node have "x \<in> set (leaves r) \<or> collision H (preimages H r) (proof_preimages H x ps)"
          by auto
        then show ?thesis using Node by (auto simp: collision_def proof_preimages_snoc)
      qed
    qed
  qed
qed

subsection \<open>The contract's verification\<close>

lemma digest_Ok_iff [simp]: "digest d x = Ok h \<longleftrightarrow> h = sha256 d x \<and> length (sha256 d x) = 32"
  by (auto simp: digest_def)

lemma proof_step_Ok_iff [simp]:
  "proof_step d h p = Ok h' \<longleftrightarrow>
     (\<exists>b. hex_decode_32 d p = Ok b \<and> h' = sha256 d (sorted_concat h b) \<and>
       length (sha256 d (sorted_concat h b)) = 32)"
  by (simp add: proof_step_def)

lemma proof_loop_Ok:
  "try_fold (proof_step d) h pf = Ok h' \<Longrightarrow>
     \<exists>ps. try_map (hex_decode_32 d) pf = Ok ps \<and> h' = fold_proof (sha256 d) h ps"
proof (induction pf arbitrary: h)
  case (Cons p pf)
  then obtain b where b: "hex_decode_32 d p = Ok b"
    and rest: "try_fold (proof_step d) (sha256 d (sorted_concat h b)) pf = Ok h'"
    by auto
  from Cons.IH [OF rest] b show ?case by (auto simp: fold_proof_def)
qed (simp add: fold_proof_def)

lemma proof_loop_total:
  assumes "\<And>y. length (sha256 d y) = 32" and "try_map (hex_decode_32 d) pf = Ok ps"
  shows "try_fold (proof_step d) h pf = Ok (fold_proof (sha256 d) h ps)"
  using assms(2)
  by (induction pf arbitrary: h ps) (auto simp: proof_step_def digest_def fold_proof_def assms(1))

lemma verify_merkle_Ok:
  assumes "verify_merkle d root a n pf = Ok u"
  obtains ps where "try_map (hex_decode_32 d) pf = Ok ps"
    and "hex_decode_32 d root = Ok (fold_proof (sha256 d) (sha256 d (claim_text a n)) ps)"
  using assms unfolding verify_merkle_def by (auto dest!: proof_loop_Ok)

lemma verify_merkle_total:
  assumes "\<And>y. length (sha256 d y) = 32" and "try_map (hex_decode_32 d) pf = Ok ps"
    and "hex_decode_32 d root = Ok (fold_proof (sha256 d) (sha256 d (claim_text a n)) ps)"
  shows "verify_merkle d root a n pf = Ok ()"
  using assms by (auto simp: verify_merkle_def digest_def proof_loop_total)

lemma execute_claim_inversion:
  assumes "execute_claim d env info n pf s = Ok (s', ms)"
  obtains cfg :: airdrop_config and root claimed claimed' start vs vd expiration where
    "a_config s = Some cfg" "merkle_root s = Some root" "amount_claimed s = Some claimed"
    "airdrop_start s = Some start" "vesting_start s = Some vs" "vesting_duration s = Some vd"
    "paused s = Some False" "start \<le> block_time env" "block_time env \<le> expiration"
    "unat expiration = unat vs + unat vd" "map_of (claim_flags s) (sender info) = None"
    "verify_merkle d root (sender info) n pf = Ok ()" "unat claimed' = unat claimed + unat n"
    "s' = s\<lparr>claim_flags := save (sender info) True (claim_flags s), amount_claimed := Some claimed'\<rparr>"
    "ms = [WasmExecute (credits_address cfg) (Cw20Transfer (sender info) n) [],
       WasmExecute (credits_address cfg) (AddVesting (sender info) n vs vd) []]"
  using assms unfolding execute_claim_def load_airdrop_def
  by (clarsimp simp: not_less split del: if_split)

text \<open>The documented output length of SHA-256.\<close>

definition sha256_law :: "('d) airdrop_deps_scheme \<Rightarrow> bool" where
  "sha256_law d \<longleftrightarrow> (\<forall>x. length (sha256 d x) = 32)"

text \<open>The tree is built from a list of addresses of one length and their amounts, and none of its
  texts has the length of two hashes.\<close>

definition airdrop_tree :: "(addr \<times> u128) list \<Rightarrow> nat \<Rightarrow> merkle \<Rightarrow> bool" where
  "airdrop_tree entries k t \<longleftrightarrow> leaves t = map (\<lambda>(a, n). claim_text a n) entries \<and>
     (\<forall>(a, n) \<in> set entries. length a = k) \<and> (\<forall>y \<in> set (leaves t). length y \<noteq> 64)"

definition root_commits :: "('d) airdrop_deps_scheme \<Rightarrow> airdrop \<Rightarrow> merkle \<Rightarrow> bool" where
  "root_commits d s t \<longleftrightarrow>
     (\<exists>root. merkle_root s = Some root \<and> hex_decode_32 d root = Ok (tree_hash (sha256 d) t))"

lemma try_map_hex_length:
  "hex_law d \<Longrightarrow> try_map (hex_decode_32 d) pf = Ok ps \<Longrightarrow> p \<in> set ps \<Longrightarrow> length p = 32"
  by (induction pf arbitrary: ps) (auto simp: hex_law_def)

subsection \<open>An example airdrop\<close>

text \<open>Two entries under a stand-in for the hash function, which keeps the last byte of a text.\<close>

definition ad_deps :: airdrop_deps where
  "ad_deps = \<lparr>addr_validate = Ok, bank_balance = (\<lambda>a denom. Ok 0), cw20_balance = (\<lambda>c a. Ok 7),
     sha256 = (\<lambda>x. replicate 31 0 @ [last (0 # x)]),
     hex_decode_32 = (\<lambda>s. case s of [c] \<Rightarrow> Ok (replicate 31 0 @ as_bytes s) | _ \<Rightarrow> Err InvalidStringLength)\<rparr>"

definition ad_env :: "u64 \<Rightarrow> env" where
  "ad_env now = \<lparr>block_time = now, block_height = 1, this_contract = ''airdrop''\<rparr>"

definition ad_call :: "addr \<Rightarrow> message_info" where
  "ad_call a = \<lparr>sender = a, funds = []\<rparr>"

definition ad_msg :: airdrop_instantiate_msg where
  "ad_msg = \<lparr>ai_credits_address = ''credits'', ai_reserve_address = ''reserve'', ai_merkle_root = ''7'',
     ai_airdrop_start = 100, ai_vesting_start = 150, ai_vesting_duration = 50, ai_total_amount = Some 12,
     ai_hrp = None\<rparr>"

definition ad_start :: airdrop where
  "ad_start = \<lparr>a_config = Some \<lparr>airdrop_owner = ''dao'', credits_address = ''credits'',
       reserve_address = ''reserve''\<rparr>,
     airdrop_start = Some 100, vesting_start = Some 150, vesting_duration = Some 50,
     a_amount = Some 12, amount_claimed = Some 0, account_map = [], merkle_root = Some ''7'',
     claim_flags = [], hrp = None, paused = Some False\<rparr>"

definition ad_claimed :: airdrop where
  "ad_claimed = ad_start\<lparr>claim_flags := [(''alice'', True)], amount_claimed := Some 5\<rparr>"

definition ad_paid :: "msg list" where
  "ad_paid = [WasmExecute ''credits'' (Cw20Transfer ''alice'' 5) [],
     WasmExecute ''credits'' (AddVesting ''alice'' 5 150 50) []]"

definition ad_entries :: "(addr \<times> u128) list" where
  "ad_entries = [(''alice'', 5), (''bobby'', 7)]"

definition ad_tree :: merkle where
  "ad_tree = Node (Leaf (claim_text ''alice'' 5)) (Leaf (claim_text ''bobby'' 7))"

lemmas ad_defs = ad_deps_def ad_env_def ad_call_def ad_msg_def ad_start_def ad_claimed_def
  ad_paid_def ad_entries_def ad_tree_def

lemma ad_texts:
  "claim_text ''alice'' 5 = [97, 108, 105, 99, 101, 53]"
  "claim_text ''bobby'' 7 = [98, 111, 98, 98, 121, 55]"
  by (simp_all add: claim_text_def as_bytes_def digit_char_def show_decimal.simps)

lemma ad_laws: "hex_law ad_deps" "sha256_law ad_deps"
  by (auto simp: hex_law_def sha256_law_def ad_deps_def as_bytes_def split: list.splits)

lemma replicate_prefix_le [simp]:
  "replicate n (a :: u8) @ xs \<le> replicate n a @ ys \<longleftrightarrow> xs \<le> ys"
  by (induction n) auto

lemma ad_tree_ok: "airdrop_tree ad_entries (length (sender (ad_call ''alice''))) ad_tree" "root_commits ad_deps ad_start ad_tree"
  by (simp_all add: airdrop_tree_def root_commits_def ad_defs ad_texts sorted_concat_def as_bytes_def)

lemma ad_instantiate: "airdrop_instantiate ad_deps (ad_call ''dao'') ad_msg airdrop_empty = Ok (ad_start, [])"
  by (simp add: airdrop_instantiate_def airdrop_empty_def ad_defs)

lemma ad_claim: "execute_claim ad_deps (ad_env 120) (ad_call ''alice'') 5 [''7''] ad_start = Ok (ad_claimed, ad_paid)"
  by (simp add: execute_claim_def verify_merkle_def digest_def ad_texts sorted_concat_def as_bytes_def
      load_airdrop_def eval_arith ad_defs del: add_panic_Ok_iff)

text \<open>C11: The root commits to a tree over a list of (address, amount). When all listed addresses are as long as the sender's, and neither a leaf of the tree nor the text of the claim is 64 bytes long (the length of two hashes), a claim succeeds only for an entry (sender, amount) of the list, unless two different texts at hand, one of the tree and one of the proof, have the same hash.\<close>
theorem airdrop_pays_listed_amounts_only:
  assumes claim: "execute_claim d env info n pf s = Ok (s', ms)"
    and "hex_law d" and "sha256_law d" and "root_commits d s t"
    and "airdrop_tree entries (length (sender info)) t"
    and "length (claim_text (sender info) n) \<noteq> 64"
  shows "(sender info, n) \<in> set entries \<or>
    (\<exists>ps. try_map (hex_decode_32 d) pf = Ok ps \<and>
       collision (sha256 d) (preimages (sha256 d) t)
         (proof_preimages (sha256 d) (claim_text (sender info) n) ps))"
  using claim
proof (rule execute_claim_inversion)
  fix root
  assume "merkle_root s = Some root" and "verify_merkle d root (sender info) n pf = Ok ()"
  then obtain ps where ps: "try_map (hex_decode_32 d) pf = Ok ps"
    and root: "fold_proof (sha256 d) (sha256 d (claim_text (sender info) n)) ps = tree_hash (sha256 d) t"
    using assms(4) by (auto simp: root_commits_def elim!: verify_merkle_Ok)
  have "claim_text (sender info) n \<in> set (leaves t) \<or>
      collision (sha256 d) (preimages (sha256 d) t)
        (proof_preimages (sha256 d) (claim_text (sender info) n) ps)"
    using assms(3,5,6) try_map_hex_length [OF assms(2) ps]
    by (intro accepted_is_leaf root) (auto simp: sha256_law_def airdrop_tree_def)
  moreover have "(sender info, n) \<in> set entries" if "claim_text (sender info) n \<in> set (leaves t)"
    using that assms(5) by (auto simp: airdrop_tree_def claim_text_inject)
  ultimately show ?thesis using ps by blast
qed

theorem airdrop_pays_listed_amounts_only_witness:
  "execute_claim ad_deps (ad_env 120) (ad_call ''alice'') 5 [''7''] ad_start = Ok (ad_claimed, ad_paid) \<and>
   ((''alice'', 5) \<in> set ad_entries \<or>
    (\<exists>ps. try_map (hex_decode_32 ad_deps) [''7''] = Ok ps \<and>
       collision (sha256 ad_deps) (preimages (sha256 ad_deps) ad_tree)
         (proof_preimages (sha256 ad_deps) (claim_text ''alice'' 5) ps)))"
  using airdrop_pays_listed_amounts_only [OF ad_claim ad_laws ad_tree_ok(2,1)] ad_claim
  by (simp add: ad_call_def ad_texts)

lemma listed_claim_accepted:
  assumes "(claim_text (sender info) n, ps) \<in> set (tree_proofs (sha256 d) t)"
    and "try_map (hex_decode_32 d) pf = Ok ps" and "sha256_law d" and "root_commits d s t"
    and "airdrop_start s = Some start" and "start \<le> block_time env"
    and "airdrop_expiration s = Ok e" and "block_time env \<le> e"
    and "paused s = Some False" and "a_config s \<noteq> None" and "\<not> has (claim_flags s) (sender info)"
    and "amount_claimed s = Some c" and "unat c + unat n < 2 ^ 128"
  shows "\<exists>s' cfg vs vd. execute_claim d env info n pf s = Ok (s',
      [WasmExecute (credits_address cfg) (Cw20Transfer (sender info) n) [],
       WasmExecute (credits_address cfg) (AddVesting (sender info) n vs vd) []]) \<and>
    a_config s = Some cfg \<and> vesting_start s = Some vs \<and> vesting_duration s = Some vd \<and>
    query_is_claimed s' (sender info) \<and> \<not> query_is_claimed s (sender info)"
proof -
  have "fold_proof (sha256 d) (sha256 d (claim_text (sender info) n)) ps = tree_hash (sha256 d) t"
    by (rule tree_proofs_accepted [OF assms(1)])
  moreover obtain root where "merkle_root s = Some root"
    and "hex_decode_32 d root = Ok (tree_hash (sha256 d) t)"
    using assms(4) by (auto simp: root_commits_def)
  ultimately have "merkle_root s = Some root" and "verify_merkle d root (sender info) n pf = Ok ()"
    using assms(2,3) by (simp_all add: sha256_law_def verify_merkle_total)
  moreover obtain c' :: u128 where "add_panic c n = (Ok c' :: (airdrop_error, u128) result)"
    using word_of_nat_ex [of "unat c + unat n", where ?'a = 128] assms(13) by auto
  ultimately show ?thesis using assms(5-12)
    by (auto simp: execute_claim_def airdrop_expiration_def load_airdrop_def has_def
        query_is_claimed_def map_of_save not_less simp del: add_panic_Ok_iff)
qed

text \<open>When the contract takes claims according to its messages: from the start of the airdrop until the
  end of the vesting, that moment excluded.\<close>

definition airdrop_open :: "u64 \<Rightarrow> airdrop \<Rightarrow> bool" where
  "airdrop_open now s \<longleftrightarrow> (\<exists>start. airdrop_start s = Some start \<and> start \<le> now) \<and>
     (\<exists>e. airdrop_expiration s = Ok e \<and> now < e) \<and> paused s = Some False \<and> a_config s \<noteq> None"

text \<open>C25: The proof that the reference tree gives for an entry is accepted: from the start of the airdrop until before the end of the vesting, while the contract is not paused, the account has not claimed and the total claimed stays below 2^128, the claim pays the entry's amount and marks it.\<close>
theorem airdrop_listed_account_can_claim:
  assumes "(claim_text (sender info) n, ps) \<in> set (tree_proofs (sha256 d) t)"
    and "try_map (hex_decode_32 d) pf = Ok ps" and "sha256_law d" and "root_commits d s t"
    and "airdrop_open (block_time env) s" and "\<not> has (claim_flags s) (sender info)"
    and "amount_claimed s = Some c" and "unat c + unat n < 2 ^ 128"
  shows "\<exists>s' cfg vs vd. execute_claim d env info n pf s = Ok (s',
      [WasmExecute (credits_address cfg) (Cw20Transfer (sender info) n) [],
       WasmExecute (credits_address cfg) (AddVesting (sender info) n vs vd) []]) \<and>
    a_config s = Some cfg \<and> vesting_start s = Some vs \<and> vesting_duration s = Some vd \<and>
    query_is_claimed s' (sender info) \<and> \<not> query_is_claimed s (sender info)"
proof -
  obtain start e where o: "airdrop_start s = Some start" "start \<le> block_time env"
    "airdrop_expiration s = Ok e" "block_time env \<le> e" "paused s = Some False" "a_config s \<noteq> None"
    using assms(5) unfolding airdrop_open_def by (meson less_imp_le)
  show ?thesis by (rule listed_claim_accepted [OF assms(1-4) o assms(6-8)])
qed

theorem airdrop_listed_account_can_claim_witness:
  "\<exists>s'. execute_claim ad_deps (ad_env 120) (ad_call ''alice'') 5 [''7''] ad_start = Ok (s', ad_paid) \<and>
    query_is_claimed s' ''alice''"
proof -
  have path: "(claim_text (sender (ad_call ''alice'')) 5, [replicate 31 0 @ [55]])
      \<in> set (tree_proofs (sha256 ad_deps) ad_tree)"
    by (simp add: ad_defs ad_texts)
  have decoded: "try_map (hex_decode_32 ad_deps) [''7''] = Ok [replicate 31 0 @ [55]]"
    by (simp add: ad_deps_def as_bytes_def)
  have "airdrop_open (block_time (ad_env 120)) ad_start"
    by (simp add: airdrop_open_def airdrop_expiration_def load_airdrop_def eval_arith ad_defs
        del: add_panic_Ok_iff)
  moreover have "\<not> has (claim_flags ad_start) (sender (ad_call ''alice''))" "amount_claimed ad_start = Some 0"
    "unat (0 :: u128) + unat (5 :: u128) < 2 ^ 128"
    by (simp_all add: has_def ad_start_def)
  ultimately show ?thesis
    using airdrop_listed_account_can_claim [OF path decoded ad_laws(2) ad_tree_ok(2)]
    by (auto simp: ad_call_def ad_start_def ad_paid_def)
qed

text \<open>The comment of the instantiation message says that at the end of the vesting it is no longer possible
  to claim. The code still takes a claim at that very moment.\<close>

theorem airdrop_claim_at_expiration_succeeds:
  assumes "(claim_text (sender info) n, ps) \<in> set (tree_proofs (sha256 d) t)"
    and "try_map (hex_decode_32 d) pf = Ok ps" and "sha256_law d" and "root_commits d s t"
    and "airdrop_start s = Some start" and "start \<le> block_time env"
    and "airdrop_expiration s = Ok (block_time env)"
    and "paused s = Some False" and "a_config s \<noteq> None" and "\<not> has (claim_flags s) (sender info)"
    and "amount_claimed s = Some c" and "unat c + unat n < 2 ^ 128"
  shows "is_ok (execute_claim d env info n pf s)"
  using listed_claim_accepted [OF assms(1-7) order_refl assms(8-12)] by (auto simp: is_ok_iff)

lemma ad_listed: "(claim_text (sender (ad_call ''alice'')) 5, [replicate 31 0 @ [55]])
    \<in> set (tree_proofs (sha256 ad_deps) ad_tree)"
  "try_map (hex_decode_32 ad_deps) [''7''] = Ok [replicate 31 0 @ [55]]"
  by (simp_all add: ad_defs ad_texts as_bytes_def)

theorem airdrop_claim_at_expiration_succeeds_witness:
  "is_ok (execute_claim ad_deps (ad_env 200) (ad_call ''alice'') 5 [''7''] ad_start)"
proof -
  have "airdrop_expiration ad_start = Ok (block_time (ad_env 200))"
    by (simp add: airdrop_expiration_def load_airdrop_def eval_arith ad_defs)
  from airdrop_claim_at_expiration_succeeds [OF ad_listed ad_laws(2) ad_tree_ok(2) _ _ this, of 100 0]
  show ?thesis by (simp add: has_def ad_start_def ad_env_def)
qed

subsection \<open>Runs\<close>

text \<open>A run from one state to another, with the claims that it has paid, the latest first. The hash
  function and the decoder are the same throughout; the chain's answers may change.\<close>

definition pays_claim :: "message_info \<Rightarrow> airdrop_execute_msg \<Rightarrow> (addr \<times> u128) list" where
  "pays_claim info m = (case m of Claim n pf \<Rightarrow> [(sender info, n)] | _ \<Rightarrow> [])"

inductive airdrop_run ::
  "(bytes \<Rightarrow> bytes) \<Rightarrow> (string \<Rightarrow> (hex_error, bytes) result) \<Rightarrow> u64 \<times> airdrop \<Rightarrow> (addr \<times> u128) list
     \<Rightarrow> u64 \<times> airdrop \<Rightarrow> bool" for H X c where
  run_start: "airdrop_run H X c [] c"
| run_step: "airdrop_run H X c ps (now, s) \<Longrightarrow> now \<le> block_time env \<Longrightarrow> sha256 d = H \<Longrightarrow> hex_decode_32 d = X \<Longrightarrow>
     airdrop_execute (d :: airdrop_deps) env info m s = Ok (s', ms) \<Longrightarrow>
     airdrop_run H X c (pays_claim info m @ ps) (block_time env, s')"

lemma pays_claim_simps [simp]:
  "pays_claim info (Claim n pf) = [(sender info, n)]" "pays_claim info WithdrawAll = []"
  "pays_claim info Pause = []" "pays_claim info Resume = []" "pays_claim info (UpdateReserve r) = []"
  by (simp_all add: pays_claim_def)

text \<open>What no message but a claim touches, and what no message touches at all.\<close>

lemma airdrop_admin_frame:
  assumes "airdrop_execute d env info m s = Ok (s', ms)" and "\<And>n pf. m \<noteq> Claim n pf"
  shows "claim_flags s' = claim_flags s \<and> amount_claimed s' = amount_claimed s"
  using assms
  by (cases m) (auto simp: execute_withdraw_all_def execute_pause_def execute_resume_def
      execute_update_reserve_def)

lemma airdrop_terms_frame:
  assumes "airdrop_execute d env info m s = Ok (s', ms)"
  shows "vesting_start s' = vesting_start s \<and> vesting_duration s' = vesting_duration s \<and>
    airdrop_start s' = airdrop_start s \<and> merkle_root s' = merkle_root s"
  using assms
  by (cases m) (auto simp: execute_withdraw_all_def execute_pause_def execute_resume_def
      execute_update_reserve_def elim: execute_claim_inversion)

text \<open>The books of the airdrop: who has claimed, how much, and within which time.\<close>

definition airdrop_books :: "airdrop \<Rightarrow> (addr \<times> u128) list \<Rightarrow> bool" where
  "airdrop_books s ps \<longleftrightarrow> distinct (map fst ps) \<and>
     (\<forall>a. query_is_claimed s a \<longleftrightarrow> a \<in> fst ` set ps) \<and>
     (\<forall>a. may_load (claim_flags s) a \<noteq> Some False) \<and>
     (\<exists>c. amount_claimed s = Some c \<and> unat c = sum_list (map (\<lambda>p. unat (snd p)) ps))"

lemma airdrop_books_step:
  assumes "airdrop_books s ps" and "airdrop_execute d env info m s = Ok (s', ms)"
  shows "airdrop_books s' (pays_claim info m @ ps)"
proof (cases "\<exists>n pf. m = Claim n pf")
  case True
  then obtain n pf where m: "m = Claim n pf" by blast
  with assms(2) have "execute_claim d env info n pf s = Ok (s', ms)" by simp
  then show ?thesis
  proof (rule execute_claim_inversion, goal_cases)
    case (1 cfg root claimed claimed' start vs vd expiration)
    have "\<not> query_is_claimed s (sender info)" using 1 by (simp add: query_is_claimed_def)
    with assms(1) have "sender info \<notin> fst ` set ps" by (simp add: airdrop_books_def)
    with assms(1) 1 m show ?case
      by (auto simp: airdrop_books_def query_is_claimed_def map_of_save)
  qed
next
  case False
  then have "pays_claim info m = []" by (cases m) auto
  with airdrop_admin_frame [OF assms(2)] False assms(1) show ?thesis
    by (auto simp: airdrop_books_def query_is_claimed_def)
qed

lemma airdrop_books_start:
  "airdrop_instantiate d info m airdrop_empty = Ok (s, ms) \<Longrightarrow> airdrop_books s []"
  by (auto simp: airdrop_instantiate_def airdrop_books_def query_is_claimed_def airdrop_empty_def)

lemma airdrop_run_books:
  assumes "airdrop_run H X c ps c'" and "airdrop_books (snd c) []"
  shows "airdrop_books (snd c') ps"
  using assms by (induction) (auto intro: airdrop_books_step)

lemma ad_run: "airdrop_run (sha256 ad_deps) (hex_decode_32 ad_deps) (90, ad_start) [(''alice'', 5)] (120, ad_claimed)"
  using run_step [OF run_start, where now = 90 and env = "ad_env 120" and d = ad_deps and s = ad_start
      and info = "ad_call ''alice''" and m = "Claim 5 [''7'']"] ad_claim
  by (simp add: ad_env_def ad_call_def)

text \<open>C14: In every run of the airdrop no account is paid twice, the claim flags are the accounts paid, and the claimed total is the sum of the payments.\<close>
theorem airdrop_claims_at_most_once:
  assumes "airdrop_instantiate d info m airdrop_empty = Ok (s, ms)"
    and "airdrop_run H X (now, s) ps (now', s')"
  shows "distinct (map fst ps) \<and> (\<forall>a. query_is_claimed s' a \<longleftrightarrow> a \<in> fst ` set ps) \<and>
    (\<exists>c. query_total_claimed s' = Ok c \<and> unat c = sum_list (map (\<lambda>p. unat (snd p)) ps))"
  using airdrop_run_books [OF assms(2)] airdrop_books_start [OF assms(1)]
  by (auto simp: airdrop_books_def query_total_claimed_def load_airdrop_def)

theorem airdrop_claims_at_most_once_witness:
  "query_is_claimed ad_claimed ''alice'' \<and> \<not> query_is_claimed ad_claimed ''bobby'' \<and>
   query_total_claimed ad_claimed = Ok 5"
  using airdrop_claims_at_most_once [OF ad_instantiate ad_run]
  by (simp add: query_total_claimed_def load_airdrop_def ad_claimed_def)

lemma airdrop_run_terms:
  assumes "airdrop_run H X c ps c'"
  shows "fst c \<le> fst c' \<and> vesting_start (snd c') = vesting_start (snd c) \<and>
    vesting_duration (snd c') = vesting_duration (snd c)"
  using assms by induction (auto dest: airdrop_terms_frame)

lemma run_after_expiration_pays_nothing:
  assumes "airdrop_run H X c ps c'"
    and "vesting_start (snd c) = Some vs" and "vesting_duration (snd c) = Some vd"
    and "unat vs + unat vd < unat (fst c)"
  shows "ps = []"
  using assms
proof induction
  case (run_step ps now s env d info m s' ms)
  have t: "unat (fst c) \<le> unat (block_time env)"
    using airdrop_run_terms [OF run_step.hyps(1)] run_step.hyps(2) by (simp add: word_le_nat_alt)
  have terms: "vesting_start s = Some vs" "vesting_duration s = Some vd"
    using airdrop_run_terms [OF run_step.hyps(1)] run_step.prems by simp_all
  have "m \<noteq> Claim n pf" for n pf
  proof
    assume "m = Claim n pf"
    with run_step.hyps(5) have "execute_claim d env info n pf s = Ok (s', ms)" by simp
    then show False
      by (rule execute_claim_inversion) (use t terms run_step.prems in \<open>auto simp: word_le_nat_alt\<close>)
  qed
  then have "pays_claim info m = []" by (cases m) auto
  with run_step show ?case by simp
qed simp

text \<open>WithdrawAll is for the reserve only, burns the whole balance and sends as much NTRN to the reserve, and no claim is paid in any run after it.\<close>
theorem airdrop_withdraw_all_ends_the_claims:
  assumes "execute_withdraw_all d env info s = Ok (s', ms)"
    and "airdrop_run H X (block_time env, s') ps (now, s'')"
  shows "ps = [] \<and> (\<exists>cfg n. a_config s = Some cfg \<and> sender info = reserve_address cfg \<and>
    cw20_balance d (credits_address cfg) (this_contract env) = Ok n \<and>
    ms = [WasmExecute (credits_address cfg) (Cw20Burn n) [],
          BankSend (reserve_address cfg) [\<lparr>coin_denom = ntrn_denom, coin_amount = n\<rparr>]])"
proof -
  obtain cfg n vs vd expiration where s: "s' = s" "a_config s = Some cfg"
      "sender info = reserve_address cfg"
      "cw20_balance d (credits_address cfg) (this_contract env) = Ok n"
      "ms = [WasmExecute (credits_address cfg) (Cw20Burn n) [],
          BankSend (reserve_address cfg) [\<lparr>coin_denom = ntrn_denom, coin_amount = n\<rparr>]]"
    and e: "vesting_start s = Some vs" "vesting_duration s = Some vd"
      "unat expiration = unat vs + unat vd" "expiration < block_time env"
    using assms(1)
    by (auto simp: execute_withdraw_all_def airdrop_expiration_def load_airdrop_def not_le)
  have "ps = []"
    using run_after_expiration_pays_nothing [OF assms(2)] s e by (simp add: word_less_nat_alt)
  with s show ?thesis by blast
qed

theorem airdrop_withdraw_all_ends_the_claims_witness:
  "airdrop_run (sha256 ad_deps) (hex_decode_32 ad_deps) (201, ad_claimed) []
     (210, ad_claimed\<lparr>a_config := Some \<lparr>airdrop_owner = ''dao'', credits_address = ''credits'',
       reserve_address = ''vault''\<rparr>\<rparr>) \<and>
   (\<exists>cfg n. a_config ad_claimed = Some cfg \<and> sender (ad_call ''reserve'') = reserve_address cfg \<and>
     cw20_balance ad_deps (credits_address cfg) (this_contract (ad_env 201)) = Ok n)"
proof -
  have w: "execute_withdraw_all ad_deps (ad_env 201) (ad_call ''reserve'') ad_claimed = Ok (ad_claimed,
     [WasmExecute ''credits'' (Cw20Burn 7) [],
      BankSend ''reserve'' [\<lparr>coin_denom = ntrn_denom, coin_amount = 7\<rparr>]])"
    by (simp add: execute_withdraw_all_def airdrop_expiration_def load_airdrop_def eval_arith ad_defs
        del: add_panic_Ok_iff)
  have r: "airdrop_run (sha256 ad_deps) (hex_decode_32 ad_deps) (201, ad_claimed) []
     (210, ad_claimed\<lparr>a_config := Some \<lparr>airdrop_owner = ''dao'', credits_address = ''credits'',
       reserve_address = ''vault''\<rparr>\<rparr>)"
    using run_step [OF run_start, where now = 201 and env = "ad_env 210" and d = ad_deps and s = ad_claimed
        and info = "ad_call ''dao''" and m = "UpdateReserve ''vault''"]
    by (simp add: execute_update_reserve_def load_airdrop_def ad_defs)
  then have "airdrop_run (sha256 ad_deps) (hex_decode_32 ad_deps) (block_time (ad_env 201), ad_claimed) []
     (210, ad_claimed\<lparr>a_config := Some \<lparr>airdrop_owner = ''dao'', credits_address = ''credits'',
       reserve_address = ''vault''\<rparr>\<rparr>)"
    by (simp add: ad_env_def)
  from airdrop_withdraw_all_ends_the_claims [OF w this] r show ?thesis by blast
qed

end
