(* ===== verification/Vesting_Lp.thy ===== *)
theory Vesting_Lp
  imports Vesting_Proofs
begin

text \<open>
  The vesting contracts for LP tokens. \<open>contracts/vesting-lp\<close> holds the LP tokens of the old (XYK)
  pair and migrates an account's rest to the new (PCL) pair in three callbacks to itself: withdraw
  the liquidity, provide it to the new pair, and send the new LP tokens with a new schedule to
  \<open>contracts/vesting-lp-pcl\<close>. Every other message goes to the vesting library.

  The pair contracts are not in this repository: their answers to \<open>Pair\<close> and \<open>Share\<close> are fields of
  \<open>vesting_lp_deps\<close>.
\<close>

subsection \<open>Data\<close>

record xyk_to_cl_migration_config =
  max_slippage :: decimal
  m_ntrn_denom :: string
  xyk_pair :: addr
  m_paired_denom :: string
  cl_pair :: addr
  new_lp_token :: addr
  pcl_vesting :: addr

record vesting_lp =
  vl_base :: vesting
  vl_migration :: "xyk_to_cl_migration_config option"

record vesting_lp_deps = vesting_deps +
  pair_liquidity_token :: "addr \<Rightarrow> (std_error, addr) result"
  pair_share :: "addr \<Rightarrow> u128 \<Rightarrow> (std_error, asset list) result"

record vesting_lp_migrate_msg =
  vm_max_slippage :: decimal
  vm_ntrn_denom :: string
  vm_paired_denom :: string
  vm_xyk_pair :: string
  vm_cl_pair :: string
  vm_new_lp_token :: string
  vm_pcl_vesting :: string

text \<open>\<open>VlBase m\<close> is a message that the contract hands to the vesting library unchanged.\<close>

datatype vesting_lp_execute_msg =
    MigrateLiquidityToPCLPool "string option"
  | VlCallback vesting_lp_callback
  | VlBase vesting_execute_msg

type_synonym vesting_lp_result = "(vesting_error, vesting_lp \<times> msg list) result"

subsection \<open>The contract of the old pair\<close>

definition vesting_lp_instantiate ::
  "('d) deps_scheme \<Rightarrow> string \<Rightarrow> string list \<Rightarrow> string \<Rightarrow> vesting_lp \<Rightarrow> (std_error, vesting_lp) result" where
  "vesting_lp_instantiate d owner managers token_info_manager s =
     map_ok (\<lambda>b. s\<lparr>vl_base := b\<rparr>)
       (builder_build (builder_with_managers managers (builder_historical builder_default)) d owner
          token_info_manager (vl_base s))"

definition vesting_lp_migrate ::
  "('d) deps_scheme \<Rightarrow> vesting_lp_migrate_msg \<Rightarrow> vesting_lp \<Rightarrow> vesting_lp_result" where
  "vesting_lp_migrate d m s =
     and_then (map_err VStd (addr_validate d (vm_xyk_pair m))) (\<lambda>xyk.
     and_then (map_err VStd (addr_validate d (vm_cl_pair m))) (\<lambda>cl.
     and_then (map_err VStd (addr_validate d (vm_new_lp_token m))) (\<lambda>lp.
     and_then (map_err VStd (addr_validate d (vm_pcl_vesting m))) (\<lambda>pcl.
     Ok (s\<lparr>vl_migration := Some \<lparr>max_slippage = vm_max_slippage m, m_ntrn_denom = vm_ntrn_denom m,
            xyk_pair = xyk, m_paired_denom = vm_paired_denom m, cl_pair = cl, new_lp_token = lp,
            pcl_vesting = pcl\<rparr>\<rparr>, [])))))"

definition load_migration :: "vesting_lp \<Rightarrow> (vesting_error, xyk_to_cl_migration_config) result" where
  "load_migration s = load_item (vl_migration s) (VStd (NotFound ''xyk_to_cl_migration_config''))"

definition compute_share :: "vesting_info \<Rightarrow> (std_error, u128) result" where
  "compute_share vi =
     and_then (try_fold (\<lambda>acc sch. case end_point sch of
         Some e \<Rightarrow> checked_add acc (point_amount e)
       | None \<Rightarrow> Ok acc) 0 (schedules vi)) (\<lambda>available.
     checked_sub available (released_amount vi))"

definition cleared_info :: vesting_info where
  "cleared_info = \<lparr>schedules = [], released_amount = 0\<rparr>"

definition set_infos :: "(addr, vesting_info) store \<Rightarrow> vesting_lp \<Rightarrow> vesting_lp" where
  "set_infos infos s = s\<lparr>vl_base := (vl_base s)\<lparr>v_infos := infos\<rparr>\<rparr>"

definition vl_callback_msg :: "env \<Rightarrow> vesting_lp_callback \<Rightarrow> msg" where
  "vl_callback_msg env cb = WasmExecute (this_contract env) (VestingLpCallback cb) []"

text \<open>Nothing or dust to migrate: the rest of the LP tokens goes to the account, which is cleared.\<close>

definition return_dust ::
  "addr \<Rightarrow> addr \<Rightarrow> u128 \<Rightarrow> vesting_info \<Rightarrow> vesting_lp \<Rightarrow> vesting_lp_result" where
  "return_dust lp_token a user_share vi s =
     Ok (if schedules vi = [] then s else set_infos (save a cleared_info (v_infos (vl_base s))) s,
         if user_share \<noteq> 0 then [WasmExecute lp_token (Cw20Transfer a user_share) []] else [])"

definition execute_migrate_liquidity ::
  "('d) vesting_lp_deps_scheme \<Rightarrow> message_info \<Rightarrow> env \<Rightarrow> decimal option \<Rightarrow> string option \<Rightarrow> vesting_lp
     \<Rightarrow> vesting_lp_result" where
  "execute_migrate_liquidity d info env slippage user s =
     and_then (load_vesting_config (vl_base s)) (\<lambda>cfg.
     and_then (load_migration s) (\<lambda>mc.
     and_then (case user of
         Some v \<Rightarrow> map_err VStd (addr_validate d v)
       | None \<Rightarrow> Ok (sender info)) (\<lambda>address.
     and_then (load_vesting_info (vl_base s) address) (\<lambda>vi.
     and_then (map_err VStd (pair_liquidity_token d (xyk_pair mc))) (\<lambda>lp_token.
     and_then (map_err VStd (compute_share vi)) (\<lambda>user_share.
     and_then (map_err VStd (pair_share d (xyk_pair mc) user_share)) (\<lambda>assets.
     if \<exists>a \<in> set assets. asset_amount a = 0 then return_dust lp_token address user_share vi s
     else if (case slippage of Some sl \<Rightarrow> atomics (max_slippage mc) < atomics sl | None \<Rightarrow> False)
     then Err MigrationError
     else
       Ok (s, [vl_callback_msg env (MigrateLiquidityToClPair (xyk_pair mc) lp_token user_share
                 (unwrap_or slippage (max_slippage mc)) (cl_pair mc) (m_ntrn_denom mc)
                 (m_paired_denom mc) \<lparr>full_address = address, full_info = vi\<rparr>)]))))))))"

definition migrate_liquidity_to_cl_pair_callback ::
  "('d) deps_scheme \<Rightarrow> env \<Rightarrow> addr \<Rightarrow> addr \<Rightarrow> u128 \<Rightarrow> decimal \<Rightarrow> addr \<Rightarrow> string \<Rightarrow> string
     \<Rightarrow> vesting_account_full_info \<Rightarrow> vesting_lp \<Rightarrow> vesting_lp_result" where
  "migrate_liquidity_to_cl_pair_callback d env pair lp_token amount slippage cl ntrn paired user s =
     and_then (map_err VStd (bank_balance d (this_contract env) ntrn)) (\<lambda>ntrn_init.
     and_then (map_err VStd (bank_balance d (this_contract env) paired)) (\<lambda>paired_init.
     and_then (load_vesting_config (vl_base s)) (\<lambda>cfg.
     let st = unwrap_or (v_state (vl_base s)) vesting_state_default in
     and_then (map_err VStd (checked_sub (total_granted st) amount)) (\<lambda>granted.
     Ok (s\<lparr>vl_base := (vl_base s)\<lparr>v_state := Some (st\<lparr>total_granted := granted\<rparr>)\<rparr>\<rparr>,
         [WasmExecute lp_token (Cw20Send pair amount WithdrawLiquidity) [],
          vl_callback_msg env (ProvideLiquidityToClPairAfterWithdrawal ntrn ntrn_init paired
            paired_init cl slippage user)])))))"

definition provide_liquidity_to_cl_pair_after_withdrawal_callback ::
  "('d) deps_scheme \<Rightarrow> env \<Rightarrow> string \<Rightarrow> u128 \<Rightarrow> string \<Rightarrow> u128 \<Rightarrow> addr \<Rightarrow> decimal
     \<Rightarrow> vesting_account_full_info \<Rightarrow> vesting_lp \<Rightarrow> vesting_lp_result" where
  "provide_liquidity_to_cl_pair_after_withdrawal_callback d env ntrn ntrn_init paired paired_init cl
     slippage user s =
     and_then (map_err VStd (bank_balance d (this_contract env) ntrn)) (\<lambda>ntrn_after.
     and_then (map_err VStd (bank_balance d (this_contract env) paired)) (\<lambda>paired_after.
     and_then (map_err VStd (checked_sub ntrn_after ntrn_init)) (\<lambda>ntrn_amount.
     and_then (map_err VStd (checked_sub paired_after paired_init)) (\<lambda>paired_amount.
     and_then (load_migration s) (\<lambda>mc.
     and_then (map_err VStd (cw20_balance d (new_lp_token mc) (this_contract env))) (\<lambda>current.
     Ok (s, [WasmExecute cl
               (ProvideLiquidity [native_asset ntrn ntrn_amount, native_asset paired paired_amount]
                 (Some slippage) None None)
               [\<lparr>coin_denom = ntrn, coin_amount = ntrn_amount\<rparr>,
                \<lparr>coin_denom = paired, coin_amount = paired_amount\<rparr>],
             vl_callback_msg env (PostMigrationVestingReschedule user current)])))))))"

text \<open>The schedule under which the new LP tokens vest: the last schedule's times, from zero.\<close>

definition rescheduled :: "vesting_schedule \<Rightarrow> u128 \<Rightarrow> vesting_schedule" where
  "rescheduled sch n =
     \<lparr>start_point = \<lparr>point_time = point_time (start_point sch), point_amount = 0\<rparr>,
      end_point = (case end_point sch of
        Some e \<Rightarrow> Some \<lparr>point_time = point_time e, point_amount = n\<rparr>
      | None \<Rightarrow> None)\<rparr>"

definition post_migration_vesting_reschedule_callback ::
  "('d) deps_scheme \<Rightarrow> env \<Rightarrow> vesting_account_full_info \<Rightarrow> u128 \<Rightarrow> vesting_lp \<Rightarrow> vesting_lp_result" where
  "post_migration_vesting_reschedule_callback d env user init_balance s =
     and_then (load_vesting_config (vl_base s)) (\<lambda>cfg.
     and_then (load_migration s) (\<lambda>mc.
     and_then (map_err VStd (cw20_balance d (new_lp_token mc) (this_contract env))) (\<lambda>balance.
     and_then (map_err VStd (checked_sub balance init_balance)) (\<lambda>diff.
     if schedules (full_info user) = [] then Err (VestingScheduleExtractError (full_address user))
     else
     let schedule = last (schedules (full_info user));
         s = set_infos (save (full_address user) cleared_info (v_infos (vl_base s))) s in
     Ok (s, if diff \<noteq> 0 then
              [WasmExecute (new_lp_token mc) (Cw20Send (pcl_vesting mc) diff
                 (MigrateXYKVesting (full_address user)
                   \<lparr>schedules = [rescheduled schedule diff], released_amount = 0\<rparr>)) []]
            else [])))))"

primrec dispatch_vesting_lp_callback ::
  "('d) deps_scheme \<Rightarrow> env \<Rightarrow> vesting_lp_callback \<Rightarrow> vesting_lp \<Rightarrow> vesting_lp_result" where
  "dispatch_vesting_lp_callback d env
     (MigrateLiquidityToClPair pair lp_token amount slippage cl ntrn paired user) s =
     migrate_liquidity_to_cl_pair_callback d env pair lp_token amount slippage cl ntrn paired user s"
| "dispatch_vesting_lp_callback d env
     (ProvideLiquidityToClPairAfterWithdrawal ntrn ntrn_init paired paired_init cl slippage user) s =
     provide_liquidity_to_cl_pair_after_withdrawal_callback d env ntrn ntrn_init paired paired_init cl
       slippage user s"
| "dispatch_vesting_lp_callback d env (PostMigrationVestingReschedule user init_balance) s =
     post_migration_vesting_reschedule_callback d env user init_balance s"

definition handle_vesting_lp_callback ::
  "('d) deps_scheme \<Rightarrow> env \<Rightarrow> message_info \<Rightarrow> vesting_lp_callback \<Rightarrow> vesting_lp \<Rightarrow> vesting_lp_result" where
  "handle_vesting_lp_callback d env info cb s =
     (if sender info \<noteq> this_contract env then Err VUnauthorized
      else dispatch_vesting_lp_callback d env cb s)"

primrec vesting_lp_execute ::
  "('d) vesting_lp_deps_scheme \<Rightarrow> env \<Rightarrow> message_info \<Rightarrow> vesting_lp_execute_msg \<Rightarrow> vesting_lp
     \<Rightarrow> vesting_lp_result" where
  "vesting_lp_execute d env info (MigrateLiquidityToPCLPool user) s =
     execute_migrate_liquidity d info env None user s"
| "vesting_lp_execute d env info (VlCallback cb) s = handle_vesting_lp_callback d env info cb s"
| "vesting_lp_execute d env info (VlBase m) s =
     map_ok (\<lambda>(b, ms). (s\<lparr>vl_base := b\<rparr>, ms)) (vesting_execute d env info m (vl_base s))"

subsection \<open>The contract of the new pair\<close>

record vesting_lp_pcl =
  vp_base :: vesting
  xyk_vesting_lp_contract :: "addr option"

record vesting_pcl_instantiate_msg =
  vp_owner :: string
  vp_managers :: "string list"
  vp_token_info_manager :: string
  vp_xyk_contract :: string
  vp_vesting_token :: asset_info

type_synonym vesting_pcl_result = "(vesting_error, vesting_lp_pcl \<times> msg list) result"

definition vesting_pcl_instantiate ::
  "('d) deps_scheme \<Rightarrow> vesting_pcl_instantiate_msg \<Rightarrow> vesting_lp_pcl \<Rightarrow> (std_error, vesting_lp_pcl) result" where
  "vesting_pcl_instantiate d m s =
     and_then (addr_validate d (vp_owner m)) (\<lambda>owner.
     and_then (addr_validate d (vp_token_info_manager m)) (\<lambda>manager.
     let b = (vp_base s)\<lparr>v_config := Some \<lparr>vc_owner = owner,
               vesting_token = Some (vp_vesting_token m), vc_token_info_manager = manager,
               ext_historical = True, ext_managed = False, ext_with_managers = True\<rparr>\<rparr> in
     and_then (try_fold (\<lambda>ms m. and_then (addr_validate d m) (\<lambda>a. Ok (save a () ms)))
       (v_managers b) (vp_managers m)) (\<lambda>ms.
     and_then (addr_validate d (vp_xyk_contract m)) (\<lambda>xyk.
     Ok (s\<lparr>vp_base := b\<lparr>v_managers := ms\<rparr>, xyk_vesting_lp_contract := Some xyk\<rparr>)))))"

definition is_sender_xyk_vesting_lp :: "vesting_lp_pcl \<Rightarrow> addr \<Rightarrow> (vesting_error, bool) result" where
  "is_sender_xyk_vesting_lp s a =
     and_then (ok_or_panic (xyk_vesting_lp_contract s)) (\<lambda>xyk. Ok (a = xyk))"

definition handle_migrate_xyk_liquidity ::
  "addr \<Rightarrow> vesting_info \<Rightarrow> vesting_lp_pcl \<Rightarrow> vesting_pcl_result" where
  "handle_migrate_xyk_liquidity user vi s =
     and_then (load_vesting_config (vp_base s)) (\<lambda>cfg.
     and_then (map_err VStd (add_schedule_amounts 0 (schedules vi))) (\<lambda>to_deposit.
     let b = vp_base s; st = unwrap_or (v_state b) vesting_state_default in
     and_then (map_err VStd (checked_add (total_granted st) to_deposit)) (\<lambda>granted.
     Ok (s\<lparr>vp_base := b\<lparr>v_infos := save user vi (v_infos b),
             v_state := Some (st\<lparr>total_granted := granted\<rparr>)\<rparr>\<rparr>, []))))"

definition vesting_pcl_receive_cw20 ::
  "('d) deps_scheme \<Rightarrow> message_info \<Rightarrow> string \<Rightarrow> u128 \<Rightarrow> cw20_hook \<Rightarrow> vesting_lp_pcl \<Rightarrow> vesting_pcl_result" where
  "vesting_pcl_receive_cw20 d info cw20_sender amount hook s =
     and_then (load_vesting_config (vp_base s)) (\<lambda>cfg.
     and_then (get_vesting_token cfg) (\<lambda>token.
     case hook of
       RegisterVestingAccountsHook accounts \<Rightarrow>
         and_then (map_err VStd (addr_validate d cw20_sender)) (\<lambda>a.
         if \<not> is_sender_whitelisted (vp_base s) cfg a \<or> token_asset_info (sender info) \<noteq> token
         then Err VUnauthorized
         else map_ok (\<lambda>(b, ms). (s\<lparr>vp_base := b\<rparr>, ms))
           (register_vesting_accounts d accounts amount (vp_base s)))
     | MigrateXYKVesting user vi \<Rightarrow>
         and_then (map_err VStd (addr_validate d cw20_sender)) (\<lambda>a.
         and_then (is_sender_xyk_vesting_lp s a) (\<lambda>is_xyk.
         if \<not> is_xyk then Err VUnauthorized
         else handle_migrate_xyk_liquidity user vi s))
     | _ \<Rightarrow> Err (VStd ParseErr)))"

definition vesting_pcl_execute ::
  "('d) vesting_deps_scheme \<Rightarrow> env \<Rightarrow> message_info \<Rightarrow> vesting_execute_msg \<Rightarrow> vesting_lp_pcl
     \<Rightarrow> vesting_pcl_result" where
  "vesting_pcl_execute d env info m s =
     (case m of
        VReceive cw20_sender amount hook \<Rightarrow> vesting_pcl_receive_cw20 d info cw20_sender amount hook s
      | _ \<Rightarrow> map_ok (\<lambda>(b, ms). (s\<lparr>vp_base := b\<rparr>, ms)) (vesting_execute d env info m (vp_base s)))"

end
