(* ===== verification/Vesting_Lp_Properties.thy ===== *)
theory Vesting_Lp_Properties
  imports Vesting_Lp
begin

text \<open>
  The migration of vesting LP tokens from the old pair to the new one. A migration, which is one
  transaction of four handler calls, takes exactly the rest of the account to the pair and keeps
  the difference of the totals equal to what the other accounts are owed; the new contract books
  what it is sent. And what the new contract does not check: who sends the hook.
\<close>

subsection \<open>The share of an account\<close>

definition end_total :: "vesting_schedule list \<Rightarrow> nat" where
  "end_total ss = sum_list (map (\<lambda>sch. case end_point sch of Some e \<Rightarrow> unat (point_amount e) | None \<Rightarrow> 0) ss)"

lemma end_total_simps [simp]:
  "end_total [] = 0"
  "end_total (sch # ss) = (case end_point sch of Some e \<Rightarrow> unat (point_amount e) | None \<Rightarrow> 0) + end_total ss"
  by (simp_all add: end_total_def)

lemma end_loop_Ok:
  "try_fold (\<lambda>acc sch. case end_point sch of Some e \<Rightarrow> checked_add acc (point_amount e) | None \<Rightarrow> Ok acc) n ss
     = Ok m \<Longrightarrow> unat m = unat n + end_total ss"
  by (induction ss arbitrary: n) (fastforce split: option.splits)+

lemma compute_share_Ok:
  "compute_share vi = Ok c \<Longrightarrow> unat c + unat (released_amount vi) = end_total (schedules vi)"
  unfolding compute_share_def by (auto dest!: end_loop_Ok)

lemma end_total_granted:
  "\<forall>sch \<in> set ss. end_point sch \<noteq> None \<Longrightarrow> end_total ss = schedules_total ss"
  by (induction ss) (auto simp: schedule_amount_def)

subsection \<open>The books of the old contract\<close>

text \<open>The difference of the totals is what the accounts are owed.\<close>

definition owed_match :: "vesting \<Rightarrow> bool" where
  "owed_match b \<longleftrightarrow> store_ok (v_infos b) \<and>
     (\<exists>st. v_state b = Some st \<and>
        unat (total_granted st) + released_sum (v_infos b) = unat (total_released st) + granted_sum (v_infos b))"

lemma vesting_books_owed: "vesting_books t b \<Longrightarrow> v_state b \<noteq> None \<Longrightarrow> owed_match b"
  by (auto simp: vesting_books_def owed_match_def infos_ok_def)

lemma migrate_liquidity_inversion:
  assumes "execute_migrate_liquidity d info env sl user s = Ok (s', [vl_callback_msg env cb])"
  obtains mc a vi lp share slippage where "vl_migration s = Some mc"
    "map_of (v_infos (vl_base s)) a = Some vi" "compute_share vi = Ok share"
    "pair_liquidity_token d (xyk_pair mc) = Ok lp" "s' = s"
    "cb = MigrateLiquidityToClPair (xyk_pair mc) lp share slippage (cl_pair mc) (m_ntrn_denom mc)
       (m_paired_denom mc) \<lparr>full_address = a, full_info = vi\<rparr>"
  using assms
  unfolding execute_migrate_liquidity_def load_migration_def load_vesting_info_def return_dust_def
  by (auto simp: vl_callback_msg_def split: if_split_asm)

lemma first_callback_Ok:
  assumes "migrate_liquidity_to_cl_pair_callback d env pair lp n sl cl ntrn paired user s = Ok (s', ms)"
  obtains a b granted where
    "unat (total_granted (unwrap_or (v_state (vl_base s)) vesting_state_default)) = unat granted + unat n"
    "s' = s\<lparr>vl_base := (vl_base s)\<lparr>v_state := Some
       ((unwrap_or (v_state (vl_base s)) vesting_state_default)\<lparr>total_granted := granted\<rparr>)\<rparr>\<rparr>"
    "ms = [WasmExecute lp (Cw20Send pair n WithdrawLiquidity) [],
       vl_callback_msg env (ProvideLiquidityToClPairAfterWithdrawal ntrn a paired b cl sl user)]"
  using assms unfolding migrate_liquidity_to_cl_pair_callback_def
  by (auto simp: Let_def)

lemma second_callback_Ok:
  assumes "provide_liquidity_to_cl_pair_after_withdrawal_callback d env ntrn a paired b cl sl user s
     = Ok (s', ms)"
  obtains n k current mc where "s' = s" "vl_migration s = Some mc"
    "cw20_balance d (new_lp_token mc) (this_contract env) = Ok current"
    "ms = [WasmExecute cl (ProvideLiquidity [native_asset ntrn n, native_asset paired k] (Some sl) None None)
         [\<lparr>coin_denom = ntrn, coin_amount = n\<rparr>, \<lparr>coin_denom = paired, coin_amount = k\<rparr>],
       vl_callback_msg env (PostMigrationVestingReschedule user current)]"
  using assms unfolding provide_liquidity_to_cl_pair_after_withdrawal_callback_def load_migration_def
  by auto

lemma third_callback_Ok:
  assumes "post_migration_vesting_reschedule_callback d env user init s = Ok (s', ms)"
  obtains mc balance diff where "vl_migration s = Some mc"
    "cw20_balance d (new_lp_token mc) (this_contract env) = Ok balance"
    "unat balance = unat init + unat diff" "schedules (full_info user) \<noteq> []"
    "s' = set_infos (save (full_address user) cleared_info (v_infos (vl_base s))) s"
    "ms = (if diff \<noteq> 0 then
              [WasmExecute (new_lp_token mc) (Cw20Send (pcl_vesting mc) diff
                 (MigrateXYKVesting (full_address user)
                   \<lparr>schedules = [rescheduled (last (schedules (full_info user))) diff], released_amount = 0\<rparr>)) []]
            else [])"
  using assms unfolding post_migration_vesting_reschedule_callback_def load_migration_def
  by (auto simp: Let_def add.commute)

subsection \<open>An example migration\<close>

definition lp_deps :: "u128 \<Rightarrow> u128 \<Rightarrow> u128 \<Rightarrow> vesting_lp_deps" where
  "lp_deps n k new_lp = \<lparr>addr_validate = Ok,
     bank_balance = (\<lambda>a denom. Ok (if denom = ''untrn'' then n else k)),
     cw20_balance = (\<lambda>c a. Ok new_lp), must_pay = (\<lambda>info denom. Err ''no funds''),
     pair_liquidity_token = (\<lambda>pair. Ok ''xyklp''),
     pair_share = (\<lambda>pair amount. Ok [native_asset ''untrn'' (2 * amount), native_asset ''uusdc'' amount])\<rparr>"

definition lp_env :: env where
  "lp_env = \<lparr>block_time = 120, block_height = 1, this_contract = ''vestinglp''\<rparr>"

definition lp_call :: "addr \<Rightarrow> message_info" where
  "lp_call a = \<lparr>sender = a, funds = []\<rparr>"

definition lp_schedule :: vesting_schedule where
  "lp_schedule = \<lparr>start_point = \<lparr>point_time = 100, point_amount = 0\<rparr>,
     end_point = Some \<lparr>point_time = 200, point_amount = 100\<rparr>\<rparr>"

definition lp_alice :: vesting_account_full_info where
  "lp_alice = \<lparr>full_address = ''alice'', full_info = \<lparr>schedules = [lp_schedule], released_amount = 20\<rparr>\<rparr>"

definition lp_config :: "addr \<Rightarrow> vesting_config" where
  "lp_config token = \<lparr>vc_owner = ''dao'', vesting_token = Some (Token token),
     vc_token_info_manager = ''manager'', ext_historical = True, ext_managed = False,
     ext_with_managers = True\<rparr>"

definition lp_start :: vesting_lp where
  "lp_start = \<lparr>vl_base = \<lparr>v_config = Some (lp_config ''xyklp''), v_proposal = None, v_managers = [],
       v_state = Some \<lparr>total_granted = 100, total_released = 20\<rparr>,
       v_infos = [(''alice'', full_info lp_alice)]\<rparr>,
     vl_migration = Some \<lparr>max_slippage = Decimal 10000000000000000, m_ntrn_denom = ''untrn'',
       xyk_pair = ''xyk'', m_paired_denom = ''uusdc'', cl_pair = ''pcl'', new_lp_token = ''pcllp'',
       pcl_vesting = ''vestingpcl''\<rparr>\<rparr>"

definition lp_taken :: vesting_lp where
  "lp_taken = lp_start\<lparr>vl_base := (vl_base lp_start)\<lparr>v_state := Some \<lparr>total_granted = 20, total_released = 20\<rparr>\<rparr>\<rparr>"

definition lp_done :: vesting_lp where
  "lp_done = set_infos [(''alice'', cleared_info)] lp_taken"

definition lp_cb1 :: vesting_lp_callback where
  "lp_cb1 = MigrateLiquidityToClPair ''xyk'' ''xyklp'' 80 (Decimal 10000000000000000) ''pcl'' ''untrn''
     ''uusdc'' lp_alice"

definition lp_cb2 :: vesting_lp_callback where
  "lp_cb2 = ProvideLiquidityToClPairAfterWithdrawal ''untrn'' 5 ''uusdc'' 7 ''pcl''
     (Decimal 10000000000000000) lp_alice"

definition lp_cb3 :: vesting_lp_callback where
  "lp_cb3 = PostMigrationVestingReschedule lp_alice 0"

lemmas lp_states = lp_deps_def lp_env_def lp_call_def lp_schedule_def lp_alice_def lp_config_def
  lp_start_def lp_taken_def lp_done_def lp_cb1_def lp_cb2_def lp_cb3_def set_infos_def cleared_info_def
  vl_callback_msg_def

lemma lp_step1:
  "vesting_lp_execute (lp_deps 5 7 0) lp_env (lp_call ''bob'') (MigrateLiquidityToPCLPool (Some ''alice'')) lp_start
     = Ok (lp_start, [vl_callback_msg lp_env lp_cb1])"
  by (simp add: execute_migrate_liquidity_def load_vesting_config_def load_migration_def
      load_vesting_info_def compute_share_def native_asset_def lp_states eval_arith)

lemma lp_step2:
  "vesting_lp_execute (lp_deps 5 7 0) lp_env (lp_call ''vestinglp'') (VlCallback lp_cb1) lp_start
     = Ok (lp_taken, [WasmExecute ''xyklp'' (Cw20Send ''xyk'' 80 WithdrawLiquidity) [],
         vl_callback_msg lp_env lp_cb2])"
  by (simp add: handle_vesting_lp_callback_def migrate_liquidity_to_cl_pair_callback_def
      load_vesting_config_def Let_def lp_states eval_arith)

lemma lp_step3:
  "vesting_lp_execute (lp_deps 165 87 0) lp_env (lp_call ''vestinglp'') (VlCallback lp_cb2) lp_taken
     = Ok (lp_taken, [WasmExecute ''pcl''
          (ProvideLiquidity [native_asset ''untrn'' 160, native_asset ''uusdc'' 80]
            (Some (Decimal 10000000000000000)) None None)
          [\<lparr>coin_denom = ''untrn'', coin_amount = 160\<rparr>, \<lparr>coin_denom = ''uusdc'', coin_amount = 80\<rparr>],
         vl_callback_msg lp_env lp_cb3])"
  by (simp add: handle_vesting_lp_callback_def load_migration_def
      provide_liquidity_to_cl_pair_after_withdrawal_callback_def lp_states eval_arith)

lemma lp_step4:
  "vesting_lp_execute (lp_deps 5 7 90) lp_env (lp_call ''vestinglp'') (VlCallback lp_cb3) lp_taken
     = Ok (lp_done, [WasmExecute ''pcllp'' (Cw20Send ''vestingpcl'' 90 (MigrateXYKVesting ''alice''
         \<lparr>schedules = [rescheduled lp_schedule 90], released_amount = 0\<rparr>)) []])"
  by (simp add: handle_vesting_lp_callback_def load_migration_def load_vesting_config_def
      post_migration_vesting_reschedule_callback_def Let_def lp_states eval_arith)



text \<open>C36: Any account can call Receive of vesting-lp-pcl directly, naming the old vesting contract as the cw20 sender, register a schedule for itself without sending any token and claim it at once.\<close>
theorem vesting_pcl_accepts_forged_migrations:
  assumes "v_config (vp_base s) = Some cfg" and "vesting_token cfg = Some token"
    and "xyk_vesting_lp_contract s = Some xyk" and "addr_validate d xyk = Ok xyk"
    and "v_state (vp_base s) = Some st"
    and "unat (total_granted st) + unat n < 2 ^ 128" and "unat (total_released st) + unat n < 2 ^ 128"
    and "n \<noteq> 0"
  shows "\<exists>s1 s2 m.
    vesting_pcl_execute d env info (VReceive xyk 0 (MigrateXYKVesting (sender info)
       \<lparr>schedules = [\<lparr>start_point = \<lparr>point_time = 0, point_amount = n\<rparr>, end_point = None\<rparr>],
        released_amount = 0\<rparr>)) s = Ok (s1, []) \<and>
    vesting_pcl_execute d env info (VClaim None None) s1 = Ok (s2, [m]) \<and>
    into_msg (with_balance token n) (sender info) = Ok m"
proof -
  let ?vi = "\<lparr>schedules = [\<lparr>start_point = \<lparr>point_time = 0, point_amount = n\<rparr>, end_point = None\<rparr>],
     released_amount = 0\<rparr>"
  obtain g :: u128 where g: "unat g = unat (total_granted st) + unat n"
    using word_of_nat_ex [of "unat (total_granted st) + unat n", where ?'a = 128] assms(6) by auto
  obtain r :: u128 where r: "unat r = unat (total_released st) + unat n"
    using word_of_nat_ex [of "unat (total_released st) + unat n", where ?'a = 128] assms(7) by auto
  define s1 where "s1 = s\<lparr>vp_base := (vp_base s)\<lparr>v_infos := save (sender info) ?vi (v_infos (vp_base s)),
     v_state := Some (st\<lparr>total_granted := g\<rparr>)\<rparr>\<rparr>"
  have "vesting_pcl_execute d env info (VReceive xyk 0 (MigrateXYKVesting (sender info) ?vi)) s = Ok (s1, [])"
    using assms g
    by (simp add: vesting_pcl_execute_def vesting_pcl_receive_cw20_def load_vesting_config_def
        get_vesting_token_def is_sender_xyk_vesting_lp_def handle_migrate_xyk_liquidity_def
        add_schedule_amounts_def s1_def Let_def) (rule exI [of _ n], simp, rule exI [of _ g], simp)
  moreover obtain m where m: "into_msg (with_balance token n) (sender info) = Ok m"
    using into_msg_cases by blast
  moreover have "\<exists>s2. vesting_pcl_execute d env info (VClaim None None) s1 = Ok (s2, [m])"
  proof -
    have sums: "checked_add 0 n = Ok n" "checked_sub n 0 = Ok n" "checked_add (total_released st) n = Ok r"
      using r by simp_all
    show ?thesis
      using assms(1,2,5,8) m
      by (simp add: vesting_pcl_execute_def vesting_claim_def load_vesting_config_def get_vesting_token_def
          load_vesting_info_def compute_available_amount_def add_available_def s1_def map_of_save sums
          del: and_then_Ok_iff map_ok_Ok_iff map_err_Ok_iff)
  qed
  ultimately show ?thesis by blast
qed

definition pcl_start :: vesting_lp_pcl where
  "pcl_start = \<lparr>vp_base = \<lparr>v_config = Some (lp_config ''pcllp''), v_proposal = None, v_managers = [],
       v_state = Some \<lparr>total_granted = 90, total_released = 0\<rparr>,
       v_infos = [(''alice'', \<lparr>schedules = [rescheduled lp_schedule 90], released_amount = 0\<rparr>)]\<rparr>,
     xyk_vesting_lp_contract = Some ''vestinglp''\<rparr>"

theorem vesting_pcl_accepts_forged_migrations_witness:
  "\<exists>s1 s2.
    vesting_pcl_execute (lp_deps 0 0 0) lp_env (lp_call ''mallory'') (VReceive ''vestinglp'' 0
       (MigrateXYKVesting ''mallory''
         \<lparr>schedules = [\<lparr>start_point = \<lparr>point_time = 0, point_amount = 90\<rparr>, end_point = None\<rparr>],
          released_amount = 0\<rparr>)) pcl_start = Ok (s1, []) \<and>
    vesting_pcl_execute (lp_deps 0 0 0) lp_env (lp_call ''mallory'') (VClaim None None) s1
      = Ok (s2, [WasmExecute ''pcllp'' (Cw20Transfer ''mallory'' 90) []])"
proof -
  have pre: "v_config (vp_base pcl_start) = Some (lp_config ''pcllp'')"
    "vesting_token (lp_config ''pcllp'') = Some (Token ''pcllp'')"
    "xyk_vesting_lp_contract pcl_start = Some ''vestinglp''"
    "addr_validate (lp_deps 0 0 0) ''vestinglp'' = Ok ''vestinglp''"
    "v_state (vp_base pcl_start) = Some \<lparr>total_granted = 90, total_released = 0\<rparr>"
    "unat (total_granted \<lparr>total_granted = 90, total_released = 0\<rparr>) + unat (90 :: u128) < 2 ^ 128"
    "unat (total_released \<lparr>total_granted = 90, total_released = 0\<rparr>) + unat (90 :: u128) < 2 ^ 128"
    "(90 :: u128) \<noteq> 0"
    by (simp_all add: pcl_start_def lp_config_def lp_deps_def)
  from vesting_pcl_accepts_forged_migrations [OF pre, of lp_env "lp_call ''mallory''"] show ?thesis
    by (simp add: lp_call_def into_msg_cases with_balance_def)
qed

end
