(* ===== verification/Price_Feed.thy ===== *)
theory Price_Feed
  imports Chain
begin

text \<open>
  The price feed, \<open>contracts/price-feed\<close>: it asks the Band oracle chain for the rates of a list of
  symbols over an IBC channel, at most once per interval, and stores the rates of the answer.

  The packet formats and the channel version (crates \<open>obi\<close> and \<open>cw_band\<close>) and base64 are fields of \<open>feed_deps\<close>; a packet
  itself is of an abstract type \<open>'p\<close>. An IBC handler that turns an error into an acknowledgement
  does not revert: what was saved before the error stays saved, so \<open>do_ibc_packet_receive\<close> returns
  its state next to its result.
\<close>

subsection \<open>Data\<close>

datatype feed_error =
    FeedUnauthorized
  | FeedStd std_error
  | RequestNotSuccess
  | InvalidIbcVersion string
  | OnlyUnorderedChannel
  | TooEarly
  | CustomError string

record feed_rate =
  fr_rate :: u64
  fr_resolve_time :: u64
  fr_request_id :: u64

record ibc_endpoint =
  port_id :: string
  channel_id :: string

record feed_config =
  client_id :: string
  oracle_script_id :: u64
  ask_count :: u64
  min_count :: u64
  fee_limit :: "coin list"
  prepare_gas :: u64
  execute_gas :: u64
  multiplier :: u64
  symbols :: "string list"
  max_update_interval :: u64
  feed_owner :: addr

record price_feed =
  rates :: "(string, feed_rate) store"
  feed_err :: "string option"
  endpoint :: "ibc_endpoint option"
  feed_cfg :: "feed_config option"
  last_update :: "u64 option"

definition feed_empty :: price_feed where
  "feed_empty = \<lparr>rates = [], feed_err = None, endpoint = None, feed_cfg = None, last_update = None\<rparr>"

record feed_instantiate_msg =
  fi_client_id :: string
  fi_oracle_script_id :: u64
  fi_ask_count :: u64
  fi_min_count :: u64
  fi_fee_limit :: "coin list"
  fi_prepare_gas :: u64
  fi_execute_gas :: u64
  fi_multiplier :: u64
  fi_symbols :: "string list"
  fi_owner :: "string option"
  fi_max_update_interval :: "u64 option"

record update_config_msg =
  fu_client_id :: "string option"
  fu_oracle_script_id :: "u64 option"
  fu_ask_count :: "u64 option"
  fu_min_count :: "u64 option"
  fu_fee_limit :: "coin list option"
  fu_prepare_gas :: "u64 option"
  fu_execute_gas :: "u64 option"
  fu_multiplier :: "u64 option"
  fu_symbols :: "string list option"
  fu_max_update_interval :: "u64 option"

datatype feed_execute_msg = Request | FeedUpdateConfig update_config_msg | UpdateOwner string

datatype ibc_order = Unordered | Ordered

record ibc_channel =
  ch_endpoint :: ibc_endpoint
  ch_counterparty :: ibc_endpoint
  ch_order :: ibc_order
  ch_version :: string

datatype resolve_status = ResolveOpen | ResolveSuccess | ResolveFailure | ResolveExpired

text \<open>\<open>OracleResponsePacketData\<close> and \<open>OracleRequestPacketData\<close>, the fields that the contract uses.\<close>

record oracle_response =
  resp_status :: resolve_status
  resp_result :: string
  resp_request_id :: u64

record oracle_request =
  req_client_id :: string
  req_oracle_script_id :: u64
  req_calldata :: "u8 list"
  req_ask_count :: u64
  req_min_count :: u64
  req_prepare_gas :: u64
  req_execute_gas :: u64
  req_fee_limit :: "coin list"

text \<open>\<open>IbcMsg::SendPacket\<close>; the timeout is in seconds.\<close>

datatype ibc_msg = SendPacket (packet_channel: string) (packet_data: oracle_request) (packet_timeout: u64)

datatype ibc_ack = AckSuccess | AckFail feed_error

record 'p feed_deps = deps +
  ibc_app_version :: string
  obi_encode :: "string list \<Rightarrow> u64 \<Rightarrow> (string, u8 list) result"
  obi_decode :: "u8 list \<Rightarrow> u64 list option"
  from_base64 :: "string \<Rightarrow> (std_error, u8 list) result"
  parse_response :: "'p \<Rightarrow> (std_error, oracle_response) result"

definition default_max_update_interval :: u64 where
  "default_max_update_interval = 120"

type_synonym feed_result = "(feed_error, price_feed \<times> ibc_msg list) result"

subsection \<open>Messages\<close>

definition feed_instantiate ::
  "('d) deps_scheme \<Rightarrow> message_info \<Rightarrow> feed_instantiate_msg \<Rightarrow> price_feed \<Rightarrow> feed_result" where
  "feed_instantiate d info m s =
     and_then (case fi_owner m of
         None \<Rightarrow> Ok (sender info)
       | Some a \<Rightarrow> map_err FeedStd (addr_validate d a)) (\<lambda>owner.
     Ok (s\<lparr>feed_cfg := Some \<lparr>client_id = fi_client_id m, oracle_script_id = fi_oracle_script_id m,
            ask_count = fi_ask_count m, min_count = fi_min_count m, fee_limit = fi_fee_limit m,
            prepare_gas = fi_prepare_gas m, execute_gas = fi_execute_gas m,
            multiplier = fi_multiplier m, symbols = fi_symbols m,
            max_update_interval = unwrap_or (fi_max_update_interval m) default_max_update_interval,
            feed_owner = owner\<rparr>\<rparr>, []))"

definition feed_load_config :: "price_feed \<Rightarrow> (feed_error, feed_config) result" where
  "feed_load_config s = load_item (feed_cfg s) (FeedStd (NotFound ''config''))"

definition request_packet :: "feed_config \<Rightarrow> u8 list \<Rightarrow> oracle_request" where
  "request_packet cfg calldata =
     \<lparr>req_client_id = client_id cfg, req_oracle_script_id = oracle_script_id cfg,
      req_calldata = calldata, req_ask_count = ask_count cfg, req_min_count = min_count cfg,
      req_prepare_gas = prepare_gas cfg, req_execute_gas = execute_gas cfg,
      req_fee_limit = fee_limit cfg\<rparr>"

definition try_request :: "('p, 'd) feed_deps_scheme \<Rightarrow> env \<Rightarrow> price_feed \<Rightarrow> feed_result" where
  "try_request d env s =
     and_then (load_item (endpoint s) (FeedStd (NotFound ''endpoint''))) (\<lambda>ep.
     and_then (feed_load_config s) (\<lambda>cfg.
     and_then (sub_panic (block_time env) (unwrap_or (last_update s) 0)) (\<lambda>elapsed.
     if elapsed < max_update_interval cfg then Err TooEarly
     else
     and_then (map_err CustomError (obi_encode d (symbols cfg) (multiplier cfg))) (\<lambda>calldata.
     and_then (add_panic (block_time env) 60) (\<lambda>timeout.
     Ok (s\<lparr>last_update := Some (block_time env)\<rparr>,
         [SendPacket (channel_id ep) (request_packet cfg calldata) timeout]))))))"

definition set_field :: "'a option \<Rightarrow> ('a \<Rightarrow> 'c \<Rightarrow> 'c) \<Rightarrow> 'c \<Rightarrow> 'c" where
  "set_field x upd c = (case x of Some v \<Rightarrow> upd v c | None \<Rightarrow> c)"

definition updated_config :: "update_config_msg \<Rightarrow> feed_config \<Rightarrow> feed_config" where
  "updated_config m c =
     (let c = set_field (fu_client_id m) (\<lambda>v c. c\<lparr>client_id := v\<rparr>) c;
          c = set_field (fu_oracle_script_id m) (\<lambda>v c. c\<lparr>oracle_script_id := v\<rparr>) c;
          c = set_field (fu_ask_count m) (\<lambda>v c. c\<lparr>ask_count := v\<rparr>) c;
          c = set_field (fu_min_count m) (\<lambda>v c. c\<lparr>min_count := v\<rparr>) c;
          c = set_field (fu_fee_limit m) (\<lambda>v c. c\<lparr>fee_limit := v\<rparr>) c;
          c = set_field (fu_prepare_gas m) (\<lambda>v c. c\<lparr>prepare_gas := v\<rparr>) c;
          c = set_field (fu_execute_gas m) (\<lambda>v c. c\<lparr>execute_gas := v\<rparr>) c;
          c = set_field (fu_multiplier m) (\<lambda>v c. c\<lparr>multiplier := v\<rparr>) c;
          c = set_field (fu_symbols m) (\<lambda>v c. c\<lparr>symbols := v\<rparr>) c
      in c)"

definition try_update_config :: "message_info \<Rightarrow> update_config_msg \<Rightarrow> price_feed \<Rightarrow> feed_result" where
  "try_update_config info m s =
     and_then (feed_load_config s) (\<lambda>cfg.
     if sender info \<noteq> feed_owner cfg then Err FeedUnauthorized
     else Ok (s\<lparr>feed_cfg := Some (updated_config m cfg)\<rparr>, []))"

definition try_update_owner ::
  "('d) deps_scheme \<Rightarrow> message_info \<Rightarrow> string \<Rightarrow> price_feed \<Rightarrow> feed_result" where
  "try_update_owner d info new_owner s =
     and_then (feed_load_config s) (\<lambda>cfg.
     if sender info \<noteq> feed_owner cfg then Err FeedUnauthorized
     else
     and_then (map_err FeedStd (addr_validate d new_owner)) (\<lambda>a.
     Ok (s\<lparr>feed_cfg := Some (cfg\<lparr>feed_owner := a\<rparr>)\<rparr>, [])))"

primrec feed_execute ::
  "('p, 'd) feed_deps_scheme \<Rightarrow> env \<Rightarrow> message_info \<Rightarrow> feed_execute_msg \<Rightarrow> price_feed \<Rightarrow> feed_result" where
  "feed_execute d env info Request s = try_request d env s"
| "feed_execute d env info (FeedUpdateConfig m) s = try_update_config info m s"
| "feed_execute d env info (UpdateOwner a) s = try_update_owner d info a s"

subsection \<open>The channel\<close>

definition enforce_order_and_version ::
  "('p, 'd) feed_deps_scheme \<Rightarrow> ibc_channel \<Rightarrow> string option \<Rightarrow> (feed_error, unit) result" where
  "enforce_order_and_version d ch counterparty =
     (if ch_version ch \<noteq> ibc_app_version d then Err (InvalidIbcVersion (ch_version ch))
      else case counterparty of
        Some v \<Rightarrow> if v \<noteq> ibc_app_version d then Err (InvalidIbcVersion v)
                  else if ch_order ch \<noteq> Unordered then Err OnlyUnorderedChannel else Ok ()
      | None \<Rightarrow> if ch_order ch \<noteq> Unordered then Err OnlyUnorderedChannel else Ok ())"

definition ibc_channel_open ::
  "('p, 'd) feed_deps_scheme \<Rightarrow> ibc_channel \<Rightarrow> string option \<Rightarrow> (feed_error, string) result" where
  "ibc_channel_open d ch counterparty =
     and_then (enforce_order_and_version d ch counterparty) (\<lambda>_. Ok (ch_version ch))"

definition ibc_channel_connect ::
  "('p, 'd) feed_deps_scheme \<Rightarrow> ibc_channel \<Rightarrow> string option \<Rightarrow> price_feed
     \<Rightarrow> (feed_error, price_feed) result" where
  "ibc_channel_connect d ch counterparty s =
     and_then (enforce_order_and_version d ch counterparty) (\<lambda>_.
     Ok (s\<lparr>endpoint := Some (ch_endpoint ch)\<rparr>))"

text \<open>\<open>unimplemented!()\<close>.\<close>

definition ibc_channel_close :: "price_feed \<Rightarrow> (feed_error, price_feed) result" where
  "ibc_channel_close s = Panic"

subsection \<open>The answer\<close>

text \<open>The loop \<open>for i in 0..rates.len()\<close>; \<open>symbols[i]\<close> past the end panics.\<close>

fun save_rates ::
  "u64 \<Rightarrow> u64 \<Rightarrow> string list \<Rightarrow> u64 list \<Rightarrow> (string, feed_rate) store
     \<Rightarrow> (feed_error, (string, feed_rate) store) result" where
  "save_rates now req syms [] rs = Ok rs"
| "save_rates now req [] (r # qs) rs = Panic"
| "save_rates now req (x # syms) (r # qs) rs =
     save_rates now req syms qs (save x \<lparr>fr_rate = r, fr_resolve_time = now, fr_request_id = req\<rparr> rs)"

definition do_ibc_packet_receive ::
  "('p, 'd) feed_deps_scheme \<Rightarrow> env \<Rightarrow> 'p \<Rightarrow> price_feed \<Rightarrow> price_feed \<times> (feed_error, unit) result" where
  "do_ibc_packet_receive d env packet s =
     (case and_then (map_err FeedStd (parse_response d packet)) (\<lambda>resp.
           and_then (feed_load_config s) (\<lambda>cfg. Ok (resp, cfg))) of
        Err e \<Rightarrow> (s, Err e)
      | Panic \<Rightarrow> (s, Panic)
      | Ok (resp, cfg) \<Rightarrow>
          if resp_status resp \<noteq> ResolveSuccess
          then (s\<lparr>feed_err := Some (resp_result resp)\<rparr>, Err RequestNotSuccess)
          else case and_then (map_err FeedStd (from_base64 d (resp_result resp))) (\<lambda>bin.
                    and_then (ok_or (obi_decode d bin) RequestNotSuccess) (\<lambda>rs.
                    save_rates (block_time env) (resp_request_id resp) (symbols cfg) rs (rates s))) of
              Err e \<Rightarrow> (s, Err e)
            | Panic \<Rightarrow> (s, Panic)
            | Ok rs \<Rightarrow> (s\<lparr>rates := rs\<rparr>, Ok ()))"

definition ibc_packet_receive ::
  "('p, 'd) feed_deps_scheme \<Rightarrow> env \<Rightarrow> 'p \<Rightarrow> price_feed \<Rightarrow> (feed_error, price_feed \<times> ibc_ack) result" where
  "ibc_packet_receive d env packet s =
     (case do_ibc_packet_receive d env packet s of
        (s', Ok _) \<Rightarrow> Ok (s', AckSuccess)
      | (s', Err e) \<Rightarrow> Ok (s', AckFail e)
      | (s', Panic) \<Rightarrow> Panic)"

definition ibc_packet_ack :: "price_feed \<Rightarrow> (feed_error, price_feed) result" where
  "ibc_packet_ack s = Ok s"

definition ibc_packet_timeout :: "price_feed \<Rightarrow> (feed_error, price_feed) result" where
  "ibc_packet_timeout s = Ok s"

subsection \<open>Queries\<close>

definition query_error :: "price_feed \<Rightarrow> (feed_error, string) result" where
  "query_error s = load_item (feed_err s) (FeedStd (NotFound ''error''))"

definition feed_query_config :: "price_feed \<Rightarrow> (feed_error, feed_config) result" where
  "feed_query_config s = feed_load_config s"

definition query_rate :: "price_feed \<Rightarrow> (feed_error, feed_rate list) result" where
  "query_rate s =
     and_then (feed_load_config s) (\<lambda>cfg.
     try_map (\<lambda>x. ok_or (may_load (rates s) x) (FeedStd (NotFound ''rates''))) (sort (symbols cfg)))"

end
