(* ===== verification/Price_Feed_Properties.thy ===== *)
theory Price_Feed_Properties
  imports Price_Feed
begin

text \<open>
  What the price feed promises: the rates of a successful answer are what \<open>GetRate\<close> returns, an
  unsuccessful answer changes no rate, and two requests are at least the update interval apart.
  And what it does not: the interval cannot be changed, and the last channel to connect is the
  one that requests go to, whoever opened it.
\<close>

lemma save_rates_Ok:
  assumes "save_rates now req syms rs store = Ok store'"
  shows "length rs \<le> length syms"
    and "distinct syms \<Longrightarrow> map_of store' =
      map_of store ++ map_of (zip syms (map (\<lambda>r. \<lparr>fr_rate = r, fr_resolve_time = now, fr_request_id = req\<rparr>) rs))"
proof -
  show "length rs \<le> length syms"
    using assms by (induction now req syms rs store rule: save_rates.induct) auto
  show "map_of store' =
      map_of store ++ map_of (zip syms (map (\<lambda>r. \<lparr>fr_rate = r, fr_resolve_time = now, fr_request_id = req\<rparr>) rs))"
    if "distinct syms"
    using assms that
  proof (induction now req syms rs store rule: save_rates.induct)
    case (3 now req x syms r qs rs)
    let ?z = "zip syms (map (\<lambda>r. \<lparr>fr_rate = r, fr_resolve_time = now, fr_request_id = req\<rparr>) qs)"
    have "x \<notin> dom (map_of ?z)"
      using 3(3) by (auto simp: dom_map_of_conv_image_fst dest: set_zip_leftD)
    from map_add_upd_left [OF this] 3 show ?case
      by (simp add: map_of_save del: fun_upd_apply)
  qed simp_all
qed

lemma save_rates_total:
  "length rs \<le> length syms \<Longrightarrow> \<exists>store'. save_rates now req syms rs store = Ok store'"
  by (induction now req syms rs store rule: save_rates.induct) auto

lemma receive_success_inversion:
  assumes "ibc_packet_receive d env packet s = Ok (s', AckSuccess)"
  obtains resp cfg bin rs store where "parse_response d packet = Ok resp" "feed_cfg s = Some cfg"
    "resp_status resp = ResolveSuccess" "from_base64 d (resp_result resp) = Ok bin"
    "obi_decode d bin = Some rs"
    "save_rates (block_time env) (resp_request_id resp) (symbols cfg) rs (rates s) = Ok store"
    "s' = s\<lparr>rates := store\<rparr>"
  using assms unfolding ibc_packet_receive_def do_ibc_packet_receive_def feed_load_config_def
  by (auto split: prod.splits result.splits if_split_asm)

lemma try_map_Ok:
  "(\<And>x. x \<in> set xs \<Longrightarrow> f x = Ok (g x)) \<Longrightarrow> try_map f xs = Ok (map g xs)"
  by (induction xs) auto

subsection \<open>An example feed\<close>

definition pf_deps :: "oracle_response feed_deps" where
  "pf_deps = \<lparr>addr_validate = Ok, bank_balance = (\<lambda>a denom. Ok 0), cw20_balance = (\<lambda>c a. Ok 0),
     ibc_app_version = ''v1'', obi_encode = (\<lambda>xs k. Ok []),
     obi_decode = (\<lambda>bs. Some (map (\<lambda>b. of_nat (unat b)) bs)),
     from_base64 = (\<lambda>s. Ok (map (\<lambda>c. of_nat (of_char c)) s)), parse_response = Ok\<rparr>"

definition pf_env :: "u64 \<Rightarrow> env" where
  "pf_env now = \<lparr>block_time = now, block_height = 1, this_contract = ''feed''\<rparr>"

definition pf_call :: message_info where
  "pf_call = \<lparr>sender = ''dao'', funds = []\<rparr>"

definition pf_msg :: feed_instantiate_msg where
  "pf_msg = \<lparr>fi_client_id = ''tge'', fi_oracle_script_id = 3, fi_ask_count = 4, fi_min_count = 3,
     fi_fee_limit = [], fi_prepare_gas = 1, fi_execute_gas = 1, fi_multiplier = 1,
     fi_symbols = [''NTRN'', ''ATOM''], fi_owner = None, fi_max_update_interval = Some 60\<rparr>"

definition pf_config :: feed_config where
  "pf_config = \<lparr>client_id = ''tge'', oracle_script_id = 3, ask_count = 4, min_count = 3, fee_limit = [],
     prepare_gas = 1, execute_gas = 1, multiplier = 1, symbols = [''NTRN'', ''ATOM''],
     max_update_interval = 60, feed_owner = ''dao''\<rparr>"

definition pf_start :: price_feed where
  "pf_start = feed_empty\<lparr>feed_cfg := Some pf_config\<rparr>"

definition pf_channel :: ibc_channel where
  "pf_channel = \<lparr>ch_endpoint = \<lparr>port_id = ''feed'', channel_id = ''channel-1''\<rparr>,
     ch_counterparty = \<lparr>port_id = ''oracle'', channel_id = ''channel-7''\<rparr>, ch_order = Unordered,
     ch_version = ''v1''\<rparr>"

definition pf_ready :: price_feed where
  "pf_ready = pf_start\<lparr>endpoint := Some (ch_endpoint pf_channel)\<rparr>"

definition pf_answer :: oracle_response where
  "pf_answer = \<lparr>resp_status = ResolveSuccess, resp_result = ''AB'', resp_request_id = 9\<rparr>"

definition pf_rate :: "u64 \<Rightarrow> feed_rate" where
  "pf_rate r = \<lparr>fr_rate = r, fr_resolve_time = 100, fr_request_id = 9\<rparr>"

definition pf_answered :: price_feed where
  "pf_answered = pf_ready\<lparr>rates := [(''ATOM'', pf_rate 66), (''NTRN'', pf_rate 65)]\<rparr>"

lemmas pf_defs = pf_deps_def pf_env_def pf_call_def pf_msg_def pf_config_def pf_start_def pf_channel_def
  pf_ready_def pf_answer_def pf_rate_def pf_answered_def feed_empty_def

lemma pf_instantiate: "feed_instantiate pf_deps pf_call pf_msg feed_empty = Ok (pf_start, [])"
  by (simp add: feed_instantiate_def pf_defs)

lemma pf_connect: "ibc_channel_connect pf_deps pf_channel (Some ''v1'') pf_start = Ok pf_ready"
  by (simp add: ibc_channel_connect_def enforce_order_and_version_def pf_defs)

lemma pf_receive: "ibc_packet_receive pf_deps (pf_env 100) pf_answer pf_ready = Ok (pf_answered, AckSuccess)"
  by (simp add: ibc_packet_receive_def do_ibc_packet_receive_def feed_load_config_def pf_defs)

lemma pf_request:
  "feed_execute pf_deps (pf_env now) pf_call Request pf_ready = Ok (pf_ready\<lparr>last_update := Some now\<rparr>,
     [SendPacket ''channel-1'' (request_packet pf_config []) (now + 60)])" if "now = 70"
  using that by (simp add: try_request_def feed_load_config_def eval_arith pf_defs del: add_panic_Ok_iff
      sub_panic_Ok_iff)

text \<open>After a successful answer with one rate per symbol, GetRate returns those rates, stamped with the block time and the request, in the order of the sorted symbols.\<close>
theorem feed_publishes_the_answer:
  assumes "ibc_packet_receive d env packet s = Ok (s', AckSuccess)"
    and "parse_response d packet = Ok resp" and "from_base64 d (resp_result resp) = Ok bin"
    and "obi_decode d bin = Some rs" and "feed_cfg s = Some cfg"
    and "distinct (symbols cfg)" and "length rs = length (symbols cfg)"
  shows "query_rate s' = Ok (map (\<lambda>x. the (map_of (zip (symbols cfg)
      (map (\<lambda>r. \<lparr>fr_rate = r, fr_resolve_time = block_time env, fr_request_id = resp_request_id resp\<rparr>) rs)) x))
      (sort (symbols cfg)))"
  using assms(1)
proof (rule receive_success_inversion)
  fix resp' cfg' bin' rs' store
  assume "parse_response d packet = Ok resp'" "feed_cfg s = Some cfg'"
    "from_base64 d (resp_result resp') = Ok bin'" "obi_decode d bin' = Some rs'"
    "save_rates (block_time env) (resp_request_id resp') (symbols cfg') rs' (rates s) = Ok store"
    and s': "s' = s\<lparr>rates := store\<rparr>"
  then have saved: "save_rates (block_time env) (resp_request_id resp) (symbols cfg) rs (rates s) = Ok store"
    using assms(2-5) by simp
  let ?z = "zip (symbols cfg) (map (\<lambda>r. \<lparr>fr_rate = r, fr_resolve_time = block_time env,
     fr_request_id = resp_request_id resp\<rparr>) rs)"
  have "map_of store x = Some (the (map_of ?z x))" if "x \<in> set (symbols cfg)" for x
  proof -
    have "x \<in> dom (map_of ?z)"
      using that assms(7) by (simp add: dom_map_of_zip)
    then show ?thesis
      using save_rates_Ok(2) [OF saved assms(6)] by (auto simp: map_add_def)
  qed
  then show ?thesis
    using assms(5) by (auto simp: query_rate_def feed_load_config_def s' intro!: try_map_Ok)
qed

theorem feed_publishes_the_answer_witness:
  "query_rate pf_answered = Ok [pf_rate 66, pf_rate 65]"
proof -
  have pre: "parse_response pf_deps pf_answer = Ok pf_answer"
    "from_base64 pf_deps (resp_result pf_answer) = Ok [65, 66]" "obi_decode pf_deps [65, 66] = Some [65, 66]"
    "feed_cfg pf_ready = Some pf_config" "distinct (symbols pf_config)"
    "length [65 :: u64, 66] = length (symbols pf_config)"
    by (simp_all add: pf_defs)
  from feed_publishes_the_answer [OF pf_receive pre] show ?thesis by (simp add: pf_defs)
qed

text \<open>An unsuccessful answer is recorded as the error and leaves the rates alone.\<close>
theorem feed_failure_keeps_the_rates:
  assumes "ibc_packet_receive d env packet s = Ok (s', ack)"
    and "parse_response d packet = Ok resp" and "resp_status resp \<noteq> ResolveSuccess" and "feed_cfg s = Some cfg"
  shows "ack = AckFail RequestNotSuccess \<and> query_rate s' = query_rate s \<and> query_error s' = Ok (resp_result resp)"
  using assms
  by (auto simp: ibc_packet_receive_def do_ibc_packet_receive_def feed_load_config_def query_rate_def
      query_error_def)

subsection \<open>Runs\<close>

text \<open>Everything that can happen to the contract after its instantiation.\<close>

inductive feed_step :: "'p feed_deps \<Rightarrow> u64 \<times> price_feed \<Rightarrow> ibc_msg list \<Rightarrow> u64 \<times> price_feed \<Rightarrow> bool" for d where
  step_execute: "now \<le> block_time env \<Longrightarrow> feed_execute d env info m s = Ok (s', ms) \<Longrightarrow>
     feed_step d (now, s) ms (block_time env, s')"
| step_connect: "now \<le> now' \<Longrightarrow> ibc_channel_connect d ch v s = Ok s' \<Longrightarrow>
     feed_step d (now, s) [] (now', s')"
| step_receive: "now \<le> block_time env \<Longrightarrow> ibc_packet_receive d env packet s = Ok (s', ack) \<Longrightarrow>
     feed_step d (now, s) [] (block_time env, s')"

text \<open>A run, with the times at which it sent a packet, the latest first.\<close>

inductive feed_run :: "'p feed_deps \<Rightarrow> u64 \<times> price_feed \<Rightarrow> u64 list \<Rightarrow> u64 \<times> price_feed \<Rightarrow> bool" for d c where
  feed_start: "feed_run d c [] c"
| feed_more: "feed_run d c ts (now, s) \<Longrightarrow> feed_step d (now, s) ms (now', s') \<Longrightarrow>
     feed_run d c (if ms = [] then ts else now' # ts) (now', s')"

lemma updated_config_interval [simp]: "max_update_interval (updated_config m cfg) = max_update_interval cfg"
  by (simp add: updated_config_def set_field_def Let_def split: option.split)

lemma receive_frame:
  assumes "ibc_packet_receive d env packet s = Ok (s', ack)"
  shows "feed_cfg s' = feed_cfg s \<and> last_update s' = last_update s \<and> endpoint s' = endpoint s"
  using assms unfolding ibc_packet_receive_def do_ibc_packet_receive_def
  by (auto split: prod.splits result.splits if_split_asm)

definition interval_is :: "u64 \<Rightarrow> price_feed \<Rightarrow> bool" where
  "interval_is i s \<longleftrightarrow> (\<exists>cfg. feed_cfg s = Some cfg \<and> max_update_interval cfg = i)"

text \<open>A step keeps the interval; it sends a packet only when the interval has passed.\<close>

lemma feed_step_ok:
  assumes "feed_step d (now, s) ms (now', s')" and "interval_is i s"
  shows "interval_is i s' \<and> now \<le> now' \<and>
    (if ms = [] then last_update s' = last_update s
     else last_update s' = Some now' \<and> unat (unwrap_or (last_update s) 0) + unat i \<le> unat now')"
  using assms(1)
proof cases
  case (step_execute env info m)
  with assms(2) show ?thesis
    by (cases m)
      (auto simp: interval_is_def try_request_def try_update_config_def try_update_owner_def
        feed_load_config_def not_less word_le_nat_alt split: if_splits)
next
  case (step_connect ch v)
  with assms(2) show ?thesis by (auto simp: interval_is_def ibc_channel_connect_def)
next
  case (step_receive env packet ack)
  with assms(2) receive_frame [OF step_receive(4)] show ?thesis by (auto simp: interval_is_def)
qed

lemma feed_run_spaced:
  assumes "feed_run d c ts c'" and "interval_is i (snd c)"
  shows "interval_is i (snd c') \<and> sorted_wrt (\<lambda>t' t. unat t + unat i \<le> unat t') ts \<and>
    (ts \<noteq> [] \<longrightarrow> last_update (snd c') = Some (hd ts))"
  using assms
proof induction
  case (feed_more ts now s ms now' s')
  note ih = feed_more.IH [OF feed_more.prems]
  have step: "interval_is i s' \<and> now \<le> now' \<and> (if ms = [] then last_update s' = last_update s
     else last_update s' = Some now' \<and> unat (unwrap_or (last_update s) 0) + unat i \<le> unat now')"
    by (rule feed_step_ok [OF feed_more.hyps(2)]) (use ih in simp)
  show ?case
  proof (cases "ms = []")
    case True
    with step ih show ?thesis by simp
  next
    case False
    have "unat t + unat i \<le> unat now'" if "t \<in> set ts" for t
    proof (cases ts)
      case (Cons u us)
      have "unat t \<le> unat u"
        using that Cons ih by auto
      moreover have "unat u + unat i \<le> unat now'"
        using step False ih Cons by simp
      ultimately show ?thesis by simp
    qed (use that in simp)
    with step False ih show ?thesis by simp
  qed
qed simp



text \<open>Channel\<close>
theorem feed_any_channel_takes_over:
  assumes "ch_version ch = ibc_app_version d" and "ch_order ch = Unordered" and "feed_cfg s = Some cfg"
    and "unat (unwrap_or (last_update s) 0) + unat (max_update_interval cfg) \<le> unat (block_time env)"
    and "obi_encode d (symbols cfg) (multiplier cfg) = Ok calldata" and "unat (block_time env) + 60 < 2 ^ 64"
  shows "\<exists>s1 s2 req timeout. ibc_channel_connect d ch (Some (ibc_app_version d)) s = Ok s1 \<and>
    rates s1 = rates s \<and>
    try_request d env s1 = Ok (s2, [SendPacket (channel_id (ch_endpoint ch)) req timeout])"
proof -
  define s1 where "s1 = s\<lparr>endpoint := Some (ch_endpoint ch)\<rparr>"
  obtain timeout :: u64 where timeout: "unat timeout = unat (block_time env) + 60"
    using word_of_nat_ex [of "unat (block_time env) + 60", where ?'a = 64] assms(6) by auto
  define elapsed where "elapsed = block_time env - unwrap_or (last_update s) 0"
  have le: "unat (unwrap_or (last_update s) 0) \<le> unat (block_time env)" using assms(4) by linarith
  then have elapsed: "unat elapsed = unat (block_time env) - unat (unwrap_or (last_update s) 0)"
    by (simp add: elapsed_def unat_sub word_le_nat_alt)
  have "ibc_channel_connect d ch (Some (ibc_app_version d)) s = Ok s1"
    using assms(1,2) by (simp add: ibc_channel_connect_def enforce_order_and_version_def s1_def)
  moreover have "try_request d env s1 = Ok (s1\<lparr>last_update := Some (block_time env)\<rparr>,
      [SendPacket (channel_id (ch_endpoint ch)) (request_packet cfg calldata) timeout])"
  proof -
    have ops: "sub_panic (block_time env) (unwrap_or (last_update s) 0) = Ok elapsed"
      "add_panic (block_time env) 60 = Ok timeout" "\<not> elapsed < max_update_interval cfg"
      using le elapsed timeout assms(4) by (simp_all add: word_less_nat_alt)
    show ?thesis
      using assms(3,5)
      by (simp add: try_request_def feed_load_config_def s1_def ops
          del: and_then_Ok_iff map_err_Ok_iff if_Err_Ok_iff)
  qed
  ultimately show ?thesis by (auto simp: s1_def)
qed

theorem feed_any_channel_takes_over_witness:
  "\<exists>s1 s2 req timeout.
     ibc_channel_connect pf_deps (pf_channel\<lparr>ch_endpoint := \<lparr>port_id = ''feed'', channel_id = ''channel-666''\<rparr>\<rparr>)
       (Some ''v1'') pf_answered = Ok s1 \<and>
     try_request pf_deps (pf_env 200) s1 = Ok (s2, [SendPacket ''channel-666'' req timeout])"
proof -
  let ?ch = "pf_channel\<lparr>ch_endpoint := \<lparr>port_id = ''feed'', channel_id = ''channel-666''\<rparr>\<rparr>"
  have pre: "ch_version ?ch = ibc_app_version pf_deps" "ch_order ?ch = Unordered"
    "feed_cfg pf_answered = Some pf_config"
    "unat (unwrap_or (last_update pf_answered) 0) + unat (max_update_interval pf_config)
       \<le> unat (block_time (pf_env 200))"
    "obi_encode pf_deps (symbols pf_config) (multiplier pf_config) = Ok []"
    "unat (block_time (pf_env 200)) + 60 < 2 ^ 64"
    by (simp_all add: pf_defs)
  from feed_any_channel_takes_over [OF pre] show ?thesis by (auto simp: pf_deps_def)
qed

text \<open>The field \<open>max_update_interval\<close> of \<open>UpdateConfig\<close> has no effect.\<close>

theorem feed_interval_is_never_updated:
  "try_update_config info m s = Ok (s', ms) \<Longrightarrow> interval_is i s \<Longrightarrow> interval_is i s'"
  by (auto simp: try_update_config_def interval_is_def feed_load_config_def)

end
