(* ===== verification/Usdc_Converter.thy ===== *)
theory Usdc_Converter
  imports Assets
begin

text \<open>
  The converter of LP tokens, \<open>contracts/usdc-converter\<close>: it withdraws the liquidity of the
  USDC.axl pool, swaps the USDC.axl for Noble USDC at a transmuter pool and provides liquidity to
  the Noble pool for the caller, in two callbacks to itself. The amounts are differences of the
  contract's balances before and after each step.

  The pools are not in this repository; the answer of \<open>Pair\<close> is the field \<open>pool_liquidity_token\<close>
  of \<open>converter_deps\<close>. A message is a message of the other contracts, a swap or a callback.
\<close>

record converter_config =
  axl_pool :: addr
  axl_usdc_denom :: string

record converter_deps = deps +
  pool_liquidity_token :: "addr \<Rightarrow> (std_error, addr) result"

datatype converter_callback =
    SwapCallback string u128 u128 decimal string string string
      \<comment> \<open>transmuter pool, previous USDC.axl and NTRN balances, slippage, caller, Noble pool and denom\<close>
  | StakeCallback u128 u128 decimal string string string
      \<comment> \<open>previous Noble USDC balance, NTRN to provide, slippage, caller, Noble pool and denom\<close>

datatype converter_payload =
    Plain wasm_msg
  | Swap asset                     \<comment> \<open>the offer asset; every other field is \<open>None\<close>\<close>
  | ConverterCallback converter_callback

type_synonym converter_msg = "converter_payload cosmos_msg"

datatype converter_hook = ConvertAndStake string string string decimal | UnknownHook

datatype converter_execute_msg =
    ConverterReceive string u128 converter_hook
  | ConverterOwnCallback converter_callback

type_synonym converter_result = "(std_error, converter_config option \<times> converter_msg list) result"

definition converter_instantiate ::
  "('d) deps_scheme \<Rightarrow> string \<Rightarrow> string \<Rightarrow> converter_config option \<Rightarrow> converter_result" where
  "converter_instantiate d pool denom s =
     and_then (addr_validate d pool) (\<lambda>pool.
     Ok (Some \<lparr>axl_pool = pool, axl_usdc_denom = denom\<rparr>, []))"

definition converter_load_config :: "converter_config option \<Rightarrow> (std_error, converter_config) result" where
  "converter_load_config s = load_item s (NotFound ''config'')"

definition converter_callback_msg :: "env \<Rightarrow> converter_callback \<Rightarrow> converter_msg" where
  "converter_callback_msg env cb = WasmExecute (this_contract env) (ConverterCallback cb) []"

definition execute_convert_and_stake ::
  "('d) deps_scheme \<Rightarrow> env \<Rightarrow> string \<Rightarrow> u128 \<Rightarrow> addr \<Rightarrow> string \<Rightarrow> string \<Rightarrow> string \<Rightarrow> decimal
     \<Rightarrow> converter_config option \<Rightarrow> converter_result" where
  "execute_convert_and_stake d env caller amount lp_token transmuter noble noble_denom slippage s =
     and_then (converter_load_config s) (\<lambda>cfg.
     and_then (bank_balance d (this_contract env) ntrn_denom) (\<lambda>ntrn_balance.
     and_then (bank_balance d (this_contract env) (axl_usdc_denom cfg)) (\<lambda>axl_balance.
     Ok (s, [WasmExecute lp_token (Plain (Cw20Send (axl_pool cfg) amount WithdrawLiquidity)) [],
             converter_callback_msg env
               (SwapCallback transmuter axl_balance ntrn_balance slippage caller noble noble_denom)]))))"

definition converter_receive_cw20 ::
  "('d) converter_deps_scheme \<Rightarrow> env \<Rightarrow> message_info \<Rightarrow> string \<Rightarrow> u128 \<Rightarrow> converter_hook
     \<Rightarrow> converter_config option \<Rightarrow> converter_result" where
  "converter_receive_cw20 d env info cw20_sender amount hook s =
     and_then (converter_load_config s) (\<lambda>cfg.
     and_then (pool_liquidity_token d (axl_pool cfg)) (\<lambda>lp_token.
     if sender info \<noteq> lp_token
     then Err (GenericErr ''only USDC.axl<>NTRN pool LP tokens are supported for conversion'')
     else case hook of
       ConvertAndStake transmuter noble noble_denom slippage \<Rightarrow>
         execute_convert_and_stake d env cw20_sender amount lp_token transmuter noble noble_denom slippage s
     | UnknownHook \<Rightarrow> Err ParseErr))"

definition handle_swap_callback ::
  "('d) deps_scheme \<Rightarrow> env \<Rightarrow> string \<Rightarrow> u128 \<Rightarrow> u128 \<Rightarrow> decimal \<Rightarrow> string \<Rightarrow> string \<Rightarrow> string
     \<Rightarrow> converter_config option \<Rightarrow> converter_result" where
  "handle_swap_callback d env transmuter axl_prev ntrn_prev slippage caller noble noble_denom s =
     and_then (converter_load_config s) (\<lambda>cfg.
     and_then (bank_balance d (this_contract env) ntrn_denom) (\<lambda>ntrn_balance.
     and_then (bank_balance d (this_contract env) (axl_usdc_denom cfg)) (\<lambda>axl_balance.
     and_then (checked_sub ntrn_balance ntrn_prev) (\<lambda>ntrn_withdrawn.
     and_then (checked_sub axl_balance axl_prev) (\<lambda>axl_withdrawn.
     and_then (bank_balance d (this_contract env) noble_denom) (\<lambda>noble_balance.
     Ok (s, [WasmExecute transmuter
               (Swap \<lparr>ainfo = NativeToken (axl_usdc_denom cfg), asset_amount = axl_withdrawn\<rparr>)
               [\<lparr>coin_denom = axl_usdc_denom cfg, coin_amount = axl_withdrawn\<rparr>],
             converter_callback_msg env
               (StakeCallback noble_balance ntrn_withdrawn slippage caller noble noble_denom)])))))))"

definition handle_stake_callback ::
  "('d) deps_scheme \<Rightarrow> env \<Rightarrow> u128 \<Rightarrow> u128 \<Rightarrow> decimal \<Rightarrow> string \<Rightarrow> string \<Rightarrow> string
     \<Rightarrow> converter_config option \<Rightarrow> converter_result" where
  "handle_stake_callback d env noble_prev ntrn slippage caller noble noble_denom s =
     and_then (bank_balance d (this_contract env) noble_denom) (\<lambda>noble_balance.
     and_then (checked_sub noble_balance noble_prev) (\<lambda>swapped.
     Ok (s, [WasmExecute noble
               (Plain (ProvideLiquidity
                 [\<lparr>ainfo = NativeToken ntrn_denom, asset_amount = ntrn\<rparr>,
                  \<lparr>ainfo = NativeToken noble_denom, asset_amount = swapped\<rparr>]
                 (Some slippage) (Some True) (Some caller)))
               [\<lparr>coin_denom = ntrn_denom, coin_amount = ntrn\<rparr>,
                \<lparr>coin_denom = noble_denom, coin_amount = swapped\<rparr>]])))"

primrec dispatch_converter_callback ::
  "('d) deps_scheme \<Rightarrow> env \<Rightarrow> converter_callback \<Rightarrow> converter_config option \<Rightarrow> converter_result" where
  "dispatch_converter_callback d env
     (SwapCallback transmuter axl_prev ntrn_prev slippage caller noble noble_denom) s =
     handle_swap_callback d env transmuter axl_prev ntrn_prev slippage caller noble noble_denom s"
| "dispatch_converter_callback d env
     (StakeCallback noble_prev ntrn slippage caller noble noble_denom) s =
     handle_stake_callback d env noble_prev ntrn slippage caller noble noble_denom s"

definition converter_handle_callback ::
  "('d) deps_scheme \<Rightarrow> env \<Rightarrow> message_info \<Rightarrow> converter_callback \<Rightarrow> converter_config option
     \<Rightarrow> converter_result" where
  "converter_handle_callback d env info cb s =
     (if sender info \<noteq> this_contract env
      then Err (GenericErr ''callbacks cannot be invoked externally'')
      else dispatch_converter_callback d env cb s)"

primrec converter_execute ::
  "('d) converter_deps_scheme \<Rightarrow> env \<Rightarrow> message_info \<Rightarrow> converter_execute_msg \<Rightarrow> converter_config option
     \<Rightarrow> converter_result" where
  "converter_execute d env info (ConverterReceive cw20_sender amount hook) s =
     converter_receive_cw20 d env info cw20_sender amount hook s"
| "converter_execute d env info (ConverterOwnCallback cb) s = converter_handle_callback d env info cb s"

subsection \<open>A conversion\<close>

lemma convert_start_Ok:
  assumes "converter_execute d env info (ConverterReceive who n hook) s = Ok (s', ms)"
  obtains cfg transmuter noble denom slippage lp ntrn axl where "s = Some cfg" "s' = s"
    "hook = ConvertAndStake transmuter noble denom slippage"
    "pool_liquidity_token d (axl_pool cfg) = Ok lp" "sender info = lp"
    "bank_balance d (this_contract env) ntrn_denom = Ok ntrn"
    "bank_balance d (this_contract env) (axl_usdc_denom cfg) = Ok axl"
    "ms = [WasmExecute lp (Plain (Cw20Send (axl_pool cfg) n WithdrawLiquidity)) [],
       converter_callback_msg env (SwapCallback transmuter axl ntrn slippage who noble denom)]"
  using assms
  by (cases hook)
    (auto simp: converter_receive_cw20_def execute_convert_and_stake_def converter_load_config_def)

text \<open>C39: Over its two callbacks a conversion swaps exactly the USDC.axl that the withdrawal brought in, and provides exactly the NTRN of the withdrawal and the USDC of the swap to the new pool, for the caller.\<close>
theorem conversion_forwards_exactly_what_it_got:
  assumes "converter_execute d0 env info (ConverterReceive who n hook) s = Ok (s1, [w, WasmExecute self (ConverterCallback cb1) []])"
    and "converter_execute d1 env own (ConverterOwnCallback cb1) s = Ok (s2, [x, WasmExecute self' (ConverterCallback cb2) []])"
    and "converter_execute d2 env own (ConverterOwnCallback cb2) s = Ok (s3, [y])"
  shows "\<exists>cfg transmuter noble denom slippage axl0 ntrn0 axl1 ntrn1 noble1 noble2 axl ntrn usdc.
    s = Some cfg \<and> hook = ConvertAndStake transmuter noble denom slippage \<and>
    bank_balance d0 (this_contract env) (axl_usdc_denom cfg) = Ok axl0 \<and>
    bank_balance d0 (this_contract env) ntrn_denom = Ok ntrn0 \<and>
    bank_balance d1 (this_contract env) (axl_usdc_denom cfg) = Ok axl1 \<and>
    bank_balance d1 (this_contract env) ntrn_denom = Ok ntrn1 \<and>
    bank_balance d1 (this_contract env) denom = Ok noble1 \<and>
    bank_balance d2 (this_contract env) denom = Ok noble2 \<and>
    unat axl1 = unat axl0 + unat axl \<and> unat ntrn1 = unat ntrn0 + unat ntrn \<and>
    unat noble2 = unat noble1 + unat usdc \<and>
    x = WasmExecute transmuter (Swap \<lparr>ainfo = NativeToken (axl_usdc_denom cfg), asset_amount = axl\<rparr>)
          [\<lparr>coin_denom = axl_usdc_denom cfg, coin_amount = axl\<rparr>] \<and>
    y = WasmExecute noble (Plain (ProvideLiquidity
          [native_asset ntrn_denom ntrn, native_asset denom usdc] (Some slippage) (Some True) (Some who)))
          [\<lparr>coin_denom = ntrn_denom, coin_amount = ntrn\<rparr>, \<lparr>coin_denom = denom, coin_amount = usdc\<rparr>]"
proof -
  obtain cfg transmuter noble denom slippage ntrn0 axl0 where s: "s = Some cfg"
    and hook: "hook = ConvertAndStake transmuter noble denom slippage"
    and b0: "bank_balance d0 (this_contract env) ntrn_denom = Ok ntrn0"
      "bank_balance d0 (this_contract env) (axl_usdc_denom cfg) = Ok axl0"
    and cb1: "cb1 = SwapCallback transmuter axl0 ntrn0 slippage who noble denom"
    by (rule convert_start_Ok [OF assms(1)]) (auto simp: converter_callback_msg_def intro: that)
  obtain ntrn1 axl1 noble1 ntrn axl where b1: "bank_balance d1 (this_contract env) ntrn_denom = Ok ntrn1"
      "bank_balance d1 (this_contract env) (axl_usdc_denom cfg) = Ok axl1"
      "bank_balance d1 (this_contract env) denom = Ok noble1"
    and got: "unat ntrn1 = unat ntrn0 + unat ntrn" "unat axl1 = unat axl0 + unat axl"
    and x: "x = WasmExecute transmuter (Swap \<lparr>ainfo = NativeToken (axl_usdc_denom cfg), asset_amount = axl\<rparr>)
          [\<lparr>coin_denom = axl_usdc_denom cfg, coin_amount = axl\<rparr>]"
    and cb2: "cb2 = StakeCallback noble1 ntrn slippage who noble denom"
    using assms(2) unfolding s cb1
    by (auto simp: converter_handle_callback_def handle_swap_callback_def converter_load_config_def
        converter_callback_msg_def split: if_split_asm)
  show ?thesis
    using assms(3) s hook b0 b1 got x unfolding cb2
    by (auto simp: converter_handle_callback_def handle_stake_callback_def native_asset_def split: if_split_asm)
qed

definition cv_deps :: "u128 \<Rightarrow> u128 \<Rightarrow> u128 \<Rightarrow> converter_deps" where
  "cv_deps ntrn axl noble = \<lparr>addr_validate = Ok,
     bank_balance = (\<lambda>a denom. Ok (if denom = ''untrn'' then ntrn else if denom = ''uaxl'' then axl else noble)),
     cw20_balance = (\<lambda>c a. Ok 0), pool_liquidity_token = (\<lambda>p. Ok ''axllp'')\<rparr>"

definition cv_env :: env where
  "cv_env = \<lparr>block_time = 1, block_height = 1, this_contract = ''converter''\<rparr>"

definition cv_call :: "addr \<Rightarrow> message_info" where
  "cv_call a = \<lparr>sender = a, funds = []\<rparr>"

definition cv_state :: "converter_config option" where
  "cv_state = Some \<lparr>axl_pool = ''axlpool'', axl_usdc_denom = ''uaxl''\<rparr>"

lemmas cv_defs = cv_deps_def cv_env_def cv_call_def cv_state_def converter_callback_msg_def
  converter_load_config_def ntrn_denom_def

lemma cv_step1:
  "converter_execute (cv_deps 5 6 7) cv_env (cv_call ''axllp'')
     (ConverterReceive ''alice'' 10 (ConvertAndStake ''transmuter'' ''noblepool'' ''unoble'' decimal_zero)) cv_state
   = Ok (cv_state, [WasmExecute ''axllp'' (Plain (Cw20Send ''axlpool'' 10 WithdrawLiquidity)) [],
       WasmExecute ''converter'' (ConverterCallback
         (SwapCallback ''transmuter'' 6 5 decimal_zero ''alice'' ''noblepool'' ''unoble'')) []])"
  by (simp add: converter_receive_cw20_def execute_convert_and_stake_def cv_defs)

lemma cv_step2:
  "converter_execute (cv_deps 105 56 7) cv_env (cv_call ''converter'')
     (ConverterOwnCallback (SwapCallback ''transmuter'' 6 5 decimal_zero ''alice'' ''noblepool'' ''unoble'')) cv_state
   = Ok (cv_state, [WasmExecute ''transmuter'' (Swap \<lparr>ainfo = NativeToken ''uaxl'', asset_amount = 50\<rparr>)
         [\<lparr>coin_denom = ''uaxl'', coin_amount = 50\<rparr>],
       WasmExecute ''converter'' (ConverterCallback
         (StakeCallback 7 100 decimal_zero ''alice'' ''noblepool'' ''unoble'')) []])"
  by (simp add: converter_handle_callback_def handle_swap_callback_def checked_sub_def cv_defs)

lemma cv_step3:
  "converter_execute (cv_deps 105 6 57) cv_env (cv_call ''converter'')
     (ConverterOwnCallback (StakeCallback 7 100 decimal_zero ''alice'' ''noblepool'' ''unoble'')) cv_state
   = Ok (cv_state, [WasmExecute ''noblepool'' (Plain (ProvideLiquidity
         [native_asset ''untrn'' 100, native_asset ''unoble'' 50] (Some decimal_zero) (Some True) (Some ''alice'')))
         [\<lparr>coin_denom = ''untrn'', coin_amount = 100\<rparr>, \<lparr>coin_denom = ''unoble'', coin_amount = 50\<rparr>]])"
  by (simp add: converter_handle_callback_def handle_stake_callback_def checked_sub_def native_asset_def cv_defs)

theorem conversion_forwards_exactly_what_it_got_witness:
  "\<exists>noble ntrn usdc denom slippage.
    (WasmExecute ''noblepool'' (Plain (ProvideLiquidity
         [native_asset ''untrn'' 100, native_asset ''unoble'' 50] (Some decimal_zero) (Some True) (Some ''alice'')))
         [\<lparr>coin_denom = ''untrn'', coin_amount = 100\<rparr>, \<lparr>coin_denom = ''unoble'', coin_amount = 50\<rparr>]
       :: converter_msg)
    = WasmExecute noble (Plain (ProvideLiquidity
          [native_asset ntrn_denom ntrn, native_asset denom usdc] (Some slippage) (Some True) (Some ''alice'')))
          [\<lparr>coin_denom = ntrn_denom, coin_amount = ntrn\<rparr>, \<lparr>coin_denom = denom, coin_amount = usdc\<rparr>]"
  using conversion_forwards_exactly_what_it_got [OF cv_step1 cv_step2 cv_step3] by blast

end
