(* ===== verification/Oracle.thy ===== *)
theory Oracle
  imports Assets
begin

text \<open>
  The time-weighted average price oracle, \<open>contracts/astroport/oracle\<close>. At most once per period
  anyone may update it: it reads the cumulative prices of a pair, which wrap around at \<open>2 ^ 128\<close>,
  and stores their increase since the last update divided by the time that has passed.

  Factory, coin registry, tokens and pair are other contracts; their answers are fields of
  \<open>oracle_deps\<close>. The value that was current at a height is an argument of \<open>twap_at_height\<close>.
\<close>

subsection \<open>Data\<close>

datatype oracle_error =
    OracleStd std_error
  | OracleUnauthorized
  | WrongPeriod
  | OracleMigrationError
  | AssetInfosNotSet
  | AssetInfosAlreadySet
  | PricesNotFound
  | InvalidToken

datatype pair_type = Xyk | Stable | Concentrated | Custom string

record pair_info =
  pair_asset_infos :: "asset_info list"
  pair_contract_addr :: addr
  pair_lp_token :: addr
  pair_kind :: pair_type

record oracle_config =
  oc_owner :: addr
  oc_factory :: addr
  oc_asset_infos :: "asset_info list option"
  oc_pair :: "pair_info option"
  oc_period :: u64
  oc_manager :: addr

record price_cumulative_last =
  cumulative_prices :: "(asset_info \<times> asset_info \<times> u128) list"
  average_prices :: "(asset_info \<times> asset_info \<times> decimal256) list"
  block_timestamp_last :: u64

record twap_oracle =
  o_config :: "oracle_config option"
  price_last :: "price_cumulative_last option"
  precisions :: "(string, u8) store"

definition oracle_empty :: twap_oracle where
  "oracle_empty = \<lparr>o_config = None, price_last = None, precisions = []\<rparr>"

datatype oracle_execute_msg =
    Update
  | UpdatePeriod u64
  | UpdateManager string
  | SetAssetInfos "asset_info list"

record oracle_deps = deps +
  factory_coin_registry :: "addr \<Rightarrow> (std_error, addr) result"
  coin_decimals :: "addr \<Rightarrow> string \<Rightarrow> (std_error, u8 option) result"
  cw20_decimals :: "addr \<Rightarrow> (std_error, u8) result"
  factory_pair :: "addr \<Rightarrow> asset_info list \<Rightarrow> (std_error, pair_info) result"
  pair_cumulative_prices :: "addr \<Rightarrow> (std_error, (asset_info \<times> asset_info \<times> u128) list) result"
  pair_simulation :: "addr \<Rightarrow> asset \<Rightarrow> asset_info option \<Rightarrow> (std_error, u128) result"

type_synonym oracle_result = "(oracle_error, twap_oracle \<times> msg list) result"

definition twap_precision :: nat where
  "twap_precision = 6"

subsection \<open>Configuration\<close>

definition oracle_instantiate ::
  "('d) deps_scheme \<Rightarrow> message_info \<Rightarrow> string \<Rightarrow> u64 \<Rightarrow> string \<Rightarrow> twap_oracle \<Rightarrow> oracle_result" where
  "oracle_instantiate d info factory period manager s =
     and_then (map_err OracleStd (addr_validate_to_lower d factory)) (\<lambda>factory.
     and_then (map_err OracleStd (addr_validate d manager)) (\<lambda>manager.
     Ok (s\<lparr>o_config := Some \<lparr>oc_owner = sender info, oc_factory = factory, oc_asset_infos = None,
            oc_pair = None, oc_period = period, oc_manager = manager\<rparr>\<rparr>, [])))"

definition oracle_load_config :: "twap_oracle \<Rightarrow> (oracle_error, oracle_config) result" where
  "oracle_load_config s = load_item (o_config s) (OracleStd (NotFound ''config''))"

definition update_period :: "message_info \<Rightarrow> u64 \<Rightarrow> twap_oracle \<Rightarrow> oracle_result" where
  "update_period info new_period s =
     and_then (oracle_load_config s) (\<lambda>cfg.
     if sender info \<noteq> oc_owner cfg then Err OracleUnauthorized
     else Ok (s\<lparr>o_config := Some (cfg\<lparr>oc_period := new_period\<rparr>)\<rparr>, []))"

definition update_manager ::
  "('d) deps_scheme \<Rightarrow> message_info \<Rightarrow> string \<Rightarrow> twap_oracle \<Rightarrow> oracle_result" where
  "update_manager d info new_manager s =
     and_then (oracle_load_config s) (\<lambda>cfg.
     if sender info \<noteq> oc_owner cfg then Err OracleUnauthorized
     else
     and_then (map_err OracleStd (addr_validate d new_manager)) (\<lambda>a.
     Ok (s\<lparr>o_config := Some (cfg\<lparr>oc_manager := a\<rparr>)\<rparr>, [])))"

definition query_token_precision ::
  "('d) oracle_deps_scheme \<Rightarrow> asset_info \<Rightarrow> addr \<Rightarrow> (std_error, u8) result" where
  "query_token_precision d ai factory =
     (case ai of
        NativeToken denom \<Rightarrow>
          and_then (factory_coin_registry d factory) (\<lambda>registry.
          and_then (coin_decimals d registry denom) (\<lambda>r.
          ok_or r (GenericErr ''The {denom} precision was not found'')))
      | Token c \<Rightarrow> cw20_decimals d c)"

definition store_precisions ::
  "('d) oracle_deps_scheme \<Rightarrow> addr \<Rightarrow> (string, u8) store \<Rightarrow> asset_info
     \<Rightarrow> (std_error, (string, u8) store) result" where
  "store_precisions d factory ps ai =
     and_then (query_token_precision d ai factory) (\<lambda>p. Ok (save (asset_info_string ai) p ps))"

definition get_precision :: "twap_oracle \<Rightarrow> asset_info \<Rightarrow> (std_error, u8) result" where
  "get_precision s ai = ok_or (may_load (precisions s) (asset_info_string ai)) (NotFound ''precisions'')"

definition set_asset_infos ::
  "('d) oracle_deps_scheme \<Rightarrow> message_info \<Rightarrow> asset_info list \<Rightarrow> twap_oracle \<Rightarrow> oracle_result" where
  "set_asset_infos d info asset_infos s =
     and_then (oracle_load_config s) (\<lambda>cfg.
     if sender info \<noteq> oc_manager cfg then Err OracleUnauthorized
     else if oc_asset_infos cfg \<noteq> None then Err AssetInfosAlreadySet
     else
     and_then (map_err OracleStd (try_fold (\<lambda>ps ai.
         and_then (asset_check d ai) (\<lambda>_. store_precisions d (oc_factory cfg) ps ai))
       (precisions s) asset_infos)) (\<lambda>ps.
     and_then (map_err OracleStd (factory_pair d (oc_factory cfg) asset_infos)) (\<lambda>pair.
     Ok (s\<lparr>precisions := ps,
           o_config := Some (cfg\<lparr>oc_asset_infos := Some asset_infos, oc_pair := Some pair\<rparr>)\<rparr>, []))))"

subsection \<open>The update\<close>

text \<open>The body of the inner loop: a last price and a new price of the same two assets.\<close>

definition push_average ::
  "u64 \<Rightarrow> asset_info \<times> asset_info \<times> u128 \<Rightarrow> (asset_info \<times> asset_info \<times> decimal256) list
     \<Rightarrow> asset_info \<times> asset_info \<times> u128
     \<Rightarrow> (oracle_error, (asset_info \<times> asset_info \<times> decimal256) list) result" where
  "push_average elapsed = (\<lambda>(asset1_last, asset2_last, last_price) acc (asset1, asset2, price).
     if asset_equal asset1 asset1_last \<and> asset_equal asset2 asset2_last then
       and_then (from_ratio256 (u256_of_u128 (price - last_price)) (of_nat (unat elapsed))) (\<lambda>average.
       Ok (acc @ [(asset1, asset2, average)]))
     else Ok acc)"

definition new_averages ::
  "u64 \<Rightarrow> (asset_info \<times> asset_info \<times> u128) list \<Rightarrow> (asset_info \<times> asset_info \<times> u128) list
     \<Rightarrow> (oracle_error, (asset_info \<times> asset_info \<times> decimal256) list) result" where
  "new_averages elapsed lasts prices =
     try_fold (\<lambda>acc l. try_fold (push_average elapsed l) acc prices) [] lasts"

definition oracle_update :: "('d) oracle_deps_scheme \<Rightarrow> env \<Rightarrow> twap_oracle \<Rightarrow> oracle_result" where
  "oracle_update d env s =
     and_then (oracle_load_config s) (\<lambda>cfg.
     and_then (ok_or (oc_pair cfg) AssetInfosNotSet) (\<lambda>pair.
     and_then (map_err OracleStd (pair_cumulative_prices d (pair_contract_addr pair))) (\<lambda>prices.
     and_then (case price_last s of
         Some pl \<Rightarrow>
           and_then (sub_panic (block_time env) (block_timestamp_last pl)) (\<lambda>elapsed.
           if elapsed < oc_period cfg then Err WrongPeriod
           else new_averages elapsed (cumulative_prices pl) prices)
       | None \<Rightarrow> Ok (map (\<lambda>(from, to', _). (from, to', Decimal256 0)) prices)) (\<lambda>averages.
     Ok (s\<lparr>price_last := Some \<lparr>cumulative_prices = prices, average_prices = averages,
            block_timestamp_last = block_time env\<rparr>\<rparr>, [])))))"

primrec oracle_execute ::
  "('d) oracle_deps_scheme \<Rightarrow> env \<Rightarrow> message_info \<Rightarrow> oracle_execute_msg \<Rightarrow> twap_oracle \<Rightarrow> oracle_result" where
  "oracle_execute d env info Update s = oracle_update d env s"
| "oracle_execute d env info (UpdatePeriod p) s = update_period info p s"
| "oracle_execute d env info (UpdateManager m) s = update_manager d info m s"
| "oracle_execute d env info (SetAssetInfos as) s = set_asset_infos d info as s"

subsection \<open>Queries\<close>

text \<open>\<open>10_u128.pow(p)\<close>.\<close>

definition pow10 :: "u8 \<Rightarrow> ('e, u128) result" where
  "pow10 p = ok_or_panic (narrow (10 ^ unat p))"

definition averages_of ::
  "asset_info \<Rightarrow> price_cumulative_last \<Rightarrow> (asset_info \<times> decimal256) list" where
  "averages_of token pl =
     map (\<lambda>(from, to', v). (to', v)) (filter (\<lambda>(from, to', v). asset_equal from token) (average_prices pl))"

definition consult_one ::
  "('d) oracle_deps_scheme \<Rightarrow> addr \<Rightarrow> asset_info \<Rightarrow> u128 \<Rightarrow> u128 \<Rightarrow> asset_info \<times> decimal256
     \<Rightarrow> (oracle_error, asset_info \<times> u256) result" where
  "consult_one d pair token one amount = (\<lambda>(ai, average).
     if atomics256 average = 0 then
       and_then (map_err OracleStd (pair_simulation d pair \<lparr>ainfo = token, asset_amount = one\<rparr> (Some ai)))
         (\<lambda>price.
       and_then (multiply_ratio (u256_of_u128 price) (unat amount) (unat one)) (\<lambda>n. Ok (ai, n)))
     else
       and_then (multiply_ratio (u256_of_u128 amount) (unat (atomics256 average)) DECIMAL_FRACTIONAL) (\<lambda>n.
       Ok (ai, n div 10 ^ twap_precision)))"

definition consult ::
  "('d) oracle_deps_scheme \<Rightarrow> asset_info \<Rightarrow> u128 \<Rightarrow> twap_oracle \<Rightarrow> (oracle_error, (asset_info \<times> u256) list) result" where
  "consult d token amount s =
     and_then (oracle_load_config s) (\<lambda>cfg.
     and_then (ok_or (oc_pair cfg) AssetInfosNotSet) (\<lambda>pair.
     and_then (ok_or (price_last s) PricesNotFound) (\<lambda>pl.
     if averages_of token pl = [] then Err InvalidToken
     else
     and_then (map_err OracleStd (get_precision s token)) (\<lambda>p.
     and_then (pow10 p) (\<lambda>one.
     try_map (consult_one d (pair_contract_addr pair) token one amount) (averages_of token pl))))))"

text \<open>\<open>Decimal256::from_integer(price).div(Decimal256::from(one.to_decimal()))\<close>.\<close>

definition spot_price256 :: "u128 \<Rightarrow> u128 \<Rightarrow> ('e, decimal256) result" where
  "spot_price256 price one =
     and_then (from_ratio256 (u256_of_u128 price) 1) (\<lambda>p.
     and_then (to_decimal one) (\<lambda>q.
     from_ratio256 (atomics256 p) (u256_of_u128 (atomics q))))"

definition twap_one ::
  "('d) oracle_deps_scheme \<Rightarrow> addr \<Rightarrow> asset_info \<Rightarrow> u128 \<Rightarrow> asset_info \<times> decimal256
     \<Rightarrow> (oracle_error, asset_info \<times> decimal256) result" where
  "twap_one d pair token one = (\<lambda>(ai, average).
     if atomics256 average = 0 then
       and_then (map_err OracleStd (pair_simulation d pair \<lparr>ainfo = token, asset_amount = one\<rparr> (Some ai)))
         (\<lambda>price. and_then (spot_price256 price one) (\<lambda>q. Ok (ai, q)))
     else Ok (ai, Decimal256 (atomics256 average div 10 ^ twap_precision)))"

definition twap_at_height ::
  "('d) oracle_deps_scheme \<Rightarrow> (u64 \<Rightarrow> (std_error, price_cumulative_last option) result)
     \<Rightarrow> asset_info \<Rightarrow> u64 \<Rightarrow> twap_oracle \<Rightarrow> (oracle_error, (asset_info \<times> decimal256) list) result" where
  "twap_at_height d price_at token height s =
     and_then (oracle_load_config s) (\<lambda>cfg.
     and_then (ok_or (oc_pair cfg) AssetInfosNotSet) (\<lambda>pair.
     and_then (map_err OracleStd (price_at height)) (\<lambda>pl.
     and_then (ok_or pl PricesNotFound) (\<lambda>pl.
     if averages_of token pl = [] then Err InvalidToken
     else
     and_then (map_err OracleStd (get_precision s token)) (\<lambda>p.
     and_then (pow10 p) (\<lambda>one.
     try_map (twap_one d (pair_contract_addr pair) token one) (averages_of token pl)))))))"

definition oracle_query_config :: "twap_oracle \<Rightarrow> (oracle_error, oracle_config) result" where
  "oracle_query_config s = oracle_load_config s"

definition query_last_update_ts :: "twap_oracle \<Rightarrow> (oracle_error, u64) result" where
  "query_last_update_ts s =
     (case price_last s of Some pl \<Rightarrow> Ok (block_timestamp_last pl) | None \<Rightarrow> Err PricesNotFound)"

end
