(* ===== verification/Oracle_Properties.thy ===== *)
theory Oracle_Properties
  imports Oracle
begin

text \<open>
  The oracle's averages are right even when a cumulative price has wrapped around once since the
  last update, and updates are at least a period apart.
\<close>

text \<open>The new cumulative price minus the old one, as words, is the true increase.\<close>

lemma wrapped_difference:
  fixes c0 c1 :: nat
  assumes "c0 \<le> c1" and "c1 - c0 < 2 ^ 128"
  shows "unat (of_nat c1 - of_nat c0 :: u128) = c1 - c0"
proof -
  have "(of_nat c1 - of_nat c0 :: u128) = of_nat (c1 - c0)"
    using assms(1) by (simp add: of_nat_diff)
  then show ?thesis using assms(2) by (simp add: unat_of_nat_small)
qed

lemma u256_of_u64: "unat (of_nat (unat (x :: u64)) :: u256) = unat x"
proof (rule unat_of_nat_small)
  have "unat x < 2 ^ 64" using unsigned_less [of x] by simp
  then show "unat x < 2 ^ LENGTH(256)" by simp
qed

lemma u256_ucast_u64 [simp]: "unat (ucast (x :: u64) :: u256) = unat x"
  using u256_of_u64 [of x] by simp

text \<open>Averages are only added; a matching pair of prices adds its average.\<close>

lemma push_average_mono:
  "push_average elapsed l acc p = Ok acc' \<Longrightarrow> set acc \<subseteq> set acc'"
  by (auto simp: push_average_def split: prod.splits if_split_asm)

lemma push_average_loop_mono:
  "try_fold (push_average elapsed l) acc ps = Ok acc' \<Longrightarrow> set acc \<subseteq> set acc'"
  by (induction ps arbitrary: acc) (auto dest!: push_average_mono)

lemma push_average_adds:
  assumes "push_average elapsed (a1, a2, l) acc (a1, a2, p) = Ok acc'"
  shows "elapsed \<noteq> 0 \<and>
    (\<exists>q. (a1, a2, q) \<in> set acc' \<and>
       unat (atomics256 q) = unat (p - l) * DECIMAL_FRACTIONAL div unat elapsed)"
proof -
  from assms obtain q where q: "from_ratio256 (u256_of_u128 (p - l)) (of_nat (unat elapsed)) =
      (Ok q :: (oracle_error, decimal256) result)"
    and acc': "acc' = acc @ [(a1, a2, q)]"
    by (auto simp: push_average_def asset_equal_iff)
  have "elapsed \<noteq> 0" using q by auto
  with q acc' show ?thesis by auto
qed

lemma push_average_loop_adds:
  assumes "try_fold (push_average elapsed (a1, a2, l)) acc ps = Ok acc'" and "(a1, a2, p) \<in> set ps"
  shows "elapsed \<noteq> 0 \<and>
    (\<exists>q. (a1, a2, q) \<in> set acc' \<and>
       unat (atomics256 q) = unat (p - l) * DECIMAL_FRACTIONAL div unat elapsed)"
  using assms
proof (induction ps arbitrary: acc)
  case (Cons x ps)
  from Cons.prems(1) obtain acc1 where one: "push_average elapsed (a1, a2, l) acc x = Ok acc1"
    and rest: "try_fold (push_average elapsed (a1, a2, l)) acc1 ps = Ok acc'"
    by auto
  show ?case
  proof (cases "x = (a1, a2, p)")
    case True
    then show ?thesis using push_average_adds [of elapsed a1 a2 l acc p acc1] one
        push_average_loop_mono [OF rest] by blast
  next
    case False
    then show ?thesis using Cons.IH [OF rest] Cons.prems(2) by simp
  qed
qed simp

lemma new_averages_adds:
  assumes "new_averages elapsed lasts prices = Ok averages"
    and "(a1, a2, l) \<in> set lasts" and "(a1, a2, p) \<in> set prices"
  shows "elapsed \<noteq> 0 \<and>
    (\<exists>q. (a1, a2, q) \<in> set averages \<and>
       unat (atomics256 q) = unat (p - l) * DECIMAL_FRACTIONAL div unat elapsed)"
proof -
  have mono: "set acc \<subseteq> set acc'"
    if "try_fold (\<lambda>acc l. try_fold (push_average elapsed l) acc prices) acc ls = Ok acc'" for acc acc' ls
    using that by (induction ls arbitrary: acc) (auto dest!: push_average_loop_mono)
  have "elapsed \<noteq> 0 \<and> (\<exists>q. (a1, a2, q) \<in> set averages \<and>
      unat (atomics256 q) = unat (p - l) * DECIMAL_FRACTIONAL div unat elapsed)"
    if "try_fold (\<lambda>acc l. try_fold (push_average elapsed l) acc prices) acc ls = Ok averages"
      and "(a1, a2, l) \<in> set ls" for acc ls
    using that
  proof (induction ls arbitrary: acc)
    case (Cons x ls)
    from Cons.prems(1) obtain acc1 where one: "try_fold (push_average elapsed x) acc prices = Ok acc1"
      and rest: "try_fold (\<lambda>acc l. try_fold (push_average elapsed l) acc prices) acc1 ls = Ok averages"
      by auto
    show ?case
    proof (cases "x = (a1, a2, l)")
      case True
      then show ?thesis
        using push_average_loop_adds [OF one [unfolded True] assms(3)] mono [OF rest] by blast
    next
      case False
      then show ?thesis using Cons.IH [OF rest] Cons.prems(2) by simp
    qed
  qed simp
  then show ?thesis using assms by (simp add: new_averages_def)
qed

text \<open>C40: The average that an update stores is the true increase of the cumulative price divided by the elapsed time, also when the 128-bit counter has wrapped around, and updates are at least a period apart.\<close>
theorem oracle_average_survives_wraparound:
  assumes "oracle_update d env s = Ok (s', ms)" and "price_last s = Some pl"
    and "o_config s = Some cfg" and "oc_pair cfg = Some pair"
    and "pair_cumulative_prices d (pair_contract_addr pair) = Ok prices"
    and "(a1, a2, of_nat c0) \<in> set (cumulative_prices pl)" and "(a1, a2, of_nat c1) \<in> set prices"
    and "c0 \<le> c1" and "c1 - c0 < 2 ^ 128"
  shows "\<exists>pl' q. price_last s' = Some pl' \<and> (a1, a2, q) \<in> set (average_prices pl') \<and>
    unat (atomics256 q) =
      (c1 - c0) * DECIMAL_FRACTIONAL div (unat (block_time env) - unat (block_timestamp_last pl)) \<and>
    unat (block_timestamp_last pl) + unat (oc_period cfg) \<le> unat (block_timestamp_last pl') \<and>
    block_timestamp_last pl < block_timestamp_last pl'"
proof -
  from assms(1-5) obtain elapsed averages where
    elapsed: "unat (block_time env) = unat elapsed + unat (block_timestamp_last pl)"
    and period: "oc_period cfg \<le> elapsed"
    and averages: "new_averages elapsed (cumulative_prices pl) prices = Ok averages"
    and s': "s' = s\<lparr>price_last := Some \<lparr>cumulative_prices = prices, average_prices = averages,
       block_timestamp_last = block_time env\<rparr>\<rparr>"
    by (auto simp: oracle_update_def oracle_load_config_def not_less)
  note q = new_averages_adds [OF averages assms(6,7)]
  have "unat elapsed \<noteq> 0" using q by (simp add: unat_eq_0)
  then show ?thesis
    using q elapsed period wrapped_difference [OF assms(8,9)]
    by (auto simp: s' word_le_nat_alt word_less_nat_alt)
qed

definition or_deps :: "u128 \<Rightarrow> oracle_deps" where
  "or_deps c = \<lparr>addr_validate = Ok, bank_balance = (\<lambda>a denom. Ok 0), cw20_balance = (\<lambda>c a. Ok 0),
     factory_coin_registry = (\<lambda>f. Ok ''registry''), coin_decimals = (\<lambda>r denom. Ok (Some 6)),
     cw20_decimals = (\<lambda>c. Ok 6), factory_pair = (\<lambda>f as. Err (NotFound ''pair'')),
     pair_cumulative_prices = (\<lambda>p. Ok [(NativeToken ''untrn'', NativeToken ''uusdc'', c)]),
     pair_simulation = (\<lambda>p a ask. Ok 1)\<rparr>"

definition or_config :: oracle_config where
  "or_config = \<lparr>oc_owner = ''dao'', oc_factory = ''factory'',
     oc_asset_infos = Some [NativeToken ''untrn'', NativeToken ''uusdc''],
     oc_pair = Some \<lparr>pair_asset_infos = [NativeToken ''untrn'', NativeToken ''uusdc''],
       pair_contract_addr = ''pair'', pair_lp_token = ''lp'', pair_kind = Xyk\<rparr>,
     oc_period = 60, oc_manager = ''manager''\<rparr>"

definition or_last :: price_cumulative_last where
  "or_last = \<lparr>cumulative_prices = [(NativeToken ''untrn'', NativeToken ''uusdc'', - 100)],
     average_prices = [], block_timestamp_last = 1000\<rparr>"

definition or_state :: twap_oracle where
  "or_state = \<lparr>o_config = Some or_config, price_last = Some or_last, precisions = []\<rparr>"

definition or_updated :: twap_oracle where
  "or_updated = or_state\<lparr>price_last := Some
     \<lparr>cumulative_prices = [(NativeToken ''untrn'', NativeToken ''uusdc'', 100)],
      average_prices = [(NativeToken ''untrn'', NativeToken ''uusdc'', Decimal256 2000000000000000000)],
      block_timestamp_last = 1100\<rparr>\<rparr>"

lemmas or_defs = or_deps_def or_config_def or_last_def or_state_def or_updated_def

lemma or_update:
  "oracle_update (or_deps 100) \<lparr>block_time = 1100, block_height = 7, this_contract = ''oracle''\<rparr> or_state
     = Ok (or_updated, [])"
  by (simp add: oracle_update_def oracle_load_config_def new_averages_def push_average_def or_defs
      eval_arith)

theorem oracle_average_survives_wraparound_witness:
  "\<exists>pl' q. price_last or_updated = Some pl' \<and>
    (NativeToken ''untrn'', NativeToken ''uusdc'', q) \<in> set (average_prices pl') \<and>
    unat (atomics256 q) = (200 :: nat) * DECIMAL_FRACTIONAL div 100"
proof -
  have pre: "price_last or_state = Some or_last" "o_config or_state = Some or_config"
    "oc_pair or_config = Some \<lparr>pair_asset_infos = [NativeToken ''untrn'', NativeToken ''uusdc''],
       pair_contract_addr = ''pair'', pair_lp_token = ''lp'', pair_kind = Xyk\<rparr>"
    "pair_cumulative_prices (or_deps 100) (pair_contract_addr
       \<lparr>pair_asset_infos = [NativeToken ''untrn'', NativeToken ''uusdc''],
        pair_contract_addr = ''pair'', pair_lp_token = ''lp'', pair_kind = Xyk\<rparr>)
     = Ok [(NativeToken ''untrn'', NativeToken ''uusdc'', 100)]"
    by (simp_all add: or_defs)
  have l: "(NativeToken ''untrn'', NativeToken ''uusdc'', of_nat (2 ^ 128 - 100)) \<in> set (cumulative_prices or_last)"
    by (simp add: or_last_def)
  have p: "(NativeToken ''untrn'', NativeToken ''uusdc'', of_nat (2 ^ 128 + 100))
      \<in> set [(NativeToken ''untrn'', NativeToken ''uusdc'', 100 :: u128)]"
    by simp
  have "(2 :: nat) ^ 128 - 100 \<le> 2 ^ 128 + 100" "2 ^ 128 + 100 - (2 ^ 128 - 100) < (2 :: nat) ^ 128" by simp_all
  from oracle_average_survives_wraparound [OF or_update pre l p this] show ?thesis
    by (auto simp: or_last_def)
qed

end
