(* ===== verification/Lockdrop_Pcl.thy ===== *)
theory Lockdrop_Pcl
  imports Lockdrop
begin

text \<open>
  The PCL lockdrop contract, \<open>contracts/lockdrop-pcl\<close>: it takes over the lockups of the lockdrop
  contract one by one. A lockup arrives as liquidity that the contract provides to the new pair; the
  LP tokens minted for it become the units of the new lockup. After the last one they are staked
  with the incentives contract, whose rewards users claim here; after a lockup's end they take the
  LP tokens back.

  State as in the lockdrop, with lockups of one format only. The enum \<open>PoolType\<close> and the struct
  \<open>UserInfo\<close> are declared anew in \<open>lockdrop_pcl.rs\<close> with the same constructors and fields, and so is
  \<open>LockupRewardsInfo\<close>; the model uses one type for both. The incentives contract is asked through
  the fields of \<open>pcl_deps\<close>.
\<close>

subsection \<open>Data\<close>

record pcl_config =
  pc_owner :: addr
  pc_xyk_lockdrop_contract :: addr
  pc_credits_contract :: addr
  pc_auction_contract :: addr
  pc_incentives :: addr
  pc_lockdrop_incentives :: u128
  pc_lockup_rewards_info :: "lockup_rewards_info list"

record pcl_pool =
  pp_lp_token :: addr
  pp_amount_in_lockups :: u128
  pp_incentives_share :: u128
  pp_weighted_amount :: u256
  incentives_rewards_per_share :: "(asset_info, decimal) restricted_vector"
  pp_is_staked :: bool

record pcl_lockup =
  pk_lp_units_locked :: u128
  pk_astroport_lp_transferred :: "u128 option"
  pk_withdrawal_flag :: bool
  pk_ntrn_rewards :: u128
  incentives_debt :: "(asset_info, u128) restricted_vector"
  pk_unlock_timestamp :: u64

record pcl_lockdrop =
  pl_config :: "pcl_config option"
  pl_state :: "u128 option"              \<comment> \<open>\<open>State\<close>: its one field \<open>total_incentives_share\<close>\<close>
  pl_pools :: "(pool_type, pcl_pool) store"
  pl_users :: "(addr, lockdrop_user_info) store"
  pl_lockups :: "(lockup_key, pcl_lockup) store"
  pl_totals :: "(pool_type \<times> addr, u128) store"
  pl_proposal :: "ownership_proposal option"

definition pcl_empty :: pcl_lockdrop where
  "pcl_empty = \<lparr>pl_config = None, pl_state = None, pl_pools = [], pl_users = [], pl_lockups = [],
     pl_totals = [], pl_proposal = None\<rparr>"

text \<open>\<open>RewardInfo\<close> of the incentives contract, as far as it is read: a reward of the protocol or of
  an external party, with the time of its next update.\<close>

datatype reward_type = IntReward asset_info | ExtReward asset_info u64

record pcl_deps = lockdrop_deps +
  inc_pending_rewards :: "addr \<Rightarrow> addr \<Rightarrow> addr \<Rightarrow> (std_error, asset list) result"
  inc_deposit :: "addr \<Rightarrow> addr \<Rightarrow> addr \<Rightarrow> (std_error, u128) result"
  inc_reward_info :: "addr \<Rightarrow> addr \<Rightarrow> (std_error, reward_type list) result"
  raw_inc_user_info_amount :: "addr \<Rightarrow> addr \<Rightarrow> addr \<Rightarrow> (std_error, u128 option) result"

record pcl_instantiate_msg =
  pi_owner :: "string option"
  pi_xyk_lockdrop_contract :: string
  pi_credits_contract :: string
  pi_auction_contract :: string
  pi_incentives :: string
  pi_lockup_rewards_info :: "lockup_rewards_info list"
  pi_usdc_token :: string
  pi_atom_token :: string
  pi_lockdrop_incentives :: u128
  pi_usdc_incentives_share :: u128
  pi_usdc_weighted_amount :: u256
  pi_atom_incentives_share :: u128
  pi_atom_weighted_amount :: u256

datatype pcl_execute_msg =
    PUpdateConfig "string option"                 \<comment> \<open>incentives\<close>
  | PClaimRewardsAndOptionallyUnlock pool_type u64 bool
  | PCallback pcl_callback
  | PProposeNewOwner string u64
  | PDropOwnershipProposal
  | PClaimOwnership
  | PMigrateXYKLiquidity pool_type string u64 lockdrop_user_info lockup_info bool

type_synonym pcl_result = "(std_error, pcl_lockdrop \<times> msg list) result"

subsection \<open>Loading\<close>

definition pcl_load_config :: "pcl_lockdrop \<Rightarrow> (std_error, pcl_config) result" where
  "pcl_load_config s = load_item (pl_config s) (NotFound ''config'')"

definition pcl_load_state :: "pcl_lockdrop \<Rightarrow> (std_error, u128) result" where
  "pcl_load_state s = load_item (pl_state s) (NotFound ''state'')"

definition pcl_load_pool :: "pcl_lockdrop \<Rightarrow> pool_type \<Rightarrow> (std_error, pcl_pool) result" where
  "pcl_load_pool s p = ok_or (may_load (pl_pools s) p) (NotFound ''pool'')"

definition pcl_load_lockup :: "pcl_lockdrop \<Rightarrow> lockup_key \<Rightarrow> (std_error, pcl_lockup) result" where
  "pcl_load_lockup s key = ok_or (may_load (pl_lockups s) key) (NotFound ''lockup_info'')"

definition pcl_load_user_or_default :: "pcl_lockdrop \<Rightarrow> addr \<Rightarrow> lockdrop_user_info" where
  "pcl_load_user_or_default s a = unwrap_or (may_load (pl_users s) a) user_info_default"

definition raw_incentives_deposit ::
  "('d) pcl_deps_scheme \<Rightarrow> addr \<Rightarrow> addr \<Rightarrow> addr \<Rightarrow> (std_error, u128) result" where
  "raw_incentives_deposit d incentives lp account =
     and_then (raw_inc_user_info_amount d incentives lp account) (\<lambda>res.
     case res of Some amount \<Rightarrow> Ok amount | None \<Rightarrow> Ok 0)"

definition pcl_raw_balance :: "('d) pcl_deps_scheme \<Rightarrow> addr \<Rightarrow> addr \<Rightarrow> (std_error, u128) result" where
  "pcl_raw_balance d token account =
     and_then (raw_cw20_balance d token account) (\<lambda>res.
     case res of Some amount \<Rightarrow> Ok amount | None \<Rightarrow> Ok 0)"

text \<open>All of a user's lockups: pools in key order, durations ascending.\<close>

definition pcl_lockup_durations :: "pcl_lockdrop \<Rightarrow> pool_type \<Rightarrow> addr \<Rightarrow> u64 list" where
  "pcl_lockup_durations s p a =
     map (\<lambda>((p', a', dur), _). dur) (filter (\<lambda>((p', a', dur), _). p' = p \<and> a' = a) (pl_lockups s))"

definition pcl_user_lockups :: "pcl_lockdrop \<Rightarrow> addr \<Rightarrow> (pool_type \<times> u64) list" where
  "pcl_user_lockups s a =
     concat (map (\<lambda>p. map (Pair p) (pcl_lockup_durations s p a)) (store_keys (pl_pools s)))"

subsection \<open>Instantiation and administration\<close>

definition new_pcl_pool :: "addr \<Rightarrow> u128 \<Rightarrow> u256 \<Rightarrow> pcl_pool" where
  "new_pcl_pool lp share weighted =
     \<lparr>pp_lp_token = lp, pp_amount_in_lockups = 0, pp_incentives_share = share,
      pp_weighted_amount = weighted, incentives_rewards_per_share = [], pp_is_staked = False\<rparr>"

definition pcl_instantiate ::
  "('d) deps_scheme \<Rightarrow> message_info \<Rightarrow> pcl_instantiate_msg \<Rightarrow> pcl_lockdrop \<Rightarrow> pcl_result" where
  "pcl_instantiate d info m s =
     (if pi_lockup_rewards_info m = []
      then Err (GenericErr ''Invalid lockup rewards info'')
      else if \<exists>lr \<in> set (pi_lockup_rewards_info m). lr_duration lr = 0
      then Err (GenericErr ''Invalid Lockup info rewards duration'')
      else
      and_then (map_ok (\<lambda>o'. unwrap_or o' (sender info)) (try_opt (addr_validate d) (pi_owner m))) (\<lambda>owner.
      and_then (addr_validate d (pi_xyk_lockdrop_contract m)) (\<lambda>xyk.
      and_then (addr_validate d (pi_credits_contract m)) (\<lambda>credits.
      and_then (addr_validate d (pi_auction_contract m)) (\<lambda>auction.
      and_then (addr_validate d (pi_incentives m)) (\<lambda>incentives.
      and_then (addr_validate d (pi_atom_token m)) (\<lambda>atom.
      and_then (addr_validate d (pi_usdc_token m)) (\<lambda>usdc.
      Ok (s\<lparr>pl_config := Some
              \<lparr>pc_owner = owner, pc_xyk_lockdrop_contract = xyk, pc_credits_contract = credits,
               pc_auction_contract = auction, pc_incentives = incentives,
               pc_lockdrop_incentives = pi_lockdrop_incentives m,
               pc_lockup_rewards_info = pi_lockup_rewards_info m\<rparr>,
            pl_pools :=
              save USDC (new_pcl_pool usdc (pi_usdc_incentives_share m) (pi_usdc_weighted_amount m))
                (save ATOM (new_pcl_pool atom (pi_atom_incentives_share m) (pi_atom_weighted_amount m))
                  (pl_pools s)),
            pl_state := Some 0\<rparr>, [])))))))))"

text \<open>The check of one pool before the incentives contract is replaced.\<close>

definition assert_not_staked ::
  "('d) pcl_deps_scheme \<Rightarrow> env \<Rightarrow> pcl_config \<Rightarrow> pcl_lockdrop \<Rightarrow> pool_type \<Rightarrow> (std_error, unit) result" where
  "assert_not_staked d env cfg s p =
     and_then (pcl_load_pool s p) (\<lambda>pool.
     and_then (inc_deposit d (pc_incentives cfg) (pp_lp_token pool) (this_contract env)) (\<lambda>staked.
     if staked \<noteq> 0
     then Err (GenericErr ''{:?} astro LP tokens already staked. Unstake them before updating incentives contract'')
     else Ok ()))"

definition pcl_handle_update_config ::
  "('d) pcl_deps_scheme \<Rightarrow> env \<Rightarrow> message_info \<Rightarrow> string option \<Rightarrow> pcl_lockdrop \<Rightarrow> pcl_result" where
  "pcl_handle_update_config d env info new_incentives s =
     and_then (pcl_load_config s) (\<lambda>cfg.
     if sender info \<noteq> pc_owner cfg then Err (GenericErr ''Unauthorized'')
     else
     and_then (case new_incentives of
         None \<Rightarrow> Ok cfg
       | Some incentives \<Rightarrow>
           and_then (try_fold (\<lambda>_ p. assert_not_staked d env cfg s p) () (store_keys (pl_pools s))) (\<lambda>_.
           and_then (addr_validate d incentives) (\<lambda>a. Ok (cfg\<lparr>pc_incentives := a\<rparr>)))) (\<lambda>cfg.
     Ok (s\<lparr>pl_config := Some cfg\<rparr>, [])))"

subsection \<open>Weights and incentives\<close>

definition pcl_calculate_weight :: "u128 \<Rightarrow> u64 \<Rightarrow> pcl_config \<Rightarrow> (std_error, u256) result" where
  "pcl_calculate_weight amount dur cfg =
     (case List.find (\<lambda>lr. lr_duration lr = dur) (pc_lockup_rewards_info cfg) of
        Some lr \<Rightarrow>
          and_then (dec256_add_panic decimal256_one (lr_coefficient lr)) (\<lambda>lock_weight.
          map_ok u256_of_u128 (checked_mul_uint256 lock_weight (u256_of_u128 amount)))
      | None \<Rightarrow> Err (GenericErr ''invalid duration''))"

definition pcl_calculate_astro_incentives ::
  "u256 \<Rightarrow> u256 \<Rightarrow> u128 \<Rightarrow> u128 \<Rightarrow> u128 \<Rightarrow> (std_error, u128) result" where
  "pcl_calculate_astro_incentives weighted total_weighted share total_share incentives =
     (if total_share = 0 \<or> total_weighted = 0 then Ok 0
      else
      and_then (checked_mul (u256_of_u128 share) weighted) (\<lambda>num.
      and_then (checked_mul (u256_of_u128 total_share) total_weighted) (\<lambda>den.
      and_then (from_ratio256 num den) (\<lambda>q.
      checked_mul_uint256 q (u256_of_u128 incentives)))))"

definition pcl_lockup_incentives ::
  "pcl_config \<Rightarrow> u128 \<Rightarrow> pcl_pool \<Rightarrow> u64 \<Rightarrow> pcl_lockup \<Rightarrow> (std_error, u128) result" where
  "pcl_lockup_incentives cfg total_share pool dur li =
     and_then (pcl_calculate_weight (pk_lp_units_locked li) dur cfg) (\<lambda>weighted.
     pcl_calculate_astro_incentives weighted (pp_weighted_amount pool) (pp_incentives_share pool)
       total_share (pc_lockdrop_incentives cfg))"

definition pcl_calc_lockup_reward ::
  "pcl_config \<Rightarrow> u128 \<Rightarrow> addr \<Rightarrow> pcl_lockdrop \<times> u128 \<Rightarrow> pool_type \<times> u64
     \<Rightarrow> (std_error, pcl_lockdrop \<times> u128) result" where
  "pcl_calc_lockup_reward cfg total_share a = (\<lambda>(s, acc) (p, dur).
     and_then (pcl_load_pool s p) (\<lambda>pool.
     and_then (pcl_load_lockup s (p, a, dur)) (\<lambda>li.
     and_then
       (if pk_ntrn_rewards li = 0 then
          and_then (pcl_lockup_incentives cfg total_share pool dur li) (\<lambda>r.
          let li = li\<lparr>pk_ntrn_rewards := r\<rparr> in
          Ok (s\<lparr>pl_lockups := save (p, a, dur) li (pl_lockups s)\<rparr>, li))
        else Ok (s, li)) (\<lambda>(s, li).
     and_then (checked_add acc (pk_ntrn_rewards li)) (\<lambda>acc.
     Ok (s, acc))))))"

definition pcl_update_user_lockup_positions ::
  "pcl_config \<Rightarrow> u128 \<Rightarrow> addr \<Rightarrow> pcl_lockdrop \<Rightarrow> (std_error, pcl_lockdrop \<times> u128) result" where
  "pcl_update_user_lockup_positions cfg total_share a s =
     try_fold (pcl_calc_lockup_reward cfg total_share a) (s, 0) (pcl_user_lockups s a)"

subsection \<open>A lockup arrives\<close>

definition from_xyk_user_info :: "lockdrop_user_info \<Rightarrow> lockdrop_user_info" where
  "from_xyk_user_info i =
     \<lparr>total_ntrn_rewards = total_ntrn_rewards i, ntrn_transferred = ntrn_transferred i,
      lockup_positions_index = lockup_positions_index i\<rparr>"

definition from_xyk_lockup_info :: "lockup_info \<Rightarrow> u128 \<Rightarrow> pcl_lockup" where
  "from_xyk_lockup_info i units =
     \<lparr>pk_lp_units_locked = units, pk_astroport_lp_transferred = None,
      pk_withdrawal_flag = withdrawal_flag i, pk_ntrn_rewards = ntrn_rewards i, incentives_debt = [],
      pk_unlock_timestamp = unlock_timestamp i\<rparr>"

definition pcl_callback_msg :: "env \<Rightarrow> pcl_callback \<Rightarrow> msg" where
  "pcl_callback_msg env cb = WasmExecute (this_contract env) (PclCallback cb) []"

definition pcl_handle_migrate_xyk_liquidity ::
  "('d) pcl_deps_scheme \<Rightarrow> env \<Rightarrow> message_info \<Rightarrow> pool_type \<Rightarrow> string \<Rightarrow> u64 \<Rightarrow> lockdrop_user_info
     \<Rightarrow> lockup_info \<Rightarrow> bool \<Rightarrow> pcl_lockdrop \<Rightarrow> pcl_result" where
  "pcl_handle_migrate_xyk_liquidity d env info p user_address_raw dur user li stake s =
     and_then (pcl_load_config s) (\<lambda>cfg.
     if sender info \<noteq> pc_xyk_lockdrop_contract cfg
     then Err (GenericErr ''only the XYK lockdrop contract is authorized to call the liquidity migration handler'')
     else if length (funds info) \<noteq> 2
     then Err (GenericErr ''exactly two assets are expected to be attached to the message'')
     else
     and_then (pcl_load_pool s p) (\<lambda>pool.
     and_then (cw20_minter d (pp_lp_token pool)) (\<lambda>astroport_pool.
     and_then (cw20_balance d (pp_lp_token pool) (this_contract env)) (\<lambda>lp_amount.
     and_then (addr_validate d user_address_raw) (\<lambda>a.
     Ok (s, [WasmExecute astroport_pool
               (ProvideLiquidity (map (\<lambda>f. native_asset (coin_denom f) (coin_amount f)) (funds info))
                 None (Some False) None) (funds info),
             pcl_callback_msg env
               (FinishLockupMigrationCallback p a dur (pp_lp_token pool) lp_amount user li stake)]))))))"

definition callback_finish_lockup_migration ::
  "('d) pcl_deps_scheme \<Rightarrow> env \<Rightarrow> pool_type \<Rightarrow> addr \<Rightarrow> u64 \<Rightarrow> string \<Rightarrow> u128 \<Rightarrow> lockdrop_user_info
     \<Rightarrow> lockup_info \<Rightarrow> bool \<Rightarrow> pcl_lockdrop \<Rightarrow> pcl_result" where
  "callback_finish_lockup_migration d env p a dur lp prev_amount user li stake s =
     and_then (cw20_balance d lp (this_contract env)) (\<lambda>amount.
     and_then (sub_panic amount prev_amount) (\<lambda>diff.
     let user = from_xyk_user_info user; li = from_xyk_lockup_info li diff in
     and_then (pcl_load_pool s p) (\<lambda>pool.
     and_then (pcl_load_config s) (\<lambda>cfg.
     and_then (pcl_calculate_weight diff dur cfg) (\<lambda>weight.
     and_then (checked_add (pp_weighted_amount pool) weight) (\<lambda>weighted.
     and_then (checked_add (pp_amount_in_lockups pool) diff) (\<lambda>in_lockups.
     let pool = pool\<lparr>pp_weighted_amount := weighted, pp_amount_in_lockups := in_lockups\<rparr> in
     and_then
       (case may_load (pl_totals s) (p, a) of
          Some la \<Rightarrow> checked_add la diff
        | None \<Rightarrow> Ok diff) (\<lambda>total'.
     Ok (s\<lparr>pl_lockups := save (p, a, dur) li (pl_lockups s),
           pl_totals := save (p, a) total' (pl_totals s),
           pl_pools := save p (if stake then pool\<lparr>pp_is_staked := True\<rparr> else pool) (pl_pools s),
           pl_users := save a user (pl_users s)\<rparr>,
         if stake
         then [WasmExecute lp (Cw20Send (pc_incentives cfg) amount IncentivesDeposit) []]
         else [])))))))))"

subsection \<open>Rewards of the incentives contract\<close>

text \<open>When rewards are pending: claim them, then book what arrived, with the balances from before
  the claim.\<close>

definition claim_incentives_rewards ::
  "('d) pcl_deps_scheme \<Rightarrow> env \<Rightarrow> pool_type \<Rightarrow> addr \<Rightarrow> addr \<Rightarrow> (std_error, msg list) result" where
  "claim_incentives_rewards d env p lp incentives =
     and_then (inc_pending_rewards d incentives lp (this_contract env)) (\<lambda>pending.
     if \<exists>asset \<in> set pending. asset_amount asset \<noteq> 0 then
       and_then (try_map (\<lambda>asset.
           and_then (balance_or_zero (query_pool d (ainfo asset) (this_contract env))) (\<lambda>b.
           Ok (with_balance (ainfo asset) b))) pending) (\<lambda>prev_balances.
       Ok [WasmExecute incentives (IncentivesClaimRewards [lp]) [],
           pcl_callback_msg env (PclUpdatePoolOnDualRewardsClaim p prev_balances)])
     else Ok [])"

definition pcl_handle_claim_rewards ::
  "('d) pcl_deps_scheme \<Rightarrow> env \<Rightarrow> message_info \<Rightarrow> pool_type \<Rightarrow> u64 \<Rightarrow> bool \<Rightarrow> pcl_lockdrop \<Rightarrow> pcl_result" where
  "pcl_handle_claim_rewards d env info p dur withdraw_lp_stake s =
     and_then (pcl_load_config s) (\<lambda>cfg.
     and_then (pcl_load_state s) (\<lambda>total_share.
     let a = sender info in
     and_then (pcl_load_pool s p) (\<lambda>pool.
     and_then (ok_or (may_load (pl_users s) a) (NotFound ''user_info'')) (\<lambda>user.
     and_then
       (if total_ntrn_rewards user = 0 then
          and_then (pcl_update_user_lockup_positions cfg total_share a s) (\<lambda>(s, r).
          Ok (s, user\<lparr>total_ntrn_rewards := r\<rparr>))
        else Ok (s, user)) (\<lambda>(s, user).
     let s = s\<lparr>pl_users := save a user (pl_users s)\<rparr> in
     and_then (pcl_load_lockup s (p, a, dur)) (\<lambda>li.
     if withdraw_lp_stake \<and> block_time env < pk_unlock_timestamp li
     then Err (GenericErr ''{} seconds to unlock'')
     else if pk_astroport_lp_transferred li \<noteq> None
     then Err (GenericErr ''Astro LP Tokens have already been claimed!'')
     else
     and_then
       (if pp_is_staked pool
        then claim_incentives_rewards d env p (pp_lp_token pool) (pc_incentives cfg)
        else Ok []) (\<lambda>ms.
     Ok (s, ms @ [pcl_callback_msg env
       (PclWithdrawUserLockupRewardsCallback p a dur withdraw_lp_stake)]))))))))"

definition pcl_claim_airdrop_tokens_with_multiplier_msg ::
  "('d) pcl_deps_scheme \<Rightarrow> addr \<Rightarrow> addr \<Rightarrow> u128 \<Rightarrow> (std_error, msg) result" where
  "pcl_claim_airdrop_tokens_with_multiplier_msg d credits_contract a lockdrop_rewards =
     and_then (credits_withdrawable d credits_contract a) (\<lambda>unvested.
     and_then (credits_vested d credits_contract a) (\<lambda>vested.
     and_then (to_decimal lockdrop_rewards) (\<lambda>rewards.
     and_then (dec_checked_mul rewards (Decimal (of_nat DECIMAL_FRACTIONAL))) (\<lambda>multiplied.
     and_then (checked_add (min vested (to_uint_floor multiplied)) unvested) (\<lambda>amount.
     Ok (WasmExecute credits_contract (Cw20BurnFrom a amount) []))))))"

definition pcl_update_pool_on_dual_rewards_claim ::
  "('d) pcl_deps_scheme \<Rightarrow> env \<Rightarrow> pool_type \<Rightarrow> asset list \<Rightarrow> pcl_lockdrop \<Rightarrow> pcl_result" where
  "pcl_update_pool_on_dual_rewards_claim d env p prev_balances s =
     and_then (pcl_load_config s) (\<lambda>cfg.
     and_then (pcl_load_pool s p) (\<lambda>pool.
     and_then (inc_deposit d (pc_incentives cfg) (pp_lp_token pool) (this_contract env)) (\<lambda>lp_balance.
     and_then (try_fold (\<lambda>per_share prev.
         and_then (query_pool d (ainfo prev) (this_contract env)) (\<lambda>current.
         and_then (checked_sub current (asset_amount prev)) (\<lambda>received.
         and_then (from_ratio received lp_balance) (\<lambda>ratio.
         map_ok fst (rv_update dec_checked_add per_share (ainfo prev) ratio)))))
       (incentives_rewards_per_share pool) prev_balances) (\<lambda>per_share.
     Ok (s\<lparr>pl_pools := save p (pool\<lparr>incentives_rewards_per_share := per_share\<rparr>) (pl_pools s)\<rparr>, [])))))"

subsection \<open>Paying out a lockup\<close>

definition pcl_lp_amount ::
  "('d) pcl_deps_scheme \<Rightarrow> env \<Rightarrow> pcl_config \<Rightarrow> pcl_pool \<Rightarrow> pcl_lockup \<Rightarrow> (std_error, u128) result" where
  "pcl_lp_amount d env cfg pool li =
     and_then
       (if pp_is_staked pool then inc_deposit d (pc_incentives cfg) (pp_lp_token pool) (this_contract env)
        else cw20_balance d (pp_lp_token pool) (this_contract env)) (\<lambda>balance.
     lp_share (pk_lp_units_locked li) balance (pp_amount_in_lockups pool))"

primrec reward_asset :: "reward_type \<Rightarrow> asset_info" where
  "reward_asset (IntReward ai) = ai"
| "reward_asset (ExtReward ai next_update) = ai"

text \<open>One reward of the pool: what it gives the lockup over its debt is pending, and is added to the
  debt. The loop state is the debts and the pending assets so far.\<close>

definition pending_reward_step ::
  "pcl_pool \<Rightarrow> u128 \<Rightarrow> (asset_info, u128) restricted_vector \<times> asset list \<Rightarrow> reward_type
     \<Rightarrow> (std_error, (asset_info, u128) restricted_vector \<times> asset list) result" where
  "pending_reward_step pool lp_amount = (\<lambda>(debts, acc) reward.
     let ai = reward_asset reward;
         per_share = unwrap_or (rv_load (incentives_rewards_per_share pool) ai) decimal_zero in
     if atomics per_share = 0 then Ok (debts, acc)
     else
     and_then (to_decimal lp_amount) (\<lambda>lp.
     and_then (dec_checked_mul per_share lp) (\<lambda>total'.
     and_then (checked_sub (to_uint_floor total') (unwrap_or (rv_load debts ai) 0)) (\<lambda>pending'.
     and_then (rv_update checked_add debts ai pending') (\<lambda>(debts, _).
     Ok (debts, if pending' \<noteq> 0 then acc @ [with_balance ai pending'] else acc))))))"

definition pending_incentives ::
  "pcl_pool \<Rightarrow> u128 \<Rightarrow> pcl_lockup \<Rightarrow> reward_type list
     \<Rightarrow> (std_error, (asset_info, u128) restricted_vector \<times> asset list) result" where
  "pending_incentives pool lp_amount li rewards =
     try_fold (pending_reward_step pool lp_amount) (incentives_debt li, []) rewards"

definition withdraw_incentives_rewards ::
  "('d) pcl_deps_scheme \<Rightarrow> pcl_config \<Rightarrow> pcl_pool \<Rightarrow> addr \<Rightarrow> lockdrop_user_info \<Rightarrow> bool \<Rightarrow> u128
     \<Rightarrow> pcl_lockup \<Rightarrow> (std_error, pcl_lockup \<times> msg list) result" where
  "withdraw_incentives_rewards d cfg pool a user withdraw_lp_stake lp_amount li =
     (if pp_is_staked pool then
        and_then (inc_reward_info d (pc_incentives cfg) (pp_lp_token pool)) (\<lambda>rewards.
        and_then (pending_incentives pool lp_amount li rewards) (\<lambda>(debts, pending').
        if \<not> withdraw_lp_stake \<and> ntrn_transferred user \<and> pending' = []
        then Err (GenericErr ''No rewards available to claim!'')
        else
        and_then (try_map (\<lambda>asset. into_msg asset a) pending') (\<lambda>reward_msgs.
        Ok (li\<lparr>incentives_debt := debts\<rparr>,
            reward_msgs @
            (if withdraw_lp_stake
             then [WasmExecute (pc_incentives cfg) (IncentivesWithdraw (pp_lp_token pool) lp_amount) []]
             else [])))))
      else Ok (li, []))"

definition pcl_release_lockup ::
  "lockup_key \<Rightarrow> pcl_pool \<Rightarrow> pcl_lockup \<Rightarrow> u128 \<Rightarrow> pcl_lockdrop \<Rightarrow> (std_error, pcl_lockdrop) result" where
  "pcl_release_lockup = (\<lambda>(p, a, dur) pool li lp_amount s.
     and_then (checked_sub (pp_amount_in_lockups pool) (pk_lp_units_locked li)) (\<lambda>in_lockups.
     and_then (sub_user_total p a (pk_lp_units_locked li) (pl_totals s)) (\<lambda>totals.
     Ok (s\<lparr>pl_pools := save p (pool\<lparr>pp_amount_in_lockups := in_lockups\<rparr>) (pl_pools s),
           pl_totals := totals,
           pl_lockups := save (p, a, dur)
             (li\<lparr>pk_astroport_lp_transferred := Some lp_amount\<rparr>) (pl_lockups s)\<rparr>))))"

definition pcl_one_time_rewards ::
  "('d) pcl_deps_scheme \<Rightarrow> pcl_config \<Rightarrow> addr \<Rightarrow> lockdrop_user_info \<Rightarrow> pcl_lockdrop \<Rightarrow> pcl_result" where
  "pcl_one_time_rewards d cfg a user s =
     (if ntrn_transferred user then Ok (s, [])
      else
      let claimable = total_ntrn_rewards user in
      and_then (cw20_balance d (pc_credits_contract cfg) a) (\<lambda>credits_balance.
      and_then
        (if 0 < credits_balance
         then map_ok (\<lambda>m. [m])
           (pcl_claim_airdrop_tokens_with_multiplier_msg d (pc_credits_contract cfg) a claimable)
         else Ok []) (\<lambda>airdrop.
      Ok (s\<lparr>pl_users := save a (user\<lparr>ntrn_transferred := True\<rparr>) (pl_users s)\<rparr>,
          (if 0 < claimable
           then [BankSend a [\<lparr>coin_denom = ntrn_denom, coin_amount = claimable\<rparr>]] else []) @ airdrop))))"

definition pcl_callback_withdraw_user_rewards ::
  "('d) pcl_deps_scheme \<Rightarrow> env \<Rightarrow> pool_type \<Rightarrow> addr \<Rightarrow> u64 \<Rightarrow> bool \<Rightarrow> pcl_lockdrop \<Rightarrow> pcl_result" where
  "pcl_callback_withdraw_user_rewards d env p a dur withdraw_lp_stake s =
     and_then (pcl_load_config s) (\<lambda>cfg.
     and_then (pcl_load_pool s p) (\<lambda>pool.
     and_then (pcl_load_lockup s (p, a, dur)) (\<lambda>li.
     let user = pcl_load_user_or_default s a in
     and_then (pcl_lp_amount d env cfg pool li) (\<lambda>lp_amount.
     and_then (withdraw_incentives_rewards d cfg pool a user withdraw_lp_stake lp_amount li) (\<lambda>(li, reward_msgs).
     and_then
       (if withdraw_lp_stake then
          and_then (pcl_release_lockup (p, a, dur) pool li lp_amount s) (\<lambda>s.
          Ok (s, [WasmExecute (pp_lp_token pool) (Cw20Transfer a lp_amount) []]))
        else Ok (s\<lparr>pl_lockups := save (p, a, dur) li (pl_lockups s)\<rparr>, [])) (\<lambda>(s, unlock_msgs).
     and_then (pcl_one_time_rewards d cfg a user s) (\<lambda>(s, one_time_msgs).
     Ok (s, reward_msgs @ unlock_msgs @ one_time_msgs))))))))"

subsection \<open>Queries\<close>

record pcl_lockup_response =
  pr_pool_type :: pool_type
  pr_lp_units_locked :: u128
  pr_withdrawal_flag :: bool
  pr_ntrn_rewards :: u128
  pr_duration :: u64
  pr_incentives_debt :: "(asset_info, u128) restricted_vector"
  claimable_incentives_debt :: "(asset_info, u128) restricted_vector"
  pr_unlock_timestamp :: u64
  pr_astroport_lp_units :: "u128 option"
  pr_astroport_lp_token :: addr
  pr_astroport_lp_transferred :: "u128 option"

text \<open>The lockup's part of what the incentives contract holds back now.\<close>

definition claimable_incentives_rewards ::
  "('d) pcl_deps_scheme \<Rightarrow> env \<Rightarrow> addr \<Rightarrow> pcl_pool \<Rightarrow> u128 \<Rightarrow> u128 \<Rightarrow> pcl_lockup
     \<Rightarrow> (std_error, (asset_info, u128) restricted_vector) result" where
  "claimable_incentives_rewards d env incentives pool pool_lp_units lockup_lp_units li =
     and_then (inc_pending_rewards d incentives (pp_lp_token pool) (this_contract env)) (\<lambda>pending.
     map_ok snd (try_fold (\<lambda>(per_shares, claimable) reward.
         and_then (from_ratio (asset_amount reward) pool_lp_units) (\<lambda>ratio.
         and_then (rv_update dec_checked_add per_shares (ainfo reward) ratio) (\<lambda>(per_shares, per_share).
         and_then (checked_mul_uint128 per_share lockup_lp_units) (\<lambda>total'.
         and_then (checked_sub total' (unwrap_or (rv_load (incentives_debt li) (ainfo reward)) 0)) (\<lambda>debt.
         and_then (rv_update checked_add claimable (ainfo reward) debt) (\<lambda>(claimable, _).
         Ok (per_shares, claimable))))))) (incentives_rewards_per_share pool, []) pending))"

definition pcl_query_lockup_info ::
  "('d) pcl_deps_scheme \<Rightarrow> env \<Rightarrow> string \<Rightarrow> pool_type \<Rightarrow> u64 \<Rightarrow> pcl_lockdrop
     \<Rightarrow> (std_error, pcl_lockup_response) result" where
  "pcl_query_lockup_info d env user_address p dur s =
     and_then (pcl_load_config s) (\<lambda>cfg.
     and_then (pcl_load_state s) (\<lambda>total_share.
     and_then (addr_validate d user_address) (\<lambda>a.
     and_then (pcl_load_pool s p) (\<lambda>pool.
     and_then (pcl_load_lockup s (p, a, dur)) (\<lambda>li.
     and_then
       (case pk_astroport_lp_transferred li of
          Some transferred \<Rightarrow> Ok (transferred, [])
        | None \<Rightarrow>
            and_then
              (if pp_is_staked pool
               then raw_incentives_deposit d (pc_incentives cfg) (pp_lp_token pool) (this_contract env)
               else pcl_raw_balance d (pp_lp_token pool) (this_contract env)) (\<lambda>pool_lp_units.
            and_then (lp_share (pk_lp_units_locked li) pool_lp_units (pp_amount_in_lockups pool)) (\<lambda>lockup_lp_units.
            if pp_is_staked pool \<and> lockup_lp_units \<noteq> 0 then
              map_ok (Pair lockup_lp_units)
                (claimable_incentives_rewards d env (pc_incentives cfg) pool pool_lp_units lockup_lp_units li)
            else Ok (lockup_lp_units, [])))) (\<lambda>(units, claimable).
     and_then
       (if pk_ntrn_rewards li = 0 then pcl_lockup_incentives cfg total_share pool dur li
        else Ok (pk_ntrn_rewards li)) (\<lambda>rewards.
     Ok \<lparr>pr_pool_type = p, pr_lp_units_locked = pk_lp_units_locked li,
         pr_withdrawal_flag = pk_withdrawal_flag li, pr_ntrn_rewards = rewards, pr_duration = dur,
         pr_incentives_debt = incentives_debt li, claimable_incentives_debt = claimable,
         pr_unlock_timestamp = pk_unlock_timestamp li, pr_astroport_lp_units = Some units,
         pr_astroport_lp_token = pp_lp_token pool,
         pr_astroport_lp_transferred = pk_astroport_lp_transferred li\<rparr>)))))))"

definition pcl_query_state :: "pcl_lockdrop \<Rightarrow> (std_error, u128 \<times> pool_type list) result" where
  "pcl_query_state s = and_then (pcl_load_state s) (\<lambda>share. Ok (share, store_keys (pl_pools s)))"

definition pcl_query_pool :: "pool_type \<Rightarrow> pcl_lockdrop \<Rightarrow> (std_error, pcl_pool) result" where
  "pcl_query_pool p s = pcl_load_pool s p"

record pcl_user_info_response =
  pu_total_ntrn_rewards :: u128
  pu_ntrn_transferred :: bool
  pu_lockup_infos :: "pcl_lockup_response list"
  pu_claimable_incentives_debt :: "(asset_info, u128) restricted_vector"
  pu_lockup_positions_index :: u32

definition pcl_query_user_info ::
  "('d) pcl_deps_scheme \<Rightarrow> env \<Rightarrow> string \<Rightarrow> pcl_lockdrop \<Rightarrow> (std_error, pcl_user_info_response) result" where
  "pcl_query_user_info d env user s =
     and_then (addr_validate d user) (\<lambda>a.
     and_then (try_fold (\<lambda>(rewards, claimable, infos) (p, dur).
         and_then (pcl_query_lockup_info d env user p dur s) (\<lambda>li.
         and_then (checked_add rewards (pr_ntrn_rewards li)) (\<lambda>rewards.
         and_then (try_fold (\<lambda>claimable (ai, n). map_ok fst (rv_update checked_add claimable ai n))
           claimable (claimable_incentives_debt li)) (\<lambda>claimable.
         Ok (rewards, claimable, infos @ [li]))))) (0, [], []) (pcl_user_lockups s a)) (\<lambda>(rewards, claimable, infos).
     Ok \<lparr>pu_total_ntrn_rewards = rewards,
         pu_ntrn_transferred = ntrn_transferred (pcl_load_user_or_default s a),
         pu_lockup_infos = infos, pu_claimable_incentives_debt = claimable,
         pu_lockup_positions_index = lockup_positions_index (pcl_load_user_or_default s a)\<rparr>))"

definition pcl_query_user_info_with_lockups_list ::
  "('d) deps_scheme \<Rightarrow> string \<Rightarrow> pcl_lockdrop
     \<Rightarrow> (std_error, lockdrop_user_info \<times> (pool_type \<times> u64) list) result" where
  "pcl_query_user_info_with_lockups_list d user s =
     and_then (addr_validate d user) (\<lambda>a. Ok (pcl_load_user_or_default s a, pcl_user_lockups s a))"

text \<open>The two queries at a height; the value logged at that height is the argument.\<close>

definition pcl_query_user_lockup_total_at_height ::
  "u128 option \<Rightarrow> (std_error, u128 option) result" where
  "pcl_query_user_lockup_total_at_height logged = Ok logged"

definition pcl_query_lockup_total_at_height :: "pcl_pool option \<Rightarrow> (std_error, u128 option) result" where
  "pcl_query_lockup_total_at_height logged =
     (case logged of Some pool \<Rightarrow> Ok (Some (pp_amount_in_lockups pool)) | None \<Rightarrow> Ok (Some 0))"

subsection \<open>The entry point\<close>

definition pcl_propose_new_owner ::
  "('d) deps_scheme \<Rightarrow> env \<Rightarrow> message_info \<Rightarrow> string \<Rightarrow> u64 \<Rightarrow> pcl_lockdrop \<Rightarrow> pcl_result" where
  "pcl_propose_new_owner d env info new_owner expires_in s =
     and_then (pcl_load_config s) (\<lambda>cfg.
     and_then (propose_new_owner d info env new_owner expires_in (pc_owner cfg)) (\<lambda>p.
     Ok (s\<lparr>pl_proposal := p\<rparr>, [])))"

definition pcl_drop_ownership_proposal :: "message_info \<Rightarrow> pcl_lockdrop \<Rightarrow> pcl_result" where
  "pcl_drop_ownership_proposal info s =
     and_then (pcl_load_config s) (\<lambda>cfg.
     and_then (drop_ownership_proposal info (pc_owner cfg)) (\<lambda>p.
     Ok (s\<lparr>pl_proposal := p\<rparr>, [])))"

definition pcl_claim_ownership :: "env \<Rightarrow> message_info \<Rightarrow> pcl_lockdrop \<Rightarrow> pcl_result" where
  "pcl_claim_ownership env info s =
     and_then (claim_ownership info env (pl_proposal s)) (\<lambda>(p, new_owner).
     and_then (pcl_load_config s) (\<lambda>cfg.
     Ok (s\<lparr>pl_proposal := p, pl_config := Some (cfg\<lparr>pc_owner := new_owner\<rparr>)\<rparr>, [])))"

primrec dispatch_pcl_callback ::
  "('d) pcl_deps_scheme \<Rightarrow> env \<Rightarrow> pcl_callback \<Rightarrow> pcl_lockdrop \<Rightarrow> pcl_result" where
  "dispatch_pcl_callback d env (PclUpdatePoolOnDualRewardsClaim p prevs) s =
     pcl_update_pool_on_dual_rewards_claim d env p prevs s"
| "dispatch_pcl_callback d env (PclWithdrawUserLockupRewardsCallback p a dur withdraw) s =
     pcl_callback_withdraw_user_rewards d env p a dur withdraw s"
| "dispatch_pcl_callback d env (FinishLockupMigrationCallback p a dur lp prev_amount user li stake) s =
     callback_finish_lockup_migration d env p a dur lp prev_amount user li stake s"

definition handle_pcl_callback ::
  "('d) pcl_deps_scheme \<Rightarrow> env \<Rightarrow> message_info \<Rightarrow> pcl_callback \<Rightarrow> pcl_lockdrop \<Rightarrow> pcl_result" where
  "handle_pcl_callback d env info m s =
     (if sender info \<noteq> this_contract env
      then Err (GenericErr ''callbacks cannot be invoked externally'')
      else dispatch_pcl_callback d env m s)"

primrec pcl_execute ::
  "('d) pcl_deps_scheme \<Rightarrow> env \<Rightarrow> message_info \<Rightarrow> pcl_execute_msg \<Rightarrow> pcl_lockdrop \<Rightarrow> pcl_result" where
  "pcl_execute d env info (PClaimRewardsAndOptionallyUnlock p dur withdraw) s =
     pcl_handle_claim_rewards d env info p dur withdraw s"
| "pcl_execute d env info (PCallback m) s = handle_pcl_callback d env info m s"
| "pcl_execute d env info (PProposeNewOwner new_owner expires_in) s =
     pcl_propose_new_owner d env info new_owner expires_in s"
| "pcl_execute d env info PDropOwnershipProposal s = pcl_drop_ownership_proposal info s"
| "pcl_execute d env info PClaimOwnership s = pcl_claim_ownership env info s"
| "pcl_execute d env info (PUpdateConfig incentives) s = pcl_handle_update_config d env info incentives s"
| "pcl_execute d env info (PMigrateXYKLiquidity p user dur ui li stake) s =
     pcl_handle_migrate_xyk_liquidity d env info p user dur ui li stake s"

subsection \<open>The interface\<close>

definition pcl_owner_of :: "pcl_lockdrop \<Rightarrow> addr" where
  "pcl_owner_of s = (case pl_config s of Some cfg \<Rightarrow> pc_owner cfg | None \<Rightarrow> [])"

interpretation pcl_ownable: ownable pcl_owner_of pl_proposal
  "\<lambda>env info n e s. map_ok fst (pcl_propose_new_owner d env info n e s)"
  "\<lambda>info s. map_ok fst (pcl_drop_ownership_proposal info s)"
  "\<lambda>env info s. map_ok fst (pcl_claim_ownership env info s)" for d :: "('d) deps_scheme"
  by unfold_locales
    (auto simp: pcl_propose_new_owner_def pcl_drop_ownership_proposal_def
      pcl_claim_ownership_def pcl_load_config_def pcl_owner_of_def
      propose_new_owner_Ok claim_ownership_Ok drop_ownership_proposal_def)

end
