(* ===== verification/Lockdrop_Pcl_Proofs.thy ===== *)
theory Lockdrop_Pcl_Proofs
  imports Lockdrop_Pcl Lockdrop_Proofs
begin

text \<open>
  Lemmas for the PCL lockdrop: what the reward loop makes of the debts, what a pay-out sends, and
  the books, sums over the lockups that are not paid out, with what a change of one lockup owes
  them.
\<close>

subsection \<open>Rewards\<close>

definition debt_of :: "(asset_info, u128) restricted_vector \<Rightarrow> asset_info \<Rightarrow> nat" where
  "debt_of debts ai = unat (unwrap_or (rv_load debts ai) 0)"

definition amount_of :: "asset list \<Rightarrow> asset_info \<Rightarrow> nat" where
  "amount_of as ai = sum_list (map (\<lambda>a. if ainfo a = ai then unat (asset_amount a) else 0) as)"

definition per_share :: "pcl_pool \<Rightarrow> asset_info \<Rightarrow> nat" where
  "per_share pool ai =
     unat (atomics (unwrap_or (rv_load (incentives_rewards_per_share pool) ai) decimal_zero))"

text \<open>What a lockup with \<open>n\<close> LP tokens has earned of a reward in total.\<close>

definition earned :: "pcl_pool \<Rightarrow> u128 \<Rightarrow> asset_info \<Rightarrow> nat" where
  "earned pool n ai = per_share pool ai * unat n div DECIMAL_FRACTIONAL"

lemma amount_of_simps [simp]:
  "amount_of [] ai = 0"
  "amount_of (as @ bs) ai = amount_of as ai + amount_of bs ai"
  "amount_of [with_balance bi n] ai = (if bi = ai then unat n else 0)"
  by (simp_all add: amount_of_def with_balance_def)

lemma debt_of_update:
  assumes "rv_update checked_add debts bi n = Ok (debts', r)"
  shows "debt_of debts' ai = debt_of debts ai + (if ai = bi then unat n else 0)"
  using rv_update_load [OF assms] rv_update_value [OF assms]
  by (auto simp: debt_of_def split: option.splits)

lemma rv_update_zero: "\<exists>ys r. rv_update checked_add xs k (0 :: u128) = Ok (ys, r)"
proof (induction xs)
  case (Cons x xs)
  obtain k' w where x: "x = (k', w)" by (cases x)
  have "(checked_add w 0 :: (std_error, u128) result) = Ok w" by simp
  then show ?case using Cons by (cases "k' = k") (auto simp: x simp del: checked_add_Ok_iff)
qed simp

text \<open>One reward: with a rate the debt becomes what is earned and the difference is pending.\<close>

lemma pending_reward_step_Ok:
  assumes "pending_reward_step pool n (debts, acc) r = Ok (debts', acc')"
  shows "amount_of acc' ai + debt_of debts ai = amount_of acc ai + debt_of debts' ai"
    and "debt_of debts' ai = (if ai = reward_asset r \<and> per_share pool ai \<noteq> 0 then earned pool n ai
      else debt_of debts ai)"
proof -
  let ?ai = "reward_asset r"
  have "(amount_of acc' ai + debt_of debts ai = amount_of acc ai + debt_of debts' ai) \<and>
    debt_of debts' ai = (if ai = ?ai \<and> per_share pool ai \<noteq> 0 then earned pool n ai else debt_of debts ai)"
  proof (cases "per_share pool ?ai = 0")
    case True
    then have "debts' = debts \<and> acc' = acc"
      using assms by (simp add: pending_reward_step_def per_share_def unat_eq_0)
    then show ?thesis using True by auto
  next
    case False
    from assms obtain lp t p r' where
      lp: "unat (atomics lp) = unat n * DECIMAL_FRACTIONAL" and
      t: "unat (atomics t) = per_share pool ?ai * unat (atomics lp) div DECIMAL_FRACTIONAL" and
      p: "unat (to_uint_floor t) = unat p + debt_of debts ?ai" and
      u: "rv_update checked_add debts ?ai p = Ok (debts', r')" and
      acc: "acc' = (if p \<noteq> 0 then acc @ [with_balance ?ai p] else acc)"
      using False
      by (auto simp: pending_reward_step_def per_share_def debt_of_def Let_def unat_eq_0)
    have e: "unat (to_uint_floor t) = earned pool n ?ai"
      using lp t by (simp add: earned_def mult.assoc [symmetric])
    show ?thesis using debt_of_update [OF u, of ai] p e acc False by auto
  qed
  then show "amount_of acc' ai + debt_of debts ai = amount_of acc ai + debt_of debts' ai"
    and "debt_of debts' ai = (if ai = ?ai \<and> per_share pool ai \<noteq> 0 then earned pool n ai
      else debt_of debts ai)" by simp_all
qed

lemma pending_rewards_Ok:
  assumes "try_fold (pending_reward_step pool n) (debts, acc) rs = Ok (debts', acc')"
  shows "amount_of acc' ai + debt_of debts ai = amount_of acc ai + debt_of debts' ai"
    and "debt_of debts' ai = (if ai \<in> reward_asset ` set rs \<and> per_share pool ai \<noteq> 0 then earned pool n ai
      else debt_of debts ai)"
proof -
  have "(amount_of acc' ai + debt_of debts ai = amount_of acc ai + debt_of debts' ai) \<and>
    debt_of debts' ai = (if ai \<in> reward_asset ` set rs \<and> per_share pool ai \<noteq> 0 then earned pool n ai
      else debt_of debts ai)"
    using assms
  proof (induction rs arbitrary: debts acc)
    case (Cons r rs)
    then obtain debts1 acc1 where 1: "pending_reward_step pool n (debts, acc) r = Ok (debts1, acc1)"
      and 2: "try_fold (pending_reward_step pool n) (debts1, acc1) rs = Ok (debts', acc')"
      by fastforce
    note step = pending_reward_step_Ok [OF 1, of ai]
    from Cons.IH [OF 2] step show ?case by (auto split: if_splits)
  qed simp
  then show "amount_of acc' ai + debt_of debts ai = amount_of acc ai + debt_of debts' ai"
    and "debt_of debts' ai = (if ai \<in> reward_asset ` set rs \<and> per_share pool ai \<noteq> 0 then earned pool n ai
      else debt_of debts ai)" by simp_all
qed

text \<open>A reward whose debt is what is earned leaves nothing pending.\<close>

lemma pending_reward_step_again:
  assumes "pending_reward_step pool n st r = Ok st'"
    and "per_share pool (reward_asset r) \<noteq> 0 \<Longrightarrow> debt_of debts (reward_asset r) = earned pool n (reward_asset r)"
  shows "\<exists>debts1. pending_reward_step pool n (debts, acc) r = Ok (debts1, acc)"
proof (cases "per_share pool (reward_asset r) = 0")
  case True
  then show ?thesis by (simp add: pending_reward_step_def per_share_def unat_eq_0)
next
  case False
  let ?ai = "reward_asset r"
  let ?rate = "unwrap_or (rv_load (incentives_rewards_per_share pool) ?ai) decimal_zero"
  obtain debts0 acc0 where st: "st = (debts0, acc0)" by (cases st)
  obtain lp t where lp: "(to_decimal n :: (std_error, decimal) result) = Ok lp"
    and t: "(dec_checked_mul ?rate lp :: (std_error, decimal) result) = Ok t"
    using assms(1) False
    by (auto simp: st pending_reward_step_def per_share_def Let_def unat_eq_0
        simp del: to_decimal_Ok_iff dec_checked_mul_Ok_iff)
  have "unat (to_uint_floor t) = earned pool n ?ai"
    using lp t by (simp add: earned_def per_share_def mult.assoc [symmetric])
  then have "unwrap_or (rv_load debts ?ai) 0 = to_uint_floor t"
    using assms(2) [OF False] by (simp add: debt_of_def word_unat_eq_iff)
  then have sub: "(checked_sub (to_uint_floor t) (unwrap_or (rv_load debts ?ai) 0) :: (std_error, u128) result) = Ok 0"
    by simp
  obtain ys y where "rv_update checked_add debts ?ai 0 = Ok (ys, y)" using rv_update_zero [of debts ?ai] by blast
  then show ?thesis
    using False lp t sub
    by (simp add: pending_reward_step_def per_share_def Let_def unat_eq_0
        del: to_decimal_Ok_iff dec_checked_mul_Ok_iff checked_sub_Ok_iff)
qed

lemma pending_rewards_again:
  assumes "try_fold (pending_reward_step pool n) st rs = Ok st'"
    and "\<And>ai. ai \<in> reward_asset ` set rs \<Longrightarrow> per_share pool ai \<noteq> 0 \<Longrightarrow> debt_of debts ai = earned pool n ai"
  shows "\<exists>debts1. try_fold (pending_reward_step pool n) (debts, acc) rs = Ok (debts1, acc)"
  using assms
proof (induction rs arbitrary: st debts)
  case (Cons r rs)
  then obtain st1 where 1: "pending_reward_step pool n st r = Ok st1"
    and 2: "try_fold (pending_reward_step pool n) st1 rs = Ok st'" by auto
  obtain debts1 where d: "pending_reward_step pool n (debts, acc) r = Ok (debts1, acc)"
    using pending_reward_step_again [OF 1, of debts acc] Cons.prems(2) by auto
  have "debt_of debts1 ai = earned pool n ai"
    if "ai \<in> reward_asset ` set rs" "per_share pool ai \<noteq> 0" for ai
    using pending_reward_step_Ok(2) [OF d, of ai] Cons.prems(2) [of ai] that by auto
  from Cons.IH [OF 2 this] d show ?case by simp
qed simp

subsection \<open>Paying out\<close>

lemma into_msg_paid_of:
  assumes "into_msg asset r = Ok m"
  shows "asset_paid ai [m] = (if ainfo asset = ai then unat (asset_amount asset) else 0)"
proof (cases "ainfo asset")
  case (Token c)
  then show ?thesis using assms by (cases ai) (auto simp: into_msg_cases asset_paid_def)
next
  case (NativeToken denom)
  then show ?thesis using assms by (cases ai) (auto simp: into_msg_cases asset_paid_def)
qed

lemma into_msgs_paid:
  "try_map (\<lambda>asset. into_msg asset r) assets = Ok ms \<Longrightarrow> asset_paid ai ms = amount_of assets ai"
proof (induction assets arbitrary: ms)
  case (Cons x xs)
  then obtain m ns where m: "into_msg x r = Ok m" and ns: "try_map (\<lambda>asset. into_msg asset r) xs = Ok ns"
    and ms: "ms = m # ns" by auto
  have "asset_paid ai ms = asset_paid ai [m] + asset_paid ai ns"
    using asset_paid_simps(2) [of ai "[m]" ns] ms by simp
  then show ?case using into_msg_paid_of [OF m, of ai] Cons.IH [OF ns] by (simp add: amount_of_def)
qed simp

lemma into_msgs_length: "try_map (\<lambda>asset. into_msg asset r) assets = Ok ms \<Longrightarrow> length ms = length assets"
  by (induction assets arbitrary: ms) auto

lemma pcl_withdraw_inversion:
  assumes "pcl_callback_withdraw_user_rewards d env p a dur w s = Ok (s', ms)"
  obtains cfg pool li n li' reward_ms s1 unlock_ms one_ms where
    "pl_config s = Some cfg" "map_of (pl_pools s) p = Some pool" "map_of (pl_lockups s) (p, a, dur) = Some li"
    "pcl_lp_amount d env cfg pool li = Ok n"
    "withdraw_incentives_rewards d cfg pool a (pcl_load_user_or_default s a) w n li = Ok (li', reward_ms)"
    "if w then pcl_release_lockup (p, a, dur) pool li' n s = Ok s1 \<and>
              unlock_ms = [WasmExecute (pp_lp_token pool) (Cw20Transfer a n) []]
     else s1 = s\<lparr>pl_lockups := save (p, a, dur) li' (pl_lockups s)\<rparr> \<and> unlock_ms = []"
    "pcl_one_time_rewards d cfg a (pcl_load_user_or_default s a) s1 = Ok (s', one_ms)"
    "ms = reward_ms @ unlock_ms @ one_ms"
  using assms
  unfolding pcl_callback_withdraw_user_rewards_def pcl_load_config_def pcl_load_pool_def pcl_load_lockup_def
  by (cases w; clarsimp simp: Let_def; rule that; (assumption | simp))

lemma withdraw_incentives_inversion:
  assumes "withdraw_incentives_rewards d cfg pool a user w n li = Ok (li', ms)" and "pp_is_staked pool"
  obtains rewards debts pending' reward_ms where
    "inc_reward_info d (pc_incentives cfg) (pp_lp_token pool) = Ok rewards"
    "pending_incentives pool n li rewards = Ok (debts, pending')"
    "w \<or> \<not> ntrn_transferred user \<or> pending' \<noteq> []"
    "try_map (\<lambda>asset. into_msg asset a) pending' = Ok reward_ms"
    "li' = li\<lparr>incentives_debt := debts\<rparr>"
    "ms = reward_ms @ (if w
       then [WasmExecute (pc_incentives cfg) (IncentivesWithdraw (pp_lp_token pool) n) []] else [])"
  using assms unfolding withdraw_incentives_rewards_def
  by (clarsimp split del: if_split)

subsection \<open>The books\<close>

definition pcl_live :: "pcl_lockup \<Rightarrow> nat" where
  "pcl_live li = (if pk_astroport_lp_transferred li = None then unat (pk_lp_units_locked li) else 0)"

type_synonym pcl_lockups = "(lockup_key, pcl_lockup) store"

definition pcl_pool_live :: "pool_type \<Rightarrow> pcl_lockups \<Rightarrow> nat" where
  "pcl_pool_live q l = store_sum (\<lambda>(p, a, dur) v. if p = q then pcl_live v else 0) l"

definition pcl_user_live :: "pool_type \<Rightarrow> addr \<Rightarrow> pcl_lockups \<Rightarrow> nat" where
  "pcl_user_live q b l = store_sum (\<lambda>(p, a, dur) v. if p = q \<and> a = b then pcl_live v else 0) l"

definition pcl_pool_amount :: "(pool_type, pcl_pool) store \<Rightarrow> pool_type \<Rightarrow> nat" where
  "pcl_pool_amount ps p = (case map_of ps p of Some pool \<Rightarrow> unat (pp_amount_in_lockups pool) | None \<Rightarrow> 0)"

definition pcl_live_at :: "pcl_lockups \<Rightarrow> lockup_key \<Rightarrow> nat" where
  "pcl_live_at l k = (case map_of l k of Some v \<Rightarrow> pcl_live v | None \<Rightarrow> 0)"

definition pcl_books :: "pcl_lockdrop \<Rightarrow> bool" where
  "pcl_books s \<longleftrightarrow> store_ok (pl_lockups s) \<and> store_ok (pl_pools s) \<and> store_ok (pl_totals s) \<and>
     (\<forall>p. pcl_pool_amount (pl_pools s) p = pcl_pool_live p (pl_lockups s)) \<and>
     (\<forall>p a. user_total (pl_totals s) p a = pcl_user_live p a (pl_lockups s))"

lemma pcl_pool_amount_save [simp]:
  "pcl_pool_amount (save p pool ps) q =
     (if q = p then unat (pp_amount_in_lockups pool) else pcl_pool_amount ps q)"
  by (simp add: pcl_pool_amount_def map_of_save)

lemma pcl_sums_save:
  assumes "store_ok l"
  shows "pcl_pool_live q (save (p, a, dur) v l) + (if p = q then pcl_live_at l (p, a, dur) else 0)
      = pcl_pool_live q l + (if p = q then pcl_live v else 0)"
    and "pcl_user_live q b (save (p, a, dur) v l) + (if p = q \<and> a = b then pcl_live_at l (p, a, dur) else 0)
      = pcl_user_live q b l + (if p = q \<and> a = b then pcl_live v else 0)"
proof -
  show "pcl_pool_live q (save (p, a, dur) v l) + (if p = q then pcl_live_at l (p, a, dur) else 0)
      = pcl_pool_live q l + (if p = q then pcl_live v else 0)"
    using cw.total_save [OF assms, of "\<lambda>(p, a, dur) v. if p = q then pcl_live v else 0" "(p, a, dur)" v]
    by (auto simp: pcl_pool_live_def pcl_live_at_def split: option.splits)
  show "pcl_user_live q b (save (p, a, dur) v l) + (if p = q \<and> a = b then pcl_live_at l (p, a, dur) else 0)
      = pcl_user_live q b l + (if p = q \<and> a = b then pcl_live v else 0)"
    using cw.total_save [OF assms, of "\<lambda>(p, a, dur) v. if p = q \<and> a = b then pcl_live v else 0" "(p, a, dur)" v]
    by (auto simp: pcl_user_live_def pcl_live_at_def split: option.splits)
qed

text \<open>What a handler owes the books when it saves one lockup.\<close>

lemma pcl_books_save:
  assumes "pcl_books s" and l: "pl_lockups s' = save (p, a, dur) v (pl_lockups s)"
    and "store_ok (pl_pools s')" "store_ok (pl_totals s')"
    and "pcl_pool_amount (pl_pools s') p + pcl_live_at (pl_lockups s) (p, a, dur)
      = pcl_pool_amount (pl_pools s) p + pcl_live v"
    and "\<And>q. q \<noteq> p \<Longrightarrow> pcl_pool_amount (pl_pools s') q = pcl_pool_amount (pl_pools s) q"
    and "user_total (pl_totals s') p a + pcl_live_at (pl_lockups s) (p, a, dur)
      = user_total (pl_totals s) p a + pcl_live v"
    and "\<And>q b. \<not> (q = p \<and> b = a) \<Longrightarrow> user_total (pl_totals s') q b = user_total (pl_totals s) q b"
  shows "pcl_books s'"
proof -
  have ok: "store_ok (pl_lockups s)" using assms(1) by (simp add: pcl_books_def)
  have 1: "pcl_pool_amount (pl_pools s') q = pcl_pool_live q (pl_lockups s')" for q
    using assms(1,5,6) pcl_sums_save(1) [OF ok, of q p a dur v] unfolding l pcl_books_def
    by (cases "q = p") auto
  have 2: "user_total (pl_totals s') q b = pcl_user_live q b (pl_lockups s')" for q b
    using assms(1,7,8) pcl_sums_save(2) [OF ok, of q b p a dur v] unfolding l pcl_books_def
    by (cases "q = p \<and> b = a") (auto split: if_splits)
  show ?thesis using 1 2 assms(3,4) ok unfolding pcl_books_def l by (simp add: store_ok_save)
qed

lemma pcl_books_same:
  assumes "pcl_books s" and "pl_lockups s' = pl_lockups s" and "pl_totals s' = pl_totals s"
    and "store_ok (pl_pools s')" and "\<And>p. pcl_pool_amount (pl_pools s') p = pcl_pool_amount (pl_pools s) p"
  shows "pcl_books s'"
  using assms by (simp add: pcl_books_def)

lemma pcl_live_at_le_user_total:
  assumes "pcl_books s" shows "pcl_live_at (pl_lockups s) (p, a, dur) \<le> user_total (pl_totals s) p a"
proof (cases "map_of (pl_lockups s) (p, a, dur)")
  case (Some v)
  have "pcl_live v \<le> pcl_user_live p a (pl_lockups s)"
    unfolding pcl_user_live_def
    using store_sum_ge [OF Some, of "\<lambda>(q, b, dur) v. if q = p \<and> b = a then pcl_live v else 0"] by simp
  then show ?thesis using assms Some by (simp add: pcl_books_def pcl_live_at_def)
qed (simp add: pcl_live_at_def)

text \<open>What the books, and the users, look at in a lockup.\<close>

definition pcl_view :: "pcl_lockdrop \<Rightarrow> lockup_key \<Rightarrow> (u128 \<times> u128 option \<times> u64) option" where
  "pcl_view s k = map_option (\<lambda>v. (pk_lp_units_locked v, pk_astroport_lp_transferred v, pk_unlock_timestamp v))
     (map_of (pl_lockups s) k)"

lemma pcl_touch_lockup:
  assumes b: "pcl_books s" and l: "map_of (pl_lockups s) (p, a, dur) = Some li"
    and "pk_lp_units_locked li' = pk_lp_units_locked li"
    and "pk_astroport_lp_transferred li' = pk_astroport_lp_transferred li"
    and "pk_unlock_timestamp li' = pk_unlock_timestamp li"
  shows "pcl_books (s\<lparr>pl_lockups := save (p, a, dur) li' (pl_lockups s)\<rparr>) \<and>
    pcl_view (s\<lparr>pl_lockups := save (p, a, dur) li' (pl_lockups s)\<rparr>) = pcl_view s"
proof -
  let ?s = "s\<lparr>pl_lockups := save (p, a, dur) li' (pl_lockups s)\<rparr>"
  have live: "pcl_live li' = pcl_live_at (pl_lockups s) (p, a, dur)"
    using l assms(3,4) by (simp add: pcl_live_at_def pcl_live_def)
  have "pcl_books ?s"
    by (rule pcl_books_save [OF b, of ?s p a dur li']) (use live b in \<open>simp_all add: pcl_books_def\<close>)
  moreover have "pcl_view ?s k = pcl_view s k" for k
    using l assms(3-5) by (auto simp: pcl_view_def map_of_save)
  ultimately show ?thesis by (simp add: fun_eq_iff)
qed

lemma pcl_release_Ok:
  "pcl_release_lockup (p, a, dur) pool li n s = Ok s' \<longleftrightarrow>
     (\<exists>in_lockups totals.
        unat (pp_amount_in_lockups pool) = unat in_lockups + unat (pk_lp_units_locked li) \<and>
        sub_user_total p a (pk_lp_units_locked li) (pl_totals s) = Ok totals \<and>
        s' = s\<lparr>pl_pools := save p (pool\<lparr>pp_amount_in_lockups := in_lockups\<rparr>) (pl_pools s),
               pl_totals := totals,
               pl_lockups := save (p, a, dur) (li\<lparr>pk_astroport_lp_transferred := Some n\<rparr>) (pl_lockups s)\<rparr>)"
  by (auto simp: pcl_release_lockup_def)

lemma pcl_books_release:
  assumes rel: "pcl_release_lockup (p, a, dur) pool li n s = Ok s'" and b: "pcl_books s"
    and pool: "map_of (pl_pools s) p = Some pool" and l: "map_of (pl_lockups s) (p, a, dur) = Some li0"
    and t: "pk_astroport_lp_transferred li0 = None" and u: "pk_lp_units_locked li = pk_lp_units_locked li0"
  shows "pcl_books s' \<and> pl_config s' = pl_config s \<and> pl_users s' = pl_users s \<and>
    pl_lockups s' = save (p, a, dur) (li\<lparr>pk_astroport_lp_transferred := Some n\<rparr>) (pl_lockups s)"
proof -
  from rel obtain in_lockups totals where
    il: "unat (pp_amount_in_lockups pool) = unat in_lockups + unat (pk_lp_units_locked li)" and
    t': "sub_user_total p a (pk_lp_units_locked li) (pl_totals s) = Ok totals" and
    s': "s' = s\<lparr>pl_pools := save p (pool\<lparr>pp_amount_in_lockups := in_lockups\<rparr>) (pl_pools s),
       pl_totals := totals,
       pl_lockups := save (p, a, dur) (li\<lparr>pk_astroport_lp_transferred := Some n\<rparr>) (pl_lockups s)\<rparr>"
    unfolding pcl_release_Ok by blast
  let ?v = "li\<lparr>pk_astroport_lp_transferred := Some n\<rparr>"
  have live: "pcl_live_at (pl_lockups s) (p, a, dur) = unat (pk_lp_units_locked li)" "pcl_live ?v = 0"
    using l t u by (simp_all add: pcl_live_at_def pcl_live_def)
  obtain m where m: "totals = save (p, a) m (pl_totals s)"
    and mm: "unat m + unat (pk_lp_units_locked li) = user_total (pl_totals s) p a"
    using t' pcl_live_at_le_user_total [OF b, of p a dur] live(1)
    by (auto simp: sub_user_total_Ok user_total_def unat_eq_0 split: option.splits)
  have pool': "pcl_pool_amount (pl_pools s) p = unat (pp_amount_in_lockups pool)"
    using pool by (simp add: pcl_pool_amount_def)
  have "pcl_books s'"
    by (rule pcl_books_save [OF b, of s' p a dur ?v])
      (use s' m mm il live pool' b in \<open>auto simp: store_simps pcl_books_def\<close>)
  then show ?thesis by (simp add: s')
qed

lemma withdraw_incentives_frame:
  assumes "withdraw_incentives_rewards d cfg pool a user w n li = Ok (li', ms)"
  shows "pk_lp_units_locked li' = pk_lp_units_locked li \<and>
    pk_astroport_lp_transferred li' = pk_astroport_lp_transferred li \<and>
    pk_unlock_timestamp li' = pk_unlock_timestamp li"
proof (cases "pp_is_staked pool")
  case True
  show ?thesis by (rule withdraw_incentives_inversion [OF assms True]) simp
qed (use assms in \<open>simp add: withdraw_incentives_rewards_def\<close>)

text \<open>What of the rewards is native money is booked on the lockup.\<close>

lemma withdraw_incentives_paid:
  assumes "withdraw_incentives_rewards d cfg pool a user w n li = Ok (li', ms)"
  shows "asset_paid (NativeToken denom) ms + debt_of (incentives_debt li) (NativeToken denom)
      = debt_of (incentives_debt li') (NativeToken denom)"
    and "WasmExecute c (Cw20BurnFrom b k) fs \<notin> set ms" and "WasmExecute c (PclCallback cb) fs \<notin> set ms"
proof -
  have no: "\<forall>m \<in> set ns. \<exists>c b k fs. m = WasmExecute c (Cw20Transfer b k) fs \<or> m = BankSend b fs"
    if "try_map (\<lambda>asset. into_msg asset a) as = Ok ns" for as ns
    using that
  proof (induction as arbitrary: ns)
    case (Cons x xs)
    then show ?case by (auto simp: into_msg_cases split: asset_info.splits)
  qed simp
  have "asset_paid (NativeToken denom) ms + debt_of (incentives_debt li) (NativeToken denom)
      = debt_of (incentives_debt li') (NativeToken denom) \<and>
    WasmExecute c (Cw20BurnFrom b k) fs \<notin> set ms \<and> WasmExecute c (PclCallback cb) fs \<notin> set ms"
  proof (cases "pp_is_staked pool")
    case True
    then show ?thesis
    proof (rule withdraw_incentives_inversion [OF assms], goal_cases)
      case (1 rewards debts pending' reward_ms)
      have "asset_paid (NativeToken denom) reward_ms + debt_of (incentives_debt li) (NativeToken denom)
          = debt_of debts (NativeToken denom)"
        using pending_rewards_Ok(1) [OF 1(2) [unfolded pending_incentives_def], of "NativeToken denom"]
          into_msgs_paid [OF 1(4), of "NativeToken denom"] by simp
      moreover have "asset_paid (NativeToken denom)
          (if w then [WasmExecute (pc_incentives cfg) (IncentivesWithdraw (pp_lp_token pool) n) []] else []) = 0"
        by (simp add: asset_paid_def)
      ultimately show ?case using 1(5,6) no [OF 1(4)] by auto
    qed
  qed (use assms in \<open>simp add: withdraw_incentives_rewards_def\<close>)
  then show "asset_paid (NativeToken denom) ms + debt_of (incentives_debt li) (NativeToken denom)
      = debt_of (incentives_debt li') (NativeToken denom)"
    "WasmExecute c (Cw20BurnFrom b k) fs \<notin> set ms" "WasmExecute c (PclCallback cb) fs \<notin> set ms" by simp_all
qed

end
