(* ===== verification/Lockdrop_Pcl_Runs.thy ===== *)
theory Lockdrop_Pcl_Runs
  imports Lockdrop_Pcl_Proofs
begin

text \<open>
  Transactions of the PCL lockdrop: a handler, and the callbacks that it sends to its own contract.
  What the steps keep, the effect of the two callbacks that change lockups, and the invariant: the
  books balance, and the incentives of every known user are paid.
\<close>

subsection \<open>Runs and transactions\<close>

text \<open>A run executes a queue of messages: the callbacks to the contract itself, and the messages to
  other contracts, which are collected. The answers of the other contracts may change from one
  callback to the next; what is assumed of them is that a validated address is the given text, and
  that they do not call the contract back within the transaction.\<close>

fun own_pcl_callback :: "env \<Rightarrow> msg \<Rightarrow> pcl_callback option" where
  "own_pcl_callback env (WasmExecute c (PclCallback cb) fs) = (if c = this_contract env then Some cb else None)"
| "own_pcl_callback env m = None"

inductive pcl_run :: "env \<Rightarrow> msg list \<Rightarrow> pcl_lockdrop \<Rightarrow> pcl_lockdrop \<Rightarrow> msg list \<Rightarrow> bool" for env where
  finished: "pcl_run env [] s s []"
| other: "own_pcl_callback env m = None \<Longrightarrow> pcl_run env q s t out \<Longrightarrow> pcl_run env (m # q) s t (m # out)"
| callback: "handle_pcl_callback (d :: pcl_deps) env info cb s = Ok (u, ms) \<Longrightarrow>
    pcl_run env (ms @ q) u t out \<Longrightarrow>
    pcl_run env (WasmExecute (this_contract env) (PclCallback cb) fs # q) s t out"

inductive_cases pcl_run_NilE [elim!]: "pcl_run env [] s t out"
inductive_cases pcl_run_ConsE: "pcl_run env (m # q) s t out"

lemma pcl_run_others:
  "list_all (\<lambda>m. own_pcl_callback env m = None) ms \<Longrightarrow>
   pcl_run env (ms @ q) s t out \<longleftrightarrow> (\<exists>out'. out = ms @ out' \<and> pcl_run env q s t out')"
proof (induction ms arbitrary: out)
  case (Cons m ms)
  show ?case
  proof
    assume "pcl_run env ((m # ms) @ q) s t out"
    then have "pcl_run env (m # ms @ q) s t out" by simp
    then show "\<exists>out'. out = (m # ms) @ out' \<and> pcl_run env q s t out'"
      by (rule pcl_run_ConsE) (use Cons in auto)
  qed (use Cons in \<open>auto intro!: pcl_run.other\<close>)
qed simp

lemma pcl_run_nothing [simp]: "pcl_run env [] s t out \<longleftrightarrow> t = s \<and> out = []"
  by (auto intro: pcl_run.finished)

text \<open>Callbacks call no callbacks.\<close>

lemma into_msgs_others:
  "try_map (\<lambda>asset. into_msg asset a) assets = Ok ms \<Longrightarrow> list_all (\<lambda>m. own_pcl_callback env m = None) ms"
  by (induction assets arbitrary: ms) (auto simp: into_msg_cases split: asset_info.splits)

lemma pcl_one_time_rewards_Ok:
  assumes "pcl_one_time_rewards d cfg a user s = Ok (s', ms)"
  shows "s' = (if ntrn_transferred user then s
      else s\<lparr>pl_users := save a (user\<lparr>ntrn_transferred := True\<rparr>) (pl_users s)\<rparr>)"
    and "ntrn_transferred user \<Longrightarrow> ms = []"
    and "list_all (\<lambda>m. own_pcl_callback env m = None) ms"
  using assms
  by (auto simp: pcl_one_time_rewards_def pcl_claim_airdrop_tokens_with_multiplier_msg_def Let_def split: if_splits)

lemma withdraw_incentives_others:
  assumes "withdraw_incentives_rewards d cfg pool a user w n li = Ok (li', ms)"
  shows "list_all (\<lambda>m. own_pcl_callback env m = None) ms"
proof (cases "pp_is_staked pool")
  case True
  show ?thesis
    by (rule withdraw_incentives_inversion [OF assms True]) (use into_msgs_others in auto)
qed (use assms in \<open>simp add: withdraw_incentives_rewards_def\<close>)

lemma dispatch_pcl_callback_others:
  assumes "dispatch_pcl_callback d env cb s = Ok (s', ms)"
  shows "list_all (\<lambda>m. own_pcl_callback env m = None) ms"
proof (cases cb)
  case (PclUpdatePoolOnDualRewardsClaim p prevs)
  then show ?thesis using assms by (auto simp: pcl_update_pool_on_dual_rewards_claim_def)
next
  case (PclWithdrawUserLockupRewardsCallback p a dur w)
  with assms have "pcl_callback_withdraw_user_rewards d env p a dur w s = Ok (s', ms)" by simp
  then show ?thesis
    by (rule pcl_withdraw_inversion)
      (use withdraw_incentives_others pcl_one_time_rewards_Ok(3) in \<open>auto split: if_splits\<close>)
next
  case (FinishLockupMigrationCallback p a dur lp n user li stake)
  then show ?thesis using assms by (auto simp: callback_finish_lockup_migration_def Let_def split: if_splits)
qed

lemma pcl_run_callback:
  "pcl_run env (pcl_callback_msg env cb # q) s t out \<longleftrightarrow>
   (\<exists>(d :: pcl_deps) u ms out'. dispatch_pcl_callback d env cb s = Ok (u, ms) \<and> out = ms @ out' \<and> pcl_run env q u t out')"
proof
  assume "pcl_run env (pcl_callback_msg env cb # q) s t out"
  then show "\<exists>(d :: pcl_deps) u ms out'. dispatch_pcl_callback d env cb s = Ok (u, ms) \<and> out = ms @ out' \<and> pcl_run env q u t out'"
    unfolding pcl_callback_msg_def
  proof (rule pcl_run_ConsE, goal_cases)
    case (2 d info cb' u ms fs)
    then have "dispatch_pcl_callback d env cb s = Ok (u, ms)" by (auto simp: handle_pcl_callback_def split: if_splits)
    moreover have "pcl_run env (ms @ q) u t out" using 2 by simp
    ultimately show ?case using pcl_run_others [OF dispatch_pcl_callback_others] by blast
  qed simp_all
next
  assume "\<exists>(d :: pcl_deps) u ms out'. dispatch_pcl_callback d env cb s = Ok (u, ms) \<and> out = ms @ out' \<and> pcl_run env q u t out'"
  then obtain d :: pcl_deps and u ms out' where c: "dispatch_pcl_callback d env cb s = Ok (u, ms)"
    and "out = ms @ out'" "pcl_run env q u t out'" by blast
  then have r: "pcl_run env (ms @ q) u t out" using pcl_run_others [OF dispatch_pcl_callback_others [OF c]] by blast
  have "handle_pcl_callback d env \<lparr>sender = this_contract env, funds = []\<rparr> cb s = Ok (u, ms)"
    using c by (simp add: handle_pcl_callback_def)
  then show "pcl_run env (pcl_callback_msg env cb # q) s t out"
    using r unfolding pcl_callback_msg_def by (rule pcl_run.callback)
qed


text \<open>A transaction. The contract that calls \<open>PMigrateXYKLiquidity\<close> is the lockdrop: it migrates a
  lockup once, and pays its user's incentives first.\<close>

definition pcl_deployed :: "pcl_execute_msg \<Rightarrow> pcl_lockdrop \<Rightarrow> bool" where
  "pcl_deployed m s = (case m of
       PMigrateXYKLiquidity p a dur user li stake \<Rightarrow>
         map_of (pl_lockups s) (p, a, dur) = None \<and> ntrn_transferred user
     | _ \<Rightarrow> True)"

inductive pcl_tx ::
  "env \<Rightarrow> message_info \<Rightarrow> pcl_execute_msg \<Rightarrow> pcl_lockdrop \<Rightarrow> pcl_lockdrop \<Rightarrow> msg list \<Rightarrow> bool" where
  "pcl_execute (d :: pcl_deps) env info m s = Ok (u, ms) \<Longrightarrow> addr_validate_identity d \<Longrightarrow>
   sender info \<noteq> this_contract env \<Longrightarrow> pcl_run env ms u t out \<Longrightarrow> pcl_tx env info m s t out"

inductive pcl_reachable :: "pcl_lockdrop \<Rightarrow> bool" where
  start: "pcl_instantiate (d :: pcl_deps) info m pcl_empty = Ok (s, ms) \<Longrightarrow> pcl_reachable s"
| tx: "pcl_reachable s \<Longrightarrow> pcl_tx env info m s s' out \<Longrightarrow> pcl_deployed m s \<Longrightarrow> pcl_reachable s'"

subsection \<open>What the steps keep\<close>

text \<open>A lockup without the cached amount of its incentives.\<close>

definition pcl_terms :: "pcl_lockdrop \<Rightarrow> lockup_key \<Rightarrow> pcl_lockup option" where
  "pcl_terms s k = map_option (\<lambda>v. v\<lparr>pk_ntrn_rewards := 0\<rparr>) (map_of (pl_lockups s) k)"

definition pcl_paid_users :: "pcl_lockdrop \<Rightarrow> addr \<Rightarrow> bool option" where
  "pcl_paid_users s a = map_option ntrn_transferred (map_of (pl_users s) a)"

text \<open>What of a native asset the lockups have been paid, by their debts.\<close>

definition pcl_native_debt :: "pcl_lockdrop \<Rightarrow> string \<Rightarrow> nat" where
  "pcl_native_debt s denom = store_sum (\<lambda>_ v. debt_of (incentives_debt v) (NativeToken denom)) (pl_lockups s)"

definition pcl_pools :: "pcl_lockdrop \<Rightarrow> pool_type set" where
  "pcl_pools s = dom (map_of (pl_pools s))"

definition pcl_keeps :: "pcl_lockdrop \<Rightarrow> pcl_lockdrop \<Rightarrow> bool" where
  "pcl_keeps s u \<longleftrightarrow> pl_config u = pl_config s \<and> pl_state u = pl_state s \<and> pcl_pools u = pcl_pools s \<and> pcl_terms u = pcl_terms s \<and>
     pcl_paid_users u = pcl_paid_users s \<and> (pcl_books s \<longrightarrow> pcl_books u \<and> pcl_native_debt u = pcl_native_debt s)"

lemma pcl_native_debt_save:
  assumes "pcl_books s" and "pl_lockups t = save k v (pl_lockups s)"
  shows "pcl_native_debt t denom + (case map_of (pl_lockups s) k of None \<Rightarrow> 0
      | Some w \<Rightarrow> debt_of (incentives_debt w) (NativeToken denom))
    = pcl_native_debt s denom + debt_of (incentives_debt v) (NativeToken denom)"
  using assms cw.total_save [of "pl_lockups s" "\<lambda>_ v. debt_of (incentives_debt v) (NativeToken denom)" k v]
  by (simp add: pcl_native_debt_def pcl_books_def)

lemma pcl_keeps_refl [simp]: "pcl_keeps s s"
  by (simp add: pcl_keeps_def)

lemma pcl_keeps_trans: "pcl_keeps s u \<Longrightarrow> pcl_keeps u t \<Longrightarrow> pcl_keeps s t"
  by (simp add: pcl_keeps_def)

lemma pcl_terms_lockup:
  assumes "pcl_terms s = pcl_terms s'" and "map_of (pl_lockups s) k = Some li"
  obtains li' where "map_of (pl_lockups s') k = Some li'"
    "pk_astroport_lp_transferred li' = pk_astroport_lp_transferred li"
    "incentives_debt li' = incentives_debt li" "pk_unlock_timestamp li' = pk_unlock_timestamp li"
    "pk_lp_units_locked li' = pk_lp_units_locked li"
proof -
  have "map_option (\<lambda>v. v\<lparr>pk_ntrn_rewards := 0\<rparr>) (map_of (pl_lockups s') k) = Some (li\<lparr>pk_ntrn_rewards := 0\<rparr>)"
    using fun_cong [OF assms(1), of k] assms(2) by (simp add: pcl_terms_def)
  then obtain li' where l: "map_of (pl_lockups s') k = Some li'" and e: "li'\<lparr>pk_ntrn_rewards := 0\<rparr> = li\<lparr>pk_ntrn_rewards := 0\<rparr>"
    by auto
  show thesis
    by (rule that [OF l])
      (use arg_cong [OF e, of pk_astroport_lp_transferred] arg_cong [OF e, of incentives_debt]
         arg_cong [OF e, of pk_unlock_timestamp] arg_cong [OF e, of pk_lp_units_locked] in simp_all)
qed

lemma pcl_calc_lockup_reward_keeps:
  assumes "pcl_calc_lockup_reward cfg share a (s, acc) k = Ok (s', acc')"
  shows "pcl_keeps s s' \<and> pl_users s' = pl_users s \<and> pl_pools s' = pl_pools s"
proof -
  obtain p dur where k: "k = (p, dur)" by (cases k)
  have "s' = s \<or> (\<exists>li r. map_of (pl_lockups s) (p, a, dur) = Some li \<and>
      s' = s\<lparr>pl_lockups := save (p, a, dur) (li\<lparr>pk_ntrn_rewards := r\<rparr>) (pl_lockups s)\<rparr>)"
    using assms
    by (auto simp: k pcl_calc_lockup_reward_def pcl_load_pool_def pcl_load_lockup_def Let_def split: if_splits)
  then show ?thesis
  proof (elim disjE exE conjE)
    fix li r
    assume l: "map_of (pl_lockups s) (p, a, dur) = Some li"
      and s': "s' = s\<lparr>pl_lockups := save (p, a, dur) (li\<lparr>pk_ntrn_rewards := r\<rparr>) (pl_lockups s)\<rparr>"
    have "pcl_native_debt s' denom = pcl_native_debt s denom" if "pcl_books s" for denom
      using pcl_native_debt_save [OF that, of s' "(p, a, dur)" "li\<lparr>pk_ntrn_rewards := r\<rparr>" denom] l s' by simp
    then show ?thesis
      using pcl_touch_lockup [OF _ l, of "li\<lparr>pk_ntrn_rewards := r\<rparr>"] l
      by (auto simp: pcl_keeps_def s' pcl_terms_def pcl_paid_users_def pcl_pools_def map_of_save fun_eq_iff)
  qed simp
qed

lemma pcl_update_positions_keeps:
  assumes "pcl_update_user_lockup_positions cfg share a s = Ok (s', r)"
  shows "pcl_keeps s s' \<and> pl_users s' = pl_users s \<and> pl_pools s' = pl_pools s"
proof -
  have "pcl_keeps s s' \<and> pl_users s' = pl_users s \<and> pl_pools s' = pl_pools s"
    if "try_fold (pcl_calc_lockup_reward cfg share a) (s, n) ks = Ok (s', r)" for ks n s
    using that
  proof (induction ks arbitrary: s n)
    case (Cons k ks)
    then obtain s1 n1 where 1: "pcl_calc_lockup_reward cfg share a (s, n) k = Ok (s1, n1)"
      and 2: "try_fold (pcl_calc_lockup_reward cfg share a) (s1, n1) ks = Ok (s', r)" by fastforce
    show ?case using pcl_calc_lockup_reward_keeps [OF 1] Cons.IH [OF 2] pcl_keeps_trans by auto
  qed simp
  then show ?thesis using assms by (simp add: pcl_update_user_lockup_positions_def)
qed

lemma pcl_update_pool_keeps:
  assumes "pcl_update_pool_on_dual_rewards_claim d env p prevs s = Ok (s', ms)"
  shows "pcl_keeps s s' \<and> ms = []"
proof -
  obtain pool per_share where pool: "map_of (pl_pools s) p = Some pool"
    and s': "s' = s\<lparr>pl_pools := save p (pool\<lparr>incentives_rewards_per_share := per_share\<rparr>) (pl_pools s)\<rparr>" "ms = []"
    using assms by (auto simp: pcl_update_pool_on_dual_rewards_claim_def pcl_load_pool_def)
  have "pcl_pool_amount (pl_pools s') q = pcl_pool_amount (pl_pools s) q" for q
    using pool by (simp add: s' pcl_pool_amount_def map_of_save)
  then show ?thesis
    using s' pool pcl_books_same [of s s'] store_ok_save
    by (auto simp: pcl_keeps_def pcl_terms_def pcl_paid_users_def pcl_books_def pcl_native_debt_def pcl_pools_def map_of_save)
qed

lemma pcl_handle_claim_Ok:
  assumes "pcl_handle_claim_rewards d env info p dur w s = Ok (u, ms)"
  obtains cfg pool li own where
    "pl_config u = Some cfg" "map_of (pl_pools u) p = Some pool"
    "map_of (pl_lockups u) (p, sender info, dur) = Some li"
    "pk_astroport_lp_transferred li = None" "w \<Longrightarrow> pk_unlock_timestamp li \<le> block_time env"
    "map_of (pl_users u) (sender info) \<noteq> None" "pcl_keeps s u"
    "(if pp_is_staked pool then claim_incentives_rewards d env p (pp_lp_token pool) (pc_incentives cfg)
      else Ok []) = Ok own"
    "ms = own @ [pcl_callback_msg env (PclWithdrawUserLockupRewardsCallback p (sender info) dur w)]"
proof -
  let ?a = "sender info"
  obtain cfg share pool user s1 user1 li own where
    cfg: "pl_config s = Some cfg" and pool: "map_of (pl_pools s) p = Some pool" and
    user: "map_of (pl_users s) ?a = Some user" and
    up: "(if total_ntrn_rewards user = 0 then
        and_then (pcl_update_user_lockup_positions cfg share ?a s) (\<lambda>(s, r). Ok (s, user\<lparr>total_ntrn_rewards := r\<rparr>))
      else Ok (s, user)) = Ok (s1, user1)" and
    li: "map_of (pl_lockups s1) (p, ?a, dur) = Some li" "pk_astroport_lp_transferred li = None"
      "w \<longrightarrow> pk_unlock_timestamp li \<le> block_time env" and
    own: "(if pp_is_staked pool then claim_incentives_rewards d env p (pp_lp_token pool) (pc_incentives cfg)
      else Ok []) = Ok own" and
    u: "u = s1\<lparr>pl_users := save ?a user1 (pl_users s1)\<rparr>"
      "ms = own @ [pcl_callback_msg env (PclWithdrawUserLockupRewardsCallback p ?a dur w)]"
    using assms
    unfolding pcl_handle_claim_rewards_def pcl_load_config_def pcl_load_state_def pcl_load_pool_def
        pcl_load_lockup_def
    by (clarsimp simp: Let_def not_less split del: if_split)
  have k: "pcl_keeps s s1 \<and> pl_users s1 = pl_users s \<and> pl_pools s1 = pl_pools s"
    and user1: "ntrn_transferred user1 = ntrn_transferred user"
    using up pcl_update_positions_keeps by (auto split: if_splits)
  show thesis
  proof (rule that [of cfg pool li own])
    show "pcl_keeps s u"
      using k user user1
      by (auto simp: u pcl_keeps_def pcl_terms_def pcl_paid_users_def pcl_pools_def pcl_books_def pcl_native_debt_def
          map_of_save fun_eq_iff)
    show "pl_config u = Some cfg" using k cfg by (simp add: u pcl_keeps_def)
  qed (use k li pool own in \<open>simp_all add: u map_of_save\<close>)
qed

lemma claim_incentives_Ok:
  assumes "claim_incentives_rewards d env p lp incentives = Ok own"
  shows "own = [] \<or> (\<exists>prevs. own = [WasmExecute incentives (IncentivesClaimRewards [lp]) [],
    pcl_callback_msg env (PclUpdatePoolOnDualRewardsClaim p prevs)])"
  using assms by (auto simp: claim_incentives_rewards_def split: if_splits)

text \<open>A claim ends with its pay-out, in a state that differs in the books of the rewards only.\<close>

lemma pcl_tx_claim:
  assumes "pcl_tx env info (PClaimRewardsAndOptionallyUnlock p dur w) s t out"
  obtains d :: pcl_deps and u li ms own where
    "pcl_keeps s u" "map_of (pl_users u) (sender info) \<noteq> None"
    "map_of (pl_lockups u) (p, sender info, dur) = Some li"
    "pk_astroport_lp_transferred li = None" "w \<Longrightarrow> pk_unlock_timestamp li \<le> block_time env"
    "pcl_callback_withdraw_user_rewards d env p (sender info) dur w u = Ok (t, ms)"
    "out = own @ ms" "own = [] \<or> (\<exists>i lp. own = [WasmExecute i (IncentivesClaimRewards [lp]) []])"
proof -
  from assms obtain d :: pcl_deps and s1 q where
    h: "pcl_handle_claim_rewards d env info p dur w s = Ok (s1, q)" and run: "pcl_run env q s1 t out"
    by (auto elim!: pcl_tx.cases)
  show thesis using h
  proof (rule pcl_handle_claim_Ok, goal_cases)
    case (1 cfg pool li own)
    let ?cb = "pcl_callback_msg env (PclWithdrawUserLockupRewardsCallback p (sender info) dur w)"
    have o: "own = [] \<or> (\<exists>prevs. own = [WasmExecute (pc_incentives cfg) (IncentivesClaimRewards [pp_lp_token pool]) [],
        pcl_callback_msg env (PclUpdatePoolOnDualRewardsClaim p prevs)])"
      using 1(8) claim_incentives_Ok [of d env p "pp_lp_token pool" "pc_incentives cfg" own]
      by (auto split: if_splits)
    have "\<exists>u own'. pcl_keeps s1 u \<and> pl_users u = pl_users s1 \<and> pl_lockups u = pl_lockups s1 \<and>
      (own' = [] \<or> (\<exists>i lp. own' = [WasmExecute i (IncentivesClaimRewards [lp]) []])) \<and>
      (\<exists>out'. out = own' @ out' \<and> pcl_run env [?cb] u t out')"
    proof (cases "own = []")
      case True
      then show ?thesis using run 1(9) by (intro exI [of _ s1] exI [of _ "[]"]) auto
    next
      case False
      let ?m = "WasmExecute (pc_incentives cfg) (IncentivesClaimRewards [pp_lp_token pool]) []"
      from False o obtain prevs where own: "own = [?m, pcl_callback_msg env (PclUpdatePoolOnDualRewardsClaim p prevs)]"
        by auto
      have "pcl_run env ([?m] @ pcl_callback_msg env (PclUpdatePoolOnDualRewardsClaim p prevs) # [?cb]) s1 t out"
        using run 1(9) own by simp
      then obtain out1 where o1: "out = [?m] @ out1"
        and r1: "pcl_run env (pcl_callback_msg env (PclUpdatePoolOnDualRewardsClaim p prevs) # [?cb]) s1 t out1"
        using pcl_run_others [of env "[?m]"] by auto
      obtain d' :: pcl_deps and u ms out2 where
        up: "pcl_update_pool_on_dual_rewards_claim d' env p prevs s1 = Ok (u, ms)"
        and o2: "out1 = ms @ out2" "pcl_run env [?cb] u t out2"
        using iffD1 [OF pcl_run_callback r1] by auto
      have f: "pl_users u = pl_users s1 \<and> pl_lockups u = pl_lockups s1"
        using up by (auto simp: pcl_update_pool_on_dual_rewards_claim_def)
      show ?thesis
        using pcl_update_pool_keeps [OF up] f o1 o2 by (intro exI [of _ u] exI [of _ "[?m]"]) auto
    qed
    then obtain u own' out' where u: "pcl_keeps s1 u" "pl_users u = pl_users s1" "pl_lockups u = pl_lockups s1"
      "own' = [] \<or> (\<exists>i lp. own' = [WasmExecute i (IncentivesClaimRewards [lp]) []])"
      "out = own' @ out'" "pcl_run env [?cb] u t out'" by blast
    obtain d' :: pcl_deps and ms where
      w: "pcl_callback_withdraw_user_rewards d' env p (sender info) dur w u = Ok (t, ms)" "out' = ms"
      using u(6) unfolding pcl_run_callback by auto
    show ?case
      by (rule that [of u li d' ms own'])
        (use u w 1(3-7) pcl_keeps_trans [OF 1(7) u(1)] in simp_all)
  qed
qed

text \<open>A migration ends with its last callback.\<close>

lemma pcl_tx_migrate:
  assumes "pcl_tx env info (PMigrateXYKLiquidity p a dur user li stake) s t out"
  obtains d :: pcl_deps and c ps lp n ms where
    "callback_finish_lockup_migration d env p a dur lp n user li stake s = Ok (t, ms)"
    "out = WasmExecute c (ProvideLiquidity ps None (Some False) None) (funds info) # ms"
proof -
  from assms obtain d :: pcl_deps and s1 q where
    h: "pcl_handle_migrate_xyk_liquidity d env info p a dur user li stake s = Ok (s1, q)"
    and d: "addr_validate_identity d" and run: "pcl_run env q s1 t out"
    by (auto elim!: pcl_tx.cases)
  from h obtain c ps lp n a' where s1: "s1 = s" and a': "addr_validate d a = Ok a'" and
    q': "q = [WasmExecute c (ProvideLiquidity ps None (Some False) None) (funds info)] @
      [pcl_callback_msg env (FinishLockupMigrationCallback p a' dur lp n user li stake)]"
    by (auto simp: pcl_handle_migrate_xyk_liquidity_def split: if_splits)
  have "a' = a" using a' d by (simp add: addr_validate_identity_def)
  note q = q' [unfolded this]
  obtain out1 where o1: "out = [WasmExecute c (ProvideLiquidity ps None (Some False) None) (funds info)] @ out1"
    and r: "pcl_run env [pcl_callback_msg env (FinishLockupMigrationCallback p a dur lp n user li stake)] s t out1"
    using run pcl_run_others [of env "[WasmExecute c (ProvideLiquidity ps None (Some False) None) (funds info)]"]
    unfolding q s1 by auto
  then show thesis using that unfolding pcl_run_callback by auto
qed

subsection \<open>The effect of the callbacks\<close>

lemma pcl_withdraw_effect:
  assumes "pcl_callback_withdraw_user_rewards d env p a dur w u = Ok (t, ms)"
    and l: "map_of (pl_lockups u) (p, a, dur) = Some li" and live: "pk_astroport_lp_transferred li = None"
  obtains li' where
    "pl_lockups t = save (p, a, dur) li' (pl_lockups u)"
    "pl_config t = pl_config u" "pl_state t = pl_state u" "pcl_pools u \<subseteq> pcl_pools t"
    "dom (map_of (pl_users u)) \<subseteq> dom (map_of (pl_users t))" "pcl_books u \<Longrightarrow> pcl_books t"
    "pk_lp_units_locked li' = pk_lp_units_locked li" "pk_unlock_timestamp li' = pk_unlock_timestamp li"
    "if w then \<exists>n lp. pk_astroport_lp_transferred li' = Some n \<and> WasmExecute lp (Cw20Transfer a n) [] \<in> set ms
     else pk_astroport_lp_transferred li' = None"
    "pcl_paid_users u a = Some True \<Longrightarrow> pl_users t = pl_users u \<and>
       (\<forall>denom. asset_paid (NativeToken denom) ms + debt_of (incentives_debt li) (NativeToken denom)
         = debt_of (incentives_debt li') (NativeToken denom)) \<and>
       (\<forall>c b k fs. WasmExecute c (Cw20BurnFrom b k) fs \<notin> set ms)"
  using assms(1)
proof (rule pcl_withdraw_inversion, goal_cases)
  case (1 cfg pool li0 n li1 reward_ms s1 unlock_ms one_ms)
  let ?k = "(p, a, dur)"
  define li' where "li' = (if w then li1\<lparr>pk_astroport_lp_transferred := Some n\<rparr> else li1)"
  have "li0 = li" using 1(4) l by simp
  note w = 1(6) [unfolded this]
  note f = withdraw_incentives_frame [OF w]
  have s1: "pl_lockups s1 = save ?k li' (pl_lockups u) \<and> pl_config s1 = pl_config u \<and> pl_users s1 = pl_users u \<and>
    pl_state s1 = pl_state u \<and> pcl_pools u \<subseteq> pcl_pools s1 \<and> (pcl_books u \<longrightarrow> pcl_books s1) \<and> (\<forall>denom. asset_paid (NativeToken denom) unlock_ms = 0) \<and>
    (\<forall>c b k fs. WasmExecute c (Cw20BurnFrom b k) fs \<notin> set unlock_ms)"
  proof (cases w)
    case True
    then have rel: "pcl_release_lockup ?k pool li1 n u = Ok s1" and "unlock_ms = [WasmExecute (pp_lp_token pool) (Cw20Transfer a n) []]"
      using 1(7) by simp_all
    then show ?thesis
      using pcl_books_release [OF rel _ 1(3) l live] f True by (auto simp: li'_def pcl_release_Ok asset_paid_def pcl_pools_def map_of_save)
  next
    case False
    then show ?thesis using 1(7) pcl_touch_lockup [OF _ l, of li1] f by (auto simp: li'_def asset_paid_def pcl_pools_def)
  qed
  note one = pcl_one_time_rewards_Ok [OF 1(8)]
  have t: "pl_lockups t = pl_lockups s1 \<and> pl_config t = pl_config s1 \<and> pl_state t = pl_state s1 \<and>
    pcl_pools t = pcl_pools s1 \<and> dom (map_of (pl_users s1)) \<subseteq> dom (map_of (pl_users t)) \<and> (pcl_books s1 \<longrightarrow> pcl_books t)"
    using one(1) by (auto simp: pcl_books_def pcl_pools_def map_of_save)
  show ?case
  proof (rule 1(1) [of li'], goal_cases)
    case 9
    show ?case using 1(7,9) f live by (auto simp: li'_def)
  next
    case 10
    then have flag: "ntrn_transferred (pcl_load_user_or_default u a)"
      by (auto simp: pcl_paid_users_def pcl_load_user_or_default_def)
    have d: "incentives_debt li' = incentives_debt li1" by (simp add: li'_def)
    show ?case
      using one(1) one(2) [OF flag] flag s1 withdraw_incentives_paid [OF w] 1(9) d by auto
  qed (use s1 t f in \<open>simp_all add: map_of_save li'_def\<close>)
qed

lemma pcl_finish_Ok:
  assumes "callback_finish_lockup_migration d env p a dur lp n user li stake s = Ok (t, ms)"
  obtains pool diff total' weighted in_lockups where
    "map_of (pl_pools s) p = Some pool"
    "unat in_lockups = unat (pp_amount_in_lockups pool) + unat diff"
    "unat total' = user_total (pl_totals s) p a + unat diff"
    "t = s\<lparr>pl_lockups := save (p, a, dur) (from_xyk_lockup_info li diff) (pl_lockups s),
       pl_totals := save (p, a) total' (pl_totals s),
       pl_pools := save p (let pool' = pool\<lparr>pp_weighted_amount := weighted, pp_amount_in_lockups := in_lockups\<rparr>
         in if stake then pool'\<lparr>pp_is_staked := True\<rparr> else pool') (pl_pools s),
       pl_users := save a (from_xyk_user_info user) (pl_users s)\<rparr>"
    "ms = [] \<or> (\<exists>c k. ms = [WasmExecute lp (Cw20Send c k IncentivesDeposit) []])"
proof -
  obtain diff pool weighted in_lockups total' where
    "map_of (pl_pools s) p = Some pool"
    "(checked_add (pp_amount_in_lockups pool) diff :: (std_error, u128) result) = Ok in_lockups"
    "(case map_of (pl_totals s) (p, a) of Some la \<Rightarrow> checked_add la diff | None \<Rightarrow> Ok diff)
      = (Ok total' :: (std_error, u128) result)"
    "t = s\<lparr>pl_lockups := save (p, a, dur) (from_xyk_lockup_info li diff) (pl_lockups s),
       pl_totals := save (p, a) total' (pl_totals s),
       pl_pools := save p (let pool' = pool\<lparr>pp_weighted_amount := weighted, pp_amount_in_lockups := in_lockups\<rparr>
         in if stake then pool'\<lparr>pp_is_staked := True\<rparr> else pool') (pl_pools s),
       pl_users := save a (from_xyk_user_info user) (pl_users s)\<rparr>"
    "ms = [] \<or> (\<exists>c k. ms = [WasmExecute lp (Cw20Send c k IncentivesDeposit) []])"
    using assms
    unfolding callback_finish_lockup_migration_def pcl_load_pool_def pcl_load_config_def
    by (clarsimp simp: Let_def split del: if_split simp del: checked_add_Ok_iff)
      (rule that, assumption, simp, assumption, simp add: Let_def split del: if_split, simp)
  then show thesis
    using that by (auto simp: user_total_def split: option.splits)
qed

lemma pcl_finish_books:
  assumes "callback_finish_lockup_migration d env p a dur lp n user li stake s = Ok (t, ms)"
    and b: "pcl_books s" and new: "map_of (pl_lockups s) (p, a, dur) = None"
  shows "pcl_books t"
  using assms(1)
proof (rule pcl_finish_Ok, goal_cases)
  case (1 pool diff total' weighted in_lockups)
  show ?case
    by (rule pcl_books_save [OF b, of t p a dur "from_xyk_lockup_info li diff"])
      (use 1 new b in \<open>auto simp: Let_def store_simps pcl_books_def pcl_live_at_def pcl_live_def
        from_xyk_lockup_info_def pcl_pool_amount_def user_total_def\<close>)
qed

text \<open>Administration touches neither lockups, pools, totals nor users.\<close>

definition pcl_administration :: "pcl_execute_msg \<Rightarrow> bool" where
  "pcl_administration m = (case m of
       PClaimRewardsAndOptionallyUnlock p dur w \<Rightarrow> False
     | PMigrateXYKLiquidity p a dur user li stake \<Rightarrow> False
     | _ \<Rightarrow> True)"

lemma pcl_message_cases [case_names claim migrate admin]:
  obtains p dur w where "m = PClaimRewardsAndOptionallyUnlock p dur w"
  | p a dur user li stake where "m = PMigrateXYKLiquidity p a dur user li stake"
  | "pcl_administration m"
  by (cases m) (auto simp: pcl_administration_def)

lemma pcl_tx_admin:
  assumes "pcl_tx env info m s t out" and "pcl_administration m"
  shows "out = [] \<and> pl_lockups t = pl_lockups s \<and> pl_pools t = pl_pools s \<and> pl_totals t = pl_totals s \<and>
    pl_users t = pl_users s"
proof -
  from assms(1) obtain d :: pcl_deps and u ms where
    h: "pcl_execute d env info m s = Ok (u, ms)" and "sender info \<noteq> this_contract env"
    and run: "pcl_run env ms u t out"
    by (auto elim!: pcl_tx.cases)
  then have "ms = [] \<and> pl_lockups u = pl_lockups s \<and> pl_pools u = pl_pools s \<and> pl_totals u = pl_totals s \<and>
    pl_users u = pl_users s"
    using assms(2)
    by (cases m) (auto simp: pcl_administration_def handle_pcl_callback_def pcl_propose_new_owner_def pcl_drop_ownership_proposal_def
        pcl_claim_ownership_def pcl_handle_update_config_def split: if_splits)
  then show ?thesis using run by auto
qed

text \<open>What the configuration keeps for good.\<close>

definition pcl_fixed :: "pcl_lockdrop \<Rightarrow> (addr \<times> lockup_rewards_info list) option" where
  "pcl_fixed s = map_option (\<lambda>cfg. (pc_xyk_lockdrop_contract cfg, pc_lockup_rewards_info cfg)) (pl_config s)"

lemma pcl_tx_fixed:
  assumes "pcl_tx env info m s t out"
  shows "pcl_fixed t = pcl_fixed s"
proof (cases m rule: pcl_message_cases)
  case (claim p dur w)
  show ?thesis using assms [unfolded claim]
  proof (rule pcl_tx_claim, goal_cases)
    case (1 d u li ms own)
    have "pl_config t = pl_config u" by (rule pcl_withdraw_effect [OF 1(6,3,4)])
    then show ?case using 1(1) by (simp add: pcl_keeps_def pcl_fixed_def)
  qed
next
  case (migrate p a dur user i stake)
  show ?thesis using assms [unfolded migrate]
  proof (rule pcl_tx_migrate, goal_cases)
    case (1 d c ps lp n ms)
    show ?case by (rule pcl_finish_Ok [OF 1(1)]) (simp add: pcl_fixed_def)
  qed
next
  case admin
  from assms obtain d :: pcl_deps and u ms where h: "pcl_execute d env info m s = Ok (u, ms)"
    and "sender info \<noteq> this_contract env" and run: "pcl_run env ms u t out"
    by (auto elim!: pcl_tx.cases)
  then have "ms = [] \<and> pcl_fixed u = pcl_fixed s"
    using admin
    by (cases m) (auto simp: pcl_administration_def handle_pcl_callback_def pcl_propose_new_owner_def
        pcl_drop_ownership_proposal_def pcl_claim_ownership_def pcl_handle_update_config_def pcl_load_config_def
        pcl_fixed_def split: if_splits option.splits)
  then show ?thesis using run by simp
qed

subsection \<open>Well-formed storage\<close>

text \<open>The items and both pools are there, a lockup has a known user and a duration with a reward.\<close>

definition pcl_wf :: "pcl_lockdrop \<Rightarrow> bool" where
  "pcl_wf s \<longleftrightarrow> pl_state s = Some 0 \<and> pcl_pools s = UNIV \<and>
     (\<exists>x rewards. pcl_fixed s = Some (x, rewards) \<and> (\<forall>lr \<in> set rewards. lr_duration lr \<noteq> 0) \<and>
       (\<forall>p a dur. pcl_terms s (p, a, dur) \<noteq> None \<longrightarrow>
         pcl_paid_users s a \<noteq> None \<and> dur \<in> lr_duration ` set rewards))"

lemma pcl_finish_duration:
  assumes "callback_finish_lockup_migration d env p a dur lp n user li stake s = Ok (t, ms)"
    and "pcl_fixed s = Some (x, rewards)"
  shows "dur \<in> lr_duration ` set rewards"
proof -
  obtain cfg amount weight where "pl_config s = Some cfg" and w: "pcl_calculate_weight amount dur cfg = Ok weight"
    using assms(1) by (auto simp: callback_finish_lockup_migration_def pcl_load_config_def Let_def)
  then obtain lr where "List.find (\<lambda>lr. lr_duration lr = dur) rewards = Some lr"
    using assms(2) by (auto simp: pcl_calculate_weight_def pcl_fixed_def split: option.splits)
  then show ?thesis by (auto simp: find_Some_iff)
qed

lemma pcl_tx_wf:
  assumes tx: "pcl_tx env info m s t out" and wf: "pcl_wf s"
  shows "pcl_wf t"
proof (cases m rule: pcl_message_cases)
  case (claim p dur w)
  show ?thesis using tx [unfolded claim]
  proof (rule pcl_tx_claim, goal_cases)
    case (1 d u li ms own)
    have u: "pl_state u = pl_state s" "pcl_pools u = pcl_pools s" "pcl_terms u = pcl_terms s"
      "pcl_paid_users u = pcl_paid_users s" using 1(1) by (simp_all add: pcl_keeps_def)
    note f = pcl_tx_fixed [OF tx]
    show ?case using 1(6,3,4)
    proof (rule pcl_withdraw_effect, goal_cases)
      case (1 li')
      have users: "pcl_paid_users t a \<noteq> None" if "pcl_paid_users u a \<noteq> None" for a
        using that 1(5) by (auto simp: pcl_paid_users_def dom_def)
      have keys: "pcl_terms u k \<noteq> None" if "pcl_terms t k \<noteq> None" for k
        using that 1(1) \<open>map_of (pl_lockups u) (p, sender info, dur) = Some li\<close>
        by (auto simp: pcl_terms_def map_of_save split: if_splits)
      have "pl_state t = Some 0" "pcl_pools t = UNIV" using 1(3,4) u wf by (auto simp: pcl_wf_def)
      then show ?case using wf users keys u f unfolding pcl_wf_def by metis
    qed
  qed
next
  case (migrate p a dur user i stake)
  note f = pcl_tx_fixed [OF tx]
  show ?thesis using tx [unfolded migrate]
  proof (rule pcl_tx_migrate, goal_cases)
    case (1 d c ps lp n ms)
    note dur = pcl_finish_duration [OF 1(1)]
    show ?case
    proof (rule pcl_finish_Ok [OF 1(1)], goal_cases)
      case (1 pool diff total' weighted in_lockups)
      have "pl_state t = Some 0" "pcl_pools t = UNIV"
        using wf 1(4) by (auto simp: pcl_wf_def pcl_pools_def map_of_save)
      moreover have "pcl_terms t k \<noteq> None \<longleftrightarrow> k = (p, a, dur) \<or> pcl_terms s k \<noteq> None" for k
        using 1(4) by (simp add: pcl_terms_def map_of_save)
      moreover have "pcl_paid_users t b \<noteq> None \<longleftrightarrow> b = a \<or> pcl_paid_users s b \<noteq> None" for b
        using 1(4) by (simp add: pcl_paid_users_def map_of_save)
      ultimately show ?case using wf f dur unfolding pcl_wf_def by (metis (no_types, lifting) prod.inject)
    qed
  qed
next
  case admin
  have "pl_state t = pl_state s"
  proof -
    from tx obtain d :: pcl_deps and u ms where h: "pcl_execute d env info m s = Ok (u, ms)"
      and "sender info \<noteq> this_contract env" and run: "pcl_run env ms u t out"
      by (auto elim!: pcl_tx.cases)
    then have "ms = [] \<and> pl_state u = pl_state s"
      using admin
      by (cases m) (auto simp: pcl_administration_def handle_pcl_callback_def pcl_propose_new_owner_def
          pcl_drop_ownership_proposal_def pcl_claim_ownership_def pcl_handle_update_config_def split: if_splits)
    then show ?thesis using run by simp
  qed
  then show ?thesis
    using pcl_tx_admin [OF tx admin] pcl_tx_fixed [OF tx] wf
    by (simp add: pcl_wf_def pcl_pools_def pcl_terms_def pcl_paid_users_def)
qed

lemma pcl_reachable_wf: "pcl_reachable s \<Longrightarrow> pcl_wf s"
proof (induction rule: pcl_reachable.induct)
  case (start d info m s ms)
  have atom: "p = ATOM" if "p \<noteq> USDC" for p using that by (cases p) simp_all
  show ?case
    using start
    by (auto intro: atom simp: pcl_instantiate_def pcl_empty_def pcl_wf_def pcl_pools_def pcl_fixed_def pcl_terms_def map_of_save
        split: if_splits)
next
  case (tx s env info m s' out)
  then show ?case using pcl_tx_wf by blast
qed

subsection \<open>The invariant\<close>

text \<open>The books balance, every user who has a lockup is known, and the incentives of every known user
  are paid.\<close>

definition pcl_inv :: "pcl_lockdrop \<Rightarrow> bool" where
  "pcl_inv s \<longleftrightarrow> pcl_books s \<and> (\<forall>a. pcl_paid_users s a \<noteq> Some False)"

lemma pcl_user_is_paid:
  assumes "pcl_inv s" "pcl_keeps s u" "map_of (pl_users u) a \<noteq> None"
  shows "pcl_paid_users u a = Some True"
proof -
  have "pcl_paid_users u a \<noteq> None" using assms(3) by (simp add: pcl_paid_users_def)
  moreover have "pcl_paid_users u a \<noteq> Some False" using assms(1,2) by (simp add: pcl_inv_def pcl_keeps_def)
  ultimately show ?thesis by (cases "pcl_paid_users u a") auto
qed

lemma pcl_tx_inv:
  assumes "pcl_tx env info m s t out" and "pcl_inv s" and "pcl_deployed m s"
  shows "pcl_inv t"
proof -
  show ?thesis
  proof (cases m rule: pcl_message_cases)
    case (claim p dur w)
    show ?thesis using assms(1) [unfolded claim]
    proof (rule pcl_tx_claim, goal_cases)
      case (1 d u li ms own)
      have "pcl_paid_users u (sender info) = Some True"
        by (rule pcl_user_is_paid [OF assms(2) 1(1,2)])
      note flag = this
      have "pcl_books u" using 1(1) assms(2) by (simp add: pcl_keeps_def pcl_inv_def)
      have "pcl_books t \<and> pl_users t = pl_users u"
        by (rule pcl_withdraw_effect [OF 1(6,3,4)]) (use \<open>pcl_books u\<close> flag in simp)
      then have "pcl_books t" "pcl_paid_users t = pcl_paid_users u" by (simp_all add: pcl_paid_users_def fun_eq_iff)
      then show ?case using 1(1) assms(2) by (simp add: pcl_keeps_def pcl_inv_def)
    qed
  next
    case (migrate p a dur user li stake)
    then have new: "map_of (pl_lockups s) (p, a, dur) = None" "ntrn_transferred user"
      using assms(3) by (simp_all add: pcl_deployed_def)
    show ?thesis using assms(1) [unfolded migrate]
    proof (rule pcl_tx_migrate, goal_cases)
      case (1 d c ps lp n ms)
      have "pcl_books t" using pcl_finish_books [OF 1(1) _ new(1)] assms(2) by (simp add: pcl_inv_def)
      moreover have "pcl_paid_users t b \<noteq> Some False" for b
        by (rule pcl_finish_Ok [OF 1(1)])
          (use assms(2) new in \<open>auto simp: pcl_inv_def pcl_paid_users_def map_of_save from_xyk_user_info_def\<close>)
      ultimately show ?case by (simp add: pcl_inv_def)
    qed
  next
    case admin
    show ?thesis
      using pcl_tx_admin [OF assms(1) admin] assms(2)
      by (simp add: pcl_inv_def pcl_books_def pcl_paid_users_def)
  qed
qed

lemma pcl_reachable_inv: "pcl_reachable s \<Longrightarrow> pcl_inv s"
proof (induction rule: pcl_reachable.induct)
  case (start d info m s ms)
  have "store_ok ([] :: (pool_type, pcl_pool) store)" by (simp add: store_ok_def)
  then show ?case
    using start
    by (auto simp: pcl_instantiate_def pcl_empty_def pcl_inv_def pcl_books_def pcl_paid_users_def store_ok_save
        new_pcl_pool_def pcl_pool_live_def pcl_user_live_def user_total_def store_ok_def pcl_pool_amount_def
        split: if_splits)
next
  case (tx s env info m s' out)
  then show ?case by (metis pcl_tx_inv)
qed

end
