(* ===== verification/Lockdrop_Pcl_Properties.thy ===== *)
theory Lockdrop_Pcl_Properties
  imports Lockdrop_Pcl_Runs Lockdrop_Properties
begin

text \<open>
  The properties of the PCL lockdrop, and a concrete run on which they are witnessed: its books
  balance, a lockup is paid out after its end and to its user, a reward is paid once, and no NTRN
  incentives leave the contract as long as the lockdrop that it takes over from sends users whose
  incentives are paid.
\<close>

subsection \<open>A run of the contract\<close>

text \<open>Alice's lockup of the USDC pool arrives with liquidity for 800 new LP tokens, which are staked.
  She claims the rewards that the incentives contract holds for her, and after the end of the lockup
  she takes the LP tokens.\<close>

definition pr_deps :: "u128 \<Rightarrow> u128 \<Rightarrow> u128 \<Rightarrow> pcl_deps" where
  "pr_deps lp astro pending_astro =
     \<lparr>addr_validate = Ok, bank_balance = (\<lambda>a d. Ok astro), cw20_balance = (\<lambda>c a. Ok lp),
     gen_pending_token = (\<lambda>g lp a. Ok \<lparr>pending = 0, pending_on_proxy = None\<rparr>),
     gen_base_reward_token = (\<lambda>g lp. Ok (NativeToken ''untrn'')),
     gen_deposit = (\<lambda>g lp a. Ok 0), gen_pool_proxies = (\<lambda>g lp. Ok []),
     raw_user_info_amount = (\<lambda>g lp a. Ok None), raw_cw20_balance = (\<lambda>c a. Ok None),
     raw_proxy_reward_asset = (\<lambda>g a. Ok None), cw20_minter = (\<lambda>c. Ok ''pclpair''),
     pair_assets = (\<lambda>c. Ok []), credits_withdrawable = (\<lambda>c a. Ok 0), credits_vested = (\<lambda>c a. Ok 0),
     inc_pending_rewards = (\<lambda>i lp a. Ok (if pending_astro = 0 then []
       else [with_balance (NativeToken ''uastro'') pending_astro])),
     inc_deposit = (\<lambda>i lp a. Ok 800),
     inc_reward_info = (\<lambda>i lp. Ok [IntReward (NativeToken ''uastro'')]),
     raw_inc_user_info_amount = (\<lambda>i lp a. Ok (Some 800))\<rparr>"

lemma pr_validate: "addr_validate_identity (pr_deps lp astro pending_astro)"
  by (simp add: addr_validate_identity_def pr_deps_def)

definition pr_env :: "u64 \<Rightarrow> env" where
  "pr_env t = \<lparr>block_time = t, block_height = 1, this_contract = ''pcl''\<rparr>"

definition pr_msg :: pcl_instantiate_msg where
  "pr_msg = \<lparr>pi_owner = None, pi_xyk_lockdrop_contract = ''lockdrop'', pi_credits_contract = ''credits'',
     pi_auction_contract = ''auction'', pi_incentives = ''inc'',
     pi_lockup_rewards_info = [\<lparr>lr_duration = 10, lr_coefficient = Decimal256 500000000000000000\<rparr>],
     pi_usdc_token = ''usdcpcl'', pi_atom_token = ''atompcl'', pi_lockdrop_incentives = 1000,
     pi_usdc_incentives_share = 1, pi_usdc_weighted_amount = 1200,
     pi_atom_incentives_share = 0, pi_atom_weighted_amount = 0\<rparr>"

definition pr_config :: pcl_config where
  "pr_config = \<lparr>pc_owner = ''dao'', pc_xyk_lockdrop_contract = ''lockdrop'', pc_credits_contract = ''credits'',
     pc_auction_contract = ''auction'', pc_incentives = ''inc'', pc_lockdrop_incentives = 1000,
     pc_lockup_rewards_info = [\<lparr>lr_duration = 10, lr_coefficient = Decimal256 500000000000000000\<rparr>]\<rparr>"

definition pr_pools :: "pcl_pool \<Rightarrow> (pool_type, pcl_pool) store" where
  "pr_pools pool = [(ATOM, new_pcl_pool ''atompcl'' 0 0), (USDC, pool)]"

definition pr_fresh :: pcl_lockdrop where
  "pr_fresh = pcl_empty\<lparr>pl_config := Some pr_config, pl_state := Some 0,
     pl_pools := pr_pools (new_pcl_pool ''usdcpcl'' 1 1200)\<rparr>"

definition pr_pool :: pcl_pool where
  "pr_pool = (new_pcl_pool ''usdcpcl'' 1 2400)\<lparr>pp_amount_in_lockups := 800, pp_is_staked := True\<rparr>"

definition pr_user :: lockdrop_user_info where
  "pr_user = \<lparr>total_ntrn_rewards = 1000, ntrn_transferred = True, lockup_positions_index = 1\<rparr>"

definition pr_arriving :: lockup_info where
  "pr_arriving = (lr_lockup 800 True)\<lparr>ntrn_rewards := 1000, astroport_lp_transferred := Some 800\<rparr>"

definition pr_lockup :: "u128 option \<Rightarrow> (asset_info, u128) restricted_vector \<Rightarrow> pcl_lockup" where
  "pr_lockup transferred debts = \<lparr>pk_lp_units_locked = 800, pk_astroport_lp_transferred = transferred,
     pk_withdrawal_flag = True, pk_ntrn_rewards = 1000, incentives_debt = debts, pk_unlock_timestamp = 180\<rparr>"

definition pr_staked :: pcl_lockdrop where
  "pr_staked = pr_fresh\<lparr>pl_pools := pr_pools pr_pool, pl_users := [(''alice'', pr_user)],
     pl_lockups := [((USDC, ''alice'', 10), pr_lockup None [])], pl_totals := [((USDC, ''alice''), 800)]\<rparr>"

definition pr_rates :: "(asset_info, decimal) restricted_vector" where
  "pr_rates = [(NativeToken ''uastro'', Decimal 100000000000000000)]"

definition pr_updated :: pcl_lockdrop where
  "pr_updated = pr_staked\<lparr>pl_pools := pr_pools (pr_pool\<lparr>incentives_rewards_per_share := pr_rates\<rparr>)\<rparr>"

definition pr_rewarded :: pcl_lockdrop where
  "pr_rewarded = pr_updated\<lparr>pl_lockups := [((USDC, ''alice'', 10), pr_lockup None [(NativeToken ''uastro'', 80)])]\<rparr>"

definition pr_unlocked :: pcl_lockdrop where
  "pr_unlocked = pr_updated\<lparr>
     pl_pools := pr_pools (pr_pool\<lparr>incentives_rewards_per_share := pr_rates, pp_amount_in_lockups := 0\<rparr>),
     pl_lockups := [((USDC, ''alice'', 10), pr_lockup (Some 800) [(NativeToken ''uastro'', 80)])],
     pl_totals := [((USDC, ''alice''), 0)]\<rparr>"

lemmas pr_states = pr_deps_def pr_env_def pr_config_def pr_fresh_def pr_pools_def pr_pool_def pr_user_def
  pr_arriving_def lr_lockup_def pr_lockup_def pr_staked_def pr_rates_def pr_updated_def pr_rewarded_def pr_unlocked_def
  pcl_empty_def new_pcl_pool_def new_lockup_def lr_call_def

lemmas pr_loads = pcl_load_config_def pcl_load_state_def pcl_load_pool_def pcl_load_lockup_def
  pcl_load_user_or_default_def

lemma pr_instantiate: "pcl_instantiate (pr_deps 0 0 0) (lr_call ''dao'') pr_msg pcl_empty = Ok (pr_fresh, [])"
  by (simp add: pcl_instantiate_def pr_msg_def pr_states)

definition pr_migrate :: pcl_execute_msg where
  "pr_migrate = PMigrateXYKLiquidity USDC ''alice'' 10 pr_user pr_arriving True"

definition pr_funded :: message_info where
  "pr_funded = \<lparr>sender = ''lockdrop'', funds = [\<lparr>coin_denom = ''untrn'', coin_amount = 400\<rparr>,
     \<lparr>coin_denom = ''uusdc'', coin_amount = 300\<rparr>]\<rparr>"

definition pr_provide :: msg where
  "pr_provide = WasmExecute ''pclpair'' (ProvideLiquidity [native_asset ''untrn'' 400, native_asset ''uusdc'' 300]
     None (Some False) None) (funds pr_funded)"

lemma pr_migrate_Ok:
  "pcl_execute (pr_deps 0 0 0) (pr_env 177) pr_funded pr_migrate pr_fresh =
     Ok (pr_fresh, [pr_provide, pcl_callback_msg (pr_env 177)
       (FinishLockupMigrationCallback USDC ''alice'' 10 ''usdcpcl'' 0 pr_user pr_arriving True)])"
  by (simp add: pr_migrate_def pcl_handle_migrate_xyk_liquidity_def pr_loads pr_states pr_funded_def pr_provide_def)

lemma pr_finish:
  "dispatch_pcl_callback (pr_deps 800 0 0) (pr_env 177)
     (FinishLockupMigrationCallback USDC ''alice'' 10 ''usdcpcl'' 0 pr_user pr_arriving True) pr_fresh =
   Ok (pr_staked, [WasmExecute ''usdcpcl'' (Cw20Send ''inc'' 800 IncentivesDeposit) []])"
  by (simp add: callback_finish_lockup_migration_def pcl_calculate_weight_def from_xyk_lockup_info_def
      from_xyk_user_info_def decimal256_one_def pr_loads pr_states eval_arith)

lemma pr_claim:
  "pcl_execute (pr_deps 800 0 80) (pr_env 178) (lr_call ''alice'')
     (PClaimRewardsAndOptionallyUnlock USDC 10 False) pr_staked =
   Ok (pr_staked, [WasmExecute ''inc'' (IncentivesClaimRewards [''usdcpcl'']) [],
     pcl_callback_msg (pr_env 178) (PclUpdatePoolOnDualRewardsClaim USDC [with_balance (NativeToken ''uastro'') 0]),
     pcl_callback_msg (pr_env 178) (PclWithdrawUserLockupRewardsCallback USDC ''alice'' 10 False)])"
  by (simp add: pcl_handle_claim_rewards_def claim_incentives_rewards_def pr_loads pr_states eval_arith
      query_pool_def balance_or_zero_def with_balance_def)

lemma pr_update:
  "dispatch_pcl_callback (pr_deps 800 80 0) (pr_env 178)
     (PclUpdatePoolOnDualRewardsClaim USDC [with_balance (NativeToken ''uastro'') 0]) pr_staked = Ok (pr_updated, [])"
  by (simp add: pcl_update_pool_on_dual_rewards_claim_def pr_loads pr_states eval_arith query_pool_def with_balance_def)

lemma pr_pay:
  "dispatch_pcl_callback (pr_deps 800 80 0) (pr_env 178)
     (PclWithdrawUserLockupRewardsCallback USDC ''alice'' 10 False) pr_updated =
   Ok (pr_rewarded, [BankSend ''alice'' [\<lparr>coin_denom = ''uastro'', coin_amount = 80\<rparr>]])"
  by (simp add: pcl_callback_withdraw_user_rewards_def pcl_lp_amount_def lp_share_def withdraw_incentives_rewards_def
      pending_incentives_def pending_reward_step_def pcl_one_time_rewards_def pr_loads pr_states eval_arith
      decimal_zero_def with_balance_def into_msg_def deduct_tax_def compute_tax_def)

lemma pr_unlock:
  "pcl_execute (pr_deps 800 0 0) (pr_env 200) (lr_call ''alice'')
     (PClaimRewardsAndOptionallyUnlock USDC 10 True) pr_rewarded =
   Ok (pr_rewarded, [pcl_callback_msg (pr_env 200) (PclWithdrawUserLockupRewardsCallback USDC ''alice'' 10 True)])"
  by (simp add: pcl_handle_claim_rewards_def claim_incentives_rewards_def pr_loads pr_states eval_arith)

lemma pr_release:
  "dispatch_pcl_callback (pr_deps 800 0 0) (pr_env 200)
     (PclWithdrawUserLockupRewardsCallback USDC ''alice'' 10 True) pr_rewarded =
   Ok (pr_unlocked, [WasmExecute ''inc'' (IncentivesWithdraw ''usdcpcl'' 800) [],
     WasmExecute ''usdcpcl'' (Cw20Transfer ''alice'' 800) []])"
  by (simp add: pcl_callback_withdraw_user_rewards_def pcl_lp_amount_def lp_share_def withdraw_incentives_rewards_def
      pending_incentives_def pending_reward_step_def pcl_release_lockup_def sub_user_total_def
      pcl_one_time_rewards_def pr_loads pr_states eval_arith decimal_zero_def)

lemma pr_tx_start:
  "pcl_execute (pr_deps lp astro pen) (pr_env t) info m s = Ok (u, ms) \<Longrightarrow> sender info \<noteq> ''pcl'' \<Longrightarrow>
   pcl_run (pr_env t) ms u s' out \<Longrightarrow> pcl_tx (pr_env t) info m s s' out"
  by (rule pcl_tx.intros [OF _ pr_validate]) (simp_all add: pr_env_def)

lemma pr_run_step:
  "dispatch_pcl_callback (d :: pcl_deps) env cb s = Ok (u, ms) \<Longrightarrow> pcl_run env q u t out \<Longrightarrow>
   pcl_run env (pcl_callback_msg env cb # q) s t (ms @ out)"
  by (auto simp: pcl_run_callback)

lemma pr_migrate_tx:
  "pcl_tx (pr_env 177) pr_funded pr_migrate pr_fresh pr_staked
     [pr_provide, WasmExecute ''usdcpcl'' (Cw20Send ''inc'' 800 IncentivesDeposit) []]"
  using pr_tx_start [OF pr_migrate_Ok _ pcl_run.other [OF _ pr_run_step [OF pr_finish pcl_run.finished]]]
  by (simp add: pr_funded_def pr_provide_def)

lemma pr_claim_tx:
  "pcl_tx (pr_env 178) (lr_call ''alice'') (PClaimRewardsAndOptionallyUnlock USDC 10 False) pr_staked pr_rewarded
     [WasmExecute ''inc'' (IncentivesClaimRewards [''usdcpcl'']) [],
      BankSend ''alice'' [\<lparr>coin_denom = ''uastro'', coin_amount = 80\<rparr>]]"
  using pr_tx_start [OF pr_claim _ pcl_run.other [OF _ pr_run_step [OF pr_update pr_run_step [OF pr_pay pcl_run.finished]]]]
  by (simp add: lr_call_def)

lemma pr_unlock_tx:
  "pcl_tx (pr_env 200) (lr_call ''alice'') (PClaimRewardsAndOptionallyUnlock USDC 10 True) pr_rewarded pr_unlocked
     [WasmExecute ''inc'' (IncentivesWithdraw ''usdcpcl'' 800) [], WasmExecute ''usdcpcl'' (Cw20Transfer ''alice'' 800) []]"
  using pr_tx_start [OF pr_unlock _ pr_run_step [OF pr_release pcl_run.finished]]
  by (simp add: lr_call_def)

lemma pr_deployed: "pcl_deployed pr_migrate pr_fresh"
  by (simp add: pcl_deployed_def pr_migrate_def pr_user_def pr_fresh_def pcl_empty_def)

lemma pr_reachable_staked: "pcl_reachable pr_staked"
  by (rule pcl_reachable.tx [OF pcl_reachable.start [OF pr_instantiate] pr_migrate_tx pr_deployed])

lemma pr_reachable_rewarded: "pcl_reachable pr_rewarded"
  by (rule pcl_reachable.tx [OF pr_reachable_staked pr_claim_tx]) (simp add: pcl_deployed_def)

lemma pr_reachable_unlocked: "pcl_reachable pr_unlocked"
  by (rule pcl_reachable.tx [OF pr_reachable_rewarded pr_unlock_tx]) (simp add: pcl_deployed_def)

subsection \<open>The properties\<close>

text \<open>C13: In every reachable state of the PCL lockdrop the amount a pool has in lockups and a user's total in a pool are the sums over the stored lockups that are not paid out.\<close>
theorem pcl_books_balance:
  assumes "pcl_reachable s"
  shows "(case map_of (pl_pools s) p of Some pool \<Rightarrow> unat (pp_amount_in_lockups pool) | None \<Rightarrow> 0)
      = sum_list (map (\<lambda>((q, b, dur), v). if q = p \<and> pk_astroport_lp_transferred v = None
          then unat (pk_lp_units_locked v) else 0) (pl_lockups s))
    \<and> unat (unwrap_or (map_of (pl_totals s) (p, a)) 0)
      = sum_list (map (\<lambda>((q, b, dur), v). if q = p \<and> b = a \<and> pk_astroport_lp_transferred v = None
          then unat (pk_lp_units_locked v) else 0) (pl_lockups s))"
proof -
  have "pcl_books s" using pcl_reachable_inv [OF assms] by (simp add: pcl_inv_def)
  then have b: "pcl_pool_amount (pl_pools s) p = pcl_pool_live p (pl_lockups s)"
    "user_total (pl_totals s) p a = pcl_user_live p a (pl_lockups s)" by (simp_all add: pcl_books_def)
  have "pcl_pool_live p l = sum_list (map (\<lambda>((q, b, dur), v). if q = p \<and> pk_astroport_lp_transferred v = None
          then unat (pk_lp_units_locked v) else 0) l)" for l
    by (induction l) (auto simp: pcl_pool_live_def store_sum_def pcl_live_def)
  moreover have "pcl_user_live p a l = sum_list (map (\<lambda>((q, b, dur), v). if q = p \<and> b = a \<and> pk_astroport_lp_transferred v = None
          then unat (pk_lp_units_locked v) else 0) l)" for l
    by (induction l) (auto simp: pcl_user_live_def store_sum_def pcl_live_def)
  ultimately show ?thesis
    using b by (simp add: pcl_pool_amount_def user_total_def split: option.splits)
qed

theorem pcl_books_balance_witness:
  "unat (pp_amount_in_lockups pr_pool)
      = sum_list (map (\<lambda>((q, b, dur), v). if q = USDC \<and> pk_astroport_lp_transferred v = None
          then unat (pk_lp_units_locked v) else 0) (pl_lockups pr_staked))
    \<and> pp_amount_in_lockups pr_pool = 800 \<and> length (pl_lockups pr_staked) = 1
    \<and> unat (unwrap_or (map_of (pl_totals pr_unlocked) (USDC, ''alice'')) 0) = 0"
  using pcl_books_balance [OF pr_reachable_staked, of USDC "''alice''"]
    pcl_books_balance [OF pr_reachable_unlocked, of USDC "''alice''"]
  by (simp add: pr_states)

text \<open>C17: A transaction of the PCL lockdrop that pays out a lockup is a claim with withdraw_lp_stake by the lockup's own user at or after its unlock time, and the LP tokens go to that user.\<close>
theorem pcl_pays_out_after_unlock:
  assumes tx: "pcl_tx env info m s s' out"
    and before: "map_of (pl_lockups s) k = Some li" "pk_astroport_lp_transferred li = None"
    and after: "map_of (pl_lockups s') k = Some li'" "pk_astroport_lp_transferred li' = Some n"
  shows "\<exists>p dur lp. k = (p, sender info, dur) \<and> m = PClaimRewardsAndOptionallyUnlock p dur True \<and>
    pk_unlock_timestamp li \<le> block_time env \<and> WasmExecute lp (Cw20Transfer (sender info) n) [] \<in> set out"
proof (cases m rule: pcl_message_cases)
  case (claim p dur w)
  show ?thesis using tx [unfolded claim]
  proof (rule pcl_tx_claim, goal_cases)
    case (1 d u v ms own)
    have terms: "pcl_terms s = pcl_terms u" using 1(1) by (simp add: pcl_keeps_def)
    obtain w' where e: "map_of (pl_lockups u) k = Some w'" "pk_astroport_lp_transferred w' = None"
      "pk_unlock_timestamp w' = pk_unlock_timestamp li"
      by (rule pcl_terms_lockup [OF terms before(1)]) (use before(2) in auto)
    show ?case using 1(6,3,4)
    proof (rule pcl_withdraw_effect, goal_cases)
      case (1 v')
      have k: "k = (p, sender info, dur)"
        using 1(1) e after by (auto simp: map_of_save split: if_splits)
      then have "w \<and> (\<exists>lp. WasmExecute lp (Cw20Transfer (sender info) n) [] \<in> set ms)"
        using 1(1,9) after by (auto simp: map_of_save split: if_splits)
      then show ?case
        using k e \<open>w \<Longrightarrow> pk_unlock_timestamp v \<le> block_time env\<close> \<open>map_of (pl_lockups u) (p, sender info, dur) = Some v\<close>
          \<open>out = own @ ms\<close> claim by auto
    qed
  qed
next
  case (migrate p a dur user i stake)
  show ?thesis using tx [unfolded migrate]
  proof (rule pcl_tx_migrate, goal_cases)
    case (1 d c ps lp n' ms)
    show ?case
      by (rule pcl_finish_Ok [OF 1(1)])
        (use before after in \<open>auto simp: map_of_save from_xyk_lockup_info_def split: if_splits\<close>)
  qed
next
  case admin
  then show ?thesis using pcl_tx_admin [OF tx admin] before after by auto
qed

theorem pcl_pays_out_after_unlock_witness:
  "pk_unlock_timestamp (pr_lockup None [(NativeToken ''uastro'', 80)]) \<le> block_time (pr_env 200) \<and>
   (\<exists>lp. WasmExecute lp (Cw20Transfer ''alice'' 800) [] \<in> set
     [WasmExecute ''inc'' (IncentivesWithdraw ''usdcpcl'' 800) [], WasmExecute ''usdcpcl'' (Cw20Transfer ''alice'' 800) [] :: msg])"
  using pcl_pays_out_after_unlock [OF pr_unlock_tx, of "(USDC, ''alice'', 10)" "pr_lockup None [(NativeToken ''uastro'', 80)]"
      "pr_lockup (Some 800) [(NativeToken ''uastro'', 80)]" 800]
  by (simp add: pr_states)

text \<open>C12: Over a transaction of the PCL lockdrop the native money that leaves it is what a migration attached plus the increase of the lockups' debts; no NTRN incentives and no credits are paid again.\<close>
theorem pcl_pays_what_it_books:
  assumes "pcl_reachable s" and "pcl_deployed m s" and tx: "pcl_tx env info m s s' out"
  shows "asset_paid (NativeToken denom) out + pcl_native_debt s denom
      = pcl_native_debt s' denom + (case m of PMigrateXYKLiquidity p a dur user li stake \<Rightarrow> coins_total denom (funds info)
          | _ \<Rightarrow> 0)
    \<and> WasmExecute c (Cw20BurnFrom b k) fs \<notin> set out"
proof (cases m rule: pcl_message_cases)
  case (claim p dur w)
  have inv: "pcl_inv s" using assms(1) by (rule pcl_reachable_inv)
  show ?thesis using tx [unfolded claim]
  proof (rule pcl_tx_claim, goal_cases)
    case (1 d u v ms own)
    have books: "pcl_books u" "pcl_native_debt u = pcl_native_debt s"
      using 1(1) inv by (simp_all add: pcl_keeps_def pcl_inv_def)
    have own: "asset_paid (NativeToken denom) own = 0" "WasmExecute c (Cw20BurnFrom b k) fs \<notin> set own"
      using 1(8) by (auto simp: asset_paid_def)
    note flag = pcl_user_is_paid [OF inv 1(1,2)] and out = 1(7)
      and v = \<open>map_of (pl_lockups u) (p, sender info, dur) = Some v\<close>
    show ?case using 1(6,3,4)
    proof (rule pcl_withdraw_effect, goal_cases)
      case (1 v')
      have "pcl_native_debt s' denom + debt_of (incentives_debt v) (NativeToken denom)
          = pcl_native_debt s denom + debt_of (incentives_debt v') (NativeToken denom)"
        using pcl_native_debt_save [OF books(1) 1(1), of denom] v books(2) by simp
      moreover have "asset_paid (NativeToken denom) ms + debt_of (incentives_debt v) (NativeToken denom)
          = debt_of (incentives_debt v') (NativeToken denom)" "WasmExecute c (Cw20BurnFrom b k) fs \<notin> set ms"
        using 1(10) [OF flag] by simp_all
      ultimately show ?case using own out claim by simp
    qed
  qed
next
  case (migrate p a dur user i stake)
  then have new: "map_of (pl_lockups s) (p, a, dur) = None" using assms(2) by (simp add: pcl_deployed_def)
  have books: "pcl_books s" using pcl_reachable_inv [OF assms(1)] by (simp add: pcl_inv_def)
  show ?thesis using tx [unfolded migrate]
  proof (rule pcl_tx_migrate, goal_cases)
    case (1 d pair ps lp n ms)
    note out = 1(2)
    show ?case
    proof (rule pcl_finish_Ok [OF 1(1)], goal_cases)
      case (1 pool diff total' weighted in_lockups)
      have "pcl_native_debt s' denom = pcl_native_debt s denom"
        using pcl_native_debt_save [OF books, of s' "(p, a, dur)" "from_xyk_lockup_info i diff" denom] new 1(4)
        by (simp add: from_xyk_lockup_info_def debt_of_def)
      moreover have "asset_paid (NativeToken denom) ms = 0" "WasmExecute c (Cw20BurnFrom b k) fs \<notin> set ms"
        using 1(5) by (auto simp: asset_paid_def)
      ultimately show ?case using out migrate by (auto simp: asset_paid_def)
    qed
  qed
next
  case admin
  then have "pcl_native_debt s' = pcl_native_debt s \<and> out = []"
    using pcl_tx_admin [OF tx admin] by (simp add: pcl_native_debt_def fun_eq_iff)
  then show ?thesis using admin by (cases m) (simp_all add: pcl_administration_def)
qed

theorem pcl_pays_what_it_books_witness:
  "asset_paid (NativeToken ''uastro'') [WasmExecute ''inc'' (IncentivesClaimRewards [''usdcpcl'']) [],
      BankSend ''alice'' [\<lparr>coin_denom = ''uastro'', coin_amount = 80\<rparr>]] + pcl_native_debt pr_staked ''uastro''
    = pcl_native_debt pr_rewarded ''uastro'' \<and> pcl_native_debt pr_rewarded ''uastro'' = 80 \<and>
   asset_paid (NativeToken ''untrn'') [pr_provide, WasmExecute ''usdcpcl'' (Cw20Send ''inc'' 800 IncentivesDeposit) []]
    + pcl_native_debt pr_fresh ''untrn'' = pcl_native_debt pr_staked ''untrn'' + 400"
  using pcl_pays_what_it_books [OF pr_reachable_staked _ pr_claim_tx, of "''uastro''"]
    pcl_pays_what_it_books [OF pcl_reachable.start [OF pr_instantiate] pr_deployed pr_migrate_tx, of "''untrn''"]
  by (simp add: pcl_deployed_def pr_migrate_def pr_funded_def)
    (simp add: pcl_native_debt_def debt_of_def pr_rewarded_def pr_lockup_def)

text \<open>C20: A claim without unlocking pays, for every asset, the increase of the lockup's debt, which becomes what the LP tokens earned at the current rate; the same claim again finds no rewards.\<close>
theorem pcl_rewards_are_paid_once:
  assumes cb: "pcl_callback_withdraw_user_rewards d env p a dur False s = Ok (s', ms)"
    and "pl_config s = Some cfg" and "map_of (pl_pools s) p = Some pool" and staked: "pp_is_staked pool"
    and "map_of (pl_lockups s) (p, a, dur) = Some li"
    and user: "map_of (pl_users s) a = Some user" "ntrn_transferred user"
  shows "\<exists>n rewards li'. pcl_lp_amount d env cfg pool li = Ok n \<and>
    inc_reward_info d (pc_incentives cfg) (pp_lp_token pool) = Ok rewards \<and>
    map_of (pl_lockups s') (p, a, dur) = Some li' \<and>
    (\<forall>ai. asset_paid ai ms + debt_of (incentives_debt li) ai = debt_of (incentives_debt li') ai) \<and>
    (\<forall>r \<in> set rewards. per_share pool (reward_asset r) \<noteq> 0 \<longrightarrow>
      debt_of (incentives_debt li') (reward_asset r) = earned pool n (reward_asset r)) \<and>
    pcl_callback_withdraw_user_rewards d env p a dur False s' =
      Err (GenericErr ''No rewards available to claim!'')"
  using cb
proof (rule pcl_withdraw_inversion, goal_cases)
  case (1 cfg' pool' li0 n li' reward_ms s1 unlock_ms one_ms)
  have eq: "cfg' = cfg" "pool' = pool" "li0 = li" "pcl_load_user_or_default s a = user"
    using 1(1-3) assms by (simp_all add: pcl_load_user_or_default_def)
  have w: "withdraw_incentives_rewards d cfg pool a user False n li = Ok (li', reward_ms)"
    using 1(5) eq by simp
  have s': "s' = s\<lparr>pl_lockups := save (p, a, dur) li' (pl_lockups s)\<rparr>" and ms: "ms = reward_ms"
    using 1(6-8) eq user by (auto simp: pcl_one_time_rewards_def)
  obtain rewards debts pending' where ri: "inc_reward_info d (pc_incentives cfg) (pp_lp_token pool) = Ok rewards"
    and pe: "pending_incentives pool n li rewards = Ok (debts, pending')"
    and tm: "try_map (\<lambda>asset. into_msg asset a) pending' = Ok reward_ms"
    and li': "li' = li\<lparr>incentives_debt := debts\<rparr>"
    by (rule withdraw_incentives_inversion [OF w staked]) auto
  note fold = pe [unfolded pending_incentives_def]
  have paid: "asset_paid ai ms + debt_of (incentives_debt li) ai = debt_of debts ai" for ai
    using pending_rewards_Ok(1) [OF fold, of ai] into_msgs_paid [OF tm, of ai] ms by simp
  have earned: "debt_of debts ai = earned pool n ai"
    if "ai \<in> reward_asset ` set rewards" "per_share pool ai \<noteq> 0" for ai
    using pending_rewards_Ok(2) [OF fold, of ai] that by simp
  obtain debts1 where again: "pending_incentives pool n li' rewards = Ok (debts1, [])"
    using pending_rewards_again [OF fold earned, of "[]"] by (auto simp: pending_incentives_def li')
  have n': "pcl_lp_amount d env cfg pool li' = Ok n" using 1(4) eq by (simp add: pcl_lp_amount_def li')
  have "pcl_callback_withdraw_user_rewards d env p a dur False s' = Err (GenericErr ''No rewards available to claim!'')"
    using assms(2,3) staked user ri again n'
    by (simp add: pcl_callback_withdraw_user_rewards_def pcl_load_config_def pcl_load_pool_def
        pcl_load_lockup_def pcl_load_user_or_default_def withdraw_incentives_rewards_def s' map_of_save)
  moreover have "map_of (pl_lockups s') (p, a, dur) = Some li'" by (simp add: s' map_of_save)
  ultimately show ?case
    using 1(4) eq ri paid earned by (auto simp: li')
qed

theorem pcl_rewards_are_paid_once_witness:
  "pcl_callback_withdraw_user_rewards (pr_deps 800 80 0) (pr_env 178) USDC ''alice'' 10 False pr_rewarded
     = Err (GenericErr ''No rewards available to claim!'')"
proof -
  have "pcl_callback_withdraw_user_rewards (pr_deps 800 80 0) (pr_env 178) USDC ''alice'' 10 False pr_updated
    = Ok (pr_rewarded, [BankSend ''alice'' [\<lparr>coin_denom = ''uastro'', coin_amount = 80\<rparr>]])"
    using pr_pay by simp
  from pcl_rewards_are_paid_once [OF this, of pr_config
      "pr_pool\<lparr>incentives_rewards_per_share := pr_rates\<rparr>" "pr_lockup None []" pr_user]
  show ?thesis by (simp add: pr_updated_def pr_staked_def pr_fresh_def pr_pools_def pr_pool_def pr_user_def) blast
qed

text \<open>C21: In every reachable state of the PCL lockdrop the configuration, the state and both pools exist, and every lockup has a known user and a duration with a reward.\<close>
theorem pcl_storage_is_well_formed:
  assumes "pcl_reachable s"
  shows "pl_state s \<noteq> None \<and> (\<forall>p. map_of (pl_pools s) p \<noteq> None) \<and>
    (\<exists>cfg. pl_config s = Some cfg \<and> (\<forall>lr \<in> set (pc_lockup_rewards_info cfg). lr_duration lr \<noteq> 0) \<and>
      (\<forall>p a dur li. map_of (pl_lockups s) (p, a, dur) = Some li \<longrightarrow>
        map_of (pl_users s) a \<noteq> None \<and> (\<exists>lr \<in> set (pc_lockup_rewards_info cfg). lr_duration lr = dur)))"
proof -
  have wf: "pcl_wf s" using assms by (rule pcl_reachable_wf)
  then obtain x rewards where f: "pcl_fixed s = Some (x, rewards)"
    and r: "\<forall>lr \<in> set rewards. lr_duration lr \<noteq> 0"
    and k: "pcl_terms s (p, a, dur) \<noteq> None \<Longrightarrow> pcl_paid_users s a \<noteq> None \<and> dur \<in> lr_duration ` set rewards" for p a dur
    unfolding pcl_wf_def by blast
  obtain cfg where cfg: "pl_config s = Some cfg" "pc_lockup_rewards_info cfg = rewards"
    using f by (auto simp: pcl_fixed_def)
  have "map_of (pl_pools s) p \<noteq> None" for p using wf by (auto simp: pcl_wf_def pcl_pools_def)
  moreover have "map_of (pl_users s) a \<noteq> None \<and> (\<exists>lr \<in> set rewards. lr_duration lr = dur)"
    if "map_of (pl_lockups s) (p, a, dur) = Some li" for p a dur li
    using k [of p a dur] that by (auto simp: pcl_terms_def pcl_paid_users_def)
  ultimately show ?thesis using wf cfg r by (auto simp: pcl_wf_def)
qed

theorem pcl_storage_is_well_formed_witness:
  "pl_state pr_staked \<noteq> None \<and> map_of (pl_pools pr_staked) ATOM \<noteq> None \<and>
   map_of (pl_users pr_staked) ''alice'' \<noteq> None \<and> length (pl_lockups pr_staked) = 1"
proof -
  note h = pcl_storage_is_well_formed [OF pr_reachable_staked]
  have "map_of (pl_lockups pr_staked) (USDC, ''alice'', 10) = Some (pr_lockup None [])" by (simp add: pr_staked_def)
  then have "map_of (pl_users pr_staked) ''alice'' \<noteq> None" using h by blast
  then show ?thesis using h by (simp add: pr_staked_def)
qed

text \<open>The total incentives share is not copied from the lockdrop: instantiate saves the default state, and
  no message changes it.\<close>

theorem pcl_incentives_share_stays_zero:
  assumes "pcl_reachable s"
  shows "pl_state s = Some 0"
  using pcl_reachable_wf [OF assms] by (auto simp: pcl_wf_def)

theorem pcl_incentives_share_stays_zero_witness: "pl_state pr_staked = Some 0"
  by (rule pcl_incentives_share_stays_zero [OF pr_reachable_staked])

end
