(* ===== verification/Lockdrop_Handover.thy ===== *)
theory Lockdrop_Handover
  imports Lockdrop_Pcl_Properties
begin

text \<open>
  The lockdrop and the PCL lockdrop together. A transaction of the lockdrop runs with its callbacks
  as in \<open>Lockdrop_Runs\<close>; the message that migrates a lockup is executed by the PCL lockdrop, with its
  own callbacks, before the rest of the queue. In every pair of states that they reach together, a
  lockup that the PCL lockdrop has was paid out by the lockdrop, with the same unlock time. So what
  \<open>pcl_deployed\<close> asks of the lockdrop holds.
\<close>

subsection \<open>Runs of both contracts\<close>

fun handover_msg :: "addr \<Rightarrow> msg \<Rightarrow> bool" where
  "handover_msg q (WasmExecute c (MigrateXYKLockup p a dur ui li stake) fs) = (c = q)"
| "handover_msg q m = False"

inductive handover_run ::
  "env \<Rightarrow> addr \<Rightarrow> msg list \<Rightarrow> lockdrop \<Rightarrow> pcl_lockdrop \<Rightarrow> lockdrop \<Rightarrow> pcl_lockdrop \<Rightarrow> bool" for env q where
  finished: "handover_run env q [] s t s t"
| other: "own_callback env m = None \<Longrightarrow> \<not> handover_msg q m \<Longrightarrow> handover_run env q ms s t s' t' \<Longrightarrow>
    handover_run env q (m # ms) s t s' t'"
| callback: "receive_lockdrop_callback (d :: lockdrop_deps) env info cb s = Ok (u, ns) \<Longrightarrow>
    addr_validate_identity d \<Longrightarrow> handover_run env q (ns @ ms) u t s' t' \<Longrightarrow>
    handover_run env q (WasmExecute (this_contract env) (LockdropCallback cb) fs # ms) s t s' t'"
| migrate: "pcl_tx (env\<lparr>this_contract := q\<rparr>) \<lparr>sender = this_contract env, funds = fs\<rparr>
      (PMigrateXYKLiquidity p a dur ui li stake) t t1 out \<Longrightarrow> handover_run env q ms s t1 s' t' \<Longrightarrow>
    handover_run env q (WasmExecute q (MigrateXYKLockup p a dur ui li stake) fs # ms) s t s' t'"

text \<open>\<open>x\<close> is the address of the lockdrop and \<open>q\<close> that of the PCL lockdrop.\<close>

inductive handover :: "addr \<Rightarrow> addr \<Rightarrow> u64 \<Rightarrow> lockdrop \<Rightarrow> pcl_lockdrop \<Rightarrow> bool" for x q where
  start: "lockdrop_instantiate (d :: lockdrop_deps) env info m lockdrop_empty = Ok (s, ms) \<Longrightarrow>
    pcl_instantiate (d' :: pcl_deps) info' m' pcl_empty = Ok (t, ms') \<Longrightarrow>
    map_option pc_xyk_lockdrop_contract (pl_config t) = Some x \<Longrightarrow> handover x q (block_time env) s t"
| lockdrop: "handover x q time s t \<Longrightarrow> time \<le> block_time env \<Longrightarrow> this_contract env = x \<Longrightarrow> sender info \<noteq> x \<Longrightarrow>
    lockdrop_execute (d :: lockdrop_deps) env info m s = Ok (u, ms) \<Longrightarrow> addr_validate_identity d \<Longrightarrow>
    deployed_use env m s \<Longrightarrow> handover_run env q ms u t s' t' \<Longrightarrow> handover x q (block_time env) s' t'"
| upgrade: "handover x q time s t \<Longrightarrow> lockdrop_migrate (d :: lockdrop_deps) a s = Ok (s', ms) \<Longrightarrow>
    handover x q time s' t"
| pcl: "handover x q time s t \<Longrightarrow> sender info \<noteq> x \<Longrightarrow> pcl_tx env info m t t' out \<Longrightarrow> handover x q time s t'"

lemma handover_run_lockdrop: "handover_run env q ms s t s' t' \<Longrightarrow> lockdrop_run env ms s s'"
proof (induction rule: handover_run.induct)
  case (migrate fs p a dur ui li stake t t1 out ms s s' t')
  then show ?case by (intro lockdrop_run.other) simp_all
qed (auto intro: lockdrop_run.intros)

subsection \<open>What links the two\<close>

definition linked :: "lockdrop \<Rightarrow> pcl_lockdrop \<Rightarrow> bool" where
  "linked s t \<longleftrightarrow> (\<forall>k li. map_of (pl_lockups t) k = Some li \<longrightarrow>
     (\<exists>u n. lockup_view s k = Some (u, Some n, pk_unlock_timestamp li)))"

text \<open>Nothing that is paid out changes.\<close>

definition view_grows :: "lockdrop \<Rightarrow> lockdrop \<Rightarrow> bool" where
  "view_grows s s' \<longleftrightarrow> (\<forall>k u n e. lockup_view s k = Some (u, Some n, e) \<longrightarrow> lockup_view s' k = Some (u, Some n, e))"

lemma view_grows_same: "lockup_view s' = lockup_view s \<Longrightarrow> view_grows s s'"
  by (simp add: view_grows_def)

lemma view_grows_trans: "view_grows s u \<Longrightarrow> view_grows u t \<Longrightarrow> view_grows s t"
  by (simp add: view_grows_def)

lemma view_grows_pay:
  assumes "not_paid_out s k" and "lockup_view s' = (lockup_view s)(k \<mapsto> v)"
  shows "view_grows s s'"
  unfolding view_grows_def
proof (intro allI impI)
  fix k' u n e
  assume "lockup_view s k' = Some (u, Some n, e)"
  moreover from this assms(1) have "k' \<noteq> k" by (auto simp: not_paid_out_def)
  ultimately show "lockup_view s' k' = Some (u, Some n, e)" using assms(2) by simp
qed

lemma linked_grows:
  assumes "linked s t" and "view_grows s s'"
  shows "linked s' t"
  unfolding linked_def
proof (intro allI impI)
  fix k li
  assume "map_of (pl_lockups t) k = Some li"
  then obtain u n where "lockup_view s k = Some (u, Some n, pk_unlock_timestamp li)"
    using assms(1) unfolding linked_def by blast
  then have "lockup_view s' k = Some (u, Some n, pk_unlock_timestamp li)"
    using assms(2) unfolding view_grows_def by blast
  then show "\<exists>u n. lockup_view s' k = Some (u, Some n, pk_unlock_timestamp li)" by blast
qed

lemma linked_absent:
  assumes "linked s t" and "not_paid_out s k"
  shows "map_of (pl_lockups t) k = None"
proof (rule ccontr)
  assume "map_of (pl_lockups t) k \<noteq> None"
  then obtain li where "map_of (pl_lockups t) k = Some li" by auto
  then obtain u n where "lockup_view s k = Some (u, Some n, pk_unlock_timestamp li)"
    using assms(1) unfolding linked_def by blast
  then show False using assms(2) by (simp add: not_paid_out_def)
qed

subsection \<open>The side of the PCL lockdrop\<close>

definition pcl_serves :: "addr \<Rightarrow> pcl_lockdrop \<Rightarrow> bool" where
  "pcl_serves x t \<longleftrightarrow> map_option pc_xyk_lockdrop_contract (pl_config t) = Some x"

definition pcl_unlocks :: "pcl_lockdrop \<Rightarrow> lockup_key \<Rightarrow> u64 option" where
  "pcl_unlocks t k = map_option pk_unlock_timestamp (map_of (pl_lockups t) k)"

lemma pcl_unlocks_terms: "pcl_unlocks t k = map_option pk_unlock_timestamp (pcl_terms t k)"
  by (cases "map_of (pl_lockups t) k") (simp_all add: pcl_unlocks_def pcl_terms_def)

lemma linked_unlocks:
  assumes "linked s t" and "pcl_unlocks t' = pcl_unlocks t"
  shows "linked s t'"
  unfolding linked_def
proof (intro allI impI)
  fix k li
  assume "map_of (pl_lockups t') k = Some li"
  then have "pcl_unlocks t k = Some (pk_unlock_timestamp li)" using fun_cong [OF assms(2), of k] by (simp add: pcl_unlocks_def)
  then obtain li0 where "map_of (pl_lockups t) k = Some li0" "pk_unlock_timestamp li0 = pk_unlock_timestamp li"
    by (auto simp: pcl_unlocks_def)
  then show "\<exists>u n. lockup_view s k = Some (u, Some n, pk_unlock_timestamp li)"
    using assms(1) unfolding linked_def by metis
qed

lemma pcl_serves_fixed: "pcl_serves x t \<longleftrightarrow> map_option fst (pcl_fixed t) = Some x"
  by (cases "pl_config t") (simp_all add: pcl_serves_def pcl_fixed_def)

lemma pcl_tx_serves: "pcl_tx env info m t t' out \<Longrightarrow> pcl_serves x t \<Longrightarrow> pcl_serves x t'"
  by (simp add: pcl_serves_fixed pcl_tx_fixed)

lemma pcl_tx_unlocks:
  assumes "pcl_tx env info m t t' out" and "pcl_serves x t" and "sender info \<noteq> x"
  shows "pcl_unlocks t' = pcl_unlocks t \<and> pcl_deployed m t"
proof (cases m rule: pcl_message_cases)
  case (claim p dur w)
  show ?thesis using assms(1) [unfolded claim]
  proof (rule pcl_tx_claim, goal_cases)
    case (1 d u li ms own)
    have "pcl_unlocks u k = pcl_unlocks t k" for k
      using 1(1) by (simp add: pcl_unlocks_terms pcl_keeps_def)
    moreover have "pcl_unlocks t' k = pcl_unlocks u k" for k
      by (rule pcl_withdraw_effect [OF 1(6,3,4)]) (use 1(3) in \<open>auto simp: pcl_unlocks_def map_of_save\<close>)
    ultimately show ?case using claim by (simp add: fun_eq_iff pcl_deployed_def)
  qed
next
  case (migrate p a dur user i stake)
  from assms(1) obtain d :: pcl_deps and u ms where
    "pcl_handle_migrate_xyk_liquidity d env info p a dur user i stake t = Ok (u, ms)"
    by (auto simp: migrate elim!: pcl_tx.cases)
  then have False
    using assms(2,3) by (auto simp: pcl_handle_migrate_xyk_liquidity_def pcl_load_config_def pcl_serves_def)
  then show ?thesis by simp
next
  case admin
  then show ?thesis
    using pcl_tx_admin [OF assms(1) admin] by (cases m) (simp_all add: pcl_administration_def pcl_deployed_def
        pcl_unlocks_def fun_eq_iff)
qed

subsection \<open>Queues\<close>

text \<open>Inert messages neither pay out nor migrate; waiting ones may start the migration of a lockup.\<close>

definition inert :: "env \<Rightarrow> addr \<Rightarrow> msg \<Rightarrow> bool" where
  "inert env q m = (\<not> handover_msg q m \<and> (case own_callback env m of
       None \<Rightarrow> True | Some (UpdatePoolOnDualRewardsClaim p n ns) \<Rightarrow> True | _ \<Rightarrow> False))"

definition waiting :: "env \<Rightarrow> addr \<Rightarrow> msg \<Rightarrow> bool" where
  "waiting env q m = (inert env q m \<or>
     (\<exists>p a dur. own_callback env m = Some (InitMigrateLockupToPCLPoolsCallback p a dur)))"

definition paid_user :: "lockdrop \<Rightarrow> addr \<Rightarrow> bool" where
  "paid_user s a \<longleftrightarrow> ntrn_transferred (load_user_or_default s a)"

definition moved_out :: "lockdrop \<Rightarrow> pcl_lockdrop \<Rightarrow> lockup_key \<Rightarrow> bool" where
  "moved_out s t k \<longleftrightarrow> map_of (pl_lockups t) k = None \<and> (\<exists>u n e. lockup_view s k = Some (u, Some n, e))"

text \<open>The message at work: a lockup that the PCL lockdrop does not have yet, and of a paid user from
  the second callback of its migration on.\<close>

definition at_work :: "env \<Rightarrow> addr \<Rightarrow> lockdrop \<Rightarrow> pcl_lockdrop \<Rightarrow> msg \<Rightarrow> bool" where
  "at_work env q s t m = (case own_callback env m of
       Some (WithdrawUserLockupRewardsCallback p a dur w) \<Rightarrow> not_paid_out s (p, a, dur)
     | Some (TransferAllRewardsBeforeMigrationCallback p a dur) \<Rightarrow> not_paid_out s (p, a, dur)
     | Some (WithdrawUserLockupCallback p a dur g lp n) \<Rightarrow> not_paid_out s (p, a, dur) \<and> paid_user s a
     | Some (MigrateUserLockupToPCLPairCallback p a dur n denom m) \<Rightarrow> moved_out s t (p, a, dur) \<and> paid_user s a
     | Some cb \<Rightarrow> False
     | None \<Rightarrow> (case m of
         WasmExecute c (MigrateXYKLockup p a dur ui li stake) fs \<Rightarrow>
           moved_out s t (p, a, dur) \<and> ntrn_transferred ui \<and>
           lockup_view s (p, a, dur) = Some (lp_units_locked li, astroport_lp_transferred li, unlock_timestamp li)
       | _ \<Rightarrow> False))"

fun handover_queue :: "env \<Rightarrow> addr \<Rightarrow> lockdrop \<Rightarrow> pcl_lockdrop \<Rightarrow> msg list \<Rightarrow> bool" where
  "handover_queue env q s t [] = True"
| "handover_queue env q s t (m # ms) =
     (if inert env q m then handover_queue env q s t ms
      else (waiting env q m \<or> at_work env q s t m) \<and> list_all (waiting env q) ms)"

lemma inert_waiting: "inert env q m \<Longrightarrow> waiting env q m"
  by (simp add: waiting_def)

lemma list_inert_waiting: "list_all (inert env q) ms \<Longrightarrow> list_all (waiting env q) ms"
  by (auto simp: list_all_iff waiting_def)

lemma handover_queue_waiting: "list_all (waiting env q) ms \<Longrightarrow> handover_queue env q s t ms"
  by (induction ms) auto

lemma handover_queue_inert:
  "list_all (inert env q) ns \<Longrightarrow> handover_queue env q s t (ns @ ms) = handover_queue env q s t ms"
  by (induction ns) auto

lemma inert_simps [simp]:
  "inert env q (BankSend a cs)" "inert env q (WasmExecute c (GeneratorWithdraw lp n) fs)"
  "inert env q (WasmExecute c (GeneratorClaimRewards lps) fs)"
  "inert env q (WasmExecute c (Cw20Transfer a n) fs)" "inert env q (WasmExecute c (Cw20Send a n h) fs)"
  "inert env q (WasmExecute c (Cw20BurnFrom a n) fs)"
  "inert env q (WasmExecute c (Cw20IncreaseAllowance a n k) fs)"
  "inert env q (WasmExecute c (LockdropCallback (UpdatePoolOnDualRewardsClaim p n ns)) fs)"
  by (simp_all add: inert_def)

lemma claim_generator_rewards_inert:
  "claim_generator_rewards d env p lp g = Ok ms \<Longrightarrow> list_all (inert env q) ms"
  by (auto simp: claim_generator_rewards_def Let_def split: if_splits)

lemma into_msgs_inert:
  "try_map (\<lambda>asset. into_msg asset a) assets = Ok ms \<Longrightarrow> list_all (inert env q) ms"
  by (induction assets arbitrary: ms) (auto simp: into_msg_cases split: asset_info.splits)

lemma one_time_rewards_paid:
  assumes "one_time_rewards d cfg a (load_user_or_default s a) s = Ok (s', ms)"
  shows "list_all (inert env q) ms \<and> paid_user s' a \<and> l_lockups s' = l_lockups s"
  using assms
  by (auto simp: one_time_rewards_def claim_airdrop_tokens_with_multiplier_msg_def Let_def paid_user_def
      load_user_or_default_def map_of_save split: if_splits)

lemma one_time_rewards_inert:
  assumes "one_time_rewards d cfg a user s = Ok (s', ms)"
  shows "list_all (inert env q) ms \<and> l_lockups s' = l_lockups s"
  using assms
  by (auto simp: one_time_rewards_def claim_airdrop_tokens_with_multiplier_msg_def Let_def split: if_splits)

lemma withdraw_generator_rewards_inert:
  assumes "withdraw_generator_rewards d pool g a user w n li = Ok (li', ms)"
  shows "list_all (inert env q) ms"
proof (cases "is_staked pool")
  case True
  then obtain pending_proxy proxy_ms rest1 rest2 where
    "try_map (\<lambda>asset. into_msg asset a) pending_proxy = Ok proxy_ms"
    "ms = rest1 @ proxy_ms @ rest2" "list_all (inert env q) rest1" "list_all (inert env q) rest2"
    using assms unfolding withdraw_generator_rewards_def by clarsimp
  then show ?thesis using into_msgs_inert by simp
qed (use assms in \<open>simp add: withdraw_generator_rewards_def\<close>)

subsection \<open>The callbacks of the lockdrop\<close>

definition handover_step :: "env \<Rightarrow> addr \<Rightarrow> lockdrop \<Rightarrow> pcl_lockdrop \<Rightarrow> lockdrop \<Rightarrow> msg list \<Rightarrow> bool" where
  "handover_step env q s t u ns \<longleftrightarrow> view_grows s u \<and>
     (\<forall>ms. list_all (waiting env q) ms \<longrightarrow> handover_queue env q u t (ns @ ms))"

lemma handover_stepI:
  assumes "view_grows s u" and "list_all (inert env q) ns" and "waiting env q m \<or> at_work env q u t m"
  shows "handover_step env q s t u (ns @ [m])"
  using assms by (auto simp: handover_step_def handover_queue_inert handover_queue_waiting)

lemma handover_step_inert:
  "view_grows s u \<Longrightarrow> list_all (inert env q) ns \<Longrightarrow> handover_step env q s t u ns"
  by (auto simp: handover_step_def handover_queue_inert handover_queue_waiting)

lemma release_lockup_view:
  assumes "release_lockup (p, a, dur) pool li n s = Ok s'" "lockdrop_books s" "map_of (l_pools s) p = Some pool"
    "compatible_load d s (p, a, dur) g = Ok li0" "astroport_lp_transferred li0 = None"
    "lp_units_locked li = lp_units_locked li0" "unlock_timestamp li = unlock_timestamp li0"
  shows "lockup_view s' = (lockup_view s)((p, a, dur) \<mapsto> (lp_units_locked li0, Some n, unlock_timestamp li0))"
  using books_release [OF assms] by simp

lemma withdraw_rewards_handover:
  assumes "callback_withdraw_user_rewards_for_lockup_optional_withdraw d env p a dur w s = Ok (s', ms)"
    and b: "lockdrop_books s" and n: "not_paid_out s (p, a, dur)"
  shows "handover_step env q s t s' ms"
  using assms(1)
proof (rule withdraw_rewards_inversion, goal_cases)
  case (1 cfg pool li generator lp_amount li' reward_ms s1 unlock_ms one_ms)
  have live: "astroport_lp_transferred li = None" using n not_paid_out_load [OF 1(3)] by simp
  note f = withdraw_generator_rewards_frame [OF 1(6), of env]
  have "view_grows s s1"
  proof (cases w)
    case True
    then have rel: "release_lockup (p, a, dur) pool li' lp_amount s = Ok s1" using 1(7) by simp
    show ?thesis by (rule view_grows_pay [OF n release_lockup_view [OF rel b 1(2,3) live]]) (use f in simp_all)
  next
    case False
    then show ?thesis using 1(7) f touch_lockup [OF b 1(3), of li'] view_grows_same [of s1 s] by simp
  qed
  moreover have "view_grows s1 s'"
    using one_time_rewards_inert [OF 1(8)] by (intro view_grows_same) (simp add: lockup_view_def fun_eq_iff)
  moreover have "list_all (inert env q) ms"
    using 1(7,9) withdraw_generator_rewards_inert [OF 1(6)] one_time_rewards_inert [OF 1(8)] by (auto split: if_splits)
  ultimately show ?case using handover_step_inert view_grows_trans by blast
qed

lemma transfer_rewards_handover:
  assumes "callback_transfer_all_rewards_before_migration d env p a dur s = Ok (s', ms)"
    and n: "not_paid_out s (p, a, dur)"
  shows "handover_step env q s t s' ms"
proof -
  from assms(1) obtain cfg generator lp n' k cs assets proxy_ms one_ms where
    o: "one_time_rewards d cfg a (load_user_or_default s a) s = Ok (s', one_ms)" and
    p: "try_map (\<lambda>asset. into_msg asset a) assets = Ok proxy_ms" and
    ms: "ms = ((if 0 < (k :: u128) then [BankSend a cs] else []) @ proxy_ms @ one_ms) @
      [WasmExecute (this_contract env) (LockdropCallback (WithdrawUserLockupCallback p a dur generator lp n')) []]"
    unfolding callback_transfer_all_rewards_before_migration_def
    by (clarsimp simp: Let_def)
  note f = one_time_rewards_paid [OF o, of env q]
  have v: "lockup_view s' = lockup_view s" using f by (simp add: lockup_view_def fun_eq_iff)
  show ?thesis
    unfolding ms
    by (rule handover_stepI [OF view_grows_same [OF v]])
      (use f into_msgs_inert [OF p] n v in \<open>auto simp: at_work_def not_paid_out_def\<close>)
qed

lemma withdraw_lockup_handover:
  assumes "callback_withdraw_user_lockup d env p a dur g lp n s = Ok (s', ms)"
    and b: "lockdrop_books s" and np: "not_paid_out s (p, a, dur)" and u: "paid_user s a" and l: "linked s t"
  shows "handover_step env q s t s' ms"
proof -
  from assms(1) obtain cfg :: lockdrop_config and li pool ns nb den m where
    load: "compatible_load d s (p, a, dur) (lc_generator cfg) = Ok li" and
    pool: "map_of (l_pools s) p = Some pool" and
    rel: "release_lockup (p, a, dur) pool li n s = Ok s'" and
    ns: "list_all (inert env q) ns" and
    ms: "ms = ns @ [WasmExecute (this_contract env)
      (LockdropCallback (MigrateUserLockupToPCLPairCallback p a dur nb den m)) []]"
    unfolding callback_withdraw_user_lockup_def load_pool_def
    by clarsimp (rule that [of _ _ _ "[_, _]"]; simp)
  have live: "astroport_lp_transferred li = None" using np not_paid_out_load [OF load] by simp
  note v = release_lockup_view [OF rel b pool load live refl refl]
  have "paid_user s' a" using u rel by (auto simp: release_lockup_Ok paid_user_def load_user_or_default_def)
  then show ?thesis
    unfolding ms
    using linked_absent [OF l np] v
    by (intro handover_stepI [OF view_grows_pay [OF np v] ns]) (simp add: at_work_def moved_out_def)
qed

lemma migrate_pair_handover:
  assumes "callback_migrate_user_lockup_to_pcl_pair d env p a dur n denom m s = Ok (s', ms)"
    and "moved_out s t (p, a, dur)" and "paid_user s a"
  shows "handover_step env q s t s' ms"
proof -
  from assms(1) obtain g li pcl stake cs where
    load: "compatible_load d s (p, a, dur) g = Ok li" and s': "s' = s" and
    ms: "ms = [] @ [WasmExecute pcl (MigrateXYKLockup p a dur (load_user_or_default s a) li stake) cs]"
    unfolding callback_migrate_user_lockup_to_pcl_pair_def by (auto simp: Let_def)
  show ?thesis
    unfolding ms s'
    by (rule handover_stepI) (use assms(2,3) lockup_view_load [OF load] in
        \<open>simp_all add: view_grows_same at_work_def paid_user_def\<close>)
qed

lemma init_migrate_handover:
  assumes "callback_init_migrate_lockup_to_pcl_pools d env p a dur s = Ok (s', ms)"
    and id: "addr_validate_identity d"
  shows "handover_step env q s t s' ms"
proof -
  from assms(1) obtain r where r: "query_lockup_info d env a p dur s = Ok r"
    unfolding callback_init_migrate_lockup_to_pcl_pools_def by auto
  from r obtain cfg :: lockdrop_config and b li where l: "compatible_load d s (p, b, dur) (lc_generator cfg) = Ok li"
    and b': "addr_validate d a = Ok b" and live: "lr_astroport_lp_transferred r = astroport_lp_transferred li"
    unfolding query_lockup_info_def by clarsimp
  have ba: "b = a" using id b' by (rule addr_validate_identityD)
  show ?thesis
  proof (cases "lr_astroport_lp_transferred r = None")
    case False
    then have "s' = s" "ms = []"
      using assms(1) r by (auto simp: callback_init_migrate_lockup_to_pcl_pools_def)
    then show ?thesis by (simp add: handover_step_inert view_grows_same)
  next
    case True
    then obtain lp g claim_ms where s': "s' = s" and c: "claim_generator_rewards d env p lp g = Ok claim_ms"
      and ms: "ms = claim_ms @ [WasmExecute (this_contract env)
        (LockdropCallback (TransferAllRewardsBeforeMigrationCallback p a dur)) []]"
      using assms(1) r by (auto simp: callback_init_migrate_lockup_to_pcl_pools_def)
    have "not_paid_out s (p, a, dur)" using True live not_paid_out_load [OF l] ba by simp
    then show ?thesis
      unfolding ms s'
      by (intro handover_stepI claim_generator_rewards_inert [OF c]) (simp_all add: view_grows_same at_work_def)
  qed
qed


lemma update_pool_handover:
  assumes "update_pool_on_dual_rewards_claim d env p n ns s = Ok (s', ms)"
  shows "lockup_view s' = lockup_view s \<and> l_users s' = l_users s \<and> ms = []"
  using assms unfolding update_pool_on_dual_rewards_claim_def load_pool_def
  by (auto simp: lockup_view_def fun_eq_iff)

lemma handover_queue_frame:
  assumes "lockup_view s' = lockup_view s" "l_users s' = l_users s"
  shows "handover_queue env q s' t ms = handover_queue env q s t ms"
proof -
  have "at_work env q s' t m = at_work env q s t m" for m
    unfolding at_work_def not_paid_out_def moved_out_def paid_user_def load_user_or_default_def assms by (rule refl)
  then show ?thesis by (induction ms) auto
qed

lemma callback_handover:
  assumes "receive_lockdrop_callback d env info cb s = Ok (u, ns)" and "addr_validate_identity d"
    and b: "lockdrop_books s" and l: "linked s t"
    and hq: "handover_queue env q s t (WasmExecute (this_contract env) (LockdropCallback cb) fs # ms)"
  shows "view_grows s u \<and> handover_queue env q u t (ns @ ms)"
proof -
  let ?m = "WasmExecute (this_contract env) (LockdropCallback cb) fs :: msg"
  have h: "handle_lockdrop_callback d env cb s = Ok (u, ns)"
    using assms(1) by (simp add: receive_lockdrop_callback_def split: if_splits)
  show ?thesis
  proof (cases "inert env q ?m")
    case True
    then obtain p n ps where "cb = UpdatePoolOnDualRewardsClaim p n ps"
      by (auto simp: inert_def split: lockdrop_callback.splits)
    then have f: "lockup_view u = lockup_view s \<and> l_users u = l_users s \<and> ns = []"
      using h update_pool_handover [of d env p n ps s u ns] by simp
    then show ?thesis using hq True handover_queue_frame [of u s env q t ms] by (simp add: view_grows_same)
  next
    case False
    then have w: "waiting env q ?m \<or> at_work env q s t ?m" and ms: "list_all (waiting env q) ms"
      using hq by simp_all
    have "handover_step env q s t u ns"
    proof (cases cb)
      case (UpdatePoolOnDualRewardsClaim p n ps)
      then show ?thesis using False by simp
    next
      case (WithdrawUserLockupRewardsCallback p a dur w')
      then show ?thesis using h w b False withdraw_rewards_handover [of d env p a dur w' s u ns q t]
        by (simp add: waiting_def at_work_def)
    next
      case (InitMigrateLockupToPCLPoolsCallback p a dur)
      then show ?thesis using h assms(2) init_migrate_handover [of d env p a dur s u ns q t] by simp
    next
      case (TransferAllRewardsBeforeMigrationCallback p a dur)
      then show ?thesis using h w False transfer_rewards_handover [of d env p a dur s u ns q t]
        by (simp add: waiting_def at_work_def)
    next
      case (WithdrawUserLockupCallback p a dur g lp n)
      then show ?thesis using h w False b l withdraw_lockup_handover [of d env p a dur g lp n s u ns t q]
        by (simp add: waiting_def at_work_def)
    next
      case (MigrateUserLockupToPCLPairCallback p a dur n denom m)
      then show ?thesis using h w False migrate_pair_handover [of d env p a dur n denom m s u ns t q]
        by (simp add: waiting_def at_work_def)
    qed
    then show ?thesis using ms by (simp add: handover_step_def)
  qed
qed

text \<open>The message that arrives at the PCL lockdrop.\<close>

lemma migrate_linked:
  assumes tx: "pcl_tx env info (PMigrateXYKLiquidity p a dur ui li stake) t t1 out"
    and "lockup_view s (p, a, dur) = Some (lp_units_locked li, astroport_lp_transferred li, unlock_timestamp li)"
    and m: "moved_out s t (p, a, dur)" and l: "linked s t"
  shows "linked s t1"
  using tx
proof (rule pcl_tx_migrate, goal_cases)
  case (1 d c ps lp n ms)
  show ?case
  proof (rule pcl_finish_Ok [OF 1(1)], goal_cases)
    case (1 pool diff total' weighted in_lockups)
    show ?case
      unfolding linked_def
    proof (intro allI impI)
      fix k v
      assume v: "map_of (pl_lockups t1) k = Some v"
      show "\<exists>u n. lockup_view s k = Some (u, Some n, pk_unlock_timestamp v)"
      proof (cases "k = (p, a, dur)")
        case True
        then show ?thesis
          using v 1(4) assms(2) m by (auto simp: map_of_save moved_out_def from_xyk_lockup_info_def)
      next
        case False
        then have "map_of (pl_lockups t) k = Some v" using v 1(4) by (simp add: map_of_save)
        then show ?thesis using l unfolding linked_def by blast
      qed
    qed
  qed
qed

lemma handover_run_linked:
  "handover_run env q ms s t s' t' \<Longrightarrow> lockdrop_books s \<Longrightarrow> queue_ok env s ms \<Longrightarrow> handover_queue env q s t ms \<Longrightarrow>
   linked s t \<Longrightarrow> pcl_serves x t \<Longrightarrow> pcl_reachable t \<Longrightarrow> linked s' t' \<and> pcl_serves x t' \<and> pcl_reachable t'"
proof (induction rule: handover_run.induct)
  case (other m ms s t s' t')
  have "inert env q m \<or> \<not> at_work env q s t m"
    using other.hyps(1,2) by (cases m) (auto simp: inert_def)
  then have "inert env q m" using other.prems(3) other.hyps(1,2) by (auto simp: inert_def)
  then show ?case using other by simp
next
  case (callback d info cb s u ns ms t s' t' fs)
  have "run_step_ok env s u ns ms" using callback_step_ok [OF callback.hyps(1,2) callback.prems(1,2)] .
  moreover have "view_grows s u \<and> handover_queue env q u t (ns @ ms)"
    using callback_handover [OF callback.hyps(1,2) callback.prems(1,4,3)] .
  ultimately show ?case
    using callback.IH callback.prems linked_grows by (simp add: run_step_ok_def)
next
  case (migrate fs p a dur ui li stake t t1 out ms s s' t')
  have w: "at_work env q s t (WasmExecute q (MigrateXYKLockup p a dur ui li stake) fs)"
    and ms: "list_all (waiting env q) ms"
    using migrate.prems(3) by (auto simp: inert_def waiting_def)
  then have "pcl_deployed (PMigrateXYKLiquidity p a dur ui li stake) t"
    by (simp add: at_work_def moved_out_def pcl_deployed_def)
  then have "pcl_reachable t1" using pcl_reachable.tx [OF migrate.prems(6) migrate.hyps(1)] by blast
  moreover have "linked s t1"
    using migrate_linked [OF migrate.hyps(1)] w migrate.prems(4) by (simp add: at_work_def)
  moreover have "pcl_serves x t1" using pcl_tx_serves [OF migrate.hyps(1) migrate.prems(5)] .
  moreover have "queue_ok env s ms" using migrate.prems(2) by simp
  ultimately show ?case using migrate.IH migrate.prems(1) handover_queue_waiting [OF ms] by blast
qed simp


subsection \<open>The handlers of the lockdrop\<close>

definition handover_ready :: "env \<Rightarrow> addr \<Rightarrow> lockdrop \<Rightarrow> pcl_lockdrop \<Rightarrow> lockdrop \<Rightarrow> msg list \<Rightarrow> bool" where
  "handover_ready env q s t u ms \<longleftrightarrow> lockdrop_books u \<and> view_grows s u \<and> queue_ok env u ms \<and> handover_queue env q u t ms"

lemma queue_ok_inert: "list_all (inert env q) ms \<Longrightarrow> queue_ok env u ms"
  by (induction ms) (auto simp: inert_def split: option.splits lockdrop_callback.splits)

lemma handover_ready_inert:
  "lockdrop_books u \<Longrightarrow> view_grows s u \<Longrightarrow> list_all (inert env q) ms \<Longrightarrow> handover_ready env q s t u ms"
  using queue_ok_inert handover_queue_inert [of env q ms u t "[]"] by (simp add: handover_ready_def)

lemma handover_ready_plain:
  assumes "plain_step s u ms" "list_all (inert env q) ms" "l_lockups u = l_lockups s \<or> open_lockups s"
  shows "handover_ready env q s t u ms"
proof (rule handover_ready_inert)
  show "view_grows s u"
    using assms(3)
  proof
    assume "open_lockups s"
    then show ?thesis by (auto simp: view_grows_def open_lockups_view simp del: split_paired_All)
  next
    assume "l_lockups u = l_lockups s"
    then show ?thesis by (rule view_grows_same [OF lockup_view_frame])
  qed
qed (use assms(1,2) in \<open>simp_all add: plain_step_def\<close>)

lemma claim_ready:
  assumes h: "handle_claim_rewards_and_unlock_for_lockup d env info p dur w s = Ok (u, ms)" and b: "lockdrop_books s"
  shows "handover_ready env q s t u ms"
  using h
proof (rule claim_rewards_inversion, goal_cases)
  case (1 cfg total_share window_end pool user s1 user' li claim_ms)
  have "rewards_frame s s1"
    using 1(7) update_positions_frame [of d cfg total_share "sender info" s s1, OF _ b] b
    by (auto simp: rewards_frame_def split: if_splits)
  then have v: "lockup_view u = lockup_view s" by (simp add: rewards_frame_def 1(8) lockup_view_def fun_eq_iff)
  have i: "list_all (inert env q) claim_ms"
    using 1(12) claim_generator_rewards_inert by (auto split: if_splits)
  have "handover_queue env q u t ms"
    using not_paid_out_load [OF 1(9)] 1(11)
    by (simp add: 1(13) handover_queue_inert [OF i] at_work_def)
  then show ?case using claim_rewards_start [OF h b] view_grows_same [OF v] by (simp add: handover_ready_def)
qed

lemma migrate_ready:
  assumes h: "handle_migrate_liquidity_to_pcl_pools d info env a s = Ok (u, ms)" and b: "lockdrop_books s"
  shows "handover_ready env q s t u ms"
proof -
  from h obtain a' cfg total_share user where
    u: "(if total_ntrn_rewards user = 0 then
          and_then (update_user_lockup_positions_and_calc_rewards d cfg total_share a' s) (\<lambda>(s, r).
          Ok (s\<lparr>l_users := save a' (user\<lparr>total_ntrn_rewards := r\<rparr>) (l_users s)\<rparr>))
        else Ok s) = Ok u"
    and ms: "ms = map (\<lambda>(p, dur). WasmExecute (this_contract env)
            (LockdropCallback (InitMigrateLockupToPCLPoolsCallback p a' dur)) []) (user_lockups u a')"
    unfolding handle_migrate_liquidity_to_pcl_pools_def lockdrop_load_config_def by clarsimp
  have "lockup_view u = lockup_view s"
  proof (cases "total_ntrn_rewards user = 0")
    case True
    then obtain s1 r where f: "update_user_lockup_positions_and_calc_rewards d cfg total_share a' s = Ok (s1, r)"
      and u1: "u = s1\<lparr>l_users := save a' (user\<lparr>total_ntrn_rewards := r\<rparr>) (l_users s1)\<rparr>"
      using u by auto
    show ?thesis using update_positions_frame [OF f b] by (simp add: u1 rewards_frame_def lockup_view_def fun_eq_iff)
  qed (use u in simp)
  moreover have "list_all (waiting env q) ms" unfolding ms by (auto simp: list_all_iff waiting_def)
  ultimately show ?thesis
    using migrate_start [OF h b] by (simp add: handover_ready_def view_grows_same handover_queue_waiting)
qed

lemma receive_inert:
  assumes "lockdrop_receive_cw20 d env info cs amount hook s = Ok (u, ms)"
  shows "list_all (inert env q) ms"
  using assms unfolding lockdrop_receive_cw20_def handle_initialize_pool_def stake_messages_def
  by (cases hook) (auto simp: Let_def)

lemma admin_inert:
  "handle_increasing_ntrn_incentives env info s = Ok (u, ms) \<Longrightarrow> ms = []"
  "handle_update_config d info na ng s = Ok (u, ms) \<Longrightarrow> ms = []"
  "lockdrop_propose_new_owner d' env info n e s = Ok (u, ms) \<Longrightarrow> ms = []"
  "lockdrop_drop_ownership_proposal info s = Ok (u, ms) \<Longrightarrow> ms = []"
  "lockdrop_claim_ownership env info s = Ok (u, ms) \<Longrightarrow> ms = []"
  "handle_set_token_info d info usdc atom g s = Ok (u, ms) \<Longrightarrow> ms = []"
  by (auto simp: handle_increasing_ntrn_incentives_def handle_update_config_def lockdrop_propose_new_owner_def
      lockdrop_drop_ownership_proposal_def lockdrop_claim_ownership_def handle_set_token_info_def)

lemma execute_ready:
  assumes h: "lockdrop_execute d env info m s = Ok (u, ms)" and i: "lockdrop_inv (block_time env) s"
    and "deployed_use env m s" and "sender info \<noteq> this_contract env"
  shows "handover_ready env q s t u ms"
proof -
  have b: "lockdrop_books s" using i by (simp add: lockdrop_inv_def)
  note admin = admin_plain [OF b]
  show ?thesis
  proof (cases m)
    case (LClaimRewardsAndOptionallyUnlock p dur w)
    then show ?thesis using h claim_ready [OF _ b] by simp
  next
    case (LMigrateLiquidityToPCLPools a)
    then show ?thesis using h migrate_ready [OF _ b] by simp
  next
    case (LIncreaseLockupFor a p n dur)
    then have h': "handle_increase_lockup d env info a p dur n s = Ok (u, ms)" using h by simp
    have "open_lockups s"
      using h' by (rule increase_inversion) (rule windows_end_open [OF i], auto simp: word_less_nat_alt)
    then show ?thesis
      using handover_ready_plain [OF increase_plain [OF h' i]] books_increase [OF h' b] by simp
  next
    case (LWithdrawFromLockup a p dur n)
    then have h': "handle_withdraw_from_lockup d env info a p dur n s = Ok (u, ms)" using h by simp
    have "open_lockups s"
      using h' by (rule withdraw_from_lockup_inversion)
        (rule windows_end_open [OF i], auto simp: word_less_nat_alt withdrawal_window_end_def lock_window_end_def)
    then show ?thesis
      using handover_ready_plain [OF withdraw_plain [OF h' i]] books_withdraw [OF h' b] by simp
  next
    case (LSetTokenInfo atom usdc g)
    then have h': "handle_set_token_info d info usdc atom g s = Ok (u, ms)" and e: "l_lockups s = []"
      using h assms(3) by (simp_all add: deployed_use_def)
    from set_token_info_start [OF h' b e] have "plain_step s u ms" by (simp add: plain_step_def open_lockups_def)
    then show ?thesis
      using handover_ready_plain admin_lockups(7) [OF h'] admin_inert(6) [OF h'] by simp
  next
    case (LReceive cs n hook)
    then have h': "lockdrop_receive_cw20 d env info cs n hook s = Ok (u, ms)" using h by simp
    show ?thesis
      using handover_ready_plain [OF admin(6) [OF h'] receive_inert [OF h']] admin_lockups(6) [OF h'] by simp
  next
    case (LCallback cb)
    then show ?thesis using h assms(4) by (simp add: receive_lockdrop_callback_def)
  next
    case (LUpdateConfig na ng)
    then have h': "handle_update_config d info na ng s = Ok (u, ms)" using h by simp
    show ?thesis using handover_ready_plain [OF admin(2) [OF h']] admin_inert(2) [OF h'] admin_lockups(2) [OF h'] by simp
  next
    case LIncreaseNTRNIncentives
    then have h': "handle_increasing_ntrn_incentives env info s = Ok (u, ms)" using h by simp
    show ?thesis using handover_ready_plain [OF admin(1) [OF h']] admin_inert(1) [OF h'] admin_lockups(1) [OF h'] by simp
  next
    case (LProposeNewOwner n e)
    then have h': "lockdrop_propose_new_owner d env info n e s = Ok (u, ms)" using h by simp
    show ?thesis using handover_ready_plain [OF admin(3) [OF h']] admin_inert(3) [OF h'] admin_lockups(3) [OF h'] by simp
  next
    case LDropOwnershipProposal
    then have h': "lockdrop_drop_ownership_proposal info s = Ok (u, ms)" using h by simp
    show ?thesis using handover_ready_plain [OF admin(4) [OF h']] admin_inert(4) [OF h'] admin_lockups(4) [OF h'] by simp
  next
    case LClaimOwnership
    then have h': "lockdrop_claim_ownership env info s = Ok (u, ms)" using h by simp
    show ?thesis using handover_ready_plain [OF admin(5) [OF h']] admin_inert(5) [OF h'] admin_lockups(5) [OF h'] by simp
  qed
qed

subsection \<open>Reachable pairs\<close>

lemma handover_inv:
  "handover x q time s t \<Longrightarrow> lockdrop_reachable time s \<and> pcl_reachable t \<and> linked s t \<and> pcl_serves x t"
proof (induction rule: handover.induct)
  case (start d env info m s ms d' info' m' t ms')
  have "pl_lockups t = []"
    using start(2) by (auto simp: pcl_instantiate_def pcl_empty_def split: if_splits)
  then show ?case
    using lockdrop_reachable.start [OF start(1)] pcl_reachable.start [OF start(2)] start(3)
    by (simp add: linked_def pcl_serves_def)
next
  case (lockdrop time s t env info d m u ms s' t')
  have tx: "lockdrop_tx env info m s s'"
    using lockdrop_tx.intros [OF _ lockdrop.hyps(5-7) handover_run_lockdrop [OF lockdrop.hyps(8)]] lockdrop.hyps(3,4)
    by simp
  have i: "lockdrop_inv (block_time env) s"
    using lockdrop_inv_later [OF reachable_inv lockdrop.hyps(2)] lockdrop.IH by blast
  have r: "handover_ready env q s t u ms"
    using execute_ready [OF lockdrop.hyps(5) i lockdrop.hyps(7)] lockdrop.hyps(3,4) by simp
  have "linked u t" using r lockdrop.IH linked_grows [of s t u] by (simp add: handover_ready_def)
  then have "linked s' t' \<and> pcl_serves x t' \<and> pcl_reachable t'"
    using handover_run_linked [OF lockdrop.hyps(8), where x = x] r lockdrop.IH by (simp add: handover_ready_def)
  then show ?case using lockdrop_reachable.tx [OF _ lockdrop.hyps(2) tx] lockdrop.IH by blast
next
  case (upgrade time s t d a s' ms)
  have "l_lockups s' = l_lockups s" using upgrade.hyps(2) by (auto simp: lockdrop_migrate_def)
  then have "linked s' t" using upgrade.IH linked_grows view_grows_same lockup_view_frame by blast
  then show ?case using upgrade.IH lockdrop_reachable.upgrade [OF _ upgrade.hyps(2)] by blast
next
  case (pcl time s t info env m t' out)
  have u: "pcl_unlocks t' = pcl_unlocks t \<and> pcl_deployed m t"
    using pcl_tx_unlocks [OF pcl.hyps(3) _ pcl.hyps(2)] pcl.IH by blast
  show ?case
    using pcl.IH u linked_unlocks pcl_tx_serves [OF pcl.hyps(3)] pcl_reachable.tx [OF _ pcl.hyps(3)] by blast
qed

text \<open>C3: When the lockdrop and the PCL lockdrop run together, each stays within its own reachable states (so what the PCL lockdrop assumes of migrations holds), and every lockup of the PCL lockdrop was paid out by the lockdrop, with the same unlock time: no lockup is on both sides or moves twice.\<close>
theorem handover_moves_each_lockup_once:
  assumes "handover x q time s t"
  shows "lockdrop_reachable time s \<and> pcl_reachable t \<and>
    (\<forall>k li. map_of (pl_lockups t) k = Some li \<longrightarrow>
      (\<exists>v n. map_of (l_lockups s) k = Some v \<and> stored_transferred v = Some n \<and>
        stored_unlock v = pk_unlock_timestamp li))"
proof -
  note inv = handover_inv [OF assms]
  have "\<exists>v n. map_of (l_lockups s) k = Some v \<and> stored_transferred v = Some n \<and> stored_unlock v = pk_unlock_timestamp li"
    if li: "map_of (pl_lockups t) k = Some li" for k li
  proof -
    have "linked s t" using inv by blast
    then obtain u n where "lockup_view s k = Some (u, Some n, pk_unlock_timestamp li)"
      using li unfolding linked_def by blast
    then show ?thesis by (auto simp: lockup_view_def)
  qed
  then show ?thesis using inv by blast
qed

subsection \<open>A lockup that moves\<close>

definition hr_deps :: "u128 \<Rightarrow> u128 \<Rightarrow> u128 \<Rightarrow> lockdrop_deps" where
  "hr_deps staked ntrn usdc = lr_deps\<lparr>bank_balance := (\<lambda>a d. Ok (if d = ''untrn'' then ntrn else usdc)),
     gen_deposit := (\<lambda>g lp a. Ok staked),
     pair_assets := (\<lambda>c. Ok [native_asset ''untrn'' 0, native_asset ''uusdc'' 0])\<rparr>"

lemma hr_validate: "addr_validate_identity (hr_deps staked ntrn usdc)"
  by (simp add: addr_validate_identity_def hr_deps_def lr_deps_def)

definition hr_upgraded :: lockdrop where
  "hr_upgraded = lr_staked\<lparr>l_pcl_contract := Some ''pcl''\<rparr>"

definition hr_rewarded :: lockdrop where
  "hr_rewarded = lr_claimed\<lparr>l_pcl_contract := Some ''pcl''\<rparr>"

definition hr_paid :: lockdrop where
  "hr_paid = hr_rewarded\<lparr>l_users := [(''alice'', pr_user)]\<rparr>"

definition hr_moved :: lockdrop where
  "hr_moved = hr_paid\<lparr>
     l_pools := lr_pools (lr_shrunk_pool\<lparr>incentives_share := 1, is_staked := True, amount_in_lockups := 0\<rparr>),
     l_lockups := [((USDC, ''alice'', 10), LockupV2 pr_arriving)],
     l_totals := [((USDC, ''alice''), 0)]\<rparr>"

lemmas hr_states = hr_deps_def hr_upgraded_def hr_rewarded_def hr_paid_def hr_moved_def pr_user_def pr_arriving_def

lemma hr_upgrade: "lockdrop_migrate lr_deps ''pcl'' lr_staked = Ok (hr_upgraded, [])"
  by (simp add: lockdrop_migrate_def lr_deps_def hr_upgraded_def)

lemma hr_start:
  "lockdrop_execute (hr_deps 800 500 500) (lr_env 177) (lr_call ''alice'') (LMigrateLiquidityToPCLPools None) hr_upgraded
     = Ok (hr_rewarded, [WasmExecute ''lockdrop'' (LockdropCallback (InitMigrateLockupToPCLPoolsCallback USDC ''alice'' 10)) []])"
  by (simp add: handle_migrate_liquidity_to_pcl_pools_def lr_loads hr_states lr_states eval_arith
      update_user_lockup_positions_and_calc_rewards_def user_lockups_def lockup_durations_def store_keys_def
      calc_lockup_reward_def lockup_incentives_def calculate_weight_def decimal256_one_def
      calculate_astro_incentives_for_lockup_def)

lemma hr_init:
  "receive_lockdrop_callback (hr_deps 800 500 500) (lr_env 177) (lr_call ''lockdrop'')
     (InitMigrateLockupToPCLPoolsCallback USDC ''alice'' 10) hr_rewarded
     = Ok (hr_rewarded, [WasmExecute ''lockdrop'' (LockdropCallback (TransferAllRewardsBeforeMigrationCallback USDC ''alice'' 10)) []])"
  by (simp add: receive_lockdrop_callback_def callback_init_migrate_lockup_to_pcl_pools_def query_lockup_info_def
      raw_generator_deposit_def lp_share_def claimable_generator_rewards_def pending_ntrn_reward_def
      claim_generator_rewards_def lr_loads hr_states lr_states eval_arith decimal_zero_def)

lemma hr_pay:
  "receive_lockdrop_callback (hr_deps 800 500 500) (lr_env 177) (lr_call ''lockdrop'')
     (TransferAllRewardsBeforeMigrationCallback USDC ''alice'' 10) hr_rewarded
     = Ok (hr_paid, [BankSend ''alice'' [\<lparr>coin_denom = ''untrn'', coin_amount = 1000\<rparr>],
         WasmExecute ''lockdrop'' (LockdropCallback (WithdrawUserLockupCallback USDC ''alice'' 10 ''gen'' ''usdclp'' 800)) []])"
  by (simp add: receive_lockdrop_callback_def callback_transfer_all_rewards_before_migration_def
      lockup_lp_amount_def lp_share_def pending_ntrn_reward_def pending_proxy_rewards_def one_time_rewards_def
      lr_loads hr_states lr_states eval_arith decimal_zero_def ntrn_denom_def)

lemma hr_withdraw:
  "receive_lockdrop_callback (hr_deps 800 500 500) (lr_env 177) (lr_call ''lockdrop'')
     (WithdrawUserLockupCallback USDC ''alice'' 10 ''gen'' ''usdclp'' 800) hr_paid
     = Ok (hr_moved, [WasmExecute ''gen'' (GeneratorWithdraw ''usdclp'' 800) [],
         WasmExecute ''usdclp'' (Cw20Send ''pair'' 800 WithdrawLiquidity) [],
         WasmExecute ''lockdrop'' (LockdropCallback
           (MigrateUserLockupToPCLPairCallback USDC ''alice'' 10 500 ''uusdc'' 500)) []])"
  by (simp add: receive_lockdrop_callback_def callback_withdraw_user_lockup_def paired_denom_def native_asset_def
 release_lockup_def sub_user_total_def lr_loads hr_states lr_states eval_arith ntrn_denom_def)

lemma hr_send:
  "receive_lockdrop_callback (hr_deps 0 900 800) (lr_env 177) (lr_call ''lockdrop'')
     (MigrateUserLockupToPCLPairCallback USDC ''alice'' 10 500 ''uusdc'' 500) hr_moved
     = Ok (hr_moved, [WasmExecute ''pcl'' (MigrateXYKLockup USDC ''alice'' 10 pr_user pr_arriving True) (funds pr_funded)])"
  by (simp add: receive_lockdrop_callback_def callback_migrate_user_lockup_to_pcl_pair_def
      lr_loads hr_states lr_states eval_arith ntrn_denom_def pr_funded_def)

lemma hr_arrive:
  "pcl_tx ((lr_env 177)\<lparr>this_contract := ''pcl''\<rparr>) \<lparr>sender = this_contract (lr_env 177), funds = funds pr_funded\<rparr>
     (PMigrateXYKLiquidity USDC ''alice'' 10 pr_user pr_arriving True) pr_fresh pr_staked
     [pr_provide, WasmExecute ''usdcpcl'' (Cw20Send ''inc'' 800 IncentivesDeposit) []]"
  using pr_migrate_tx by (simp add: pr_env_def lr_env_def pr_migrate_def pr_funded_def)

lemma hr_plain:
  assumes "handover ''lockdrop'' ''pcl'' time s t" "lockdrop_execute lr_deps (lr_env time') info m s = Ok (u, ms)"
    and "list_all (\<lambda>m. own_callback (lr_env time') m = None \<and> \<not> handover_msg ''pcl'' m) ms"
    and "sender info \<noteq> ''lockdrop''" "deployed_use (lr_env time') m s" "time \<le> time'"
  shows "handover ''lockdrop'' ''pcl'' time' u t"
proof -
  have "handover_run (lr_env time') ''pcl'' ms u t u t"
    using assms(3) by (induction ms) (auto intro: handover_run.intros)
  then show ?thesis
    using handover.lockdrop [OF assms(1), of "lr_env time'" info lr_deps m u ms u t] assms lr_validate
    by (simp add: lr_env_def)
qed

lemma hr_staked: "handover ''lockdrop'' ''pcl'' 175 lr_staked pr_fresh"
proof -
  have e: "l_lockups lr_fresh = []" by (simp add: lr_fresh_def lockdrop_empty_def)
  have "handover ''lockdrop'' ''pcl'' (block_time (lr_env 50)) lr_fresh pr_fresh"
    by (rule handover.start [OF lr_instantiate pr_instantiate]) (simp add: pr_fresh_def pr_config_def)
  then have 0: "handover ''lockdrop'' ''pcl'' 50 lr_fresh pr_fresh" by (simp add: lr_env_def)
  have 1: "handover ''lockdrop'' ''pcl'' 60 lr_ready pr_fresh"
    by (rule hr_plain [OF 0 lr_set_tokens]) (simp_all add: lr_call_def deployed_use_def e)
  have 2: "handover ''lockdrop'' ''pcl'' 70 lr_funded pr_fresh"
    by (rule hr_plain [OF 1 lr_fund]) (simp_all add: deployed_use_def)
  have 3: "handover ''lockdrop'' ''pcl'' 120 lr_locked pr_fresh"
    by (rule hr_plain [OF 2 lr_lock]) (simp_all add: lr_call_def deployed_use_def)
  have 4: "handover ''lockdrop'' ''pcl'' 155 lr_shrunk pr_fresh"
    by (rule hr_plain [OF 3 lr_shrink]) (simp_all add: lr_call_def deployed_use_def)
  show ?thesis
    by (rule hr_plain [OF 4 lr_stake]) (simp_all add: lr_call_def deployed_use_def lr_stake_msgs_def)
qed

lemma hr_callback:
  assumes "receive_lockdrop_callback (hr_deps a b c) (lr_env time) info cb s = Ok (u, ns)"
    and "handover_run (lr_env time) q (ns @ ms) u t s' t'"
  shows "handover_run (lr_env time) q (WasmExecute ''lockdrop'' (LockdropCallback cb) [] # ms) s t s' t'"
  using handover_run.callback [OF assms(1) hr_validate assms(2)] by (simp add: lr_env_def)

lemma hr_run:
  "handover_run (lr_env 177) ''pcl'' [WasmExecute ''lockdrop'' (LockdropCallback (InitMigrateLockupToPCLPoolsCallback USDC ''alice'' 10)) []]
     hr_rewarded pr_fresh hr_moved pr_staked"
proof -
  have "handover_run (lr_env 177) ''pcl'' [WasmExecute ''pcl'' (MigrateXYKLockup USDC ''alice'' 10 pr_user pr_arriving True) (funds pr_funded)]
     hr_moved pr_fresh hr_moved pr_staked"
    by (rule handover_run.migrate [OF hr_arrive handover_run.finished])
  then have "handover_run (lr_env 177) ''pcl'' [WasmExecute ''lockdrop'' (LockdropCallback
      (MigrateUserLockupToPCLPairCallback USDC ''alice'' 10 500 ''uusdc'' 500)) []] hr_moved pr_fresh hr_moved pr_staked"
    using hr_callback [OF hr_send, of "''pcl''" "[]"] by simp
  then have "handover_run (lr_env 177) ''pcl'' [WasmExecute ''lockdrop'' (LockdropCallback
      (WithdrawUserLockupCallback USDC ''alice'' 10 ''gen'' ''usdclp'' 800)) []] hr_paid pr_fresh hr_moved pr_staked"
    using hr_callback [OF hr_withdraw, of "''pcl''" "[]"] by (simp add: handover_run.other)
  then have "handover_run (lr_env 177) ''pcl'' [WasmExecute ''lockdrop'' (LockdropCallback
      (TransferAllRewardsBeforeMigrationCallback USDC ''alice'' 10)) []] hr_rewarded pr_fresh hr_moved pr_staked"
    using hr_callback [OF hr_pay, of "''pcl''" "[]"] by (simp add: handover_run.other)
  then show ?thesis using hr_callback [OF hr_init, of "''pcl''" "[]"] by simp
qed

lemma hr_handover: "handover ''lockdrop'' ''pcl'' 177 hr_moved pr_staked"
proof -
  have u: "handover ''lockdrop'' ''pcl'' 175 hr_upgraded pr_fresh" by (rule handover.upgrade [OF hr_staked hr_upgrade])
  have "deployed_use (lr_env 177) (LMigrateLiquidityToPCLPools None) hr_upgraded"
    by (simp add: deployed_use_def windows_end_def hr_upgraded_def lr_states)
  then show ?thesis
    using handover.lockdrop [OF u _ _ _ hr_start hr_validate _ hr_run] by (simp add: lr_env_def lr_call_def)
qed

theorem handover_moves_each_lockup_once_witness:
  "pk_unlock_timestamp (pr_lockup None []) = 180 \<and> lockdrop_reachable 177 hr_moved \<and> pcl_reachable pr_staked \<and>
   (\<exists>v n. map_of (l_lockups hr_moved) (USDC, ''alice'', 10) = Some v \<and> stored_transferred v = Some n \<and> stored_unlock v = 180)"
proof -
  note h = handover_moves_each_lockup_once [OF hr_handover]
  have "map_of (pl_lockups pr_staked) (USDC, ''alice'', 10) = Some (pr_lockup None [])" by (simp add: pr_staked_def)
  then have "\<exists>v n. map_of (l_lockups hr_moved) (USDC, ''alice'', 10) = Some v \<and> stored_transferred v = Some n \<and>
      stored_unlock v = pk_unlock_timestamp (pr_lockup None [])"
    using h by blast
  then show ?thesis using h by (simp add: pr_lockup_def)
qed

end
