(* ===== verification/Vesting_Handover.thy ===== *)
theory Vesting_Handover
  imports Vesting_Lp_Properties Vesting_Properties
begin

text \<open>
  \<open>vesting-lp\<close> and \<open>vesting-lp-pcl\<close> together. A migration is one transaction of the old contract: its
  callbacks to itself, the messages to the pools, and the cw20 hook by which the new contract books
  the new LP tokens. Around migrations the users of both contracts go on as they like. What the
  accounts of a contract are owed stays within the tokens that the contract holds, and within the
  difference of its totals, although a migration does not keep the totals equal to the sums over
  the accounts.

  The new contract does not check that the token contract calls its hook
  (\<open>vesting_pcl_accepts_forged_migrations\<close>); the runs here are those without a forged hook.
\<close>

subsection \<open>Transactions and runs\<close>

fun own_vl_callback :: "env \<Rightarrow> msg \<Rightarrow> bool" where
  "own_vl_callback env (WasmExecute c (VestingLpCallback cb) fs) = (c = this_contract env)"
| "own_vl_callback env m = False"

text \<open>The new LP tokens that a message brings to the new contract \<open>q\<close> with its migration hook.\<close>

fun hook_msg :: "addr \<Rightarrow> addr \<Rightarrow> msg \<Rightarrow> bool" where
  "hook_msg q nlp (WasmExecute c (Cw20Send r n (MigrateXYKVesting a vi)) fs) = (c = nlp \<and> r = q)"
| "hook_msg q nlp m = False"

fun hook_amount :: "addr \<Rightarrow> addr \<Rightarrow> msg \<Rightarrow> nat" where
  "hook_amount q nlp (WasmExecute c (Cw20Send r n (MigrateXYKVesting a vi)) fs) =
     (if c = nlp \<and> r = q then unat n else 0)"
| "hook_amount q nlp m = 0"

definition hooked :: "addr \<Rightarrow> addr \<Rightarrow> msg list \<Rightarrow> nat" where
  "hooked q nlp ms = sum_list (map (hook_amount q nlp) ms)"

fun is_hook :: "vesting_execute_msg \<Rightarrow> bool" where
  "is_hook (VReceive c n (MigrateXYKVesting a vi)) = True"
| "is_hook m = False"

text \<open>The queue of a transaction of the old contract; the last argument collects the messages that
  left it. The answers of other contracts may change from step to step.\<close>

inductive migration_run ::
  "env \<Rightarrow> addr \<Rightarrow> addr \<Rightarrow> msg list \<Rightarrow> vesting_lp \<Rightarrow> vesting_lp_pcl \<Rightarrow> vesting_lp \<Rightarrow> vesting_lp_pcl \<Rightarrow> msg list \<Rightarrow> bool"
  for env q nlp where
  finished: "migration_run env q nlp [] s p s p []"
| other: "\<not> own_vl_callback env m \<Longrightarrow> \<not> hook_msg q nlp m \<Longrightarrow> migration_run env q nlp ms s p s' p' out \<Longrightarrow>
    migration_run env q nlp (m # ms) s p s' p' (m # out)"
| callback: "vesting_lp_execute (d :: vesting_lp_deps) env \<lparr>sender = this_contract env, funds = fs\<rparr> (VlCallback cb) s
      = Ok (u, ns) \<Longrightarrow> migration_run env q nlp (ns @ ms) u p s' p' out \<Longrightarrow>
    migration_run env q nlp (WasmExecute (this_contract env) (VestingLpCallback cb) fs # ms) s p s' p' out"
| hook: "vesting_pcl_execute (d :: vesting_deps) (env\<lparr>this_contract := q\<rparr>) \<lparr>sender = nlp, funds = []\<rparr>
      (VReceive (this_contract env) n (MigrateXYKVesting a vi)) p = Ok (p1, ns) \<Longrightarrow>
    migration_run env q nlp ms s p1 s' p' out \<Longrightarrow>
    migration_run env q nlp (WasmExecute nlp (Cw20Send q n (MigrateXYKVesting a vi)) fs # ms) s p s' p'
      (WasmExecute nlp (Cw20Send q n (MigrateXYKVesting a vi)) fs # out)"

inductive_cases run_nil: "migration_run env q nlp [] s p s' p' out"
inductive_cases run_cons: "migration_run env q nlp (m # ms) s p s' p' out"

definition vl_empty :: vesting_lp where
  "vl_empty = \<lparr>vl_base = vesting_empty, vl_migration = None\<rparr>"

definition vp_empty :: vesting_lp_pcl where
  "vp_empty = \<lparr>vp_base = vesting_empty, xyk_vesting_lp_contract = None\<rparr>"

text \<open>\<open>x\<close> and \<open>q\<close> are the addresses of the contracts, \<open>nlp\<close> is the new LP token. Each state comes with
  the vesting tokens that the contract holds.\<close>

inductive vesting_handover ::
  "addr \<Rightarrow> addr \<Rightarrow> addr \<Rightarrow> u64 \<Rightarrow> vesting_lp \<Rightarrow> nat \<Rightarrow> vesting_lp_pcl \<Rightarrow> nat \<Rightarrow> bool" for x q nlp where
  start: "vesting_lp_instantiate (d :: vesting_deps) owner managers token_manager vl_empty = Ok s \<Longrightarrow>
    vesting_pcl_instantiate (d' :: vesting_deps) m vp_empty = Ok p \<Longrightarrow> vp_vesting_token m = Token nlp \<Longrightarrow>
    vesting_handover x q nlp t s 0 p 0"
| upgrade: "vesting_handover x q nlp t s hs p hp \<Longrightarrow> vesting_lp_migrate (d :: vesting_deps) m s = Ok (s', ms) \<Longrightarrow>
    vesting_handover x q nlp t s' hs p hp"
| old: "vesting_handover x q nlp t s hs p hp \<Longrightarrow> t \<le> block_time env \<Longrightarrow> must_pay_law d \<Longrightarrow>
    vesting_lp_execute (d :: vesting_lp_deps) env info (VlBase m) s = Ok (s', ms) \<Longrightarrow>
    vesting_handover x q nlp (block_time env) s'
      (hs + token_in (vl_base s) info m - token_out (vl_base s) ms) p hp"
| new: "vesting_handover x q nlp t s hs p hp \<Longrightarrow> t \<le> block_time env \<Longrightarrow> must_pay_law d \<Longrightarrow> \<not> is_hook m \<Longrightarrow>
    vesting_pcl_execute (d :: vesting_deps) env info m p = Ok (p', ms) \<Longrightarrow>
    vesting_handover x q nlp (block_time env) s hs p'
      (hp + token_in (vp_base p) info m - token_out (vp_base p) ms)"
| migrate: "vesting_handover x q nlp t s hs p hp \<Longrightarrow> t \<le> block_time env \<Longrightarrow> this_contract env = x \<Longrightarrow>
    vesting_token_of (vl_base s) = Some (Token lp) \<Longrightarrow> map_option new_lp_token (vl_migration s) \<noteq> Some lp \<Longrightarrow>
    vesting_lp_execute (d :: vesting_lp_deps) env info (MigrateLiquidityToPCLPool user) s = Ok (u, ms) \<Longrightarrow>
    migration_run env q nlp ms u p s' p' out \<Longrightarrow>
    vesting_handover x q nlp (block_time env) s' (hs - cw20_outflow lp out) p' (hp + hooked q nlp out)"
| gift: "vesting_handover x q nlp t s hs p hp \<Longrightarrow> vesting_handover x q nlp t s (hs + n) p (hp + k)"

subsection \<open>Covered contracts\<close>

definition owed :: "vesting \<Rightarrow> nat" where
  "owed b = granted_sum (v_infos b) - released_sum (v_infos b)"

definition covered :: "nat \<Rightarrow> nat \<Rightarrow> vesting \<Rightarrow> bool" where
  "covered t held b \<longleftrightarrow> (\<exists>k j. j \<le> k \<and> vesting_slack t k j b) \<and> v_config b \<noteq> None \<and>
     granted_sum (v_infos b) \<le> held + released_sum (v_infos b)"

lemma covered_later: "covered t held b \<Longrightarrow> t \<le> t' \<Longrightarrow> covered t' held b"
  unfolding covered_def vesting_slack_def infos_ok_def by (meson account_ok_later)

lemma covered_more: "covered t held b \<Longrightarrow> held \<le> held' \<Longrightarrow> covered t held' b"
  unfolding covered_def by (meson add_le_mono1 le_trans)

lemma covered_execute:
  assumes "vesting_execute d env info m b = Ok (b', ms)" and "must_pay_law d"
    and "covered (unat (block_time env)) held b"
  shows "covered (unat (block_time env)) (held + token_in b info m - token_out b ms) b'"
proof -
  obtain k j where "j \<le> k" "vesting_slack (unat (block_time env)) k j b" "v_config b \<noteq> None"
    "granted_sum (v_infos b) \<le> held + released_sum (v_infos b)"
    using assms(3) by (auto simp: covered_def)
  then show ?thesis using vesting_held_step [OF assms(1,2)] unfolding covered_def by blast
qed

lemma covered_owed:
  assumes "covered t held b"
  shows "owed b \<le> held \<and> (case v_state b of None \<Rightarrow> v_infos b = []
    | Some st \<Rightarrow> total_released st \<le> total_granted st \<and>
        owed b \<le> unat (total_granted st) - unat (total_released st))"
proof -
  obtain k j where kj: "j \<le> k" "vesting_slack t k j b" and held: "granted_sum (v_infos b) \<le> held + released_sum (v_infos b)"
    using assms by (auto simp: covered_def)
  have "released_sum (v_infos b) \<le> granted_sum (v_infos b)"
    using kj(2) by (auto simp: vesting_slack_def intro: released_le_granted)
  then show ?thesis using kj held
    by (auto simp: owed_def vesting_slack_def word_le_nat_alt split: option.splits)
qed

lemma token_stays:
  assumes "vesting_execute d env info m b = Ok (b', ms)" and "covered (unat (block_time env)) held b"
    and "vesting_token_of b = Some token"
  shows "vesting_token_of b' = Some token"
proof -
  obtain cfg where cfg: "v_config b = Some cfg" "vesting_token cfg = Some token"
    using assms(3) by (auto simp: vesting_token_of_def split: option.splits)
  obtain k j where "vesting_slack (unat (block_time env)) k j b" using assms(2) by (auto simp: covered_def)
  from vesting_config_stays [OF assms(1) cfg(1) this] obtain cfg' where
    "v_config b' = Some cfg'" "vesting_token cfg' = Some token" using cfg(2) by auto
  then show ?thesis by (simp add: vesting_token_of_def)
qed

subsection \<open>What a migration does to the two contracts\<close>

text \<open>The old contract takes \<open>n\<close> off its total and clears an account; what it sends away is at most
  what the account was owed.\<close>

lemma covered_clear:
  assumes "covered t held b" and "map_of (v_infos b) a = Some vi"
    and "unat n + unat (released_amount vi) \<le> schedules_total (schedules vi)"
    and "v_infos b' = save a cleared_info (v_infos b)" and "v_config b' = v_config b"
    and "v_state b = Some st" and "v_state b' = Some (st\<lparr>total_granted := g\<rparr>)"
    and "unat (total_granted st) = unat g + m" and "m \<le> unat n"
  shows "covered t (held - unat n) b'"
proof -
  obtain k j where kj: "j \<le> k" "vesting_slack t k j b" "v_config b \<noteq> None"
    and held: "granted_sum (v_infos b) \<le> held + released_sum (v_infos b)"
    using assms(1) by (auto simp: covered_def)
  have infos: "infos_ok t (v_infos b)" using kj(2) by (simp add: vesting_slack_def)
  then have ok: "store_ok (v_infos b)" by (simp add: infos_ok_def)
  have infos': "infos_ok t (v_infos b')"
    unfolding assms(4) by (rule infos_ok_save [OF infos]) (simp add: account_ok_def cleared_info_def)
  have sums: "granted_sum (v_infos b') + schedules_total (schedules vi) = granted_sum (v_infos b)"
    "released_sum (v_infos b') + unat (released_amount vi) = released_sum (v_infos b)"
    using sums_update [OF ok assms(2), of cleared_info] by (simp_all add: assms(4) cleared_info_def)
  have le: "released_sum (v_infos b') \<le> granted_sum (v_infos b')" by (rule released_le_granted [OF infos'])
  have totals: "unat (total_granted st) = granted_sum (v_infos b) + k"
    "unat (total_released st) = released_sum (v_infos b) + j"
    using kj(2) assms(6) by (simp_all add: vesting_slack_def)
  have "vesting_slack t (k + schedules_total (schedules vi) - m) (j + unat (released_amount vi)) b'"
    using infos' sums totals assms(3,8,9) by (simp add: vesting_slack_def assms(7))
  moreover have "j + unat (released_amount vi) \<le> k + schedules_total (schedules vi) - m"
    using kj(1) assms(3,9) by linarith
  moreover have "granted_sum (v_infos b') \<le> held - unat n + released_sum (v_infos b')"
    using held sums assms(3) le by linarith
  ultimately show ?thesis using kj(3) assms(5) unfolding covered_def by auto
qed

text \<open>The new contract books what the hook brings, also when it replaces an account that was there.\<close>

lemma covered_hook:
  assumes "vesting_pcl_execute d env info (VReceive c n (MigrateXYKVesting a vi)) p = Ok (p', ms)"
    and "covered t held (vp_base p)" and "list_all schedule_valid (schedules vi)"
    and "released_amount vi = 0" and "schedules_total (schedules vi) \<le> unat n"
  shows "covered t (held + unat n) (vp_base p') \<and> v_config (vp_base p') = v_config (vp_base p) \<and>
    v_infos (vp_base p') = save a vi (v_infos (vp_base p)) \<and> ms = []"
proof -
  let ?b = "vp_base p"
  obtain to_deposit g where total: "add_schedule_amounts 0 (schedules vi) = Ok to_deposit"
    and g: "unat g = unat (total_granted (unwrap_or (v_state ?b) vesting_state_default)) + unat to_deposit"
    and p': "p' = p\<lparr>vp_base := ?b\<lparr>v_infos := save a vi (v_infos ?b),
        v_state := Some ((unwrap_or (v_state ?b) vesting_state_default)\<lparr>total_granted := g\<rparr>)\<rparr>\<rparr>" "ms = []"
    using assms(1)
    by (auto simp: vesting_pcl_execute_def vesting_pcl_receive_cw20_def handle_migrate_xyk_liquidity_def Let_def
        split: if_split_asm)
  have deposit: "unat to_deposit = schedules_total (schedules vi)" using add_schedule_amounts_Ok [OF total] by simp
  obtain k j where kj: "j \<le> k" "vesting_slack t k j ?b" "v_config ?b \<noteq> None"
    and held: "granted_sum (v_infos ?b) \<le> held + released_sum (v_infos ?b)"
    using assms(2) by (auto simp: covered_def)
  have infos: "infos_ok t (v_infos ?b)" using kj(2) by (simp add: vesting_slack_def)
  then have ok: "store_ok (v_infos ?b)" by (simp add: infos_ok_def)
  have infos': "infos_ok t (save a vi (v_infos ?b))"
    by (rule infos_ok_save [OF infos]) (simp add: account_ok_def assms(3,4))
  have le: "released_sum (save a vi (v_infos ?b)) \<le> granted_sum (save a vi (v_infos ?b))"
    by (rule released_le_granted [OF infos'])
  have "\<exists>k' j'. j' \<le> k' \<and> vesting_slack t k' j' (vp_base p') \<and>
      granted_sum (save a vi (v_infos ?b)) \<le> held + unat n + released_sum (save a vi (v_infos ?b))"
  proof (cases "map_of (v_infos ?b) a")
    case None
    have "vesting_slack t k j (vp_base p')"
      using kj(2) g deposit infos' sums_insert [OF ok None, of vi] assms(4)
      by (cases "v_state ?b") (simp_all add: vesting_slack_def p' unwrap_or_def vesting_state_default_def)
    then show ?thesis using kj(1) held sums_insert [OF ok None, of vi] assms(4,5) by auto
  next
    case (Some w)
    have w: "unat (released_amount w) \<le> schedules_total (schedules w)"
      by (rule account_ok_released_le [OF infos_ok_load [OF infos Some]])
    note sums = sums_update [OF ok Some, of vi]
    obtain st where st: "v_state ?b = Some st"
      using kj(2) Some by (cases "v_state ?b") (auto simp: vesting_slack_def)
    have "vesting_slack t (k + schedules_total (schedules w)) (j + unat (released_amount w)) (vp_base p')"
      using kj(2) g deposit infos' sums assms(4) st by (simp add: vesting_slack_def p' unwrap_or_def)
    moreover have "granted_sum (save a vi (v_infos ?b)) \<le> held + unat n + released_sum (save a vi (v_infos ?b))"
      using held sums assms(4,5) w by simp
    ultimately show ?thesis using kj(1) w by (meson add_mono)
  qed
  then show ?thesis using kj(3) by (auto simp: covered_def p')
qed

lemma rescheduled_ok:
  assumes "schedule_valid sch" and "n \<noteq> 0"
  shows "schedule_valid (rescheduled sch n)" "schedules_total [rescheduled sch n] \<le> unat n"
  using assms by (auto simp: schedule_valid_def rescheduled_def schedule_amount_def word_gt_0 split: option.splits)

text \<open>The queue of a migration, step by step.\<close>

lemma run_own_callback:
  assumes "migration_run env q nlp (vl_callback_msg env cb # ms) s p s' p' out"
  obtains d u ns where "dispatch_vesting_lp_callback (d :: vesting_lp_deps) env cb s = Ok (u, ns)"
    "migration_run env q nlp (ns @ ms) u p s' p' out"
  using assms unfolding vl_callback_msg_def
  by (rule run_cons) (auto simp: handle_vesting_lp_callback_def)

lemma run_other:
  assumes "migration_run env q nlp (m # ms) s p s' p' out" and "\<not> own_vl_callback env m" and "\<not> hook_msg q nlp m"
  obtains rest where "out = m # rest" "migration_run env q nlp ms s p s' p' rest"
  using assms by (auto elim: run_cons)

lemma run_hook:
  assumes "migration_run env q nlp [WasmExecute nlp (Cw20Send q n (MigrateXYKVesting a vi)) []] s p s' p' out"
  obtains d ns where "vesting_pcl_execute (d :: vesting_deps) (env\<lparr>this_contract := q\<rparr>) \<lparr>sender = nlp, funds = []\<rparr>
      (VReceive (this_contract env) n (MigrateXYKVesting a vi)) p = Ok (p', ns)"
    "s' = s" "out = [WasmExecute nlp (Cw20Send q n (MigrateXYKVesting a vi)) []]"
  using assms by (auto elim!: run_cons run_nil)

text \<open>A migration ends in one of two ways: the account is cleared and its rest sent back, or the
  rest goes to the pool and the account arrives at the new contract.\<close>

lemma migration_cases:
  assumes "execute_migrate_liquidity d info env None user s = Ok (u, ms)"
    and "migration_run env q nlp ms u p s' p' out"
  obtains (empty) "s' = s" "p' = p" "out = []"
  | (dust) a vi token share where "map_of (v_infos (vl_base s)) a = Some vi" "compute_share vi = Ok share"
      "s' = set_infos (save a cleared_info (v_infos (vl_base s))) s" "p' = p"
      "out = (if share \<noteq> 0 then [WasmExecute token (Cw20Transfer a share) []] else [])"
  | (moved) a vi token share pair pool assets fs sl g balance mc last_msg where
      "map_of (v_infos (vl_base s)) a = Some vi" "compute_share vi = Ok share" "schedules vi \<noteq> []"
      "unat (total_granted (unwrap_or (v_state (vl_base s)) vesting_state_default)) = unat g + unat share"
      "s' = set_infos (save a cleared_info (v_infos (vl_base s))) (s\<lparr>vl_base := (vl_base s)\<lparr>v_state := Some
         ((unwrap_or (v_state (vl_base s)) vesting_state_default)\<lparr>total_granted := g\<rparr>)\<rparr>\<rparr>)"
      "vl_migration s = Some mc"
      "out = [WasmExecute token (Cw20Send pair share WithdrawLiquidity) [],
         WasmExecute pool (ProvideLiquidity assets sl None None) fs] @ last_msg"
      "last_msg = (if balance \<noteq> 0 then
         [WasmExecute (new_lp_token mc) (Cw20Send (pcl_vesting mc) balance (MigrateXYKVesting a
            \<lparr>schedules = [rescheduled (last (schedules vi)) balance], released_amount = 0\<rparr>)) []] else [])"
      "migration_run env q nlp last_msg s' p s' p' last_msg"
proof -
  obtain mc a vi token share and assets :: "asset list" where m: "vl_migration s = Some mc"
    and vi: "map_of (v_infos (vl_base s)) a = Some vi" and share: "compute_share vi = Ok share"
    and res: "(if \<exists>x \<in> set assets. asset_amount x = 0 then return_dust token a share vi s
      else Ok (s, [vl_callback_msg env (MigrateLiquidityToClPair (xyk_pair mc) token share (max_slippage mc)
        (cl_pair mc) (m_ntrn_denom mc) (m_paired_denom mc) \<lparr>full_address = a, full_info = vi\<rparr>)])) = Ok (u, ms)"
    using assms(1)
    unfolding execute_migrate_liquidity_def load_migration_def load_vesting_info_def unwrap_or_def option.case if_False
    by (auto split del: if_split)
  show thesis
  proof (cases "\<exists>x \<in> set assets. asset_amount x = 0")
    case True
    then have u: "u = (if schedules vi = [] then s else set_infos (save a cleared_info (v_infos (vl_base s))) s)"
      and ms: "ms = (if share \<noteq> 0 then [WasmExecute token (Cw20Transfer a share) []] else [])"
      using res by (auto simp: return_dust_def)
    have run: "s' = u \<and> p' = p \<and> out = ms"
      using assms(2) unfolding ms by (cases "share = 0") (auto elim!: run_cons run_nil)
    show thesis
    proof (cases "schedules vi = []")
      case True
      then have "share = 0" using compute_share_Ok [OF share] by (simp add: unat_eq_0)
      then show thesis using empty run u ms True by simp
    next
      case False
      then show thesis using dust [OF vi share] run u ms by simp
    qed
  next
    case False
    define user' where "user' = \<lparr>full_address = a, full_info = vi\<rparr>"
    have u: "u = s" and ms: "ms = [vl_callback_msg env (MigrateLiquidityToClPair (xyk_pair mc) token share
        (max_slippage mc) (cl_pair mc) (m_ntrn_denom mc) (m_paired_denom mc) user')]"
      using res False by (auto simp: user'_def)
    obtain d1 u1 ns1 where
      c1: "dispatch_vesting_lp_callback (d1 :: vesting_lp_deps) env (MigrateLiquidityToClPair (xyk_pair mc) token share
        (max_slippage mc) (cl_pair mc) (m_ntrn_denom mc) (m_paired_denom mc) user') s = Ok (u1, ns1)"
      and r1: "migration_run env q nlp (ns1 @ []) u1 p s' p' out"
      using assms(2) unfolding u ms by (rule run_own_callback)
    obtain x y g where g: "unat (total_granted (unwrap_or (v_state (vl_base s)) vesting_state_default)) = unat g + unat share"
      and u1: "u1 = s\<lparr>vl_base := (vl_base s)\<lparr>v_state := Some
         ((unwrap_or (v_state (vl_base s)) vesting_state_default)\<lparr>total_granted := g\<rparr>)\<rparr>\<rparr>"
      and ns1: "ns1 = [WasmExecute token (Cw20Send (xyk_pair mc) share WithdrawLiquidity) [],
         vl_callback_msg env (ProvideLiquidityToClPairAfterWithdrawal (m_ntrn_denom mc) x (m_paired_denom mc) y
           (cl_pair mc) (max_slippage mc) user')]"
      using c1 by (auto elim: first_callback_Ok)
    obtain out1 where o1: "out = WasmExecute token (Cw20Send (xyk_pair mc) share WithdrawLiquidity) [] # out1"
      and r2: "migration_run env q nlp [vl_callback_msg env (ProvideLiquidityToClPairAfterWithdrawal
           (m_ntrn_denom mc) x (m_paired_denom mc) y (cl_pair mc) (max_slippage mc) user')] u1 p s' p' out1"
      using r1 unfolding ns1 append.simps by (rule run_other) (simp, simp, erule that, assumption)
    obtain d2 u2 ns2 where
      c2: "dispatch_vesting_lp_callback (d2 :: vesting_lp_deps) env (ProvideLiquidityToClPairAfterWithdrawal
           (m_ntrn_denom mc) x (m_paired_denom mc) y (cl_pair mc) (max_slippage mc) user') u1 = Ok (u2, ns2)"
      and r3: "migration_run env q nlp (ns2 @ []) u2 p s' p' out1"
      using r2 by (rule run_own_callback)
    obtain assets' fs sl current where u2: "u2 = u1"
      and ns2: "ns2 = [WasmExecute (cl_pair mc) (ProvideLiquidity assets' sl None None) fs,
         vl_callback_msg env (PostMigrationVestingReschedule user' current)]"
      using c2 by (auto elim: second_callback_Ok)
    obtain out2 where o2: "out1 = WasmExecute (cl_pair mc) (ProvideLiquidity assets' sl None None) fs # out2"
      and r4: "migration_run env q nlp [vl_callback_msg env (PostMigrationVestingReschedule user' current)] u1 p s' p' out2"
      using r3 unfolding ns2 u2 append.simps by (rule run_other) (simp, simp, erule that, assumption)
    obtain d3 u3 ns3 where
      c3: "dispatch_vesting_lp_callback (d3 :: vesting_lp_deps) env (PostMigrationVestingReschedule user' current) u1 = Ok (u3, ns3)"
      and r5: "migration_run env q nlp (ns3 @ []) u3 p s' p' out2"
      using r4 by (rule run_own_callback)
    have c3': "post_migration_vesting_reschedule_callback d3 env user' current u1 = Ok (u3, ns3)" using c3 by simp
    obtain mc' diff where mc': "vl_migration u1 = Some mc'" and nonempty: "schedules vi \<noteq> []"
      and u3: "u3 = set_infos (save a cleared_info (v_infos (vl_base u1))) u1"
      and ns3: "ns3 = (if diff \<noteq> 0 then
              [WasmExecute (new_lp_token mc') (Cw20Send (pcl_vesting mc') diff
                 (MigrateXYKVesting a \<lparr>schedules = [rescheduled (last (schedules vi)) diff], released_amount = 0\<rparr>)) []]
            else [])"
      by (rule third_callback_Ok [OF c3', unfolded user'_def vesting_account_full_info.select_convs])
        (rule that, assumption+)
    have "mc' = mc" using mc' m by (simp add: u1)
    have final: "s' = u3 \<and> out2 = ns3 \<and> migration_run env q nlp ns3 u3 p u3 p' ns3"
      using r5 unfolding ns3 by (cases "diff = 0") (auto elim!: run_cons run_nil intro: migration_run.intros)
    have "v_infos (vl_base u1) = v_infos (vl_base s)" by (simp add: u1)
    then show thesis
      using moved [OF vi share nonempty g _ m _ ns3 [unfolded \<open>mc' = mc\<close>]] final o1 o2
      by (simp add: u3 u1 ns3 \<open>mc' = mc\<close>)
  qed
qed

lemma covered_state:
  assumes "covered t held b" and "map_of (v_infos b) a = Some vi"
  obtains st where "v_state b = Some st"
  using assms by (cases "v_state b") (auto simp: covered_def vesting_slack_def)

lemma covered_account: "covered t held b \<Longrightarrow> map_of (v_infos b) a = Some vi \<Longrightarrow> account_ok t vi"
  by (auto simp: covered_def vesting_slack_def intro: infos_ok_load)

lemma end_total_le: "end_total ss \<le> schedules_total ss"
  by (induction ss) (auto simp: schedule_amount_def split: option.split)

lemma share_le: "compute_share vi = Ok share \<Longrightarrow>
    unat share + unat (released_amount vi) \<le> schedules_total (schedules vi)"
  using compute_share_Ok [of vi share] end_total_le [of "schedules vi"] by simp

lemma arrival_covered:
  assumes "migration_run env q nlp last_msg s p s p' last_msg" and "covered t hp (vp_base p)"
    and "account_ok t vi" and "schedules vi \<noteq> []"
    and "last_msg = (if balance \<noteq> 0 then [WasmExecute c (Cw20Send r balance (MigrateXYKVesting a
      \<lparr>schedules = [rescheduled (last (schedules vi)) balance], released_amount = 0\<rparr>)) []] else [])"
  shows "covered t (hp + hooked q nlp last_msg) (vp_base p') \<and> v_config (vp_base p') = v_config (vp_base p)"
proof (cases "balance = 0")
  case True
  then show ?thesis using assms(1,2,5) by (auto simp: hooked_def elim!: run_nil)
next
  case nonzero: False
  let ?vi = "\<lparr>schedules = [rescheduled (last (schedules vi)) balance], released_amount = 0\<rparr>"
  have valid: "schedule_valid (last (schedules vi))"
    using assms(3,4) by (auto simp: account_ok_def list_all_iff)
  have m: "last_msg = [WasmExecute c (Cw20Send r balance (MigrateXYKVesting a ?vi)) []]"
    using nonzero assms(5) by simp
  show ?thesis
  proof (cases "c = nlp \<and> r = q")
    case True
    have "migration_run env q nlp [WasmExecute nlp (Cw20Send q balance (MigrateXYKVesting a ?vi)) []] s p s p' last_msg"
      using assms(1) True by (simp add: m)
    then obtain d ns where hook: "vesting_pcl_execute (d :: vesting_deps) (env\<lparr>this_contract := q\<rparr>)
        \<lparr>sender = nlp, funds = []\<rparr> (VReceive (this_contract env) balance (MigrateXYKVesting a ?vi)) p = Ok (p', ns)"
      by (rule run_hook)
    show ?thesis
      using covered_hook [OF hook assms(2)] rescheduled_ok [OF valid nonzero] True by (simp add: m hooked_def)
  next
    case False
    then show ?thesis using assms(1,2) unfolding m by (auto simp: hooked_def elim!: run_cons run_nil)
  qed
qed

lemma migration_covered:
  assumes "execute_migrate_liquidity d info env None user s = Ok (u, ms)"
    and "migration_run env q nlp ms u p s' p' out"
    and "covered t hs (vl_base s)" and "covered t hp (vp_base p)"
    and "map_option new_lp_token (vl_migration s) \<noteq> Some lp"
  shows "covered t (hs - cw20_outflow lp out) (vl_base s') \<and> covered t (hp + hooked q nlp out) (vp_base p') \<and>
    v_config (vp_base p') = v_config (vp_base p)"
  using assms(1,2)
proof (cases rule: migration_cases)
  case empty
  then show ?thesis using assms(3,4) by (simp add: hooked_def)
next
  case (dust a vi token share)
  obtain st where st: "v_state (vl_base s) = Some st" using assms(3) dust(1) by (rule covered_state)
  have "covered t (hs - unat share) (vl_base s')"
    by (rule covered_clear [OF assms(3) dust(1) share_le [OF dust(2)], where g = "total_granted st" and st = st and m = 0])
      (simp_all add: dust(3) set_infos_def st)
  moreover have "hs - unat share \<le> hs - cw20_outflow lp out" by (simp add: dust(5))
  ultimately show ?thesis using assms(4) dust(4,5) covered_more by (simp add: hooked_def)
next
  case (moved a vi token share pair pool assets fs sl g balance mc last_msg)
  obtain st where st: "v_state (vl_base s) = Some st" using assms(3) moved(1) by (rule covered_state)
  have "covered t (hs - unat share) (vl_base s')"
    by (rule covered_clear [OF assms(3) moved(1) share_le [OF moved(2)], where g = g and st = st and m = "unat share"])
      (use moved(4) st in \<open>simp_all add: moved(5) set_infos_def unwrap_or_def\<close>)
  moreover have "hs - unat share \<le> hs - cw20_outflow lp out"
    using assms(5) by (simp add: moved(6,7,8))
  moreover have "hooked q nlp out = hooked q nlp last_msg" by (simp add: moved(7) hooked_def)
  ultimately show ?thesis
    using arrival_covered [OF moved(9) assms(4) covered_account [OF assms(3) moved(1)] moved(3,8)] covered_more
    by simp
qed

text \<open>Messages that the new contract takes from everyone.\<close>

lemma pcl_execute_base:
  assumes "vesting_pcl_execute d env info m p = Ok (p', ms)" and "\<not> is_hook m"
  shows "vesting_execute d env info m (vp_base p) = Ok (vp_base p', ms)"
proof (cases m)
  case (VReceive c n hook)
  then show ?thesis using assms
    by (cases hook) (auto simp: vesting_pcl_execute_def vesting_pcl_receive_cw20_def receive_cw20_def split: if_split_asm)
qed (use assms in \<open>auto simp: vesting_pcl_execute_def\<close>)

text \<open>The invariant of the runs.\<close>

lemma vesting_handover_covered:
  "vesting_handover x q nlp t s hs p hp \<Longrightarrow>
   covered (unat t) hs (vl_base s) \<and> covered (unat t) hp (vp_base p) \<and>
   vesting_token_of (vp_base p) = Some (Token nlp)"
proof (induction rule: vesting_handover.induct)
  case (start d owner managers token_manager s d' m p t)
  have "v_infos (vl_base s) = [] \<and> v_state (vl_base s) = None \<and> v_config (vl_base s) \<noteq> None"
    using start(1) by (auto simp: vesting_lp_instantiate_def builder_build_def vl_empty_def vesting_empty_def Let_def
        split: if_split_asm)
  moreover have "v_infos (vp_base p) = [] \<and> v_state (vp_base p) = None \<and> v_config (vp_base p) \<noteq> None \<and>
      vesting_token_of (vp_base p) = Some (Token nlp)"
    using start(2,3) by (auto simp: vesting_token_of_def vesting_pcl_instantiate_def vp_empty_def vesting_empty_def Let_def)
  ultimately show ?case by (auto simp: covered_def vesting_slack_def infos_ok_def)
next
  case (upgrade t s hs p hp d m s' ms)
  then show ?case by (auto simp: vesting_lp_migrate_def)
next
  case (old t s hs p hp env d info m s' ms)
  have "covered (unat (block_time env)) hs (vl_base s)" "covered (unat (block_time env)) hp (vp_base p)"
    using old by (auto simp: word_le_nat_alt intro: covered_later)
  moreover have "vesting_execute d env info m (vl_base s) = Ok (vl_base s', ms)" using old(4) by auto
  ultimately show ?case using covered_execute old(3) old.IH by blast
next
  case (new t s hs p hp env d m info p' ms)
  have "covered (unat (block_time env)) hs (vl_base s)" "covered (unat (block_time env)) hp (vp_base p)"
    using new by (auto simp: word_le_nat_alt intro: covered_later)
  then show ?case
    using covered_execute [OF pcl_execute_base [OF new(5,4)] new(3)] token_stays [OF pcl_execute_base [OF new(5,4)]] new.IH
    by blast
next
  case (migrate t s hs p hp env lp d info user u ms s' p' out)
  have "covered (unat (block_time env)) hs (vl_base s)" "covered (unat (block_time env)) hp (vp_base p)"
    using migrate by (auto simp: word_le_nat_alt intro: covered_later)
  moreover have e: "execute_migrate_liquidity d info env None user s = Ok (u, ms)" using migrate(6) by simp
  ultimately show ?case
    using migration_covered [OF e migrate(7) _ _ migrate(5)] migrate.IH by (auto simp: vesting_token_of_def)
next
  case (gift t s hs p hp n k)
  then show ?case by (auto intro: covered_more)
qed

subsection \<open>A run with a migration\<close>

text \<open>The states of the example migration are reached from the instantiations: \<open>alice\<close> is registered
  with 100 LP tokens, claims 20 and moves the rest.\<close>

definition vh_managed :: "addr option \<Rightarrow> vesting" where
  "vh_managed token = \<lparr>v_config = Some ((lp_config ''xyklp'')\<lparr>vesting_token := map_option Token token\<rparr>),
     v_proposal = None, v_managers = [], v_state = None, v_infos = []\<rparr>"

definition vh_fresh :: vesting_lp where
  "vh_fresh = \<lparr>vl_base = vh_managed None, vl_migration = None\<rparr>"

definition vh_token :: vesting_lp where
  "vh_token = \<lparr>vl_base = vh_managed (Some ''xyklp''), vl_migration = None\<rparr>"

definition vh_registered :: vesting_lp where
  "vh_registered = \<lparr>vl_base = (vh_managed (Some ''xyklp''))\<lparr>
       v_state := Some \<lparr>total_granted = 100, total_released = 0\<rparr>,
       v_infos := [(''alice'', \<lparr>schedules = [lp_schedule], released_amount = 0\<rparr>)]\<rparr>, vl_migration = None\<rparr>"

definition vh_claimed :: vesting_lp where
  "vh_claimed = lp_start\<lparr>vl_migration := None\<rparr>"

definition vh_pcl :: vesting_lp_pcl where
  "vh_pcl = \<lparr>vp_base = \<lparr>v_config = Some (lp_config ''pcllp''), v_proposal = None, v_managers = [],
       v_state = None, v_infos = []\<rparr>, xyk_vesting_lp_contract = Some ''vestinglp''\<rparr>"

definition vh_deps :: vesting_deps where
  "vh_deps = \<lparr>addr_validate = Ok, bank_balance = (\<lambda>a d. Ok 0), cw20_balance = (\<lambda>c a. Ok 0),
     must_pay = (\<lambda>info denom. Err ''no funds'')\<rparr>"

definition vh_env :: "u64 \<Rightarrow> env" where
  "vh_env t = lp_env\<lparr>block_time := t\<rparr>"

lemmas vh_defs = vh_managed_def vh_fresh_def vh_token_def vh_registered_def vh_claimed_def vh_pcl_def vh_deps_def
  vh_env_def vl_empty_def vp_empty_def pcl_start_def lp_states

lemma vh_step_start:
  "vesting_lp_instantiate vh_deps ''dao'' [] ''manager'' vl_empty = Ok vh_fresh"
  "vesting_pcl_instantiate vh_deps \<lparr>vp_owner = ''dao'', vp_managers = [], vp_token_info_manager = ''manager'',
     vp_xyk_contract = ''vestinglp'', vp_vesting_token = Token ''pcllp''\<rparr> vp_empty = Ok vh_pcl"
  by (simp_all add: vesting_lp_instantiate_def vesting_pcl_instantiate_def builder_historical_def vesting_ops vh_defs Let_def)

lemma vh_step_token:
  "vesting_lp_execute (lp_deps 0 0 0) (vh_env 10) (lp_call ''manager'') (VlBase (VSetVestingToken (Token ''xyklp''))) vh_fresh
     = Ok (vh_token, [])"
  by (simp add: vesting_ops vh_defs)

lemma vh_step_registered:
  "vesting_lp_execute (lp_deps 0 0 0) (vh_env 20) (lp_call ''xyklp'') (VlBase (VReceive ''dao'' 100
     (RegisterVestingAccountsHook [\<lparr>account_address = ''alice'', account_schedules = [lp_schedule]\<rparr>]))) vh_token
     = Ok (vh_registered, [])"
  by (simp add: vesting_ops vh_defs eval_arith)

lemma vh_step_claimed:
  "vesting_lp_execute (lp_deps 0 0 0) (vh_env 120) (lp_call ''alice'') (VlBase (VClaim None None)) vh_registered
     = Ok (vh_claimed, [WasmExecute ''xyklp'' (Cw20Transfer ''alice'' 20) []])"
  by (simp add: vesting_ops vh_defs eval_arith min_def)

lemma vh_step_upgrade:
  "vesting_lp_migrate vh_deps \<lparr>vm_max_slippage = Decimal 10000000000000000, vm_ntrn_denom = ''untrn'',
     vm_paired_denom = ''uusdc'', vm_xyk_pair = ''xyk'', vm_cl_pair = ''pcl'', vm_new_lp_token = ''pcllp'',
     vm_pcl_vesting = ''vestingpcl''\<rparr> vh_claimed = Ok (lp_start, [])"
  by (simp add: vesting_lp_migrate_def vh_defs)

definition vh_hook :: msg where
  "vh_hook = WasmExecute ''pcllp'' (Cw20Send ''vestingpcl'' 90 (MigrateXYKVesting ''alice''
     \<lparr>schedules = [rescheduled lp_schedule 90], released_amount = 0\<rparr>)) []"

definition vh_withdraw :: msg where
  "vh_withdraw = WasmExecute ''xyklp'' (Cw20Send ''xyk'' 80 WithdrawLiquidity) []"

definition vh_provide :: msg where
  "vh_provide = WasmExecute ''pcl''
     (ProvideLiquidity [native_asset ''untrn'' 160, native_asset ''uusdc'' 80] (Some (Decimal 10000000000000000)) None None)
     [\<lparr>coin_denom = ''untrn'', coin_amount = 160\<rparr>, \<lparr>coin_denom = ''uusdc'', coin_amount = 80\<rparr>]"

lemma vh_step_hook:
  "vesting_pcl_execute vh_deps (lp_env\<lparr>this_contract := ''vestingpcl''\<rparr>) \<lparr>sender = ''pcllp'', funds = []\<rparr>
     (VReceive ''vestinglp'' 90 (MigrateXYKVesting ''alice''
       \<lparr>schedules = [rescheduled lp_schedule 90], released_amount = 0\<rparr>)) vh_pcl = Ok (pcl_start, [])"
  by (simp add: vesting_pcl_execute_def vesting_pcl_receive_cw20_def is_sender_xyk_vesting_lp_def
      handle_migrate_xyk_liquidity_def vesting_ops vh_defs rescheduled_def Let_def ok_or_panic_def eval_arith)

lemma vh_run:
  "migration_run lp_env ''vestingpcl'' ''pcllp'' [vl_callback_msg lp_env lp_cb1] lp_start vh_pcl lp_done pcl_start
     [vh_withdraw, vh_provide, vh_hook]"
proof -
  note cb = migration_run.callback [where env = lp_env and fs = "[]", folded vl_callback_msg_def]
  have self: "\<lparr>sender = this_contract lp_env, funds = []\<rparr> = lp_call ''vestinglp''"
    by (simp add: lp_env_def lp_call_def)
  have self_addr: "this_contract lp_env = ''vestinglp''" by (simp add: lp_env_def)
  have r3: "migration_run lp_env ''vestingpcl'' ''pcllp'' [vh_hook] lp_done vh_pcl lp_done pcl_start [vh_hook]"
    unfolding vh_hook_def
    by (rule migration_run.hook [OF vh_step_hook [folded self_addr] migration_run.finished])
  have r2: "migration_run lp_env ''vestingpcl'' ''pcllp'' [vl_callback_msg lp_env lp_cb3] lp_taken vh_pcl lp_done pcl_start [vh_hook]"
    by (rule cb [unfolded self, OF lp_step4 [folded vh_hook_def]]) (simp add: r3)
  have r1: "migration_run lp_env ''vestingpcl'' ''pcllp'' [vl_callback_msg lp_env lp_cb2] lp_taken vh_pcl lp_done pcl_start
      [vh_provide, vh_hook]"
    by (rule cb [unfolded self, OF lp_step3 [folded vh_provide_def]])
      (simp, rule migration_run.other, simp_all add: vh_provide_def [symmetric] r2, simp_all add: vh_provide_def)
  show ?thesis
    by (rule cb [unfolded self, OF lp_step2 [folded vh_withdraw_def]])
      (simp, rule migration_run.other, simp_all add: vh_withdraw_def [symmetric] r1, simp_all add: vh_withdraw_def)
qed

lemma vh_reachable: "vesting_handover ''vestinglp'' ''vestingpcl'' ''pcllp'' 120 lp_done 0 pcl_start 90"
proof -
  note old = vesting_handover.old [where x = "''vestinglp''" and q = "''vestingpcl''" and nlp = "''pcllp''"]
  have pay: "must_pay_law (lp_deps 0 0 0)" by (simp add: must_pay_law_def lp_deps_def)
  note tokens = token_in_def token_out_def vesting_token_of_def vh_defs asset_paid_def cw20_outflow_def
  have "vesting_handover ''vestinglp'' ''vestingpcl'' ''pcllp'' 5 vh_fresh 0 vh_pcl 0"
    by (rule vesting_handover.start [OF vh_step_start]) simp
  from old [OF this _ pay vh_step_token]
  have "vesting_handover ''vestinglp'' ''vestingpcl'' ''pcllp'' 10 vh_token 0 vh_pcl 0"
    by (simp add: tokens)
  from old [OF this _ pay vh_step_registered]
  have "vesting_handover ''vestinglp'' ''vestingpcl'' ''pcllp'' 20 vh_registered 100 vh_pcl 0"
    by (simp add: tokens)
  from old [OF this _ pay vh_step_claimed]
  have "vesting_handover ''vestinglp'' ''vestingpcl'' ''pcllp'' 120 vh_claimed 80 vh_pcl 0"
    by (simp add: tokens)
  from vesting_handover.upgrade [OF this vh_step_upgrade]
  have "vesting_handover ''vestinglp'' ''vestingpcl'' ''pcllp'' 120 lp_start 80 vh_pcl 0" .
  from vesting_handover.migrate [OF this _ _ _ _ lp_step1 vh_run, of "''xyklp''"] show ?thesis
    by (simp add: vesting_token_of_def hooked_def vh_hook_def vh_withdraw_def vh_provide_def vh_defs)
qed

subsection \<open>Properties\<close>

text \<open>C10: vesting-lp and vesting-lp-pcl run together, a migration being a whole transaction with its callbacks and the hook to the new contract; the old contract's vesting token is then a cw20 token other than the configured new LP token. Left out are the hooks that anyone can forge: the new contract gets a migration hook only from its own LP token within a migration, so a hook that another token carries has no effect there. In all such runs (must_pay of cw_utils as documented) what the accounts of each contract are owed stays within the LP tokens it holds and within the difference of its totals.\<close>
theorem vesting_handover_keeps_both_solvent:
  assumes "vesting_handover x q nlp t s hs p hp"
  shows "owed (vl_base s) \<le> hs \<and> owed (vp_base p) \<le> hp \<and>
    (case v_state (vl_base s) of None \<Rightarrow> v_infos (vl_base s) = []
     | Some st \<Rightarrow> total_released st \<le> total_granted st \<and>
         owed (vl_base s) \<le> unat (total_granted st) - unat (total_released st)) \<and>
    (case v_state (vp_base p) of None \<Rightarrow> v_infos (vp_base p) = []
     | Some st \<Rightarrow> total_released st \<le> total_granted st \<and>
         owed (vp_base p) \<le> unat (total_granted st) - unat (total_released st))"
  using vesting_handover_covered [OF assms] covered_owed by blast

theorem vesting_handover_keeps_both_solvent_witness:
  "owed (vl_base lp_done) = 0 \<and> owed (vp_base pcl_start) = 90 \<and> owed (vp_base pcl_start) \<le> (90 :: nat)"
  using vesting_handover_keeps_both_solvent [OF vh_reachable]
  by (simp add: owed_def lp_states pcl_start_def granted_sum_def released_sum_def schedule_amount_def rescheduled_def)

text \<open>C34: When the new contract already has an account of the migrating user, the migration replaces the account and still adds the new amount to total_granted: what the old account was owed stays in the totals and belongs to nobody.\<close>
theorem vesting_pcl_migration_overwrites_an_account:
  assumes "vesting_pcl_execute d env info (VReceive c n (MigrateXYKVesting a vi)) p = Ok (p', ms)"
    and "store_ok (v_infos (vp_base p))" and "map_of (v_infos (vp_base p)) a = Some old"
    and "v_state (vp_base p) = Some st"
  shows "map_of (v_infos (vp_base p')) a = Some vi \<and>
    granted_sum (v_infos (vp_base p')) + schedules_total (schedules old) =
      granted_sum (v_infos (vp_base p)) + schedules_total (schedules vi) \<and>
    (\<exists>st'. v_state (vp_base p') = Some st' \<and>
       unat (total_granted st') = unat (total_granted st) + schedules_total (schedules vi))"
proof -
  obtain to_deposit g where total: "add_schedule_amounts 0 (schedules vi) = Ok to_deposit"
    and g: "unat g = unat (total_granted st) + unat to_deposit"
    and p': "p' = p\<lparr>vp_base := (vp_base p)\<lparr>v_infos := save a vi (v_infos (vp_base p)),
        v_state := Some (st\<lparr>total_granted := g\<rparr>)\<rparr>\<rparr>"
    using assms(1,4)
    by (auto simp: vesting_pcl_execute_def vesting_pcl_receive_cw20_def handle_migrate_xyk_liquidity_def Let_def
        unwrap_or_def split: if_split_asm)
  show ?thesis
    using sums_update [OF assms(2,3), of vi] add_schedule_amounts_Ok [OF total] g by (simp add: p' map_of_save)
qed

theorem vesting_pcl_migration_overwrites_an_account_witness:
  "\<exists>p'. vesting_pcl_execute vh_deps (lp_env\<lparr>this_contract := ''vestingpcl''\<rparr>) \<lparr>sender = ''pcllp'', funds = []\<rparr>
       (VReceive ''vestinglp'' 30 (MigrateXYKVesting ''alice''
         \<lparr>schedules = [rescheduled lp_schedule 30], released_amount = 0\<rparr>)) pcl_start = Ok (p', []) \<and>
     map_of (v_infos (vp_base p')) ''alice'' = Some \<lparr>schedules = [rescheduled lp_schedule 30], released_amount = 0\<rparr> \<and>
     owed (vp_base p') = 30 \<and> (\<exists>st'. v_state (vp_base p') = Some st' \<and> unat (total_granted st') = 120)"
proof -
  let ?vi = "\<lparr>schedules = [rescheduled lp_schedule 30], released_amount = 0\<rparr>"
  define p' where "p' = pcl_start\<lparr>vp_base := (vp_base pcl_start)\<lparr>v_infos := [(''alice'', ?vi)],
     v_state := Some \<lparr>total_granted = 120, total_released = 0\<rparr>\<rparr>\<rparr>"
  have run: "vesting_pcl_execute vh_deps (lp_env\<lparr>this_contract := ''vestingpcl''\<rparr>) \<lparr>sender = ''pcllp'', funds = []\<rparr>
       (VReceive ''vestinglp'' 30 (MigrateXYKVesting ''alice'' ?vi)) pcl_start = Ok (p', [])"
    by (simp add: p'_def vesting_pcl_execute_def vesting_pcl_receive_cw20_def is_sender_xyk_vesting_lp_def
        handle_migrate_xyk_liquidity_def vesting_ops vh_defs rescheduled_def Let_def ok_or_panic_def eval_arith)
  from vesting_pcl_migration_overwrites_an_account [OF run, of _ "\<lparr>total_granted = 90, total_released = 0\<rparr>"]
  have "map_of (v_infos (vp_base p')) ''alice'' = Some ?vi"
    "\<exists>st'. v_state (vp_base p') = Some st' \<and> unat (total_granted st') = 120"
    by (simp_all add: pcl_start_def store_ok_def schedule_amount_def rescheduled_def lp_states)
  moreover have "owed (vp_base p') = 30"
    by (simp add: p'_def owed_def granted_sum_def released_sum_def schedule_amount_def rescheduled_def lp_states)
  ultimately show ?thesis using run by blast
qed

end
