(* ===== verification/Credits_Lockdrop.thy ===== *)
theory Credits_Lockdrop
  imports Credits_Properties Lockdrop_Properties
begin

text \<open>
  The lockdrop and the credits contract together: the first claim of an airdrop participant in the
  lockdrop asks the credits contract what the user can withdraw and what is still vesting, and sends
  it a \<open>BurnFrom\<close>, which pays the user in untrn and skips the vesting.
\<close>

text \<open>What the lockdrop's queries return when the credits contract is in the state \<open>t\<close>.\<close>

definition credits_answers ::
  "('t, 'e) cw20_lib \<Rightarrow> ('c) deps_scheme \<Rightarrow> env \<Rightarrow> 't credits \<Rightarrow> ('d) lockdrop_deps_scheme \<Rightarrow> addr \<Rightarrow> bool" where
  "credits_answers L dc env t d c \<longleftrightarrow>
     (\<forall>a. credits_withdrawable d c a = query_withdrawable_amount L dc env a t \<and>
          credits_vested d c a = query_vested_amount L dc env a t)"

text \<open>The part of an account's balance that its owner may withdraw.\<close>

definition free_credits :: "('t, 'e) cw20_lib \<Rightarrow> nat \<Rightarrow> 't credits \<Rightarrow> addr \<Rightarrow> nat" where
  "free_credits L now t a = (case map_of (c_allocations t) a of None \<Rightarrow> 0
     | Some al \<Rightarrow> min (vested_at al now - unat (withdrawn_amount al)) (balance_of L (c_token t) a))"

lemma unat_min: "unat (min x y) = min (unat x) (unat y)"
  by (auto simp: min_def word_le_nat_alt)

lemma query_withdrawable_Ok:
  assumes "query_withdrawable_amount L dc env a t = Ok w" and "addr_validate_identity dc"
  shows "unat w = free_credits L (unat (block_time env)) t a"
  using assms(1)
  by (auto simp: query_withdrawable_amount_def free_credits_def balance_of_def unat_min
      dest!: addr_validate_identityD [OF assms(2)] compute_withdrawable_Ok)

lemma query_vested_Ok:
  assumes "query_vested_amount L dc env a t = Ok v" and "addr_validate_identity dc"
  shows "unat v + free_credits L (unat (block_time env)) t a = balance_of L (c_token t) a"
  using assms(1)
  by (auto simp: query_vested_amount_def free_credits_def balance_of_def unat_min
      dest!: addr_validate_identityD [OF assms(2)] compute_withdrawable_Ok)

text \<open>The multiplier is one: what has to be burned for the rewards is the rewards themselves.\<close>

lemma claim_airdrop_amount:
  assumes "claim_airdrop_tokens_with_multiplier_msg d c a rewards = Ok (WasmExecute c' (Cw20BurnFrom a' n) fs)"
  obtains w v where "credits_withdrawable d c a = Ok w" "credits_vested d c a = Ok v"
    "unat n = unat w + min (unat v) (unat rewards)"
  using assms by (auto simp: claim_airdrop_tokens_with_multiplier_msg_def unat_min)

lemma one_time_rewards_burn:
  assumes "one_time_rewards d cfg a user s = Ok (s', ms)" and "WasmExecute c (Cw20BurnFrom a' n) fs \<in> set ms"
  shows "claim_airdrop_tokens_with_multiplier_msg d (lc_credits_contract cfg) a (total_ntrn_rewards user)
    = Ok (WasmExecute c (Cw20BurnFrom a' n) fs)"
  using assms by (auto simp: one_time_rewards_def Let_def split: if_splits)

lemma credits_burn_from_inversion:
  assumes "credits_burn_from L d env info owner n s = Ok (s', ms)" and "addr_validate_identity d"
  obtains "burn_and_send L env (info\<lparr>sender := owner\<rparr>) n s = Ok (s', ms)"
  using assms(1)
  by (auto simp: credits_burn_from_def credits_load_config_def dest!: addr_validate_identityD [OF assms(2)] split: if_splits)

text \<open>C29: When the credits contract answers the lockdrop, the first claim of an airdrop participant burns what the user may withdraw plus as much of the vesting rest as the rewards, never more than the balance, and pays it in untrn to the user; what the user may withdraw afterwards is not reduced but by the balance.\<close>
theorem lockdrop_claim_is_paid_from_the_balance:
  assumes "one_time_rewards d cfg a user s = Ok (s', ms)" and "WasmExecute c (Cw20BurnFrom a' n) fs \<in> set ms"
    and "credits_answers L dc env t d (lc_credits_contract cfg)"
    and "credits_execute L dc env info (CreditsBurnFrom a' n) t = Ok (t', out)"
    and "cw20_laws L" and "addr_validate_identity dc"
  shows "c = lc_credits_contract cfg \<and> a' = a \<and>
    (let balance = balance_of L (c_token t) a; free = free_credits L (unat (block_time env)) t a in
      unat n = free + min (balance - free) (unat (total_ntrn_rewards user)) \<and>
      out = [BankSend a [\<lparr>coin_denom = ''untrn'', coin_amount = n\<rparr>]] \<and>
      balance_of L (c_token t') a + unat n = balance \<and>
      free_credits L (unat (block_time env)) t' a = min free (balance - unat n))"
proof -
  note m = one_time_rewards_burn [OF assms(1,2)]
  have c: "c = lc_credits_contract cfg" "a' = a"
    using m by (auto simp: claim_airdrop_tokens_with_multiplier_msg_def)
  obtain w v where "credits_withdrawable d c a = Ok w" "credits_vested d c a = Ok v"
    and n: "unat n = unat w + min (unat v) (unat (total_ntrn_rewards user))"
    using m unfolding c by (rule claim_airdrop_amount)
  then have "query_withdrawable_amount L dc env a t = Ok w" "query_vested_amount L dc env a t = Ok v"
    using assms(3) by (simp_all add: credits_answers_def c)
  then have w: "unat w = free_credits L (unat (block_time env)) t a"
    and v: "unat v + free_credits L (unat (block_time env)) t a = balance_of L (c_token t) a"
    using query_withdrawable_Ok query_vested_Ok assms(6) by blast+
  have "credits_burn_from L dc env info a n t = Ok (t', out)" using assms(4) c by simp
  then obtain "burn_and_send L env (info\<lparr>sender := a\<rparr>) n t = Ok (t', out)"
    using assms(6) by (rule credits_burn_from_inversion)
  from burn_and_send_Ok [OF this assms(5)] have out: "out = [BankSend a [\<lparr>coin_denom = ''untrn'', coin_amount = n\<rparr>]]"
    and al: "c_allocations t' = c_allocations t"
    and bal: "balance_of L (c_token t) a = balance_of L (c_token t') a + unat n" by simp_all
  have "free_credits L (unat (block_time env)) t' a
      = min (free_credits L (unat (block_time env)) t a) (balance_of L (c_token t') a)"
    using bal by (auto simp: free_credits_def al split: option.split)
  moreover have "unat v = balance_of L (c_token t) a - free_credits L (unat (block_time env)) t a"
    using v by simp
  ultimately show ?thesis using n w bal out c by (simp add: Let_def)
qed

subsection \<open>An example claim\<close>

text \<open>At time 300 \<open>alice\<close> may withdraw 250 of her 1000 cNTRN. Her claim in the lockdrop with 100 NTRN of
  rewards pays 350 of them, and 250 of the remaining 650 may be withdrawn at once.\<close>

definition cl_deps :: lockdrop_deps where
  "cl_deps = lr_deps\<lparr>cw20_balance := (\<lambda>c a. Ok 1000),
     credits_withdrawable := (\<lambda>c a. query_withdrawable_amount simple_cw20 cr_deps (cr_env 300) a cr_vesting),
     credits_vested := (\<lambda>c a. query_vested_amount simple_cw20 cr_deps (cr_env 300) a cr_vesting)\<rparr>"

definition cl_user :: lockdrop_user_info where
  "cl_user = \<lparr>total_ntrn_rewards = 100, ntrn_transferred = False, lockup_positions_index = 1\<rparr>"

definition cl_after :: "simple_token credits" where
  "cl_after = cr_vesting\<lparr>c_token := cr_token [(''airdrop'', 4000), (''alice'', 650)] 4650\<rparr>"

lemma cl_claim:
  "one_time_rewards cl_deps (lr_config None 0) ''alice'' cl_user lr_locked =
     Ok (lr_locked\<lparr>l_users := save ''alice'' (cl_user\<lparr>ntrn_transferred := True\<rparr>) (l_users lr_locked)\<rparr>,
       [BankSend ''alice'' [\<lparr>coin_denom = ntrn_denom, coin_amount = 100\<rparr>],
        WasmExecute ''credits'' (Cw20BurnFrom ''alice'' 350) []])"
  by (simp add: one_time_rewards_def cl_user_def cl_deps_def claim_airdrop_tokens_with_multiplier_msg_def
      lr_config_def query_withdrawable_amount_def query_vested_amount_def credits_ops cr_defs eval_arith min_def Let_def)

lemma cl_burn:
  "credits_execute simple_cw20 cr_deps (cr_env 300) (cr_call ''lockdrop'' []) (CreditsBurnFrom ''alice'' 350) cr_vesting
     = Ok (cl_after, [BankSend ''alice'' [\<lparr>coin_denom = ''untrn'', coin_amount = 350\<rparr>]])"
  by (simp add: credits_ops cr_defs cl_after_def eval_arith)

theorem lockdrop_claim_is_paid_from_the_balance_witness:
  "free_credits simple_cw20 300 cr_vesting ''alice'' = 250 \<and>
   unat (350 :: u128) = 250 + min (1000 - 250) (100 :: nat) \<and>
   free_credits simple_cw20 300 cl_after ''alice'' = 250"
proof -
  have answers: "credits_answers simple_cw20 cr_deps (cr_env 300) cr_vesting cl_deps (lc_credits_contract (lr_config None 0))"
    by (simp add: credits_answers_def cl_deps_def)
  have validate: "addr_validate_identity cr_deps" by (simp add: addr_validate_identity_def cr_deps_def)
  have free: "free_credits simple_cw20 300 cr_vesting ''alice'' = 250"
    by (simp add: free_credits_def vested_at_def balance_of_def cr_defs Let_def)
  have balance: "balance_of simple_cw20 (c_token cr_vesting) ''alice'' = 1000"
    by (simp add: balance_of_def cr_defs)
  show ?thesis
    using lockdrop_claim_is_paid_from_the_balance [OF cl_claim _ answers cl_burn simple_cw20_laws validate] free balance
    by (simp add: Let_def cl_user_def)
qed

end
