(* ===== verification/Feed_Auction.thy ===== *)
theory Feed_Auction
  imports Auction_Properties Price_Feed_Properties
begin

text \<open>
  The price feed and the auction together: the rates that an oracle answer writes into the feed are
  what the auction's SetPoolSize reads, by \<open>GetRate\<close>, to value the deposited ATOM in USDC.
\<close>

text \<open>The feed's \<open>PriceFeedRate\<close> as the auction parses it, and the auction's query while the feed is in
  the state \<open>f\<close>.\<close>

definition auction_rate :: "feed_rate \<Rightarrow> price_feed_rate" where
  "auction_rate r = \<lparr>rate = fr_rate r, resolve_time = fr_resolve_time r, request_id = fr_request_id r\<rparr>"

definition feed_answers :: "('d) auction_deps_scheme \<Rightarrow> addr \<Rightarrow> price_feed \<Rightarrow> bool" where
  "feed_answers d c f \<longleftrightarrow> (\<forall>rs. query_rate f = Ok rs \<longrightarrow> query_rates d c = Ok (map auction_rate rs))"

text \<open>A configuration that asks for the two symbols, in either order, with the answer to it.\<close>

definition atom_usdc_answer :: "string list \<Rightarrow> u64 list \<Rightarrow> u64 \<Rightarrow> u64 \<Rightarrow> bool" where
  "atom_usdc_answer syms xs atom usdc \<longleftrightarrow>
     syms = [''ATOM'', ''USDC''] \<and> xs = [atom, usdc] \<or> syms = [''USDC'', ''ATOM''] \<and> xs = [usdc, atom]"

lemma set_pool_size_fresh:
  assumes "execute_set_pool_size d env s = Ok (s', ms)" and "a_config s = Some cfg"
    and "query_rates d (price_feed_contract cfg) = Ok [r0, r1]"
  shows "unat (block_time env) \<le> unat (resolve_time r0) + unat (max_exchange_rate_age cfg)"
  using assms unfolding execute_set_pool_size_def auction_load_config_def
  by (auto simp: Let_def not_less word_le_nat_alt two_elements_iff simp del: uint_simps dest!: sub_panic_Ok_iff [THEN iffD1] split: if_splits)

lemma feed_answer_read:
  assumes "ibc_packet_receive de fenv packet f = Ok (f', AckSuccess)" and "parse_response de packet = Ok resp"
    and "from_base64 de (resp_result resp) = Ok bin" and "obi_decode de bin = Some xs"
    and "feed_cfg f = Some fcfg" and "atom_usdc_answer (symbols fcfg) xs atom usdc"
  shows "\<exists>r0 r1. query_rate f' = Ok [r0, r1] \<and> fr_rate r0 = atom \<and> fr_rate r1 = usdc \<and>
    fr_resolve_time r0 = block_time fenv"
proof -
  have sorted: "sort [''ATOM'', ''USDC''] = [''ATOM'', ''USDC'']" "sort [''USDC'', ''ATOM''] = [''ATOM'', ''USDC'']"
    by simp_all
  have "distinct (symbols fcfg)" "length xs = length (symbols fcfg)"
    using assms(6) by (auto simp: atom_usdc_answer_def)
  from feed_publishes_the_answer [OF assms(1-5) this] show ?thesis
    using assms(6) by (auto simp: atom_usdc_answer_def sorted)
qed

lemma atom_value_ge:
  fixes A a u F :: nat
  assumes "0 < a" and "0 < u * F div a"
  shows "A * a div u \<le> A * F div (u * F div a)"
proof -
  let ?k = "u * F div a" and ?w = "A * a div u"
  have "(?w * ?k) * a = ?w * (?k * a)" by (simp only: ac_simps)
  also have "\<dots> \<le> ?w * (u * F)" by (rule mult_le_mono2) (rule div_times_less_eq_dividend)
  also have "\<dots> = (?w * u) * F" by (simp only: ac_simps)
  also have "\<dots> \<le> (A * a) * F" by (rule mult_le_mono1) (rule div_times_less_eq_dividend)
  also have "\<dots> = (A * F) * a" by (simp only: ac_simps)
  finally have "?w * ?k \<le> A * F" using assms(1) by (simp only: mult_le_cancel2)
  then show ?thesis using assms(2) by (simp add: less_eq_div_iff_mult_less_eq)
qed

text \<open>C37: When the price feed has got an answer for ATOM and USDC (configured in either order) and the auction reads it, SetPoolSize succeeds only while the answer is fresh, and it values the deposited ATOM in USDC by the answered rates and gives the USDC pool its share of the NTRN by value, rounded down.\<close>
theorem pool_sizes_follow_the_feed:
  assumes "ibc_packet_receive de fenv packet f = Ok (f', AckSuccess)" and "parse_response de packet = Ok resp"
    and "from_base64 de (resp_result resp) = Ok bin" and "obi_decode de bin = Some xs"
    and "feed_cfg f = Some fcfg" and "atom_usdc_answer (symbols fcfg) xs atom usdc"
    and "feed_answers d (price_feed_contract cfg) f'" and "execute_set_pool_size d env s = Ok (s', ms)"
    and "a_config s = Some cfg" and "a_state s = Some st"
    and "bank_balance d (this_contract env) (ac_ntrn_denom cfg) = Ok ntrn"
  shows "unat (block_time env) \<le> unat (block_time fenv) + unat (max_exchange_rate_age cfg) \<and>
    (\<exists>st' v. a_state s' = Some st' \<and>
       unat (total_atom_deposited st) * unat atom div unat usdc \<le> v \<and>
       v * (unat usdc * 10 ^ 18 div unat atom) \<le> unat (total_atom_deposited st) * 10 ^ 18 \<and>
       unat (usdc_ntrn_size st') =
         unat ntrn * (unat (total_usdc_deposited st) * 10 ^ 18 div (unat (total_usdc_deposited st) + v)) div 10 ^ 18 \<and>
       unat (usdc_ntrn_size st') * (unat (total_usdc_deposited st) + v) \<le> unat ntrn * unat (total_usdc_deposited st))"
proof -
  obtain r0 r1 where "query_rate f' = Ok [r0, r1]" and r: "fr_rate r0 = atom" "fr_rate r1 = usdc"
    "fr_resolve_time r0 = block_time fenv"
    using feed_answer_read [OF assms(1-6)] by blast
  then have q: "query_rates d (price_feed_contract cfg) = Ok [auction_rate r0, auction_rate r1]"
    using assms(7) by (simp add: feed_answers_def)
  have "unat (block_time env) \<le> unat (block_time fenv) + unat (max_exchange_rate_age cfg)"
    using set_pool_size_fresh [OF assms(8,9) q] r by (simp add: auction_rate_def)
  moreover have "\<exists>st' v. a_state s' = Some st' \<and>
       unat (total_atom_deposited st) * unat atom div unat usdc \<le> v \<and>
       v * (unat usdc * 10 ^ 18 div unat atom) \<le> unat (total_atom_deposited st) * 10 ^ 18 \<and>
       unat (usdc_ntrn_size st') =
         unat ntrn * (unat (total_usdc_deposited st) * 10 ^ 18 div (unat (total_usdc_deposited st) + v)) div 10 ^ 18 \<and>
       unat (usdc_ntrn_size st') * (unat (total_usdc_deposited st) + v) \<le> unat ntrn * unat (total_usdc_deposited st)"
    using assms(8)
  proof (rule set_pool_size_inversion, goal_cases)
    case (1 c t ntrn' q0 q1 qq dec aiu all_usdc ratio x y la lu)
    have eq: "c = cfg" "t = st" "ntrn' = ntrn" "q0 = auction_rate r0" "q1 = auction_rate r1"
      using 1 assms(9-11) q by auto
    let ?k = "unat (atomics qq)" and ?A = "unat (total_atom_deposited st)" and ?U = "unat (total_usdc_deposited st)"
    have widen_nz: "widen (0 :: u64) = 0" by (simp add: widen_def)
    have a0: "0 < unat atom" and k: "?k = unat usdc * 10 ^ 18 div unat atom"
      using 1(11) eq r widen_nz by (auto simp: auction_rate_def unat_gt_0)
    have k0: "0 < ?k" using 1(13) by (auto simp: div_decimal_def unat_gt_0)
    define v where "v = ?A * 10 ^ 18 div ?k"
    have "?A * 10 ^ 18 * 10 ^ 18 div ?k div 10 ^ 18 = v"
      by (simp add: v_def div_mult2_eq [symmetric] mult.commute)
    then have aiu: "unat (to_uint_floor aiu) = v"
      using 1(12,13) eq by (simp add: div_decimal_def mult.commute)
    have all: "unat all_usdc = ?U + v" using 1(14) aiu eq by simp
    have x: "unat x = unat ntrn * (?U * 10 ^ 18 div (?U + v)) div 10 ^ 18"
      using 1(15,16) all eq by simp
    have "unat x * (?U + v) \<le> unat ntrn * ?U"
      unfolding x using decimal_share_floor_le [of "unat ntrn" ?U "?U + v"] by simp
    moreover have "?A * unat atom div unat usdc \<le> v"
      using atom_value_ge [of "unat atom" "unat usdc" "10 ^ 18" ?A] a0 k k0 by (simp add: v_def)
    moreover have "v * (unat usdc * 10 ^ 18 div unat atom) \<le> ?A * 10 ^ 18"
      by (simp only: v_def k) (rule div_times_less_eq_dividend)
    ultimately show ?case using x 1(20) eq by auto
  qed
  ultimately show ?thesis by blast
qed

subsection \<open>An example\<close>

text \<open>The feed asks for USDC and ATOM and gets one and ten; the auction of the example run sizes its pools
  with that answer ten seconds later.\<close>

definition fa_config :: feed_config where
  "fa_config = pf_config\<lparr>symbols := [''USDC'', ''ATOM'']\<rparr>"

definition fa_answer :: oracle_response where
  "fa_answer = \<lparr>resp_status = ResolveSuccess, resp_result = [CHR 0x01, CHR 0x0A], resp_request_id = 1\<rparr>"

definition fa_ready :: price_feed where
  "fa_ready = pf_ready\<lparr>feed_cfg := Some fa_config\<rparr>"

definition fa_answered :: price_feed where
  "fa_answered = fa_ready\<lparr>rates :=
     [(''ATOM'', \<lparr>fr_rate = 10, fr_resolve_time = 290, fr_request_id = 1\<rparr>),
      (''USDC'', \<lparr>fr_rate = 1, fr_resolve_time = 290, fr_request_id = 1\<rparr>)]\<rparr>"

lemmas fa_defs = fa_config_def fa_answer_def fa_ready_def fa_answered_def pf_defs

lemma fa_receive: "ibc_packet_receive pf_deps (pf_env 290) fa_answer fa_ready = Ok (fa_answered, AckSuccess)"
  by (simp add: ibc_packet_receive_def do_ibc_packet_receive_def feed_load_config_def fa_defs)

theorem pool_sizes_follow_the_feed_witness:
  "\<exists>v. 1000000 * 10 div 1 \<le> v \<and> v * (1 * 10 ^ 18 div 10) \<le> 1000000 * (10 ^ 18 :: nat) \<and>
    (2999999 :: nat) = 9000000 * (5000000 * 10 ^ 18 div (5000000 + v)) div 10 ^ 18"
proof -
  have feed: "parse_response pf_deps fa_answer = Ok fa_answer" "from_base64 pf_deps (resp_result fa_answer) = Ok [1, 10]"
    "obi_decode pf_deps [1, 10] = Some [1, 10]" "feed_cfg fa_ready = Some fa_config"
    "atom_usdc_answer (symbols fa_config) [1, 10] 10 1"
    by (simp_all add: fa_defs atom_usdc_answer_def)
  have answers: "feed_answers run_deps (price_feed_contract run_config) fa_answered"
    by (simp add: feed_answers_def query_rate_def feed_load_config_def fa_defs run_deps_def auction_rate_def)
  have auction: "a_config run_withdrawn = Some run_config" "a_state run_withdrawn = Some (run_totals 5000000 1000000)"
    "bank_balance run_deps (this_contract (run_env 300)) (ac_ntrn_denom run_config) = Ok 9000000"
    by (simp_all add: run_withdrawn_def run_deps_def)
  have sizes: "a_state run_sized = Some run_sizes" by (simp add: run_sized_def)
  show ?thesis
    using pool_sizes_follow_the_feed [OF fa_receive feed answers run_step_sized auction] sizes
    by (auto simp: run_sizes_def run_totals_def)
qed

end
