(* ===== verification/Asset_Helpers.thy ===== *)
theory Asset_Helpers
  imports Oracle Restricted_Vector
begin

text \<open>
  The rest of the library \<open>packages/astroport\<close> that the contracts share: helpers on assets and
  pairs (\<open>asset.rs\<close>), conversions between integers and decimals (\<open>asset.rs\<close>, \<open>cosmwasm_ext.rs\<close>,
  \<open>lib.rs\<close>), the remaining methods of \<open>RestrictedVector\<close> and the queries of \<open>querier.rs\<close> with
  a computation of their own. Tokens, pairs and the factory are fields of \<open>pair_deps\<close>.
\<close>

subsection \<open>Conversions\<close>

text \<open>\<open>Decimal256::from_atomics(v, places)\<close>: the value \<open>v / 10 ^ places\<close> with 18 places, scaled up
  exactly or rounded down; \<open>None\<close> is a value out of range.\<close>

definition from_atomics256 :: "u256 \<Rightarrow> nat \<Rightarrow> decimal256 option" where
  "from_atomics256 v places =
     (if places \<le> 18 then map_option Decimal256 (narrow (unat v * 10 ^ (18 - places)))
      else Some (Decimal256 (of_nat (unat v div 10 ^ (places - 18)))))"

definition with_precision :: "u256 \<Rightarrow> u32 \<Rightarrow> (std_error, decimal256) result" where
  "with_precision v p = ok_or (from_atomics256 v (unat p)) (GenericErr ''Decimal256 range exceeded'')"

text \<open>\<open>self.decimal_places() - precision\<close> underflows, and panics, for a precision above 18.\<close>

definition to_uint128_with_precision :: "decimal256 \<Rightarrow> u32 \<Rightarrow> (std_error, u128) result" where
  "to_uint128_with_precision q p =
     and_then (sub_panic 18 p) (\<lambda>k.
     ok_or (narrow (unat (atomics256 q) div 10 ^ unat k)) (GenericErr ''Error converting {}''))"

definition to_uint256_with_precision :: "decimal256 \<Rightarrow> u32 \<Rightarrow> (std_error, u256) result" where
  "to_uint256_with_precision q p =
     and_then (sub_panic 18 p) (\<lambda>k. Ok (of_nat (unat (atomics256 q) div 10 ^ unat k)))"

definition to_uint256 :: "decimal256 \<Rightarrow> u256" where
  "to_uint256 q = of_nat (unat (atomics256 q) div DECIMAL_FRACTIONAL)"

definition from_integer :: "u256 \<Rightarrow> ('e, decimal256) result" where
  "from_integer i = from_ratio256 i 1"

definition dec256_multiply_ratio ::
  "decimal256 \<Rightarrow> decimal256 \<Rightarrow> decimal256 \<Rightarrow> (std_error, decimal256) result" where
  "dec256_multiply_ratio q numerator denominator =
     (if atomics256 denominator = 0 then Err (GenericErr ''CheckedMultiplyRatioError'')
      else map_ok Decimal256 (ok_or
        (narrow (unat (atomics256 q) * unat (atomics256 numerator) div unat (atomics256 denominator)))
        (GenericErr ''CheckedMultiplyRatioError'')))"

definition to_decimal256 :: "u128 \<Rightarrow> u32 \<Rightarrow> (std_error, decimal256) result" where
  "to_decimal256 a p = with_precision (u256_of_u128 a) p"

definition decimal2decimal256 :: "decimal \<Rightarrow> (std_error, decimal256) result" where
  "decimal2decimal256 q =
     ok_or (from_atomics256 (u256_of_u128 (atomics q)) 18)
       (GenericErr ''Failed to convert Decimal {} to Decimal256'')"

text \<open>\<open>astroport::to_decimal\<close>; \<open>Decimal::from_atomics\<close> with 18 places takes the atomics as they are.\<close>

definition decimal256_to_decimal :: "decimal256 \<Rightarrow> (std_error, decimal) result" where
  "decimal256_to_decimal q = map_ok Decimal (ok_or (narrow (unat (atomics256 q))) ConversionOverflow)"

text \<open>\<open>AbsDiff::diff\<close> for the unsigned integers; a \<open>Decimal\<close> is compared by its atomics.\<close>

definition abs_diff :: "'a::len word \<Rightarrow> 'a word \<Rightarrow> ('e, 'a word) result" where
  "abs_diff a b = (if b < a then sub_panic a b else sub_panic b a)"

lemma abs_diff_Ok:
  "\<exists>c. abs_diff a b = Ok c \<and> unat c = max (unat a) (unat b) - min (unat a) (unat b)"
proof (cases "b < a")
  case True
  then show ?thesis by (simp add: abs_diff_def sub_panic_def unat_sub word_less_nat_alt word_le_nat_alt)
next
  case False
  then show ?thesis by (simp add: abs_diff_def sub_panic_def unat_sub word_less_nat_alt word_le_nat_alt)
qed

lemma ex_Decimal256_iff: "(\<exists>x. P x \<and> Decimal256 x = q) \<longleftrightarrow> P (atomics256 q)"
  by (cases q) auto

lemma ex_Decimal_iff: "(\<exists>x. P x \<and> q = Decimal x) \<longleftrightarrow> P (atomics q)"
  by (cases q) auto

lemma with_precision_Ok:
  "unat p \<le> 18 \<Longrightarrow> with_precision v p = Ok q \<longleftrightarrow> unat (atomics256 q) = unat v * 10 ^ (18 - unat p)"
  by (simp add: with_precision_def from_atomics256_def ex_Decimal256_iff)

text \<open>Integers come back from a decimal with the same precision; decimals come back from the wide
  type, and a wide decimal that does not fit is an error.\<close>

lemma with_precision_round_trip:
  assumes "with_precision v p = Ok q" and "p \<le> 18"
  shows "to_uint256_with_precision q p = Ok v"
proof -
  have p: "unat p \<le> 18" using assms(2) by (simp add: word_le_nat_alt)
  then have "unat (18 - p) = 18 - unat p" by (simp add: unat_sub assms(2))
  moreover have "unat (atomics256 q) div 10 ^ (18 - unat p) = unat v"
    using assms(1) by (simp add: with_precision_Ok [OF p])
  ultimately show ?thesis using p by (simp add: to_uint256_with_precision_def sub_panic_def)
qed

lemma decimal_round_trip:
  "and_then (decimal2decimal256 q) decimal256_to_decimal = Ok q"
proof -
  have "decimal2decimal256 q = Ok (Decimal256 (u256_of_u128 (atomics q)))"
    by (simp add: decimal2decimal256_def from_atomics256_def ex_Decimal256_iff)
  then show ?thesis by (simp add: decimal256_to_decimal_def ex_Decimal_iff)
qed

lemma decimal256_to_decimal_Ok_iff:
  "decimal256_to_decimal q = Ok p \<longleftrightarrow> unat (atomics p) = unat (atomics256 q)"
  by (auto simp: decimal256_to_decimal_def ex_Decimal_iff)

subsection \<open>Assets\<close>

definition token_asset :: "addr \<Rightarrow> u128 \<Rightarrow> asset" where
  "token_asset c n = \<lparr>ainfo = Token c, asset_amount = n\<rparr>"

definition native_asset_info :: "string \<Rightarrow> asset_info" where
  "native_asset_info denom = NativeToken denom"

definition asset_is_native_token :: "asset \<Rightarrow> bool" where
  "asset_is_native_token a = is_native_token (ainfo a)"

record decimal_asset =
  dec_info :: asset_info
  dec_amount :: decimal256

definition to_decimal_asset :: "asset \<Rightarrow> u32 \<Rightarrow> (std_error, decimal_asset) result" where
  "to_decimal_asset a p =
     and_then (with_precision (u256_of_u128 (asset_amount a)) p) (\<lambda>q.
     Ok \<lparr>dec_info = ainfo a, dec_amount = q\<rparr>)"

text \<open>\<open>find\<close> takes the first coin of the denom among the funds.\<close>

definition assert_sent_native_token_balance :: "asset \<Rightarrow> message_info \<Rightarrow> (std_error, unit) result" where
  "assert_sent_native_token_balance a info =
     (case ainfo a of
        NativeToken denom \<Rightarrow>
          (case List.find (\<lambda>c. coin_denom c = denom) (funds info) of
             Some c \<Rightarrow>
               if asset_amount a = coin_amount c then Ok ()
               else Err (GenericErr ''Native token balance mismatch between the argument and the transferred'')
           | None \<Rightarrow>
               if asset_amount a = 0 then Ok ()
               else Err (GenericErr ''Native token balance mismatch between the argument and the transferred''))
      | Token _ \<Rightarrow> Ok ())"

definition check_swap_parameters :: "u128 list \<Rightarrow> u128 \<Rightarrow> (std_error, unit) result" where
  "check_swap_parameters pools swap_amount =
     (if list_ex (\<lambda>pool. pool = 0) pools then Err (GenericErr ''One of the pools is empty'')
      else if swap_amount = 0 then Err (GenericErr ''Swap amount must not be zero'')
      else Ok ())"

definition validate_addresses :: "('d) deps_scheme \<Rightarrow> string list \<Rightarrow> (std_error, addr list) result" where
  "validate_addresses d admins = try_map (addr_validate_to_lower d) admins"

text \<open>With funds in which every denom occurs once, as the bank module delivers them, the check
  says that exactly the amount of the asset was sent.\<close>

lemma coins_total_distinct:
  assumes "distinct (map coin_denom cs)"
  shows "coins_total denom cs =
    (case List.find (\<lambda>c. coin_denom c = denom) cs of Some c \<Rightarrow> unat (coin_amount c) | None \<Rightarrow> 0)"
  using assms
proof (induction cs)
  case (Cons c cs)
  have "coins_total (coin_denom c) cs = 0" if "coin_denom c \<notin> coin_denom ` set cs"
    using that by (induction cs) auto
  then show ?case using Cons by auto
qed simp

lemma assert_sent_native_token_balance_Ok_iff:
  assumes "distinct (map coin_denom (funds info))"
  shows "assert_sent_native_token_balance a info = Ok () \<longleftrightarrow>
    (\<forall>denom. ainfo a = NativeToken denom \<longrightarrow> coins_total denom (funds info) = unat (asset_amount a))"
proof (cases "ainfo a")
  case (NativeToken denom)
  have eq: "asset_amount a = n \<longleftrightarrow> unat n = unat (asset_amount a)" for n by (metis word_unat_eq_iff)
  show ?thesis
    by (cases "List.find (\<lambda>c. coin_denom c = denom) (funds info)")
      (simp_all add: assert_sent_native_token_balance_def coins_total_distinct [OF assms] NativeToken eq)
qed (simp add: assert_sent_native_token_balance_def)

subsection \<open>Tokens and pairs\<close>

record pair_deps = oracle_deps +
  cw20_symbol :: "addr \<Rightarrow> (std_error, string) result"
  cw20_total_supply :: "addr \<Rightarrow> (std_error, u128) result"
  cw20_minter :: "addr \<Rightarrow> (std_error, addr) result"
  pair_query_info :: "addr \<Rightarrow> (std_error, pair_info) result"
  factory_fee_info :: "addr \<Rightarrow> pair_type \<Rightarrow> (std_error, addr option \<times> u16 \<times> u16) result"

definition query_pools :: "('d) deps_scheme \<Rightarrow> pair_info \<Rightarrow> addr \<Rightarrow> (std_error, asset list) result" where
  "query_pools d pair c =
     try_map (\<lambda>ai. and_then (query_pool d ai c) (\<lambda>n. Ok \<lparr>ainfo = ai, asset_amount = n\<rparr>))
       (pair_asset_infos pair)"

definition asset_decimals ::
  "('d) oracle_deps_scheme \<Rightarrow> asset_info \<Rightarrow> addr \<Rightarrow> (std_error, u8) result" where
  "asset_decimals d ai factory = query_token_precision d ai factory"

definition query_pools_decimal ::
  "('d) oracle_deps_scheme \<Rightarrow> pair_info \<Rightarrow> addr \<Rightarrow> addr \<Rightarrow> (std_error, decimal_asset list) result" where
  "query_pools_decimal d pair c factory =
     try_map (\<lambda>ai.
       and_then (query_pool d ai c) (\<lambda>n.
       and_then (asset_decimals d ai factory) (\<lambda>places.
       and_then (ok_or (from_atomics256 (u256_of_u128 n) (unat places))
         (GenericErr ''Decimal256RangeExceeded'')) (\<lambda>q.
       Ok \<lparr>dec_info = ai, dec_amount = q\<rparr>)))) (pair_asset_infos pair)"

definition query_token_symbol :: "('d) pair_deps_scheme \<Rightarrow> addr \<Rightarrow> (std_error, string) result" where
  "query_token_symbol d c = cw20_symbol d c"

definition query_supply :: "('d) pair_deps_scheme \<Rightarrow> addr \<Rightarrow> (std_error, u128) result" where
  "query_supply d c = cw20_total_supply d c"

definition pair_info_by_pool :: "('d) pair_deps_scheme \<Rightarrow> addr \<Rightarrow> (std_error, pair_info) result" where
  "pair_info_by_pool d pool = and_then (cw20_minter d pool) (pair_query_info d)"

definition token_symbol_max_length :: nat where
  "token_symbol_max_length = 4"

definition char_to_upper :: "char \<Rightarrow> char" where
  "char_to_upper c =
     (if CHR ''a'' \<le> c \<and> c \<le> CHR ''z'' then char_of ((of_char c :: nat) - 32) else c)"

fun join :: "string \<Rightarrow> string list \<Rightarrow> string" where
  "join sep [] = []"
| "join sep [x] = x"
| "join sep (x # xs) = x @ sep @ join sep xs"

definition short_symbol :: "('d) pair_deps_scheme \<Rightarrow> asset_info \<Rightarrow> (std_error, string) result" where
  "short_symbol d ai =
     (case ai of
        NativeToken denom \<Rightarrow> Ok (take token_symbol_max_length denom)
      | Token c \<Rightarrow> map_ok (take token_symbol_max_length) (query_token_symbol d c))"

definition format_lp_token_name ::
  "('d) pair_deps_scheme \<Rightarrow> asset_info list \<Rightarrow> (std_error, string) result" where
  "format_lp_token_name d ais =
     map_ok (\<lambda>short_symbols. map char_to_upper (join ''-'' short_symbols @ ''-LP''))
       (try_map (short_symbol d) ais)"

record fee_info =
  fee_address :: "addr option"
  total_fee_rate :: decimal
  maker_fee_rate :: decimal

text \<open>\<open>Uint128::from(x)\<close> of a \<open>u16\<close>.\<close>

definition widen16 :: "u16 \<Rightarrow> u128" where
  "widen16 x = of_nat (unat x)"

definition query_fee_info ::
  "('d) pair_deps_scheme \<Rightarrow> addr \<Rightarrow> pair_type \<Rightarrow> (std_error, fee_info) result" where
  "query_fee_info d factory kind =
     and_then (factory_fee_info d factory kind) (\<lambda>(a, total_fee_bps, maker_fee_bps).
     and_then (from_ratio (widen16 total_fee_bps) 10000) (\<lambda>total_rate.
     and_then (from_ratio (widen16 maker_fee_bps) 10000) (\<lambda>maker_rate.
     Ok \<lparr>fee_address = a, total_fee_rate = total_rate, maker_fee_rate = maker_rate\<rparr>)))"

text \<open>The pools come in the order of the pair's assets, whatever the balances.\<close>

lemma query_pools_assets:
  "query_pools d pair c = Ok pools \<Longrightarrow> map ainfo pools = pair_asset_infos pair"
proof -
  have "try_map (\<lambda>ai. and_then (query_pool d ai c) (\<lambda>n. Ok \<lparr>ainfo = ai, asset_amount = n\<rparr>)) ais = Ok pools
      \<Longrightarrow> map ainfo pools = ais" for ais pools
    by (induction ais arbitrary: pools) auto
  then show "query_pools d pair c = Ok pools \<Longrightarrow> map ainfo pools = pair_asset_infos pair"
    by (simp add: query_pools_def)
qed

text \<open>Fees in basis points never overflow a decimal.\<close>

lemma query_fee_info_total:
  assumes "factory_fee_info d factory kind = Ok (a, total_bps, maker_bps)"
  shows "\<exists>f. query_fee_info d factory kind = Ok f \<and> fee_address f = a \<and>
    unat (atomics (total_fee_rate f)) = unat total_bps * 10 ^ 14 \<and>
    unat (atomics (maker_fee_rate f)) = unat maker_bps * 10 ^ 14"
proof -
  have bps: "\<exists>q. (from_ratio (widen16 b) 10000 :: (std_error, decimal) result) = Ok q \<and>
      unat (atomics q) = unat b * 10 ^ 14" for b :: u16
  proof -
    have b: "unat b < 2 ^ 16" using unsigned_less [of b] by simp
    then have b128: "unat (widen16 b) = unat b" unfolding widen16_def by (intro unat_of_nat_small) simp
    have fits: "unat b * 10 ^ 14 < 2 ^ 128" using b by simp
    then obtain w :: u128 where w: "unat w = unat b * 10 ^ 14"
      using word_of_nat_ex [where 'a = 128, of "unat b * 10 ^ 14"] by auto
    have "from_ratio (widen16 b) 10000 = Ok (Decimal w)"
      by (simp only: from_ratio_Ok_iff b128) (simp add: w)
    moreover have "unat (atomics (Decimal w)) = unat b * 10 ^ 14" using w by simp
    ultimately show ?thesis by blast
  qed
  obtain q where q: "(from_ratio (widen16 total_bps) 10000 :: (std_error, decimal) result) = Ok q"
    "unat (atomics q) = unat total_bps * 10 ^ 14" using bps by blast
  obtain r where r: "(from_ratio (widen16 maker_bps) 10000 :: (std_error, decimal) result) = Ok r"
    "unat (atomics r) = unat maker_bps * 10 ^ 14" using bps by blast
  show ?thesis
    by (rule exI [of _ "\<lparr>fee_address = a, total_fee_rate = q, maker_fee_rate = r\<rparr>"])
      (simp add: query_fee_info_def assms q r del: from_ratio_Ok_iff)
qed

subsection \<open>The rest of \<open>RestrictedVector\<close>\<close>

definition rv_default :: "('k, 'v) restricted_vector" where "rv_default = []"

definition rv_from :: "('k \<times> 'v) list \<Rightarrow> ('k, 'v) restricted_vector" where "rv_from xs = xs"

definition rv_inner_ref :: "('k, 'v) restricted_vector \<Rightarrow> ('k \<times> 'v) list" where "rv_inner_ref xs = xs"

definition rv_is_empty :: "('k, 'v) restricted_vector \<Rightarrow> bool" where "rv_is_empty xs = (xs = [])"

definition increase_decimal :: "decimal \<Rightarrow> decimal \<Rightarrow> (std_error, decimal) result" where
  "increase_decimal x y = dec_checked_add x y"

definition increase_uint128 :: "u128 \<Rightarrow> u128 \<Rightarrow> (std_error, u128) result" where
  "increase_uint128 x y = checked_add x y"

end
