(* ===== verification/Interface_Helpers.thy ===== *)
theory Interface_Helpers
  imports Vesting_Lp Airdrop Asset_Helpers Lockdrop
begin

text \<open>
  Code at the edges of the contracts: how the entry points of \<open>vesting-lp\<close> and \<open>vesting-lp-pcl\<close>
  convert their messages for the vesting library (\<open>msg.rs\<close>), the checks and conversions of the
  Astroport interfaces (\<open>token.rs\<close>, \<open>factory.rs\<close>, \<open>router.rs\<close>, \<open>pair.rs\<close>, \<open>generator.rs\<close>), the
  message builders of \<open>astroport_periphery/src/helpers.rs\<close>, and two helpers that no entry point
  calls any more: the signature of the airdrop's external accounts (\<open>helpers.rs\<close> of the airdrop)
  and the old migration of the lockdrop's proxy rewards (\<open>migration.rs\<close> of the lockdrop).
\<close>

subsection \<open>The messages of the LP vesting contracts\<close>

text \<open>\<open>ExecuteMsgHistorical\<close> has no constructor, so no message carries it.\<close>

datatype execute_msg_managed = RemoveVestingAccounts "string list" string

datatype execute_msg_with_managers =
    AddVestingManagers "string list"
  | RemoveVestingManagers "string list"

datatype vl_msg =
    VlClaim "string option" "u128 option"
  | VlReceive string u128 cw20_hook
  | VlRegisterVestingAccounts "vesting_account list"
  | VlProposeNewOwner string u64
  | VlDropOwnershipProposal
  | VlClaimOwnership
  | VlSetVestingToken asset_info
  | VlManagedExtension execute_msg_managed
  | VlWithManagersExtension execute_msg_with_managers
  | VlMigrateLiquidityToPCLPool "string option"
  | VlCallbackMsg vesting_lp_callback

datatype vp_msg =
    VpClaim "string option" "u128 option"
  | VpRegisterVestingAccounts "vesting_account list"
  | VpProposeNewOwner string u64
  | VpDropOwnershipProposal
  | VpClaimOwnership
  | VpSetVestingToken asset_info
  | VpManagedExtension execute_msg_managed
  | VpWithManagersExtension execute_msg_with_managers
  | VpReceive string u128 cw20_hook

text \<open>The library's message with its extensions flattened, as \<open>vesting_execute\<close> takes it.\<close>

primrec managed_msg :: "execute_msg_managed \<Rightarrow> vesting_execute_msg" where
  "managed_msg (RemoveVestingAccounts accounts clawback) = VRemoveVestingAccounts accounts clawback"

primrec with_managers_msg :: "execute_msg_with_managers \<Rightarrow> vesting_execute_msg" where
  "with_managers_msg (AddVestingManagers ms) = VAddVestingManagers ms"
| "with_managers_msg (RemoveVestingManagers ms) = VRemoveVestingManagers ms"

fun vl_into_base :: "vl_msg \<Rightarrow> ('e, vesting_execute_msg) result" where
  "vl_into_base (VlClaim recipient amount) = Ok (VClaim recipient amount)"
| "vl_into_base (VlReceive c n hook) = Ok (VReceive c n hook)"
| "vl_into_base (VlRegisterVestingAccounts accounts) = Ok (VRegister accounts)"
| "vl_into_base (VlProposeNewOwner new_owner expires_in) = Ok (VProposeNewOwner new_owner expires_in)"
| "vl_into_base VlDropOwnershipProposal = Ok VDropOwnershipProposal"
| "vl_into_base VlClaimOwnership = Ok VClaimOwnership"
| "vl_into_base (VlSetVestingToken token) = Ok (VSetVestingToken token)"
| "vl_into_base (VlManagedExtension m) = Ok (managed_msg m)"
| "vl_into_base (VlWithManagersExtension m) = Ok (with_managers_msg m)"
| "vl_into_base _ = Panic"

fun vp_into_base :: "vp_msg \<Rightarrow> ('e, vesting_execute_msg) result" where
  "vp_into_base (VpClaim recipient amount) = Ok (VClaim recipient amount)"
| "vp_into_base (VpRegisterVestingAccounts accounts) = Ok (VRegister accounts)"
| "vp_into_base (VpProposeNewOwner new_owner expires_in) = Ok (VProposeNewOwner new_owner expires_in)"
| "vp_into_base VpDropOwnershipProposal = Ok VDropOwnershipProposal"
| "vp_into_base VpClaimOwnership = Ok VClaimOwnership"
| "vp_into_base (VpSetVestingToken token) = Ok (VSetVestingToken token)"
| "vp_into_base (VpManagedExtension m) = Ok (managed_msg m)"
| "vp_into_base (VpWithManagersExtension m) = Ok (with_managers_msg m)"
| "vp_into_base _ = Panic"

definition vl_entry ::
  "('d) vesting_lp_deps_scheme \<Rightarrow> env \<Rightarrow> message_info \<Rightarrow> vl_msg \<Rightarrow> vesting_lp \<Rightarrow> vesting_lp_result" where
  "vl_entry d env info m s =
     (case m of
        VlMigrateLiquidityToPCLPool user \<Rightarrow> execute_migrate_liquidity d info env None user s
      | VlCallbackMsg cb \<Rightarrow> handle_vesting_lp_callback d env info cb s
      | _ \<Rightarrow> and_then (vl_into_base m) (\<lambda>base_msg.
          map_ok (\<lambda>(b, ms). (s\<lparr>vl_base := b\<rparr>, ms)) (vesting_execute d env info base_msg (vl_base s))))"

definition vp_entry ::
  "('d) vesting_deps_scheme \<Rightarrow> env \<Rightarrow> message_info \<Rightarrow> vp_msg \<Rightarrow> vesting_lp_pcl \<Rightarrow> vesting_pcl_result" where
  "vp_entry d env info m s =
     (case m of
        VpReceive c n hook \<Rightarrow> vesting_pcl_receive_cw20 d info c n hook s
      | _ \<Rightarrow> and_then (vp_into_base m) (\<lambda>base_msg.
          map_ok (\<lambda>(b, ms). (s\<lparr>vp_base := b\<rparr>, ms)) (vesting_execute d env info base_msg (vp_base s))))"

text \<open>The \<open>panic!\<close> of the conversions is never reached: the entry points take the other messages
  themselves, and are \<open>vesting_lp_execute\<close> and \<open>vesting_pcl_execute\<close> on the flattened messages.\<close>

lemma vl_entry_execute:
  "\<exists>m'. vl_entry d env info m s = vesting_lp_execute d env info m' s \<and>
     (\<forall>b. m' = VlBase b \<longleftrightarrow> vl_into_base m = (Ok b :: (vesting_error, vesting_execute_msg) result))"
proof (cases "\<exists>b. vl_into_base m = (Ok b :: (vesting_error, vesting_execute_msg) result)")
  case True
  then obtain b where "vl_into_base m = (Ok b :: (vesting_error, vesting_execute_msg) result)" by blast
  then show ?thesis
    by (intro exI [of _ "VlBase b"]) (cases m; auto simp: vl_entry_def)
next
  case False
  then show ?thesis
    by (cases m) (auto simp: vl_entry_def intro: exI [of _ "MigrateLiquidityToPCLPool x" for x] exI [of _ "VlCallback x" for x])
qed

lemma vp_entry_execute:
  "vp_entry d env info m s =
     vesting_pcl_execute d env info
       (case m of VpReceive c n hook \<Rightarrow> VReceive c n hook
        | _ \<Rightarrow> (case vp_into_base m :: (vesting_error, vesting_execute_msg) result of Ok b \<Rightarrow> b)) s"
proof (cases m)
  case (VpManagedExtension e)
  then show ?thesis by (cases e) (simp add: vp_entry_def vesting_pcl_execute_def)
next
  case (VpWithManagersExtension e)
  then show ?thesis by (cases e) (simp_all add: vp_entry_def vesting_pcl_execute_def)
qed (simp_all add: vp_entry_def vesting_pcl_execute_def)

text \<open>\<open>vesting-lti\<close> and \<open>vesting-investors\<close> hand every message to the library.\<close>

definition vesting_lti_execute ::
  "('d) vesting_deps_scheme \<Rightarrow> env \<Rightarrow> message_info \<Rightarrow> vesting_execute_msg \<Rightarrow> vesting \<Rightarrow> vesting_result" where
  "vesting_lti_execute d env info m s = vesting_execute d env info m s"

definition vesting_investors_execute ::
  "('d) vesting_deps_scheme \<Rightarrow> env \<Rightarrow> message_info \<Rightarrow> vesting_execute_msg \<Rightarrow> vesting \<Rightarrow> vesting_result" where
  "vesting_investors_execute d env info m s = vesting_execute d env info m s"

definition vesting_base_migrate :: "vesting \<Rightarrow> vesting_result" where
  "vesting_base_migrate s = Ok (s, [])"

subsection \<open>Tokens\<close>

record cw20_coin =
  cc_address :: string
  cc_amount :: u128

record minter_response =
  mr_minter :: string
  mr_cap :: "u128 option"

text \<open>\<open>cw20::Logo\<close>: a link or an embedded picture.\<close>

datatype cw20_logo = LogoUrl string | LogoSvg bytes | LogoPng bytes

record instantiate_marketing_info =
  im_project :: "string option"
  im_description :: "string option"
  im_marketing :: "string option"
  im_logo :: "cw20_logo option"

record token_instantiate_msg =
  ti_name :: string
  ti_symbol :: string
  ti_decimals :: u8
  ti_initial_balances :: "cw20_coin list"
  ti_mint :: "minter_response option"
  ti_marketing :: "instantiate_marketing_info option"

definition get_cap :: "token_instantiate_msg \<Rightarrow> u128 option" where
  "get_cap m = Option.bind (ti_mint m) mr_cap"

definition is_valid_name :: "string \<Rightarrow> bool" where
  "is_valid_name name = (if length name < 3 \<or> length name > 50 then False else True)"

definition symbol_byte :: "nat \<Rightarrow> bool" where
  "symbol_byte byte \<longleftrightarrow> \<not> (byte \<noteq> 45 \<and> (byte < 65 \<or> byte > 90) \<and> (byte < 97 \<or> byte > 122))"

definition is_valid_symbol :: "string \<Rightarrow> bool" where
  "is_valid_symbol s =
     (if length s < 3 \<or> length s > 12 then False
      else list_all (\<lambda>c. symbol_byte (of_char c)) s)"

definition validate_token :: "token_instantiate_msg \<Rightarrow> (std_error, unit) result" where
  "validate_token m =
     (if \<not> is_valid_name (ti_name m)
      then Err (GenericErr ''Name is not in the expected format (3-50 UTF-8 bytes)'')
      else if \<not> is_valid_symbol (ti_symbol m)
      then Err (GenericErr (''Ticker symbol is not in expected format [a-zA-Z'' @ [CHR 0x5C] @ ''-]{3,12}''))
      else if ti_decimals m > 18 then Err (GenericErr ''Decimals must not exceed 18'')
      else Ok ())"

text \<open>The format of a symbol in words: three to twelve letters and dashes.\<close>

lemma is_valid_symbol_iff:
  "is_valid_symbol s \<longleftrightarrow> length s \<in> {3..12} \<and>
     (\<forall>c \<in> set s. c = CHR ''-'' \<or> c \<in> {CHR ''A''..CHR ''Z''} \<or> c \<in> {CHR ''a''..CHR ''z''})"
proof -
  have "symbol_byte (of_char c) \<longleftrightarrow> c = CHR ''-'' \<or> c \<in> {CHR ''A''..CHR ''Z''} \<or> c \<in> {CHR ''a''..CHR ''z''}"
    for c :: char
  proof -
    have "c = CHR ''-'' \<longleftrightarrow> (of_char c :: nat) = 45"
      using of_char_eq_iff [where ?'a = nat, of c "CHR ''-''"] by simp
    then show ?thesis by (auto simp: symbol_byte_def less_eq_char_def)
  qed
  then show ?thesis by (auto simp: is_valid_symbol_def list_all_iff)
qed

subsection \<open>Pairs, factory, router and generator\<close>

text \<open>\<open>Display\<close> of a pair type; two pair types never share a text.\<close>

primrec pair_type_string :: "pair_type \<Rightarrow> string" where
  "pair_type_string Xyk = ''xyk''"
| "pair_type_string Stable = ''stable''"
| "pair_type_string Concentrated = ''concentrated''"
| "pair_type_string (Custom kind) = ''custom-'' @ kind"

lemma pair_type_string_inject: "pair_type_string p = pair_type_string q \<longleftrightarrow> p = q"
  by (cases p; cases q) auto

record pair_config =
  fc_code_id :: u64
  fc_pair_type :: pair_type
  fc_total_fee_bps :: u16
  fc_maker_fee_bps :: u16
  fc_is_disabled :: bool
  fc_is_generator_disabled :: bool

definition valid_fee_bps :: "pair_config \<Rightarrow> bool" where
  "valid_fee_bps cfg \<longleftrightarrow> fc_total_fee_bps cfg \<le> 10000 \<and> fc_maker_fee_bps cfg \<le> 10000"

text \<open>With valid fees the rates that \<open>query_fee_info\<close> computes are at most one.\<close>

lemma valid_fee_bps_rates:
  assumes "valid_fee_bps cfg"
    and "factory_fee_info d factory kind = Ok (a, fc_total_fee_bps cfg, fc_maker_fee_bps cfg)"
  shows "\<exists>f. query_fee_info d factory kind = Ok f \<and>
    unat (atomics (total_fee_rate f)) \<le> DECIMAL_FRACTIONAL \<and>
    unat (atomics (maker_fee_rate f)) \<le> DECIMAL_FRACTIONAL"
proof -
  have "unat (fc_total_fee_bps cfg) \<le> 10000" "unat (fc_maker_fee_bps cfg) \<le> 10000"
    using assms(1) by (simp_all add: valid_fee_bps_def word_le_nat_alt)
  then show ?thesis
    using query_fee_info_total [OF assms(2)] by auto
qed

definition query_pair_info :: "('d) oracle_deps_scheme \<Rightarrow> addr \<Rightarrow> asset_info list \<Rightarrow> (std_error, pair_info) result" where
  "query_pair_info d factory ais = factory_pair d factory ais"

text \<open>The raw query of the factory's \<open>pairs_to_migrate\<close> is the argument.\<close>

definition migration_check ::
  "(addr \<Rightarrow> (std_error, addr list option) result) \<Rightarrow> addr \<Rightarrow> addr \<Rightarrow> (std_error, bool) result" where
  "migration_check raw_pairs_to_migrate factory pair =
     and_then (raw_pairs_to_migrate factory) (\<lambda>res.
     case res of Some pairs \<Rightarrow> Ok (pair \<in> set pairs) | None \<Rightarrow> Ok False)"

datatype swap_operation =
    NativeSwap (offer_denom: string) (ask_denom: string)
  | AstroSwap (offer_asset_info: asset_info) (ask_asset_info: asset_info)

primrec get_target_asset_info :: "swap_operation \<Rightarrow> asset_info" where
  "get_target_asset_info (NativeSwap offer ask) = NativeToken ask"
| "get_target_asset_info (AstroSwap offer ask) = ask"

datatype execute_on_reply =
    ReplyClaimRewards "addr list" addr
  | ReplyDeposit addr addr u128
  | ReplyWithdraw addr addr u128
  | ReplySetTokensPerBlock u128
  | ReplyMigrateProxy addr addr
  | ReplyMigrateProxyDepositLP addr addr u128

definition into_submsg :: "execute_on_reply \<Rightarrow> env \<Rightarrow> (std_error, execute_on_reply cosmos_msg) result" where
  "into_submsg action env = Ok (WasmExecute (this_contract env) action [])"

subsection \<open>Message builders and conversions\<close>

definition build_transfer_cw20_token_msg :: "addr \<Rightarrow> string \<Rightarrow> u128 \<Rightarrow> (std_error, msg) result" where
  "build_transfer_cw20_token_msg recipient token n = Ok (WasmExecute token (Cw20Transfer recipient n) [])"

definition build_send_cw20_token_msg :: "string \<Rightarrow> string \<Rightarrow> u128 \<Rightarrow> cw20_hook \<Rightarrow> (std_error, msg) result" where
  "build_send_cw20_token_msg recipient token n hook = Ok (WasmExecute token (Cw20Send recipient n hook) [])"

definition build_approve_cntrn_msg :: "string \<Rightarrow> string \<Rightarrow> u128 \<Rightarrow> u64 \<Rightarrow> (std_error, msg) result" where
  "build_approve_cntrn_msg token spender allowance expiration =
     Ok (WasmExecute token (Cw20IncreaseAllowance spender allowance expiration) [])"

definition cntrn_get_balance :: "('d) deps_scheme \<Rightarrow> addr \<Rightarrow> addr \<Rightarrow> (std_error, u128) result" where
  "cntrn_get_balance d token account = cw20_balance d token account"

text \<open>An approval moves nothing; the other two pay exactly the amount.\<close>

lemma build_msgs_pay:
  "build_transfer_cw20_token_msg r token n = Ok m \<Longrightarrow> cw20_outflow token [m] = unat n"
  "build_send_cw20_token_msg r token n hook = Ok m \<Longrightarrow> cw20_outflow token [m] = unat n"
  "build_approve_cntrn_msg token r n expiration = Ok m \<Longrightarrow> cw20_outflow c [m] = 0"
  by (auto simp: build_transfer_cw20_token_msg_def build_send_cw20_token_msg_def build_approve_cntrn_msg_def)

text \<open>\<open>Display\<close> of an asset: the amount, then the asset.\<close>

definition asset_string :: "asset \<Rightarrow> string" where
  "asset_string a = show_decimal (unat (asset_amount a)) @ asset_info_string (ainfo a)"

definition asset_info_bytes :: "asset_info \<Rightarrow> bytes" where
  "asset_info_bytes ai = (case ai of NativeToken denom \<Rightarrow> as_bytes denom | Token c \<Rightarrow> as_bytes c)"

text \<open>\<open>DecimalToInteger::to_uint\<close>: the power and the product panic when they leave 256 bits, the
  conversion to 128 bits is an error.\<close>

definition dec256_to_uint :: "decimal256 \<Rightarrow> u32 \<Rightarrow> (std_error, u128) result" where
  "dec256_to_uint q precision =
     and_then (ok_or_panic (narrow (10 ^ unat precision))) (\<lambda>multiplier :: u256.
     and_then (mul_panic multiplier (atomics256 q)) (\<lambda>product.
     ok_or (narrow (unat product div DECIMAL_FRACTIONAL)) ConversionOverflow))"

lemma ex_unat_eq: "(\<exists>x :: 'a::len word. unat x = n) \<longleftrightarrow> n < 2 ^ LENGTH('a)"
  by (metis unat_of_nat_small unsigned_less)

lemma dec256_to_uint_Ok_iff:
  "dec256_to_uint q precision = Ok w \<longleftrightarrow>
     10 ^ unat precision < (2 :: nat) ^ 256 \<and> 10 ^ unat precision * unat (atomics256 q) < 2 ^ 256 \<and>
     unat w = 10 ^ unat precision * unat (atomics256 q) div DECIMAL_FRACTIONAL"
  by (simp add: dec256_to_uint_def ex_unat_eq cong: conj_cong)

subsection \<open>External accounts of the airdrop\<close>

text \<open>The signature check of the host, RIPEMD-160 and bech32 are the host's and other crates' code;
  \<open>parse_claim_msg\<close> is the JSON parser of \<open>ClaimMsg\<close>, which yields its only field.\<close>

record cosmos_signature =
  pub_key :: bytes
  signature :: bytes

record signature_info =
  si_claim_msg :: bytes
  si_signature :: bytes

record signature_deps = airdrop_deps +
  secp256k1_verify :: "bytes \<Rightarrow> bytes \<Rightarrow> bytes \<Rightarrow> (std_error, bool) result"
  ripemd160 :: "bytes \<Rightarrow> bytes"
  bech32_encode :: "string \<Rightarrow> bytes \<Rightarrow> string option"
  parse_claim_msg :: "bytes \<Rightarrow> (std_error, string) result"

definition verify_signature :: "('d) signature_deps_scheme \<Rightarrow> bytes \<Rightarrow> cosmos_signature \<Rightarrow> (airdrop_error, bool) result" where
  "verify_signature d claim_msg sig =
     map_err (\<lambda>_. VerificationFailed) (secp256k1_verify d (sha256 d claim_msg) (signature sig) (pub_key sig))"

definition derive_addr_from_pubkey :: "('d) signature_deps_scheme \<Rightarrow> string \<Rightarrow> cosmos_signature \<Rightarrow> (airdrop_error, string) result" where
  "derive_addr_from_pubkey d prefix sig =
     and_then (digest d (pub_key sig)) (\<lambda>sha_hash.
     ok_or (bech32_encode d prefix (ripemd160 d sha_hash)) VerificationFailed)"

definition extract_addr :: "('d) signature_deps_scheme \<Rightarrow> signature_info \<Rightarrow> (airdrop_error, string) result" where
  "extract_addr d si = map_err AirdropStd (parse_claim_msg d (si_claim_msg si))"

text \<open>The signature plays no part in the derived address.\<close>

lemma derive_addr_ignores_signature:
  "derive_addr_from_pubkey d prefix (sig\<lparr>signature := x\<rparr>) = derive_addr_from_pubkey d prefix sig"
  by (simp add: derive_addr_from_pubkey_def)

subsection \<open>The old proxy rewards of the lockdrop\<close>

record migration_info =
  terraswap_migrated_amount :: u128
  astroport_lp_token :: addr

record pool_info_v101 =
  p101_terraswap_pool :: addr
  p101_terraswap_amount_in_lockups :: u128
  p101_migration_info :: "migration_info option"
  p101_incentives_share :: u64
  p101_weighted_amount :: u256
  p101_generator_astro_per_share :: decimal
  p101_generator_proxy_per_share :: decimal
  p101_is_staked :: bool

record pool_info_v111 = pool_info_v101 +
  p111_has_asset_rewards :: bool

definition migrate_generator_proxy_per_share_to_v120 ::
  "('d) lockdrop_deps_scheme \<Rightarrow> decimal \<Rightarrow> addr \<Rightarrow> migration_info option
     \<Rightarrow> (std_error, (asset_info, decimal) restricted_vector) result" where
  "migrate_generator_proxy_per_share_to_v120 d old generator info =
     (if atomics old \<noteq> 0 then
        and_then (ok_or_panic info) (\<lambda>info.
        and_then (gen_pool_proxies d generator (astroport_lp_token info)) (\<lambda>proxies.
        and_then (case proxies of [] \<Rightarrow> Panic | proxy # _ \<Rightarrow> Ok proxy) (\<lambda>proxy.
        and_then (raw_proxy_asset d generator proxy) (\<lambda>reward_asset.
        map_ok fst (rv_update increase_decimal rv_default reward_asset old)))))
      else Ok rv_default)"

text \<open>The old number survives whole, under one asset; a zero leaves the vector empty.\<close>

lemma migrate_proxy_per_share_Ok:
  assumes "migrate_generator_proxy_per_share_to_v120 d old generator info = Ok v"
  shows "(atomics old = 0 \<and> v = []) \<or> (atomics old \<noteq> 0 \<and> (\<exists>ai. v = [(ai, old)]))"
  using assms
  by (auto simp: migrate_generator_proxy_per_share_to_v120_def rv_default_def neq_Nil_conv split: if_splits list.splits)

end
