(* ===== verification/Queries.thy ===== *)
theory Queries
  imports Auction Credits Airdrop Price_Feed Oracle Lockdrop Lockdrop_Pcl Usdc_Converter Vesting_Base
begin

text \<open>
  The query entry points of the contracts, \<open>query\<close> of each \<open>contract.rs\<close> and of the vesting
  library: the query messages, their answers, and the dispatch to the queries of the component
  theories. An answer stands for its JSON text. Queries that the credits contract passes on to
  \<open>cw20_base\<close> are fields of \<open>cw20_queries\<close>; a value that was stored at a height is an argument.
\<close>

subsection \<open>Vesting\<close>

datatype vesting_historical_query =
    UnclaimedAmountAtHeight string u64
  | UnclaimedTotalAmountAtHeight u64

datatype vesting_managers_query = VestingManagers

text \<open>\<open>QueryMsgManaged\<close> is an enum without variants, so no \<open>ManagedExtension\<close> query exists.\<close>

datatype vesting_query_msg =
    VQConfig
  | VQVestingAccount string
  | VQVestingAccounts "string option" "u32 option" "order_by option"
  | VQAvailableAmount string
  | VQTimestamp
  | VQVestingState
  | VQWithManagers vesting_managers_query
  | VQHistorical vesting_historical_query

datatype vesting_query_response =
    VRConfig vesting_config
  | VRAccount addr vesting_info
  | VRAccounts "(addr \<times> vesting_info) list"
  | VRAmount u128
  | VRTimestamp u64
  | VRState vesting_state
  | VRManagers "addr list"

text \<open>What the snapshots hold of the past: an account and the state at a height.\<close>

record vesting_history =
  info_at_height :: "addr \<Rightarrow> u64 \<Rightarrow> (std_error, vesting_info option) result"
  state_at_height :: "u64 \<Rightarrow> (std_error, vesting_state option) result"

definition vesting_query_config :: "vesting \<Rightarrow> (vesting_error, vesting_config) result" where
  "vesting_query_config s = load_vesting_config s"

definition query_vesting_state :: "vesting \<Rightarrow> (vesting_error, vesting_state) result" where
  "query_vesting_state s =
     and_then (load_vesting_config s) (\<lambda>cfg. load_item (v_state s) (VStd (NotFound ''vesting_state'')))"

definition query_timestamp :: "env \<Rightarrow> (vesting_error, u64) result" where
  "query_timestamp env = Ok (block_time env)"

text \<open>The messages of an extension that is switched off are an error.\<close>

definition handle_query_managers_msg ::
  "vesting_managers_query \<Rightarrow> vesting \<Rightarrow> (std_error, vesting_query_response) result" where
  "handle_query_managers_msg m s =
     and_then (load_item (v_config s) (NotFound ''config'')) (\<lambda>cfg.
     if \<not> ext_with_managers cfg then Err (ext_unsupported_err ''with_managers'')
     else case m of VestingManagers \<Rightarrow> map_ok VRManagers (query_vesting_managers s))"

definition handle_query_historical_msg ::
  "('d) deps_scheme \<Rightarrow> vesting_history \<Rightarrow> vesting_historical_query \<Rightarrow> vesting
     \<Rightarrow> (std_error, vesting_query_response) result" where
  "handle_query_historical_msg d h m s =
     and_then (load_item (v_config s) (NotFound ''config'')) (\<lambda>cfg.
     if \<not> ext_historical cfg then Err (ext_unsupported_err ''historical'')
     else case m of
       UnclaimedAmountAtHeight address height \<Rightarrow>
         map_ok VRAmount (query_unclaimed_amount_at_height d (info_at_height h) address height s)
     | UnclaimedTotalAmountAtHeight height \<Rightarrow>
         map_ok VRAmount (query_total_unclaimed_amount_at_height (state_at_height h) height s))"

primrec vesting_query ::
  "('d) deps_scheme \<Rightarrow> vesting_history \<Rightarrow> env \<Rightarrow> vesting_query_msg \<Rightarrow> vesting
     \<Rightarrow> (vesting_error, vesting_query_response) result" where
  "vesting_query d h env VQConfig s = map_ok VRConfig (vesting_query_config s)"
| "vesting_query d h env (VQVestingAccount address) s =
     map_ok (\<lambda>(a, vi). VRAccount a vi) (query_vesting_account d address s)"
| "vesting_query d h env (VQVestingAccounts start_after limit order) s =
     map_err VStd (map_ok VRAccounts (query_vesting_accounts d start_after limit order s))"
| "vesting_query d h env (VQAvailableAmount address) s =
     map_ok VRAmount (query_vesting_available_amount d env address s)"
| "vesting_query d h env VQTimestamp s = map_ok VRTimestamp (query_timestamp env)"
| "vesting_query d h env VQVestingState s = map_ok VRState (query_vesting_state s)"
| "vesting_query d h env (VQWithManagers m) s = map_err VStd (handle_query_managers_msg m s)"
| "vesting_query d h env (VQHistorical m) s =
     map_err VStd (handle_query_historical_msg d h m s)"

subsection \<open>Credits\<close>

datatype credits_query_msg =
    CQWithdrawableAmount string
  | CQVestedAmount string
  | CQAllocation string
  | CQBalance string
  | CQTotalSupplyAtHeight "u64 option"
  | CQBalanceAtHeight string "u64 option"
  | CQTokenInfo
  | CQMinter
  | CQAllowance string string
  | CQAllAllowances string "string option" "u32 option"
  | CQAllAccounts "string option" "u32 option"
  | CQConfig

text \<open>The other queries of \<open>cw20_base\<close>; \<open>'r\<close> is the type of their answers.\<close>

record ('t, 'r) cw20_queries =
  base_token_info :: "'t \<Rightarrow> (std_error, 'r) result"
  base_minter :: "'t \<Rightarrow> (std_error, 'r) result"
  base_allowance :: "'t \<Rightarrow> string \<Rightarrow> string \<Rightarrow> (std_error, 'r) result"
  base_all_allowances :: "'t \<Rightarrow> string \<Rightarrow> string option \<Rightarrow> u32 option \<Rightarrow> (std_error, 'r) result"
  base_all_accounts :: "'t \<Rightarrow> string option \<Rightarrow> u32 option \<Rightarrow> (std_error, 'r) result"

datatype 'r credits_query_response =
    CRAmount u128
  | CRAllocation allocation
  | CRConfig credits_config
  | CRBase 'r

definition credits_query_config :: "'t credits \<Rightarrow> (std_error, credits_config) result" where
  "credits_query_config s = load_item (c_config s) (NotFound ''config'')"

primrec credits_query ::
  "('t, 'e) cw20_lib \<Rightarrow> ('t, 'r) cw20_queries \<Rightarrow> ('d) deps_scheme \<Rightarrow> env \<Rightarrow> credits_query_msg
     \<Rightarrow> 't credits \<Rightarrow> (std_error, 'r credits_query_response) result" where
  "credits_query L B d env (CQWithdrawableAmount address) s =
     map_ok CRAmount (query_withdrawable_amount L d env address s)"
| "credits_query L B d env (CQVestedAmount address) s =
     map_ok CRAmount (query_vested_amount L d env address s)"
| "credits_query L B d env (CQAllocation address) s = map_ok CRAllocation (query_allocation d address s)"
| "credits_query L B d env (CQBalance address) s =
     map_ok CRAmount (token_query_balance L (c_token s) address)"
| "credits_query L B d env (CQTotalSupplyAtHeight height) s =
     map_ok CRAmount (query_total_supply_at_height L height s)"
| "credits_query L B d env (CQBalanceAtHeight address height) s =
     map_ok CRAmount (query_balance_at_height L d address height s)"
| "credits_query L B d env CQTokenInfo s = map_ok CRBase (base_token_info B (c_token s))"
| "credits_query L B d env CQMinter s = map_ok CRBase (base_minter B (c_token s))"
| "credits_query L B d env (CQAllowance owner spender) s =
     map_ok CRBase (base_allowance B (c_token s) owner spender)"
| "credits_query L B d env (CQAllAllowances owner start_after limit) s =
     map_ok CRBase (base_all_allowances B (c_token s) owner start_after limit)"
| "credits_query L B d env (CQAllAccounts start_after limit) s =
     map_ok CRBase (base_all_accounts B (c_token s) start_after limit)"
| "credits_query L B d env CQConfig s = map_ok CRConfig (credits_query_config s)"

subsection \<open>Airdrop\<close>

datatype airdrop_query_msg =
    AQConfig
  | AQMerkleRoot
  | AQIsClaimed string
  | AQTotalClaimed
  | AQAccountMap string
  | AQAllAccountMaps "string option" "u32 option"
  | AQIsPaused

datatype airdrop_query_response =
    ARConfig airdrop_config
  | ARMerkleRoot merkle_root_response
  | ARIsClaimed bool
  | ARIsPaused bool
  | ARTotalClaimed u128
  | ARAccountMap string string                   \<comment> \<open>host address, external address\<close>
  | ARAllAccountMaps "(string \<times> string) list"

primrec airdrop_query ::
  "airdrop_query_msg \<Rightarrow> airdrop \<Rightarrow> (airdrop_error, airdrop_query_response) result" where
  "airdrop_query AQConfig s = map_ok ARConfig (airdrop_query_config s)"
| "airdrop_query AQMerkleRoot s = map_ok ARMerkleRoot (query_merkle_root s)"
| "airdrop_query (AQIsClaimed address) s = Ok (ARIsClaimed (query_is_claimed s address))"
| "airdrop_query AQTotalClaimed s = map_ok ARTotalClaimed (query_total_claimed s)"
| "airdrop_query (AQAccountMap external) s =
     map_ok (\<lambda>(host, external). ARAccountMap host external) (query_address_map s external)"
| "airdrop_query (AQAllAccountMaps start_after limit) s =
     Ok (ARAllAccountMaps (query_all_address_map s start_after limit))"
| "airdrop_query AQIsPaused s = Ok (ARIsPaused (query_is_paused s))"

subsection \<open>Auction, price feed, oracle and converter\<close>

datatype auction_query_msg = UQConfig | UQState | UQUserInfo string

datatype auction_query_response =
    URConfig auction_config
  | URState auction_state
  | URUserInfo auction_user_info_response

primrec auction_query ::
  "('d) deps_scheme \<Rightarrow> auction_query_msg \<Rightarrow> auction \<Rightarrow> (std_error, auction_query_response) result" where
  "auction_query d UQConfig s = map_ok URConfig (auction_load_config s)"
| "auction_query d UQState s = map_ok URState (auction_load_state s)"
| "auction_query d (UQUserInfo address) s = map_ok URUserInfo (auction_query_user_info d address s)"

datatype feed_query_msg = GetError | GetRate | GetConfig

datatype feed_query_response =
    FRError string
  | FRRate "feed_rate list"
  | FRConfig feed_config

primrec feed_query :: "feed_query_msg \<Rightarrow> price_feed \<Rightarrow> (feed_error, feed_query_response) result" where
  "feed_query GetRate s = map_ok FRRate (query_rate s)"
| "feed_query GetError s = map_ok FRError (query_error s)"
| "feed_query GetConfig s = map_ok FRConfig (feed_query_config s)"

datatype oracle_query_msg =
    OQConsult asset_info u128
  | OQTwapAtHeight asset_info u64
  | OQConfig
  | OQLastUpdateTimestamp

datatype oracle_query_response =
    ORConsult "(asset_info \<times> u256) list"
  | ORTwap "(asset_info \<times> decimal256) list"
  | ORConfig oracle_config
  | ORTimestamp u64

primrec oracle_query ::
  "('d) oracle_deps_scheme \<Rightarrow> (u64 \<Rightarrow> (std_error, price_cumulative_last option) result)
     \<Rightarrow> oracle_query_msg \<Rightarrow> twap_oracle \<Rightarrow> (oracle_error, oracle_query_response) result" where
  "oracle_query d price_at (OQConsult token amount) s = map_ok ORConsult (consult d token amount s)"
| "oracle_query d price_at (OQTwapAtHeight token height) s =
     map_ok ORTwap (twap_at_height d price_at token height s)"
| "oracle_query d price_at OQConfig s = map_ok ORConfig (oracle_query_config s)"
| "oracle_query d price_at OQLastUpdateTimestamp s = map_ok ORTimestamp (query_last_update_ts s)"

datatype converter_query_msg = NQConfig

primrec converter_query ::
  "converter_query_msg \<Rightarrow> converter_config option \<Rightarrow> (std_error, converter_config) result" where
  "converter_query NQConfig s = converter_load_config s"

subsection \<open>The two lockdrops\<close>

datatype lockdrop_query_msg =
    LQConfig
  | LQState
  | LQPool pool_type
  | LQUserInfo string
  | LQUserInfoWithLockupsList string
  | LQLockUpInfo string pool_type u64
  | LQUserLockupTotalAtHeight pool_type string u64
  | LQLockupTotalAtHeight pool_type u64

datatype lockdrop_query_response =
    LRConfig lockdrop_config
  | LRState u128 "pool_type list"
  | LRPool lockdrop_pool
  | LRUserInfo user_info_response
  | LRUserInfoWithList lockdrop_user_info "(pool_type \<times> u64) list"
  | LRLockup lockup_response
  | LRTotal "u128 option"

text \<open>The values logged for a height: a user's total per pool, and a pool.\<close>

record 'p lockdrop_history =
  user_total_at :: "pool_type \<Rightarrow> addr \<Rightarrow> u64 \<Rightarrow> u128 option"
  pool_at :: "pool_type \<Rightarrow> u64 \<Rightarrow> 'p option"

primrec lockdrop_query ::
  "('d) lockdrop_deps_scheme \<Rightarrow> lockdrop_pool lockdrop_history \<Rightarrow> env \<Rightarrow> lockdrop_query_msg \<Rightarrow> lockdrop
     \<Rightarrow> (std_error, lockdrop_query_response) result" where
  "lockdrop_query d h env LQConfig s = map_ok LRConfig (lockdrop_load_config s)"
| "lockdrop_query d h env LQState s = map_ok (\<lambda>(share, pools). LRState share pools) (query_state s)"
| "lockdrop_query d h env (LQPool p) s = map_ok LRPool (lockdrop_query_pool p s)"
| "lockdrop_query d h env (LQUserInfo address) s =
     map_ok LRUserInfo (lockdrop_query_user_info d env address s)"
| "lockdrop_query d h env (LQUserInfoWithLockupsList address) s =
     map_ok (\<lambda>(user, ls). LRUserInfoWithList user ls) (query_user_info_with_lockups_list d address s)"
| "lockdrop_query d h env (LQLockUpInfo address p dur) s =
     map_ok LRLockup (query_lockup_info d env address p dur s)"
| "lockdrop_query d h env (LQUserLockupTotalAtHeight p address height) s =
     and_then (addr_validate d address) (\<lambda>a.
     map_ok LRTotal (query_user_lockup_total_at_height (user_total_at h p a height)))"
| "lockdrop_query d h env (LQLockupTotalAtHeight p height) s =
     map_ok LRTotal (query_lockup_total_at_height (pool_at h p height))"

datatype pcl_query_response =
    PRConfig pcl_config
  | PRState u128 "pool_type list"
  | PRPool pcl_pool
  | PRUserInfo pcl_user_info_response
  | PRUserInfoWithList lockdrop_user_info "(pool_type \<times> u64) list"
  | PRLockup pcl_lockup_response
  | PRTotal "u128 option"

datatype pcl_query_msg =
    PQConfig
  | PQState
  | PQPool pool_type
  | PQUserInfo string
  | PQUserInfoWithLockupsList string
  | PQLockUpInfo string pool_type u64
  | PQUserLockupTotalAtHeight pool_type string u64
  | PQLockupTotalAtHeight pool_type u64

primrec pcl_query ::
  "('d) pcl_deps_scheme \<Rightarrow> pcl_pool lockdrop_history \<Rightarrow> env \<Rightarrow> pcl_query_msg \<Rightarrow> pcl_lockdrop
     \<Rightarrow> (std_error, pcl_query_response) result" where
  "pcl_query d h env PQConfig s = map_ok PRConfig (pcl_load_config s)"
| "pcl_query d h env PQState s = map_ok (\<lambda>(share, pools). PRState share pools) (pcl_query_state s)"
| "pcl_query d h env (PQPool p) s = map_ok PRPool (pcl_query_pool p s)"
| "pcl_query d h env (PQUserInfo address) s = map_ok PRUserInfo (pcl_query_user_info d env address s)"
| "pcl_query d h env (PQUserInfoWithLockupsList address) s =
     map_ok (\<lambda>(user, ls). PRUserInfoWithList user ls) (pcl_query_user_info_with_lockups_list d address s)"
| "pcl_query d h env (PQLockUpInfo address p dur) s =
     map_ok PRLockup (pcl_query_lockup_info d env address p dur s)"
| "pcl_query d h env (PQUserLockupTotalAtHeight p address height) s =
     and_then (addr_validate d address) (\<lambda>a.
     map_ok PRTotal (pcl_query_user_lockup_total_at_height (user_total_at h p a height)))"
| "pcl_query d h env (PQLockupTotalAtHeight p height) s =
     map_ok PRTotal (pcl_query_lockup_total_at_height (pool_at h p height))"

end
