(* ===== verification/Query_Properties.thy ===== *)
theory Query_Properties
  imports Queries Vesting_Properties
begin

text \<open>
  What the clients of the query entry points rely on. A map is read in pages: a client that asks
  with the last key it got until a page is empty sees every entry once, in order
  (\<open>collect_pages\<close>). And the amount that a vesting contract announces is the amount that a claim
  in the same block pays, after which it announces zero.
\<close>

subsection \<open>Reading a map page by page\<close>

text \<open>The client's loop: fuel bounds the number of requests.\<close>

fun collect_pages ::
  "('k option \<Rightarrow> ('e, 'x list) result) \<Rightarrow> ('x \<Rightarrow> 'k) \<Rightarrow> nat \<Rightarrow> 'k option \<Rightarrow> ('e, 'x list) result" where
  "collect_pages ask key 0 start = Ok []"
| "collect_pages ask key (Suc n) start =
     and_then (ask start) (\<lambda>page.
     if page = [] then Ok []
     else and_then (collect_pages ask key n (Some (key (last page)))) (\<lambda>rest. Ok (page @ rest)))"

text \<open>The contract of a paged query: from a cursor it returns the next \<open>m\<close> entries.\<close>

definition cursor :: "('x \<Rightarrow> 'k) \<Rightarrow> 'x list \<Rightarrow> nat \<Rightarrow> 'k option" where
  "cursor key xs i = (if i = 0 then None else Some (key (xs ! (i - 1))))"

definition serves_pages ::
  "('k option \<Rightarrow> ('e, 'x list) result) \<Rightarrow> ('x \<Rightarrow> 'k) \<Rightarrow> 'x list \<Rightarrow> nat \<Rightarrow> bool" where
  "serves_pages ask key xs m \<longleftrightarrow>
     0 < m \<and> (\<forall>i \<le> length xs. ask (cursor key xs i) = Ok (take m (drop i xs)))"

lemma last_take_drop:
  assumes "i < length xs" and "0 < m"
  shows "last (take m (drop i xs)) = xs ! (min (i + m) (length xs) - 1)"
proof -
  have "last (take m (drop i xs)) = xs ! (i + (min (length xs - i) m - 1))"
    using assms by (subst last_conv_nth) (auto simp: min_def)
  moreover have "i + (min (length xs - i) m - 1) = min (i + m) (length xs) - 1"
    using assms by linarith
  ultimately show ?thesis by simp
qed

lemma take_drop_append: "take m (drop i xs) @ drop (min (i + m) (length xs)) xs = drop i xs"
proof (cases "i + m \<le> length xs")
  case True
  then have "drop (min (i + m) (length xs)) xs = drop m (drop i xs)" by (simp add: add.commute)
  then show ?thesis by (simp only: append_take_drop_id)
qed (simp add: min_def)

lemma collect_pages_from:
  assumes "serves_pages ask key xs m" and "i \<le> length xs" and "length xs - i < n"
  shows "collect_pages ask key n (cursor key xs i) = Ok (drop i xs)"
  using assms(2,3)
proof (induction n arbitrary: i)
  case (Suc n)
  have m: "0 < m" and page: "ask (cursor key xs i) = Ok (take m (drop i xs))"
    using assms(1) Suc.prems by (auto simp: serves_pages_def)
  show ?case
  proof (cases "i = length xs")
    case False
    define j where "j = min (i + m) (length xs)"
    have i: "i < length xs" using False Suc.prems by simp
    then have j: "i < j" "j \<le> length xs" using m by (simp_all add: j_def)
    have next_cursor: "Some (key (last (take m (drop i xs)))) = cursor key xs j"
      using last_take_drop [OF i m] i m by (auto simp: cursor_def j_def)
    have "collect_pages ask key n (cursor key xs j) = Ok (drop j xs)"
      using Suc j by simp
    then show ?thesis
      using i m take_drop_append [of m i xs]
      by (simp add: page next_cursor flip: j_def)
  qed (use m page in simp)
qed simp

lemma collect_pages_all:
  assumes "serves_pages ask key xs m" and "length xs < n"
  shows "collect_pages ask key n None = Ok xs"
  using collect_pages_from [OF assms(1), of 0 n] assms(2) by (simp add: cursor_def)

text \<open>An exclusive bound on the keys of a store cuts it at a position.\<close>

lemma store_ok_nth_less:
  "store_ok s \<Longrightarrow> i < j \<Longrightarrow> j < length s \<Longrightarrow> fst (s ! i) < fst (s ! j)"
  using sorted_wrt_nth_less [of "(<)" "map fst s" i j] by (simp add: store_ok_def)

lemma filter_after:
  assumes "store_ok s" and "i < length s"
  shows "filter (\<lambda>(a, v). fst (s ! i) < a) s = drop (Suc i) s"
  using assms
proof (induction s arbitrary: i)
  case (Cons x s)
  obtain k v where x: "x = (k, v)" by (cases x)
  with Cons.prems have less: "\<forall>l \<in> fst ` set s. k < l" and s: "store_ok s" by auto
  show ?case
  proof (cases i)
    case 0
    then show ?thesis using less by (auto simp: x filter_id_conv)
  next
    case (Suc j)
    then have j: "j < length s" using Cons.prems by simp
    then have "k < fst (s ! j)" using less nth_mem by blast
    then show ?thesis using Cons.IH [OF s j] by (simp add: x Suc)
  qed
qed simp

lemma filter_before:
  assumes "store_ok s" and "i < length s"
  shows "filter (\<lambda>(a, v). a < fst (s ! i)) s = take i s"
  using assms
proof (induction s arbitrary: i)
  case (Cons x s)
  obtain k v where x: "x = (k, v)" by (cases x)
  with Cons.prems have less: "\<forall>l \<in> fst ` set s. k < l" and s: "store_ok s" by auto
  show ?case
  proof (cases i)
    case 0
    then show ?thesis using less by (fastforce simp: x filter_empty_conv)
  next
    case (Suc j)
    then have j: "j < length s" using Cons.prems by simp
    then have "k < fst (s ! j)" using less nth_mem by blast
    then show ?thesis using Cons.IH [OF s j] by (simp add: x Suc)
  qed
qed simp

text \<open>The two paged queries of the contracts keep that contract.\<close>

lemma cursor_Suc: "0 < i \<Longrightarrow> cursor key xs i = Some (key (xs ! (i - 1)))"
  by (simp add: cursor_def)

definition page_size :: "nat \<Rightarrow> nat \<Rightarrow> u32 option \<Rightarrow> nat" where
  "page_size dflt cap limit = min (case limit of Some l \<Rightarrow> unat l | None \<Rightarrow> dflt) cap"

lemma page_size_pos: "limit \<noteq> Some 0 \<Longrightarrow> 0 < dflt \<Longrightarrow> 0 < cap \<Longrightarrow> 0 < page_size dflt cap limit"
  by (auto simp: page_size_def unat_gt_0 split: option.split)

lemma read_vesting_infos_asc:
  assumes "store_ok s" and "i \<le> length s"
  shows "read_vesting_infos (cursor fst s i) limit (Some Asc) s =
    take (page_size vesting_default_limit vesting_max_limit limit) (drop i s)"
  using filter_after [OF assms(1), of "i - 1"] assms(2)
  by (cases i) (simp_all add: read_vesting_infos_def page_size_def cursor_def Let_def)

lemma read_vesting_infos_desc:
  assumes "store_ok s" and "i \<le> length s" and "order \<noteq> Some Asc"
  shows "read_vesting_infos (cursor fst (rev s) i) limit order s =
    take (page_size vesting_default_limit vesting_max_limit limit) (drop i (rev s))"
proof -
  have desc: "read_vesting_infos b limit order s = take (page_size vesting_default_limit vesting_max_limit limit)
      (rev (filter (\<lambda>(a, vi). case b of Some b \<Rightarrow> a < b | None \<Rightarrow> True) s))" for b
    using assms(3) by (auto simp: read_vesting_infos_def page_size_def Let_def split: option.split order_by.split)
  show ?thesis
  proof (cases i)
    case (Suc j)
    then have j: "length s - Suc j < length s" "rev s ! j = s ! (length s - Suc j)"
      using assms(2) by (simp_all add: rev_nth)
    show ?thesis
      using filter_before [OF assms(1) j(1)] by (simp add: desc Suc cursor_def j(2) drop_rev)
  qed (simp add: desc cursor_def)
qed

lemma query_all_address_map_page:
  assumes "store_ok (account_map s)" and "i \<le> length (account_map s)"
  shows "query_all_address_map s (cursor fst (account_map s) i) limit =
    map (\<lambda>(external, host). (host, external))
      (take (page_size airdrop_default_limit airdrop_max_limit limit) (drop i (account_map s)))"
  using filter_after [OF assms(1), of "i - 1"] assms(2)
  by (cases i) (simp_all add: query_all_address_map_def page_size_def cursor_def Let_def)

subsection \<open>Properties\<close>

text \<open>A client's request for one page of accounts.\<close>

definition ask_accounts ::
  "('d) deps_scheme \<Rightarrow> vesting_history \<Rightarrow> env \<Rightarrow> u32 option \<Rightarrow> order_by option \<Rightarrow> vesting
     \<Rightarrow> string option \<Rightarrow> (vesting_error, (addr \<times> vesting_info) list) result" where
  "ask_accounts d h env limit order s start =
     and_then (vesting_query d h env (VQVestingAccounts start limit order) s) (\<lambda>r.
     case r of VRAccounts page \<Rightarrow> Ok page | _ \<Rightarrow> Panic)"

definition accounts_in_order :: "order_by option \<Rightarrow> vesting \<Rightarrow> (addr \<times> vesting_info) list" where
  "accounts_in_order order s = (if order = Some Asc then v_infos s else rev (v_infos s))"

lemma ask_accounts_serves_pages:
  assumes "store_ok (v_infos s)" and "limit \<noteq> Some 0"
    and "list_all (\<lambda>a. addr_validate_to_lower d a = Ok a) (store_keys (v_infos s))"
  shows "serves_pages (ask_accounts d h env limit order s) fst (accounts_in_order order s)
    (page_size vesting_default_limit vesting_max_limit limit)"
  unfolding serves_pages_def
proof (intro conjI allI impI)
  show "0 < page_size vesting_default_limit vesting_max_limit limit"
    using assms(2) by (simp add: page_size_pos vesting_default_limit_def vesting_max_limit_def)
next
  fix i assume i: "i \<le> length (accounts_in_order order s)"
  then have len: "i \<le> length (v_infos s)" by (simp add: accounts_in_order_def split: if_splits)
  have keys: "list_all (\<lambda>a. addr_validate_to_lower d a = Ok a) (map fst (accounts_in_order order s))"
    using assms(3) by (simp add: accounts_in_order_def store_keys_def list_all_iff)
  have valid: "addr_opt_validate d (cursor fst (accounts_in_order order s) i) =
      Ok (cursor fst (accounts_in_order order s) i)"
  proof (cases i)
    case (Suc j)
    then have "fst (accounts_in_order order s ! j) \<in> set (map fst (accounts_in_order order s))"
      using i by simp
    then show ?thesis using keys Suc by (auto simp: addr_opt_validate_def cursor_def list_all_iff)
  qed (simp add: addr_opt_validate_def cursor_def)
  have "read_vesting_infos (cursor fst (accounts_in_order order s) i) limit order (v_infos s) =
      take (page_size vesting_default_limit vesting_max_limit limit) (drop i (accounts_in_order order s))"
    using read_vesting_infos_asc [OF assms(1) len] read_vesting_infos_desc [OF assms(1) len]
    by (cases "order = Some Asc") (simp_all add: accounts_in_order_def)
  then show "ask_accounts d h env limit order s (cursor fst (accounts_in_order order s) i) =
      Ok (take (page_size vesting_default_limit vesting_max_limit limit) (drop i (accounts_in_order order s)))"
    by (simp add: ask_accounts_def query_vesting_accounts_def valid)
qed

text \<open>A claim of all that is available fits into the books, and leaves nothing available.\<close>

lemma claim_fits:
  assumes "vesting_books t s" and "map_of (v_infos s) a = Some vi" and "compute_available_amount now vi = Ok n"
    and "unat now = t"
  obtains released st tr where "unat (released :: u128) = unat (released_amount vi) + unat n"
    "v_state s = Some st" "unat (tr :: u128) = unat (total_released st) + unat n"
proof -
  have infos: "infos_ok t (v_infos s)" and ok: "store_ok (v_infos s)"
    using assms(1) by (simp_all add: vesting_books_def infos_ok_def)
  obtain st where st: "v_state s = Some st"
    using assms(1,2) by (cases "v_state s") (auto simp: vesting_books_def)
  have sums: "unat (total_granted st) = granted_sum (v_infos s)" "unat (total_released st) = released_sum (v_infos s)"
    using assms(1) st by (simp_all add: vesting_books_def)
  have total': "unat (released_amount vi) + unat n \<le> schedules_total (schedules vi)"
    using compute_available_Ok [OF assms(3)] vested_total_le [of "schedules vi" "unat now"]
      infos_ok_load [OF infos assms(2)] by (simp add: account_ok_def)
  have "schedules_total (schedules vi) \<le> granted_sum (v_infos s)"
    unfolding granted_sum_def by (rule store_sum_ge [OF assms(2)])
  then have "unat (released_amount vi) + unat n < 2 ^ 128"
    using total' sums(1) unat_le_u128_max [of "total_granted st"] by linarith
  then obtain released :: u128 where r: "unat released = unat (released_amount vi) + unat n"
    using word_of_nat_ex [where 'a = 128] by auto
  have "account_ok t (vi\<lparr>released_amount := released\<rparr>)"
    using compute_available_Ok [OF assms(3)] infos_ok_load [OF infos assms(2)] assms(4) r
    by (simp add: account_ok_def)
  then have "released_sum (save a (vi\<lparr>released_amount := released\<rparr>) (v_infos s)) \<le>
      granted_sum (save a (vi\<lparr>released_amount := released\<rparr>) (v_infos s))"
    by (rule released_le_granted [OF infos_ok_save [OF infos]])
  then have "unat (total_released st) + unat n < 2 ^ 128"
    using sums_update [OF ok assms(2), of "vi\<lparr>released_amount := released\<rparr>"] r sums
      unat_le_u128_max [of "total_granted st"] by simp
  then obtain tr :: u128 where "unat tr = unat (total_released st) + unat n"
    using word_of_nat_ex [where 'a = 128] by auto
  with r st show thesis by (rule that)
qed

lemma nothing_left_after_claim:
  assumes "compute_available_amount now vi = Ok n" and "unat released = unat (released_amount vi) + unat n"
  shows "compute_available_amount now (vi\<lparr>released_amount := released\<rparr>) = Ok 0"
proof -
  obtain m where m: "try_fold (add_available now) 0 (schedules vi) = Ok m"
    and n: "checked_sub m (released_amount vi) = Ok n"
    using assms(1) by (auto simp: compute_available_amount_def simp del: checked_sub_Ok_iff)
  then have "m = released" using assms(2) by (auto simp: word_unat_eq_iff)
  then show ?thesis by (simp add: compute_available_amount_def m checked_sub_def del: checked_sub_Ok_iff)
qed

text \<open>A contract with two accounts.\<close>

definition qr_registered :: vesting where
  "qr_registered = vr_ready\<lparr>v_state := Some \<lparr>total_granted = 3000, total_released = 0\<rparr>,
     v_infos := [(''alice'', vr_info 0), (''bob'', vr_info 0)]\<rparr>"

definition qr_accounts :: "vesting_account list" where
  "qr_accounts = [\<lparr>account_address = ''bob'', account_schedules = [vr_schedule]\<rparr>,
     \<lparr>account_address = ''alice'', account_schedules = [vr_schedule]\<rparr>]"

definition qr_history :: vesting_history where
  "qr_history = \<lparr>info_at_height = (\<lambda>a height. Ok None), state_at_height = (\<lambda>height. Ok None)\<rparr>"

lemma qr_step_registered:
  "receive_cw20 vr_deps (vr_call ''lp'') ''auction'' 3000 (RegisterVestingAccountsHook qr_accounts) vr_ready
     = Ok (qr_registered, [])"
  by (simp add: vesting_ops vr_defs qr_accounts_def qr_registered_def eval_arith)

lemma qr_reachable: "vesting_reachable vr_deps 20 3000 qr_registered"
proof -
  note call = vesting_reachable.call [where d = vr_deps]
  have "vesting_reachable vr_deps 5 0 vr_fresh"
    by (rule vesting_reachable.start [OF vr_step_start])
  from call [OF this _ vr_step_ready] have "vesting_reachable vr_deps 10 0 vr_ready"
    by (simp add: token_in_def token_out_def vesting_token_of_def vr_defs)
  from call [OF this, of "vr_env 20" "vr_call ''lp''" "VReceive ''auction'' 3000 (RegisterVestingAccountsHook qr_accounts)"
      qr_registered] qr_step_registered
  show ?thesis
    by (simp add: token_in_def token_out_def vesting_token_of_def vr_ready_def vr_config_def)
qed

lemma qr_keys: "list_all (\<lambda>a. addr_validate_to_lower vr_deps a = Ok a) (store_keys (v_infos qr_registered))"
  by (simp add: qr_registered_def store_keys_def addr_validate_to_lower_def to_lowercase_def
      char_to_lower_def vr_deps_def)

lemma qr_available: "vesting_query vr_deps qr_history (vr_env 150) (VQAvailableAmount ''alice'') qr_registered
    = Ok (VRAmount 1000)"
  by (simp add: query_vesting_available_amount_def vesting_ops vr_defs qr_registered_def eval_arith min_def)

text \<open>C26: A client that reads the accounts of a deployed vesting contract page by page, in either order and with any page size but zero, gets every account exactly once, and no page is longer than 30.\<close>
theorem vesting_paging_lists_every_account:
  assumes "vesting_reachable d t held s" and "must_pay_law d" and "limit \<noteq> Some 0"
    and "list_all (\<lambda>a. addr_validate_to_lower d a = Ok a) (store_keys (v_infos s))"
    and "length (v_infos s) < n"
  shows "collect_pages (ask_accounts d h env limit order s) fst n None =
      Ok (if order = Some Asc then v_infos s else rev (v_infos s)) \<and>
    (\<forall>start page. ask_accounts d h env limit order s start = Ok page \<longrightarrow> length page \<le> 30)"
proof
  have ok: "store_ok (v_infos s)"
    using vesting_reachable_inv [OF assms(1,2)] by (simp add: vesting_books_def infos_ok_def)
  show "collect_pages (ask_accounts d h env limit order s) fst n None =
      Ok (if order = Some Asc then v_infos s else rev (v_infos s))"
    using collect_pages_all [OF ask_accounts_serves_pages [OF ok assms(3,4)], of order n] assms(5)
    by (simp add: accounts_in_order_def)
  show "\<forall>start page. ask_accounts d h env limit order s start = Ok page \<longrightarrow> length page \<le> 30"
    by (auto simp: ask_accounts_def query_vesting_accounts_def read_vesting_infos_def
        vesting_max_limit_def Let_def)
qed

theorem vesting_paging_lists_every_account_witness:
  "collect_pages (ask_accounts vr_deps qr_history (vr_env 150) (Some 1) None qr_registered) fst 3 None =
     Ok [(''bob'', vr_info 0), (''alice'', vr_info 0)]"
  using vesting_paging_lists_every_account [OF qr_reachable vr_must_pay _ qr_keys, of "Some 1" 3
      qr_history "vr_env 150" None]
  by (simp add: qr_registered_def)

text \<open>C23: In a deployed vesting contract with its token set, the amount that AvailableAmount announces for an account is what a claim of the account in the same block pays: the claim succeeds, sends exactly that, and the query then announces zero.\<close>
theorem vesting_query_announces_the_claim:
  assumes "vesting_reachable d t held s" and "must_pay_law d" and "t \<le> block_time env"
    and "v_config s = Some cfg" and "vesting_token cfg = Some token"
    and "vesting_query d h env (VQAvailableAmount address) s = Ok r"
    and "addr_validate d address = Ok (sender info)"
  shows "\<exists>n s' ms. r = VRAmount n \<and> vesting_execute d env info (VClaim None None) s = Ok (s', ms) \<and>
    asset_paid token ms = unat n \<and>
    vesting_query d h env (VQAvailableAmount address) s' = Ok (VRAmount 0)"
proof -
  obtain vi n where vi: "map_of (v_infos s) (sender info) = Some vi"
    and n: "compute_available_amount (block_time env) vi = Ok n" and r: "r = VRAmount n"
    using assms(4,6,7)
    by (auto simp: query_vesting_available_amount_def load_vesting_config_def load_vesting_info_def)
  have books: "vesting_books (unat (block_time env)) s"
    using vesting_reachable_inv [OF assms(1,2)] assms(3)
    by (auto simp: word_le_nat_alt intro: vesting_books_later)
  obtain released tr :: u128 and st where new: "unat released = unat (released_amount vi) + unat n"
    "v_state s = Some st" "unat tr = unat (total_released st) + unat n"
    using claim_fits [OF books vi n refl] by blast
  show ?thesis
  proof (cases "n = 0")
    case True
    have "vesting_claim env info None None s = Ok (s, [])"
      using assms(4,5) vi n True
      by (simp add: vesting_claim_def load_vesting_config_def get_vesting_token_def load_vesting_info_def ok_or_def)
    then show ?thesis using assms(6) r True by auto
  next
    case False
    obtain m where m: "into_msg (with_balance token n) (sender info) = Ok m" by (simp add: into_msg_cases)
    define vi' where "vi' = vi\<lparr>released_amount := released\<rparr>"
    define s' where "s' = s\<lparr>v_infos := save (sender info) vi' (v_infos s),
      v_state := Some (st\<lparr>total_released := tr\<rparr>)\<rparr>"
    have sums: "checked_add (released_amount vi) n = Ok released" "checked_add (total_released st) n = Ok tr"
      using new(1,3) by simp_all
    have claim: "vesting_claim env info None None s = Ok (s', [m])"
      using assms(4,5) vi n False new(2) m sums
      by (simp add: vesting_claim_def load_vesting_config_def get_vesting_token_def load_vesting_info_def
          unwrap_or_def ok_or_def s'_def vi'_def del: checked_add_Ok_iff)
    have "compute_available_amount (block_time env) vi' = Ok 0"
      using nothing_left_after_claim [OF n new(1)] by (simp add: vi'_def)
    then have "vesting_query d h env (VQAvailableAmount address) s' = Ok (VRAmount 0)"
      using assms(4,7)
      by (simp add: query_vesting_available_amount_def load_vesting_config_def load_vesting_info_def
          s'_def map_of_save ok_or_def)
    then show ?thesis using claim r into_msg_paid [OF m] by auto
  qed
qed

theorem vesting_query_announces_the_claim_witness:
  "\<exists>n s' ms. VRAmount 1000 = VRAmount n \<and>
     vesting_execute vr_deps (vr_env 150) (vr_call ''alice'') (VClaim None None) qr_registered = Ok (s', ms) \<and>
     asset_paid (Token ''lp'') ms = unat n"
  using vesting_query_announces_the_claim [OF qr_reachable vr_must_pay, of "vr_env 150"
      "vr_config (Some (Token ''lp''))" "Token ''lp''" qr_history "''alice''" "VRAmount 1000" "vr_call ''alice''"]
    qr_available
  by (auto simp: qr_registered_def vr_ready_def vr_fresh_def vr_config_def vr_deps_def vr_call_def)

end
