(* ===== verification/Spec2Isabelle.thy ===== *)
theory Spec2Isabelle
  imports Auction_Lockdrop Auction_Properties Credits_Properties Vesting_Properties
    Lockdrop_Properties Airdrop_Properties Vesting_Lp_Properties Price_Feed_Properties
    Usdc_Converter Oracle_Properties Lockdrop_Handover Vesting_Handover Credits_Lockdrop Feed_Auction
    Interface_Helpers Query_Properties
begin

text \<open>
  A verification library for the contracts of the Neutron token generation event.

  \<^bold>\<open>The program.\<close> The repository is a set of CosmWasm contracts in Rust. The airdrop contract
  (\<open>contracts/cw20-merkle-airdrop\<close>) gives cNTRN, a token of the credits contract
  (\<open>contracts/credits\<close>), to a list of accounts; cNTRN vests and is burned for NTRN. In the auction
  (\<open>contracts/auction\<close>) accounts deposit USDC and ATOM; the auction adds NTRN, creates liquidity in
  two pools and hands the LP tokens out: half to the reserve, the part that users chose to lock to
  the lockdrop (\<open>contracts/lockdrop\<close>), the rest to vesting contracts (\<open>contracts/vesting-lp\<close> and, for
  other tokens, \<open>vesting-lti\<close>, \<open>vesting-investors\<close>, all on \<open>packages/vesting-base\<close>). The lockdrop stakes
  the locked LP tokens, pays NTRN incentives and multiplies airdrops by calling the credits contract.
  The price feed (\<open>contracts/price-feed\<close>) brings the prices for the pools' sizes over IBC, the oracle
  (\<open>contracts/astroport/oracle\<close>) averages the prices of a pair. Later the liquidity moved to new pools:
  \<open>vesting-lp\<close> and \<open>lockdrop\<close> have migration callbacks, \<open>contracts/vesting-lp-pcl\<close> and
  \<open>contracts/lockdrop-pcl\<close> take over, and \<open>contracts/usdc-converter\<close> moves a user's liquidity.

  \<^bold>\<open>Conventions.\<close> A contract's storage is a record with one field per storage item: an \<open>option\<close> for an
  \<open>Item\<close>, a sorted association list (\<open>store\<close>, theory \<open>Storage\<close>) for a \<open>Map\<close>, whose iteration order
  is the order of the keys. A handler takes the environment, the caller and the message to a
  \<open>result\<close>: \<open>Ok\<close> with the new state and the messages to send, \<open>Err\<close> with the contract's error, or
  \<open>Panic\<close>. The workspace is compiled with \<open>overflow-checks\<close>, so \<open>+\<close>, \<open>-\<close> and \<open>*\<close> on integers are
  \<open>add_panic\<close>, \<open>sub_panic\<close> and \<open>mul_panic\<close>; \<open>checked_add\<close> and its like return errors. Integers are
  words of their width (\<open>Uint_Arith\<close>); \<open>Decimal\<close> and \<open>Decimal256\<close> are their atomics. A failed message
  leaves no trace, so \<open>Err\<close> and \<open>Panic\<close> carry no state; the IBC packet handler of the price feed,
  which turns errors into acknowledgements, returns its state in every case. Times are seconds.
  Error texts with interpolated values keep their format string, events and response attributes are
  left out, and so is the version record of \<open>cw2\<close>. Messages are values, not JSON.

  \<^bold>\<open>Code outside the repository\<close> is a parameter: the record \<open>deps\<close> and its extensions hold the answers
  of the chain and of other contracts (balances, address validation, pairs, the generator, the
  coin registry), the hash function, the codecs and the integer square root of the crate
  \<open>uint\<close>; \<open>cw20_lib\<close> holds the operations of \<open>cw20_base\<close>. What a property needs of them is a named
  law (\<open>cw20_laws\<close>, \<open>must_pay_law\<close>, \<open>hex_law\<close>, \<open>sha256_law\<close>, \<open>addr_validate_identity\<close>), and its witness
  gives an instance that satisfies it. The contracts of the auction and the lockdrop link version 3.11.0 of the
  \<open>astroport\<close> package; the copy in \<open>packages/astroport\<close> is what is modelled. A value at a past height
  is an argument of the query that reads it.

  \<^bold>\<open>Theories.\<close>
  \<^item> \<open>Prelude\<close>, \<open>Uint_Arith\<close>, \<open>Storage\<close>, \<open>Chain\<close>: results and their bind, checked and panicking integers,
    decimals, maps and sums over them, environment and coins. \<open>Restricted_Vector\<close>, \<open>Assets\<close>, \<open>Ownership\<close>,
    \<open>Messages\<close>: the shared data and helpers of \<open>packages/astroport\<close> and \<open>packages/astroport_periphery\<close>.
    \<open>Ownership\<close> has a locale for contracts whose owner can hand over ownership, which the vesting
    library and the lockdrop interpret; \<open>Withdrawal_Curve\<close> has one for the withdrawal curve, which
    the auction and the lockdrop interpret.
  \<^item> \<open>Auction\<close> (\<open>contract.rs\<close>, \<open>state.rs\<close> of the auction): \<open>auction\<close> is its storage, \<open>auction_execute\<close> its entry
    point. \<open>Auction_Proofs\<close>: inversion of every handler, the reachable states and their invariant.
    \<open>Auction_Properties\<close>: totals, limits of locking, solvency of the finalization, the migration never
    gets stuck, pool sizes, withdrawals, and a complete example run.
  \<^item> \<open>Credits\<close>, \<open>Credits_Properties\<close>: the cNTRN token, its backing, vesting, and who can move balances.
  \<^item> \<open>Vesting_Base\<close>, \<open>Vesting_Proofs\<close>, \<open>Vesting_Properties\<close>: the vesting library with its three extensions,
    its books, solvency, claims, registrations and clawback.
  \<^item> \<open>Vesting_Lp\<close>, \<open>Vesting_Lp_Properties\<close>: \<open>vesting-lp\<close> and \<open>vesting-lp-pcl\<close>, the migration in three
    callbacks, and an attack on \<open>vesting-lp-pcl\<close> that the code admits. \<open>Vesting_Handover\<close>: the two contracts in
    one relation \<open>vesting_handover\<close>, with migrations as whole transactions; both stay solvent, and what
    becomes of an account that the new contract already had.
  \<^item> \<open>Lockdrop\<close> (the whole contract, its callbacks and migration), \<open>Lockdrop_Proofs\<close> (inversions, books),
    \<open>Lockdrop_Runs\<close> (transactions with their callbacks, reachable states), \<open>Lockdrop_Lifetime\<close> (what
    a transaction does to a lockup), \<open>Lockdrop_Properties\<close> (books, pay-outs, the ledger that the
    contract refines, limits, incentives, one-time rewards).
  \<^item> \<open>Lockdrop_Pcl\<close> (the whole contract), \<open>Lockdrop_Pcl_Proofs\<close> (rewards and debts, books),
    \<open>Lockdrop_Pcl_Runs\<close> (transactions, what the steps keep, reachable states), \<open>Lockdrop_Pcl_Properties\<close>
    (well-formed storage, books, pay-outs, what a transaction pays is what it books).
  \<^item> \<open>Lockdrop_Handover\<close>: lockdrop and PCL lockdrop in one relation \<open>handover\<close>, in which the migration
    message of the one is a transaction of the other.
  \<^item> \<open>Credits_Lockdrop\<close>: what a lockdrop claim burns in the credits contract, whose queries it asks before.
  \<^item> \<open>Feed_Auction\<close>: the rates of an oracle answer, through the price feed, in the sizes of the auction's pools.
  \<^item> \<open>Airdrop\<close>, \<open>Airdrop_Properties\<close>: the Merkle airdrop against a reference tree, and its runs.
  \<^item> \<open>Price_Feed\<close>, \<open>Price_Feed_Properties\<close>, \<open>Oracle\<close>, \<open>Oracle_Properties\<close>, \<open>Usdc_Converter\<close>.
  \<^item> \<open>Asset_Helpers\<close>: the rest of \<open>packages/astroport\<close>: conversions between integers and decimals with
    their round trips, checks on sent coins, pools and fees of a pair. \<open>Interface_Helpers\<close>: how the LP
    vesting contracts convert their messages for the library, the checks of the Astroport interfaces
    (\<open>token.rs\<close>, \<open>factory.rs\<close>, \<open>router.rs\<close>, \<open>pair.rs\<close>, \<open>generator.rs\<close>), and helpers that no handler calls.
  \<^item> \<open>Queries\<close>: the query entry point of every contract. \<open>Query_Properties\<close>: a client that reads a map page
    by page sees each entry once, and what a vesting contract announces is what a claim pays.
  \<^item> \<open>Auction_Lockdrop\<close>: auction and lockdrop in one relation, \<open>joint\<close> up to the first claim and
    \<open>together\<close> beyond it. This theory ends with the properties that span contracts.

  \<^bold>\<open>Runs.\<close> \<open>auction_reachable\<close>, \<open>credits_reachable\<close>, \<open>vesting_reachable\<close> start at the instantiation and
  take any successful message of anyone at a time that does not go back; where the contract holds
  tokens, the relation counts them. In \<open>lockdrop_reachable\<close> a step is a whole transaction: a message
  and the callbacks that the contract sends to itself, in the order of the chain, with the answers of
  other contracts free to change between them; the contracts that the lockdrop calls are taken not to
  call it back within the transaction (\<open>lockdrop_run\<close> gives their messages no effect on the lockdrop), and
  address validation to return the text it is given (\<open>addr_validate_identity\<close>).
  \<open>deployed_use\<close> states how it is operated: SetTokenInfo is called only while there are no lockups,
  and migrations start after the windows. \<open>pcl_reachable\<close> is the same for the PCL lockdrop, and
  collects the messages to other contracts; \<open>pcl_deployed\<close> states that the lockdrop migrates a lockup
  once, after its user's incentives are paid. \<open>joint\<close> takes the two handlers of a lock or unlock
  together, as one transaction does, and stops before the first claim or migration of the lockdrop;
  \<open>together\<close> has those as steps too, with their callbacks, as well as the lockdrop's upgrade, while the
  lockdrop is configured with the auction of the run. In \<open>vesting_handover\<close> the queue of a
  migration runs to its end (\<open>migration_run\<close>), forged hooks are left out, and the vesting token of the
  old contract is a cw20 token other than the new one.

  \<^bold>\<open>Loops\<close> are folds over lists (\<open>try_fold\<close>, \<open>try_map\<close>) or structural recursion, so every operation is
  total and no fuel is needed; an iterator with a limit is \<open>take\<close>. The client \<open>collect_pages\<close> of
  \<open>Query_Properties\<close> has fuel for its requests; one more than the entries is enough.

  \<^bold>\<open>Not modelled.\<close> Left out for good: JSON schemas and
  scripts, \<open>migrate\<close> entry points that do nothing or record a version, the message and response types of Astroport
  contracts that are not in the repository (only the data that the modelled contracts exchange with
  them is here), \<open>packages/astroport_periphery/src/airdrop.rs\<close> and \<open>simple_airdrop.rs\<close>, the messages
  of contracts that are not here, \<open>xastro_token.rs\<close>, which repeats \<open>token.rs\<close>, the queries of \<open>querier.rs\<close>
  that only forward to another contract, and test code.
\<close>

subsection \<open>Locked LP tokens\<close>

definition jl_msg :: lockdrop_instantiate_msg where
  "jl_msg = lr_msg\<lparr>li_init_timestamp := 300, li_lock_window := 100, li_withdrawal_window := 50,
     li_lockup_rewards_info := [\<lparr>lr_duration = 10, lr_coefficient = Decimal256 0\<rparr>,
       \<lparr>lr_duration = 20, lr_coefficient = Decimal256 0\<rparr>]\<rparr>"

definition jl_config :: "addr option \<Rightarrow> lockdrop_config" where
  "jl_config g = (lr_config g 0)\<lparr>lc_init_timestamp := 300, lc_lock_window := 100,
     lc_withdrawal_window := 50,
     lc_lockup_rewards_info := [\<lparr>lr_duration = 10, lr_coefficient = Decimal256 0\<rparr>,
       \<lparr>lr_duration = 20, lr_coefficient = Decimal256 0\<rparr>]\<rparr>"

definition jl_fresh :: lockdrop where
  "jl_fresh = lr_fresh\<lparr>l_config := Some (jl_config None)\<rparr>"

definition jl_ready :: lockdrop where
  "jl_ready = lr_ready\<lparr>l_config := Some (jl_config (Some ''gen''))\<rparr>"

definition jl_lock1 :: lockdrop where
  "jl_lock1 = jl_ready\<lparr>
     l_pools := lr_pools ((new_lockdrop_pool ''usdclp'')\<lparr>amount_in_lockups := 2000, weighted_amount := 2000\<rparr>),
     l_users := [(''alice'', user_info_default\<lparr>lockup_positions_index := 1\<rparr>)],
     l_lockups := [((USDC, ''alice'', 20), LockupV2 (new_lockup 2000 470))],
     l_totals := [((USDC, ''alice''), 2000)]\<rparr>"

definition jl_locked :: lockdrop where
  "jl_locked = jl_lock1\<lparr>
     l_pools := [(ATOM, (new_lockdrop_pool ''atomlp'')\<lparr>amount_in_lockups := 1000, weighted_amount := 1000\<rparr>),
       (USDC, (new_lockdrop_pool ''usdclp'')\<lparr>amount_in_lockups := 2000, weighted_amount := 2000\<rparr>)],
     l_users := [(''alice'', user_info_default\<lparr>lockup_positions_index := 1\<rparr>),
       (''bob'', user_info_default\<lparr>lockup_positions_index := 1\<rparr>)],
     l_lockups := [((ATOM, ''bob'', 10), LockupV2 (new_lockup 1000 460)),
       ((USDC, ''alice'', 20), LockupV2 (new_lockup 2000 470))],
     l_totals := [((ATOM, ''bob''), 1000), ((USDC, ''alice''), 2000)]\<rparr>"

lemmas jl_states = jl_config_def jl_fresh_def jl_ready_def jl_lock1_def jl_locked_def lr_states

lemma jl_instantiate: "lockdrop_instantiate lr_deps (lr_env 50) (lr_call ''dao'') jl_msg lockdrop_empty = Ok (jl_fresh, [])"
  by (simp add: lockdrop_instantiate_def jl_msg_def lr_msg_def jl_states)

lemma jl_set_tokens:
  "lockdrop_execute lr_deps (lr_env 60) (lr_call ''manager'') (LSetTokenInfo ''atomlp'' ''usdclp'' ''gen'') jl_fresh
     = Ok (jl_ready, [])"
  by (simp add: handle_set_token_info_def lr_loads jl_states)

lemma jl_step1:
  "lockdrop_execute lr_deps ((run_env 320)\<lparr>this_contract := ''lockdrop''\<rparr>) \<lparr>sender = ''auction'', funds = []\<rparr>
     (LIncreaseLockupFor ''alice'' USDC 2000 20) jl_ready = Ok (jl_lock1, [])"
  by (simp add: lr_ops jl_states run_env_def eval_arith decimal256_one_def)

lemma jl_step2:
  "lockdrop_execute lr_deps ((run_env 330)\<lparr>this_contract := ''lockdrop''\<rparr>) \<lparr>sender = ''auction'', funds = []\<rparr>
     (LIncreaseLockupFor ''bob'' ATOM 1000 10) jl_lock1 = Ok (jl_locked, [])"
  by (simp add: lr_ops jl_states run_env_def eval_arith decimal256_one_def)

lemma jl_lock_message1:
  "auction_execute run_deps (run_env 320) (call_by ''alice'') (AuctionLockLp USDC 2000 20) run_sized =
     Ok (run_lock1, [WasmExecute ''lockdrop'' (IncreaseLockupFor ''alice'' USDC 2000 20) []])"
  using run_step_lock1 by simp

lemma jl_lock_message2:
  "auction_execute run_deps (run_env 330) (call_by ''bob'') (AuctionLockLp ATOM 1000 10) run_lock1 =
     Ok (run_locked, [WasmExecute ''lockdrop'' (IncreaseLockupFor ''bob'' ATOM 1000 10) []])"
  using run_step_locked by simp

lemma moves_lockups_simps:
  "\<not> moves_lockups AuctionDeposit" "\<not> moves_lockups (AuctionWithdraw x y)" "\<not> moves_lockups AuctionSetPoolSize"
  by (simp_all add: moves_lockups_def)

lemma joint_example: "joint ''auction'' ''lockdrop'' run_locked jl_locked"
proof -
  have "joint ''auction'' ''lockdrop'' run_fresh jl_fresh"
    by (rule joint_start [OF run_step_start jl_instantiate])
  then have "joint ''auction'' ''lockdrop'' run_fresh jl_ready"
    by (rule joint_lockdrop [OF _ jl_set_tokens]) (simp add: lockdrop_admin_def jl_states)
  then have "joint ''auction'' ''lockdrop'' run_ready jl_ready"
    by (rule joint_auction [OF _ run_step_ready]) (simp add: moves_lockups_def)
  moreover have "auction_execute run_deps (run_env 150) alice_sends AuctionDeposit run_ready = Ok (run_half, [])"
    using run_step_half by simp
  moreover have "auction_execute run_deps (run_env 160) bob_sends AuctionDeposit run_half = Ok (run_deposited, [])"
    using run_step_deposited by simp
  moreover have "auction_execute run_deps (run_env 220) (call_by ''alice'') (AuctionWithdraw 3000000 0) run_deposited
     = Ok (run_withdrawn, [BankSend ''alice'' [\<lparr>coin_denom = ''usdc'', coin_amount = 3000000\<rparr>]])"
    using run_step_withdrawn by simp
  moreover have "auction_execute run_deps (run_env 300) (call_by ''dao'') AuctionSetPoolSize run_withdrawn = Ok (run_sized, [])"
    using run_step_sized by simp
  ultimately have "joint ''auction'' ''lockdrop'' run_sized jl_ready"
    by (meson joint_auction moves_lockups_simps)
  then have "joint ''auction'' ''lockdrop'' run_lock1 jl_lock1"
    by (rule joint_lock [OF _ jl_lock_message1 _ _ lr_validate jl_step1])
      (simp_all add: moves_lockups_def lockdrop_call_def)
  then show ?thesis
    by (rule joint_lock [OF _ jl_lock_message2 _ _ lr_validate jl_step2])
      (simp_all add: moves_lockups_def lockdrop_call_def)
qed

text \<open>After the windows the auction sends the LP tokens, and alice takes hers back.\<close>

definition jl_pool :: "u128 \<Rightarrow> lockdrop_pool" where
  "jl_pool n = (new_lockdrop_pool ''usdclp'')\<lparr>amount_in_lockups := n, weighted_amount := 2000,
     incentives_share := 1, is_staked := True\<rparr>"

definition jl_pools :: "u128 \<Rightarrow> (pool_type, lockdrop_pool) store" where
  "jl_pools n = [(ATOM, (new_lockdrop_pool ''atomlp'')\<lparr>amount_in_lockups := 1000, weighted_amount := 1000\<rparr>),
     (USDC, jl_pool n)]"

definition jl_staked :: lockdrop where
  "jl_staked = jl_locked\<lparr>l_state := Some 1, l_pools := jl_pools 2000\<rparr>"

definition jl_unlocked :: lockdrop where
  "jl_unlocked = jl_staked\<lparr>l_pools := jl_pools 0,
     l_users := [(''alice'', \<lparr>total_ntrn_rewards = 0, ntrn_transferred = True, lockup_positions_index = 1\<rparr>),
       (''bob'', user_info_default\<lparr>lockup_positions_index := 1\<rparr>)],
     l_lockups := [((ATOM, ''bob'', 10), LockupV2 (new_lockup 1000 460)),
       ((USDC, ''alice'', 20), LockupV2 ((new_lockup 2000 470)\<lparr>astroport_lp_transferred := Some 2000\<rparr>))],
     l_totals := [((ATOM, ''bob''), 1000), ((USDC, ''alice''), 0)]\<rparr>"

lemmas jl_late_states = less_eq_pool_type_def jl_pool_def jl_pools_def jl_staked_def jl_unlocked_def jl_states

lemma jl_stake:
  "lockdrop_execute lr_deps (lr_env 430) (lr_call ''usdclp'') (LReceive ''auction'' 2000 (InitializePool USDC 1)) jl_locked
     = Ok (jl_staked, [WasmExecute ''usdclp'' (Cw20IncreaseAllowance ''gen'' 2000 2) [],
         WasmExecute ''usdclp'' (Cw20Send ''gen'' 2000 GeneratorDeposit) []])"
  by (simp add: lockdrop_receive_cw20_def handle_initialize_pool_def stake_messages_def lr_loads jl_late_states
      eval_arith)

definition jl_deps :: lockdrop_deps where
  "jl_deps = lr_deps\<lparr>gen_deposit := (\<lambda>g lp a. Ok 2000), raw_user_info_amount := (\<lambda>g lp a. Ok (Some 2000))\<rparr>"

lemma jl_validate: "addr_validate_identity jl_deps"
  by (simp add: addr_validate_identity_def jl_deps_def lr_deps_def)

lemma jl_claim:
  "lockdrop_execute jl_deps (lr_env 480) (lr_call ''alice'') (LClaimRewardsAndOptionallyUnlock USDC 20 True) jl_staked
     = Ok (jl_staked, [WasmExecute ''lockdrop''
         (LockdropCallback (WithdrawUserLockupRewardsCallback USDC ''alice'' 20 True)) []])"
  by (simp add: handle_claim_rewards_and_unlock_for_lockup_def claim_generator_rewards_def lr_loads jl_deps_def jl_late_states
      eval_arith update_user_lockup_positions_and_calc_rewards_def user_lockups_def lockup_durations_def
      store_keys_def calc_lockup_reward_def lockup_incentives_def calculate_weight_def decimal256_one_def
      calculate_astro_incentives_for_lockup_def)

lemma jl_unlock:
  "receive_lockdrop_callback jl_deps (lr_env 480) (lr_call ''lockdrop'')
     (WithdrawUserLockupRewardsCallback USDC ''alice'' 20 True) jl_staked = Ok (jl_unlocked,
       [WasmExecute ''gen'' (GeneratorWithdraw ''usdclp'' 2000) [],
        WasmExecute ''usdclp'' (Cw20Transfer ''alice'' 2000) []])"
  by (simp add: receive_lockdrop_callback_def callback_withdraw_user_rewards_for_lockup_optional_withdraw_def
      withdraw_generator_rewards_def lockup_lp_amount_def lp_share_def pending_ntrn_reward_def
      pending_proxy_rewards_def release_lockup_def sub_user_total_def one_time_rewards_def
      lr_loads jl_deps_def jl_late_states eval_arith decimal_zero_def ntrn_denom_def)

lemma jl_unlock_tx:
  "lockdrop_tx (lr_env 480) (lr_call ''alice'') (LClaimRewardsAndOptionallyUnlock USDC 20 True) jl_staked jl_unlocked"
proof -
  have "lockdrop_run (lr_env 480) [WasmExecute ''gen'' (GeneratorWithdraw ''usdclp'' 2000) [],
        WasmExecute ''usdclp'' (Cw20Transfer ''alice'' 2000) []] jl_unlocked jl_unlocked"
    by (auto intro!: lockdrop_run.intros)
  then have "lockdrop_run (lr_env 480) [WasmExecute ''lockdrop''
      (LockdropCallback (WithdrawUserLockupRewardsCallback USDC ''alice'' 20 True)) []] jl_staked jl_unlocked"
    using lockdrop_run.callback [OF jl_unlock jl_validate, of "[]"] by (simp add: lr_env_def)
  then show ?thesis
    by (intro lockdrop_tx.intros [OF _ jl_claim jl_validate]) (simp_all add: lr_env_def lr_call_def deployed_use_def)
qed

lemma jl_lock_tx:
  assumes "lockdrop_execute lr_deps ((run_env t)\<lparr>this_contract := ''lockdrop''\<rparr>) \<lparr>sender = ''auction'', funds = []\<rparr> m s
      = Ok (s', [])" and "moves_units m"
  shows "lockdrop_tx ((run_env t)\<lparr>this_contract := ''lockdrop''\<rparr>) \<lparr>sender = ''auction'', funds = []\<rparr> m s s'"
  by (rule lockdrop_tx.intros [OF _ assms(1) lr_validate])
    (use assms(2) in \<open>auto simp: deployed_use_def moves_units_def intro: lockdrop_run.intros
       split: lockdrop_execute_msg.splits\<close>)

lemma together_locked: "together ''auction'' ''lockdrop'' 330 run_locked jl_locked"
proof -
  note lockdrop = together_lockdrop [where env = "lr_env t" for t, simplified lr_env_def env.select_convs, folded lr_env_def]
  note auction = together_auction [where env = "run_env t" for t, simplified run_env_time]
  note lock = together_lock [where env = "run_env t" for t, simplified run_env_time]
  have auction_of: "auction_of jl_fresh = Some ''auction''" "auction_of jl_ready = Some ''auction''"
    by (simp_all add: auction_of_def jl_states)
  have 1: "together ''auction'' ''lockdrop'' 50 run_fresh jl_fresh"
    using together_start [OF run_step_start jl_instantiate auction_of(1)] by (simp add: lr_env_def)
  have "lockdrop_tx (lr_env 60) (lr_call ''manager'') (LSetTokenInfo ''atomlp'' ''usdclp'' ''gen'') jl_fresh jl_ready"
    by (rule lr_plain_tx [OF jl_set_tokens]) (simp_all add: deployed_use_def jl_states)
  from lockdrop [OF 1 _ _ this _ auction_of(2)]
  have "together ''auction'' ''lockdrop'' 60 run_fresh jl_ready" by (simp add: moves_units_def)
  from auction [OF this _ run_step_ready]
  have "together ''auction'' ''lockdrop'' 60 run_ready jl_ready" by (simp add: moves_lockups_def)
  from auction [OF this, of 150 run_deps alice_sends AuctionDeposit run_half] run_step_half
  have "together ''auction'' ''lockdrop'' 150 run_half jl_ready" by (simp add: moves_lockups_def)
  from auction [OF this, of 160 run_deps bob_sends AuctionDeposit run_deposited] run_step_deposited
  have "together ''auction'' ''lockdrop'' 160 run_deposited jl_ready" by (simp add: moves_lockups_def)
  from auction [OF this, of 220 run_deps "call_by ''alice''" "AuctionWithdraw 3000000 0" run_withdrawn] run_step_withdrawn
  have "together ''auction'' ''lockdrop'' 220 run_withdrawn jl_ready" by (simp add: moves_lockups_def)
  from auction [OF this, of 300 run_deps "call_by ''dao''" AuctionSetPoolSize run_sized] run_step_sized
  have "together ''auction'' ''lockdrop'' 300 run_sized jl_ready" by (simp add: moves_lockups_def)
  from lock [OF this _ jl_lock_message1 _ _ jl_lock_tx [OF jl_step1]]
  have "together ''auction'' ''lockdrop'' 320 run_lock1 jl_lock1"
    by (simp add: moves_lockups_def lockdrop_call_def moves_units_def)
  from lock [OF this _ jl_lock_message2 _ _ jl_lock_tx [OF jl_step2]]
  show ?thesis by (simp add: moves_lockups_def lockdrop_call_def moves_units_def)
qed

lemma together_unlocked: "together ''auction'' ''lockdrop'' 480 run_locked jl_unlocked"
proof -
  note lockdrop = together_lockdrop [where env = "lr_env t" for t, simplified lr_env_def env.select_convs, folded lr_env_def]
  have "lockdrop_tx (lr_env 430) (lr_call ''usdclp'') (LReceive ''auction'' 2000 (InitializePool USDC 1)) jl_locked jl_staked"
    by (rule lr_plain_tx [OF jl_stake]) (simp_all add: lr_call_def deployed_use_def)
  from lockdrop [OF together_locked _ _ this]
  have "together ''auction'' ''lockdrop'' 430 run_locked jl_staked"
    by (simp add: moves_units_def auction_of_def jl_late_states)
  from lockdrop [OF this _ _ jl_unlock_tx] show ?thesis
    by (simp add: moves_units_def auction_of_def jl_late_states)
qed

text \<open>C1: Auction and lockdrop, each configured with the other, run side by side: lock and unlock messages of the auction carry their message to the lockdrop in the same transaction; every other message of the auction, every transaction of the lockdrop with its callbacks (claims, unlocks and migrations included) and its upgrade come in any order, except that SetTokenInfo is called only while there are no lockups, migrations start after the windows, and other contracts do not call back within a transaction. Then a user's LP shares locked in the auction are always his total on the lockdrop's books plus the units of his lockups that are paid out, the same holds for the locked total of each pool, and until the windows close nothing is paid out, so that both contracts have the same amounts.\<close>
theorem auction_and_lockdrop_agree:
  assumes "together A L t s l"
  shows "(\<forall>p a. locked_by (a_users s) p a = user_total (l_totals l) p a + user_paid p a (l_lockups l)) \<and>
    (\<forall>p. locked_total s p = pool_amount (l_pools l) p + pool_paid p (l_lockups l)) \<and>
    (unat t < windows_end l \<longrightarrow>
      (\<forall>p a. user_paid p a (l_lockups l) = 0) \<and> (\<forall>p. pool_paid p (l_lockups l) = 0))"
  using together_agree [OF assms] by blast

theorem auction_and_lockdrop_agree_witness:
  "locked_by (a_users run_locked) USDC ''alice'' = 2000 \<and>
   user_total (l_totals jl_locked) USDC ''alice'' = 2000 \<and> user_paid USDC ''alice'' (l_lockups jl_locked) = 0 \<and>
   user_total (l_totals jl_unlocked) USDC ''alice'' = 0 \<and> user_paid USDC ''alice'' (l_lockups jl_unlocked) = 2000 \<and>
   locked_total run_locked USDC = pool_amount (l_pools jl_unlocked) USDC + pool_paid USDC (l_lockups jl_unlocked)"
proof -
  note locked = auction_and_lockdrop_agree [OF together_locked] and unlocked = auction_and_lockdrop_agree [OF together_unlocked]
  have t: "user_total (l_totals jl_locked) USDC ''alice'' = 2000" "user_total (l_totals jl_unlocked) USDC ''alice'' = 0"
    by (simp_all add: user_total_def jl_late_states)
  have "unat (330 :: u64) < windows_end jl_locked" by (simp add: windows_end_def jl_states)
  then have paid: "user_paid USDC ''alice'' (l_lockups jl_locked) = 0" using locked by blast
  then have sum: "locked_by (a_users run_locked) USDC ''alice'' = 2000" using locked t(1) by simp
  then have "user_paid USDC ''alice'' (l_lockups jl_unlocked) = 2000" using unlocked t(2) by simp
  then show ?thesis using t paid sum unlocked by blast
qed



subsection \<open>The withdrawal curve\<close>

text \<open>C30: The auction's allowed_withdrawal_percent and the lockdrop's calculate_max_withdrawal_percent_allowed, two copies of the curve, return the same result (errors and panics included) at every time when their windows agree.\<close>
theorem withdrawal_curves_are_equivalent:
  assumes "unat (ac_init_timestamp c) + unat (deposit_window c)
      = unat (lc_init_timestamp c') + unat (lc_lock_window c')"
    and "ac_withdrawal_window c = lc_withdrawal_window c'"
  shows "allowed_withdrawal_percent t c = calculate_max_withdrawal_percent_allowed t c'"
proof -
  have eq: "(add_panic (ac_init_timestamp c) (deposit_window c) :: (std_error, u64) result)
      = lock_window_end c'"
    unfolding lock_window_end_def add_panic_def using assms(1) by simp
  show ?thesis
    unfolding allowed_withdrawal_percent_def calculate_max_withdrawal_percent_allowed_def eq assms(2) ..
qed

theorem withdrawal_curves_are_equivalent_witness:
  "allowed_withdrawal_percent 260 (run_config\<lparr>ac_withdrawal_window := 50\<rparr>)
     = calculate_max_withdrawal_percent_allowed 260 ((jl_config None)\<lparr>lc_init_timestamp := 100\<rparr>)"
  by (rule withdrawal_curves_are_equivalent) (simp_all add: run_config_def jl_config_def)

subsection \<open>A claim reaches the credits contract\<close>

text \<open>The message of the credits contract that a payload stands for, and the delivery of a list of
  messages of one sender: each is executed in the state that the previous one left; the messages
  that the credits contract answers with are collected.\<close>

definition credits_call :: "wasm_msg \<Rightarrow> credits_execute_msg option" where
  "credits_call w = (case w of
       Cw20Transfer r n \<Rightarrow> Some (CreditsTransfer r n)
     | AddVesting a n start dur \<Rightarrow> Some (CreditsAddVesting a n start dur)
     | Cw20Burn n \<Rightarrow> Some (CreditsBurn n)
     | _ \<Rightarrow> None)"

definition deliver_to_credits ::
  "('t, 'e) cw20_lib \<Rightarrow> deps \<Rightarrow> env \<Rightarrow> addr \<Rightarrow> 't credits \<times> msg list \<Rightarrow> msg \<Rightarrow> ('t, 'e) credits_result" where
  "deliver_to_credits L d env from r m = (case m of
       WasmExecute c w fs \<Rightarrow>
         (case (if c = this_contract env then credits_call w else None) of
            Some cm \<Rightarrow> map_ok (\<lambda>(s, out). (s, snd r @ out))
              (credits_execute L d env \<lparr>sender = from, funds = fs\<rparr> cm (fst r))
          | None \<Rightarrow> Ok r)
     | _ \<Rightarrow> Ok r)"

definition deliver_all ::
  "('t, 'e) cw20_lib \<Rightarrow> deps \<Rightarrow> env \<Rightarrow> addr \<Rightarrow> msg list \<Rightarrow> 't credits \<Rightarrow> ('t, 'e) credits_result" where
  "deliver_all L d env from ms s = try_fold (deliver_to_credits L d env from) (s, []) ms"

definition ad_config :: airdrop_config where
  "ad_config = \<lparr>airdrop_owner = ''dao'', credits_address = ''credits'', reserve_address = ''reserve''\<rparr>"

text \<open>C24: When the credits contract executes the messages of an airdrop claim, the claimer's cNTRN balance grows by the claimed amount, the airdrop's shrinks by it, and the claimer gets a fresh allocation of exactly that amount under the airdrop's vesting schedule.\<close>
theorem airdrop_claim_reaches_the_claimer:
  assumes "airdrop_execute da env info (Claim n pf) s = Ok (s', ms)" and "a_config s = Some cfg"
    and "this_contract env' = credits_address cfg"
    and "deliver_all L d env' (this_contract env) ms t = Ok (t', out)"
    and "cw20_laws L" and "addr_validate_identity d" and "sender info \<noteq> this_contract env"
  shows "out = [] \<and>
    balance_of L (c_token t') (sender info) = balance_of L (c_token t) (sender info) + unat n \<and>
    balance_of L (c_token t) (this_contract env) = balance_of L (c_token t') (this_contract env) + unat n \<and>
    map_of (c_allocations t) (sender info) = None \<and>
    (\<exists>vs vd. vesting_start s = Some vs \<and> vesting_duration s = Some vd \<and>
      map_of (c_allocations t') (sender info) = Some \<lparr>allocated_amount = n, withdrawn_amount = 0,
        alloc_schedule = \<lparr>start_time = vs, cliff = 0, duration = vd\<rparr>\<rparr>)"
proof -
  have "execute_claim da env info n pf s = Ok (s', ms)" using assms(1) by simp
  then obtain vs vd where v: "vesting_start s = Some vs" "vesting_duration s = Some vd"
    and ms: "ms = [WasmExecute (credits_address cfg) (Cw20Transfer (sender info) n) [],
       WasmExecute (credits_address cfg) (AddVesting (sender info) n vs vd) []]"
    using assms(2) by (auto elim: execute_claim_inversion)
  let ?by = "\<lparr>sender = this_contract env, funds = []\<rparr>"
  obtain t1 out1 out2 where tr: "credits_transfer L env' ?by (sender info) n t = Ok (t1, out1)"
    and av: "credits_add_vesting L d ?by (sender info) n vs vd t1 = Ok (t', out2)"
    and out: "out = out1 @ out2"
    using assms(3,4) by (auto simp: ms deliver_all_def deliver_to_credits_def credits_call_def)
  obtain tok where tok: "token_transfer L env' ?by (sender info) n (c_token t) = Ok (tok, out1)"
    and t1: "t1 = t\<lparr>c_token := tok\<rparr>"
    using tr by (auto simp: credits_transfer_def with_token_Ok)
  have "cw20_transfer_law L" using assms(5) by (simp add: cw20_laws_def)
  with tok assms(7) have "out1 = []"
    "balance_of L tok (sender info) = balance_of L (c_token t) (sender info) + unat n"
    "balance_of L (c_token t) (this_contract env) = balance_of L tok (this_contract env) + unat n"
    unfolding cw20_transfer_law_def by fastforce+
  moreover from av obtain a where "addr_validate d (sender info) = Ok a" "map_of (c_allocations t1) a = None"
      "t' = t1\<lparr>c_allocations := save a \<lparr>allocated_amount = n, withdrawn_amount = 0,
         alloc_schedule = \<lparr>start_time = vs, cliff = 0, duration = vd\<rparr>\<rparr> (c_allocations t1)\<rparr>" "out2 = []"
    by (rule credits_add_vesting_inversion)
  moreover from calculation have "a = sender info"
    using addr_validate_identityD [OF assms(6)] by blast
  ultimately show ?thesis
    using out v t1 by (simp add: map_of_save)
qed

theorem airdrop_claim_reaches_the_claimer_witness:
  "\<exists>t. deliver_all simple_cw20 cr_deps (cr_env 120) ''airdrop'' ad_paid cr_minted = Ok (t, []) \<and>
     balance_of simple_cw20 (c_token t) ''alice'' = 5 \<and>
     map_of (c_allocations t) ''alice'' = Some \<lparr>allocated_amount = 5, withdrawn_amount = 0,
       alloc_schedule = \<lparr>start_time = 150, cliff = 0, duration = 50\<rparr>\<rparr>"
proof -
  have claim: "airdrop_execute ad_deps (ad_env 120) (ad_call ''alice'') (Claim 5 [''7'']) ad_start = Ok (ad_claimed, ad_paid)"
    using ad_claim by simp
  obtain t where t: "deliver_all simple_cw20 cr_deps (cr_env 120) (this_contract (ad_env 120)) ad_paid cr_minted = Ok (t, [])"
    by (simp add: deliver_all_def deliver_to_credits_def credits_call_def ad_paid_def ad_env_def credits_ops cr_defs eval_arith)
  have "addr_validate_identity cr_deps" by (simp add: cr_deps_def addr_validate_identity_def)
  moreover have "balance_of simple_cw20 (c_token cr_minted) ''alice'' = 0"
    by (simp add: cr_defs balance_of_def)
  ultimately show ?thesis
    using airdrop_claim_reaches_the_claimer [OF claim _ _ t simple_cw20_laws, of ad_config] t
    by (simp add: ad_start_def ad_config_def ad_env_def ad_call_def cr_env_def)
qed

definition leftover_msgs :: "msg list" where
  "leftover_msgs = [WasmExecute ''credits'' (Cw20Burn 7) [],
     BankSend ''reserve'' [\<lparr>coin_denom = ''untrn'', coin_amount = 7\<rparr>]]"

definition leftover_credits :: "simple_token credits" where
  "leftover_credits = cr_ready\<lparr>c_token := cr_token [(''airdrop'', 7)] 7\<rparr>"

lemma leftover_step:
  "airdrop_execute ad_deps (ad_env 201) (ad_call ''reserve'') WithdrawAll ad_claimed = Ok (ad_claimed, leftover_msgs)"
  by (simp add: execute_withdraw_all_def airdrop_expiration_def load_airdrop_def eval_arith ad_defs
      ntrn_denom_def leftover_msgs_def del: add_panic_Ok_iff)

text \<open>Leftover\<close>
theorem airdrop_leftover_is_backed_by_its_burn:
  assumes "airdrop_execute da env info WithdrawAll s = Ok (s', ms)" and "a_config s = Some cfg"
    and "this_contract env' = credits_address cfg"
    and "cw20_balance da (credits_address cfg) (this_contract env) = Ok n"
    and "unat n = balance_of L (c_token t) (this_contract env)"
    and "deliver_all L d env' (this_contract env) ms t = Ok (t', out)" and "cw20_laws L"
  shows "balance_of L (c_token t') (this_contract env) = 0 \<and>
    c_allocations t' = c_allocations t \<and>
    out = [BankSend (this_contract env) [\<lparr>coin_denom = ''untrn'', coin_amount = n\<rparr>]] \<and>
    last ms = BankSend (reserve_address cfg) [\<lparr>coin_denom = ''untrn'', coin_amount = n\<rparr>]"
proof -
  have ms: "ms = [WasmExecute (credits_address cfg) (Cw20Burn n) [],
      BankSend (reserve_address cfg) [\<lparr>coin_denom = ntrn_denom, coin_amount = n\<rparr>]]"
    using assms(1,2,4) by (auto simp: execute_withdraw_all_def load_airdrop_def)
  have "burn_and_send L env' \<lparr>sender = this_contract env, funds = []\<rparr> n t = Ok (t', out)"
    using assms(3,6) by (auto simp: ms deliver_all_def deliver_to_credits_def credits_call_def credits_burn_def)
  from burn_and_send_Ok [OF this assms(7)] show ?thesis
    using assms(5) by (simp add: ms ntrn_denom_def)
qed


theorem airdrop_leftover_is_backed_by_its_burn_witness:
  "\<exists>t. deliver_all simple_cw20 cr_deps (cr_env 201) ''airdrop'' leftover_msgs leftover_credits =
     Ok (t, [BankSend ''airdrop'' [\<lparr>coin_denom = ''untrn'', coin_amount = 7\<rparr>]]) \<and>
     balance_of simple_cw20 (c_token t) ''airdrop'' = 0"
proof -
  obtain t out where t: "deliver_all simple_cw20 cr_deps (cr_env 201) (this_contract (ad_env 201)) leftover_msgs leftover_credits = Ok (t, out)"
    by (simp add: deliver_all_def deliver_to_credits_def credits_call_def leftover_msgs_def leftover_credits_def
        ad_env_def credits_ops cr_defs eval_arith)
  moreover have "unat (7 :: u128) = balance_of simple_cw20 (c_token leftover_credits) (this_contract (ad_env 201))"
    by (simp add: leftover_credits_def cr_defs balance_of_def ad_env_def)
  moreover have "cw20_balance ad_deps c a = Ok 7" for c a by (simp add: ad_deps_def)
  ultimately show ?thesis
    using airdrop_leftover_is_backed_by_its_burn [OF leftover_step, where n = 7 and cfg = ad_config, OF _ _ _ _ t simple_cw20_laws]
    by (simp add: ad_start_def ad_claimed_def ad_config_def cr_env_def ad_env_def)
qed

end
